(* ===== verification/Prelude.thy ===== *)
theory Prelude
  imports Main "HOL-Library.AList" "HOL-Library.Char_ord" "HOL-Library.List_Lexorder"
    "HOL-Library.Product_Lexorder" "HOL-Library.Multiset" "HOL-Library.Sublist"
begin

text \<open>
  Shared vocabulary of the development: byte strings, machine integers, results, hash maps and the
  generic lemmas on them that the component theories use.

  A Rust \<open>String\<close> or \<open>Vec<u8>\<close> is a HOL \<open>string\<close>, read as the list of its (UTF-8) bytes, so
  \<open>len()\<close> is \<open>length\<close> and \<open>as_bytes()\<close> is the identity. Signed 64-bit integers are \<open>int\<close> with
  \<open>wrap_i64\<close> written where release arithmetic can wrap; unsigned integers are \<open>nat\<close>, with the
  saturating operations of the source written out. A \<open>Result<T>\<close> is a sum whose left side is the
  error. A \<open>HashMap\<close> is an association list with distinct keys.
\<close>

named_theorems hm_simps \<open>hash maps: lookup after an operation\<close>
named_theorems bytes_simps \<open>fixed-width big- and little-endian codes\<close>

subsection \<open>Results\<close>

type_synonym 'a result = "string + 'a"

definition res_bind :: "'e + 'a \<Rightarrow> ('a \<Rightarrow> 'e + 'b) \<Rightarrow> 'e + 'b" where
  "res_bind r f = (case r of Inl e \<Rightarrow> Inl e | Inr x \<Rightarrow> f x)"

lemma res_bind_simps [simp]:
  "res_bind (Inl e) f = Inl e" "res_bind (Inr x) f = f x"
  by (simp_all add: res_bind_def)

lemma res_bind_eq_Inr:
  "res_bind r f = Inr y \<longleftrightarrow> (\<exists>x. r = Inr x \<and> f x = Inr y)"
  by (cases r) auto

definition is_ok :: "'e + 'a \<Rightarrow> bool" where
  "is_ok r = (case r of Inl _ \<Rightarrow> False | Inr _ \<Rightarrow> True)"

lemma is_ok_simps [simp]: "is_ok (Inr x)" "\<not> is_ok (Inl e)"
  by (simp_all add: is_ok_def)

lemma is_ok_iff: "is_ok r \<longleftrightarrow> (\<exists>x. r = Inr x)"
  by (cases r) auto

subsection \<open>Machine integers\<close>

definition i64_max :: int where "i64_max = 9223372036854775807"
definition i64_min :: int where "i64_min = - 9223372036854775808"
definition u64_max :: nat where "u64_max = 18446744073709551615"

definition in_i64 :: "int \<Rightarrow> bool" where
  "in_i64 x \<longleftrightarrow> i64_min \<le> x \<and> x \<le> i64_max"

definition wrap_i64 :: "int \<Rightarrow> int" where
  "wrap_i64 x = (x + 9223372036854775808) mod 18446744073709551616 - 9223372036854775808"

lemma wrap_i64_id: "in_i64 x \<Longrightarrow> wrap_i64 x = x"
  by (simp add: in_i64_def wrap_i64_def i64_min_def i64_max_def)

lemma in_i64_wrap: "in_i64 (wrap_i64 x)"
proof -
  have "0 \<le> (x + 9223372036854775808) mod 18446744073709551616"
    and "(x + 9223372036854775808) mod 18446744073709551616 < 18446744073709551616"
    by simp_all
  then show ?thesis by (simp add: in_i64_def wrap_i64_def i64_min_def i64_max_def)
qed

definition checked_i64 :: "int \<Rightarrow> int option" where
  "checked_i64 x = (if in_i64 x then Some x else None)"

definition sat_add_u64 :: "nat \<Rightarrow> nat \<Rightarrow> nat" where
  "sat_add_u64 a b = min (a + b) u64_max"

definition sat_mul_u64 :: "nat \<Rightarrow> nat \<Rightarrow> nat" where
  "sat_mul_u64 a b = min (a * b) u64_max"

lemma sat_add_u64_le: "sat_add_u64 a b \<le> u64_max"
  by (simp add: sat_add_u64_def)

lemma sat_add_u64_assoc: "sat_add_u64 (sat_add_u64 a b) c = sat_add_u64 a (sat_add_u64 b c)"
  by (simp add: sat_add_u64_def min_def)

lemma sat_add_u64_commute: "sat_add_u64 a b = sat_add_u64 b a"
  by (simp add: sat_add_u64_def add.commute)

subsection \<open>Bytes\<close>

definition byte :: "char \<Rightarrow> nat" where
  "byte c = of_char c"

lemma byte_less [simp]: "byte c < 256"
  by (simp add: byte_def)

lemma byte_char_of [simp]: "byte (char_of (n::nat)) = n mod 256"
  by (simp add: byte_def)

lemma char_of_byte [simp]: "char_of (byte c) = c"
  by (simp add: byte_def)

lemma byte_inject: "byte c = byte d \<longleftrightarrow> c = d"
  by (simp add: byte_def)

lemma char_less_byte: "c < d \<longleftrightarrow> byte c < byte d"
  by (simp add: byte_def less_char_def)

text \<open>\<open>c.is_control()\<close> over the UTF-8 bytes: U+0000 to U+001F, U+007F, and U+0080 to U+009F, which
  are the two-byte sequences \<open>C2 80\<close> to \<open>C2 9F\<close>.\<close>

fun has_control :: "string \<Rightarrow> bool" where
  "has_control [] = False"
| "has_control (c # cs) =
     (byte c < 32 \<or> byte c = 127 \<or>
      (byte c = 194 \<and> (case cs of [] \<Rightarrow> False | d # _ \<Rightarrow> 128 \<le> byte d \<and> byte d < 160)) \<or>
      has_control cs)"

definition nul :: char where "nul = char_of (0::nat)"

lemma byte_nul [simp]: "byte nul = 0"
  by (simp add: nul_def)

lemma no_control_no_nul: "\<not> has_control s \<Longrightarrow> nul \<notin> set s"
  by (induction s) auto

fun be_bytes :: "nat \<Rightarrow> nat \<Rightarrow> string" where
  "be_bytes 0 x = []"
| "be_bytes (Suc n) x = be_bytes n (x div 256) @ [char_of (x mod 256)]"

definition of_be :: "string \<Rightarrow> nat" where
  "of_be bs = foldl (\<lambda>a c. a * 256 + byte c) 0 bs"

lemma length_be_bytes [simp]: "length (be_bytes n x) = n"
  by (induction n arbitrary: x) auto

lemma of_be_be_bytes: "x < 256 ^ n \<Longrightarrow> of_be (be_bytes n x) = x"
proof (induction n arbitrary: x)
  case 0
  then show ?case by (simp add: of_be_def)
next
  case (Suc n)
  then have "x div 256 < 256 ^ n" by (simp add: less_mult_imp_div_less mult.commute)
  then have "of_be (be_bytes n (x div 256)) = x div 256" by (rule Suc.IH)
  then show ?case by (simp add: of_be_def)
qed

lemma of_be_append1: "of_be (bs @ [c]) = of_be bs * 256 + byte c"
  by (simp add: of_be_def)

lemma be_bytes_of_be: "be_bytes (length bs) (of_be bs) = bs"
proof (induction bs rule: rev_induct)
  case Nil
  then show ?case by simp
next
  case (snoc c bs)
  then show ?case by (simp add: of_be_append1 div_add1_eq)
qed

text \<open>Big-endian codes of one length are ordered like the numbers they code, also when followed by
  more bytes: what makes a range scan over the codes a range scan over the numbers.\<close>

lemma list_less_append_same_length:
  fixes u v :: "'a::linorder list"
  assumes "length u = length v" "u < v"
  shows "u @ x < v @ y"
  using assms by (induction u v rule: list_induct2) auto

lemma be_bytes_less:
  "x < y \<Longrightarrow> y < 256 ^ n \<Longrightarrow> be_bytes n x < be_bytes n y"
proof (induction n arbitrary: x y)
  case 0
  then show ?case by simp
next
  case (Suc n)
  show ?case
  proof (cases "x div 256 = y div 256")
    case True
    with Suc.prems have "x mod 256 < y mod 256"
      by (metis div_mult_mod_eq nat_add_left_cancel_less)
    then have "char_of (x mod 256) < (char_of (y mod 256) :: char)"
      by (simp add: char_less_byte)
    with True show ?thesis by (simp add: list_less_def lexord_append_leftI)
  next
    case False
    with Suc.prems have "x div 256 < y div 256" by (meson div_le_mono le_neq_implies_less less_imp_le)
    moreover have "y div 256 < 256 ^ n"
      using Suc.prems by (simp add: less_mult_imp_div_less mult.commute)
    ultimately have "be_bytes n (x div 256) < be_bytes n (y div 256)" by (rule Suc.IH)
    then show ?thesis by (simp add: list_less_append_same_length)
  qed
qed

text \<open>\<open>i64::to_be_bytes\<close> and \<open>i64::from_be_bytes\<close>.\<close>

definition be64 :: "int \<Rightarrow> string" where
  "be64 x = be_bytes 8 (nat (x mod 18446744073709551616))"

definition of_be64 :: "string \<Rightarrow> int" where
  "of_be64 bs = wrap_i64 (int (of_be bs))"

lemma length_be64 [simp]: "length (be64 x) = 8"
  by (simp add: be64_def)

lemma of_be64_be64 [simp]: "in_i64 x \<Longrightarrow> of_be64 (be64 x) = x"
proof -
  assume x: "in_i64 x"
  have "nat (x mod 18446744073709551616) < 256 ^ 8"
    by (simp add: nat_less_iff)
  then have "int (of_be (be64 x)) = x mod 18446744073709551616"
    by (simp add: be64_def of_be_be_bytes)
  then have "of_be64 (be64 x) = wrap_i64 x"
    by (simp add: of_be64_def wrap_i64_def mod_add_left_eq)
  with x show ?thesis by (simp add: wrap_i64_id)
qed

lemma be64_inject: "in_i64 x \<Longrightarrow> in_i64 y \<Longrightarrow> be64 x = be64 y \<longleftrightarrow> x = y"
  by (metis of_be64_be64)

lemma be64_less:
  assumes "0 \<le> x" "x < y" "in_i64 y"
  shows "be64 x @ u < be64 y @ v"
proof (rule list_less_append_same_length)
  show "length (be64 x) = length (be64 y)" by simp
  from assms have "x mod 18446744073709551616 = x" "y mod 18446744073709551616 = y"
    by (simp_all add: in_i64_def i64_max_def)
  with assms show "be64 x < be64 y"
    by (auto simp: be64_def in_i64_def i64_max_def nat_less_iff intro!: be_bytes_less)
qed

text \<open>A separator that the left part does not contain splits a string one way only.\<close>

lemma append_sep_inject:
  "x \<notin> set u \<Longrightarrow> x \<notin> set u' \<Longrightarrow> u @ x # v = u' @ x # v' \<longleftrightarrow> u = u' \<and> v = v'"
proof (induction u arbitrary: u')
  case Nil
  then show ?case by (cases u') auto
next
  case (Cons a u)
  then show ?case by (cases u') auto
qed

subsection \<open>Hash maps\<close>

type_synonym ('k, 'v) hashmap = "('k \<times> 'v) list"

abbreviation hm_wf :: "('k, 'v) hashmap \<Rightarrow> bool" where
  "hm_wf m \<equiv> distinct (map fst m)"

definition hm_get :: "('k, 'v) hashmap \<Rightarrow> 'k \<Rightarrow> 'v option" where
  "hm_get m k = map_of m k"

definition hm_insert :: "'k \<Rightarrow> 'v \<Rightarrow> ('k, 'v) hashmap \<Rightarrow> ('k, 'v) hashmap" where
  "hm_insert k v m = AList.update k v m"

definition hm_remove :: "'k \<Rightarrow> ('k, 'v) hashmap \<Rightarrow> ('k, 'v) hashmap" where
  "hm_remove k m = AList.delete k m"

definition hm_retain :: "('k \<Rightarrow> 'v \<Rightarrow> bool) \<Rightarrow> ('k, 'v) hashmap \<Rightarrow> ('k, 'v) hashmap" where
  "hm_retain p m = filter (\<lambda>(k, v). p k v) m"

lemma hm_get_empty [simp]: "hm_get [] k = None"
  by (simp add: hm_get_def)

lemma hm_get_insert [hm_simps]: "hm_get (hm_insert k v m) k' = (if k' = k then Some v else hm_get m k')"
  by (simp add: hm_get_def hm_insert_def update_conv')

lemma hm_get_remove [hm_simps]: "hm_get (hm_remove k m) k' = (if k' = k then None else hm_get m k')"
  by (simp add: hm_get_def hm_remove_def delete_conv')

lemma hm_get_retain [hm_simps]:
  "hm_wf m \<Longrightarrow> hm_get (hm_retain p m) k =
     (case hm_get m k of None \<Rightarrow> None | Some v \<Rightarrow> if p k v then Some v else None)"
  by (induction m) (auto simp: hm_get_def hm_retain_def map_of_eq_None_iff split: option.splits)

lemma hm_wf_insert [hm_simps]: "hm_wf m \<Longrightarrow> hm_wf (hm_insert k v m)"
  by (simp add: hm_insert_def distinct_update)

lemma hm_wf_remove [hm_simps]: "hm_wf m \<Longrightarrow> hm_wf (hm_remove k m)"
  by (simp add: hm_remove_def distinct_delete)

lemma hm_wf_retain [hm_simps]: "hm_wf m \<Longrightarrow> hm_wf (hm_retain p m)"
  by (induction m) (auto simp: hm_retain_def)

lemma hm_length_insert:
  "length (hm_insert k v m) = (if hm_get m k = None then Suc (length m) else length m)"
  by (induction m) (auto simp: hm_insert_def hm_get_def)

subsection \<open>Folds whose steps commute\<close>

text \<open>
  A state that absorbs observations one at a time. When absorbing two observations commutes on the
  states the absorption keeps, the order of a batch does not matter. The windows merge and the event
  upsert both are of this shape.
\<close>

locale absorbing =
  fixes absorb :: "'x \<Rightarrow> 's \<Rightarrow> 's" and good :: "'s \<Rightarrow> bool" and compat :: "'x \<Rightarrow> 'x \<Rightarrow> bool"
    and fits :: "'x \<Rightarrow> bool"
  assumes good_absorb: "good s \<Longrightarrow> fits x \<Longrightarrow> good (absorb x s)"
    and absorb_commute: "good s \<Longrightarrow> fits x \<Longrightarrow> fits y \<Longrightarrow> compat x y \<Longrightarrow>
          absorb x (absorb y s) = absorb y (absorb x s)"
begin

theorem fold_absorb_perm:
  assumes "mset xs = mset ys" "good s" "\<forall>x\<in>set xs. fits x"
    and "\<forall>x\<in>set xs. \<forall>y\<in>set xs. x = y \<or> compat x y"
  shows "fold absorb xs s = fold absorb ys s"
proof (rule fold_permuted_eq [where P = good])
  show "mset xs = mset ys" "good s" by fact+
  show "good (absorb x z)" if "x \<in> set xs" "good z" for x z
    using that assms(3) by (simp add: good_absorb)
  show "absorb x (absorb y z) = absorb y (absorb x z)"
    if "x \<in> set xs" "y \<in> set xs" "good z" for x y z
    using that assms(3,4) absorb_commute by metis
qed

end

end
