(* ===== verification/Limits.thy ===== *)
theory Limits
  imports Prelude
begin

text \<open>
  The three in-memory limiters, each a \<open>HashMap\<close> under a lock that is swept now and then:
  \<^item> \<open>WindowsRateLimiterInner::allow\<close> (\<open>src/src/sync/handler.rs\<close>), one accepted windows batch per
    minute and (user, provider, device);
  \<^item> \<open>MonitorWriteRateLimiterInner::allow\<close> (\<open>src/src/server/handlers/monitor.rs\<close>), sixty writes per
    user and fixed one-minute window;
  \<^item> \<open>BruteForceGuard\<close> (\<open>src/src/auth/brute_force.rs\<close>), a lockout after repeated failures.

  An \<open>Instant\<close> is a number of nanoseconds, passed in as \<open>now\<close>; \<open>duration_since\<close> saturates at zero as
  subtraction on \<open>nat\<close> does. The locale \<open>keyed_limiter\<close> is the contract the three share: the
  decision for a key depends on that key's own entry, up to entries that have gone stale.
\<close>

section \<open>The shared contract\<close>

definition sec :: nat where "sec = 1000000000"

definition as_secs :: "nat \<Rightarrow> nat" where "as_secs d = d div sec"

fun run_calls :: "(nat \<Rightarrow> 'o \<Rightarrow> 'k \<Rightarrow> 's \<Rightarrow> 'r \<times> 's) \<Rightarrow> 's \<Rightarrow> (nat \<times> 'o \<times> 'k) list \<Rightarrow> (nat \<times> 'k \<times> 'r) list" where
  "run_calls act s [] = []"
| "run_calls act s ((now, op, k) # cs) =
     (let (r, s') = act now op k s in (now, k, r) # run_calls act s' cs)"

text \<open>The run of a single entry.\<close>

fun run_entry :: "(nat \<Rightarrow> 'o \<Rightarrow> 'e option \<Rightarrow> 'r \<times> 'e option) \<Rightarrow> 'e option \<Rightarrow> (nat \<times> 'o \<times> 'k) list \<Rightarrow>
    (nat \<times> 'k \<times> 'r) list" where
  "run_entry decide e [] = []"
| "run_entry decide e ((now, op, k) # cs) =
     (let (r, e') = decide now op e in (now, k, r) # run_entry decide e' cs)"

definition calls_of :: "'k \<Rightarrow> (nat \<times> 'o \<times> 'k) list \<Rightarrow> (nat \<times> 'o \<times> 'k) list" where
  "calls_of k cs = filter (\<lambda>(_, _, k'). k' = k) cs"

definition answers_of :: "'k \<Rightarrow> (nat \<times> 'k \<times> 'r) list \<Rightarrow> (nat \<times> 'k \<times> 'r) list" where
  "answers_of k rs = filter (\<lambda>(_, k', _). k' = k) rs"

definition in_time_order :: "(nat \<times> 'o \<times> 'k) list \<Rightarrow> bool" where
  "in_time_order cs = sorted (map fst cs)"

lemma in_time_order_Cons [simp]:
  "in_time_order ((now, op, k) # cs) \<longleftrightarrow> (\<forall>c\<in>set cs. now \<le> fst c) \<and> in_time_order cs"
  by (auto simp: in_time_order_def)

lemma in_time_order_calls_of: "in_time_order cs \<Longrightarrow> in_time_order (calls_of k cs)"
  by (induction cs) (auto simp: calls_of_def in_time_order_def)

lemma calls_of_calls_of [simp]: "calls_of k (calls_of k cs) = calls_of k cs"
  by (simp add: calls_of_def)

lemma answers_of_calls_of [simp]:
  "answers_of k (run_calls act s (calls_of k cs)) = run_calls act s (calls_of k cs)"
  by (induction cs arbitrary: s) (auto simp: calls_of_def answers_of_def split_beta Let_def)

locale keyed_limiter =
  fixes look :: "'s \<Rightarrow> 'k \<Rightarrow> 'e option"
    and act :: "nat \<Rightarrow> 'o \<Rightarrow> 'k \<Rightarrow> 's \<Rightarrow> 'r \<times> 's"
    and decide :: "nat \<Rightarrow> 'o \<Rightarrow> 'e option \<Rightarrow> 'r \<times> 'e option"
    and dead :: "nat \<Rightarrow> 'e option \<Rightarrow> bool"
    and wf :: "nat \<Rightarrow> 's \<Rightarrow> bool"
  assumes wf_act: "wf now s \<Longrightarrow> wf now (snd (act now op k s))"
    and wf_mono: "wf now s \<Longrightarrow> now \<le> now' \<Longrightarrow> wf now' s"
    and dead_None: "dead now None"
    and dead_mono: "dead now e \<Longrightarrow> now \<le> now' \<Longrightarrow> dead now' e"
    and act_result: "wf now s \<Longrightarrow> fst (act now op k s) = fst (decide now op (look s k))"
    and act_self: "wf now s \<Longrightarrow> look (snd (act now op k s)) k = snd (decide now op (look s k)) \<or>
          dead now (look (snd (act now op k s)) k) \<and> dead now (snd (decide now op (look s k)))"
    and act_other: "wf now s \<Longrightarrow> k' \<noteq> k \<Longrightarrow> look (snd (act now op k s)) k' = look s k' \<or>
          dead now (look (snd (act now op k s)) k') \<and> dead now (look s k')"
    and decide_dead: "dead now e \<Longrightarrow> fst (decide now op e) = fst (decide now op None) \<and>
          (snd (decide now op e) = snd (decide now op None) \<or>
           dead now (snd (decide now op e)) \<and> dead now (snd (decide now op None)))"
begin

definition alike :: "nat \<Rightarrow> 'e option \<Rightarrow> 'e option \<Rightarrow> bool" where
  "alike now a b \<longleftrightarrow> a = b \<or> dead now a \<and> dead now b"

lemma alike_mono: "alike now a b \<Longrightarrow> now \<le> now' \<Longrightarrow> alike now' a b"
  by (auto simp: alike_def intro: dead_mono)

lemma alike_trans: "alike now a b \<Longrightarrow> alike now b c \<Longrightarrow> alike now a c"
  by (auto simp: alike_def)

lemma alike_sym: "alike now a b \<Longrightarrow> alike now b a"
  by (auto simp: alike_def)

lemma decide_alike:
  assumes "alike now a b"
  shows "fst (decide now op a) = fst (decide now op b)"
    and "alike now (snd (decide now op a)) (snd (decide now op b))"
  using assms decide_dead [of now a op] decide_dead [of now b op]
  by (auto simp: alike_def)

lemma step_alike:
  assumes "wf now s" "alike now (look s k) e"
  shows "fst (act now op k s) = fst (decide now op e)"
    and "alike now (look (snd (act now op k s)) k) (snd (decide now op e))"
proof -
  show "fst (act now op k s) = fst (decide now op e)"
    using assms by (simp add: act_result decide_alike(1) [of now "look s k" e])
  have "alike now (look (snd (act now op k s)) k) (snd (decide now op (look s k)))"
    using act_self assms(1) by (auto simp: alike_def)
  then show "alike now (look (snd (act now op k s)) k) (snd (decide now op e))"
    using decide_alike(2) [OF assms(2)] by (rule alike_trans)
qed

lemma other_alike:
  "wf now s \<Longrightarrow> k' \<noteq> k \<Longrightarrow> alike now (look (snd (act now op k s)) k') (look s k')"
  using act_other by (auto simp: alike_def)

lemma answers_entry:
  assumes "wf base s" "alike base (look s k) e" "in_time_order cs" "\<forall>c\<in>set cs. base \<le> fst c"
  shows "answers_of k (run_calls act s cs) = run_entry decide e (calls_of k cs)"
  using assms
proof (induction cs arbitrary: s e base)
  case Nil
  then show ?case by (simp add: answers_of_def calls_of_def)
next
  case (Cons c cs)
  obtain now op k' where c: "c = (now, op, k')" by (cases c)
  have now: "base \<le> now" "in_time_order cs" "\<forall>c\<in>set cs. now \<le> fst c"
    using Cons.prems by (auto simp: c)
  have al: "alike now (look s k) e" using Cons.prems(2) now(1) by (rule alike_mono)
  have wfs: "wf now s" using Cons.prems(1) now(1) by (rule wf_mono)
  show ?case
  proof (cases "k' = k")
    case True
    have "answers_of k (run_calls act (snd (act now op k s)) cs) =
        run_entry decide (snd (decide now op e)) (calls_of k cs)"
      by (rule Cons.IH [OF _ step_alike(2) [OF wfs al]]) (use wfs now in \<open>auto intro: wf_act\<close>)
    with True show ?thesis
      using step_alike(1) [OF wfs al, of op]
      by (simp add: c answers_of_def calls_of_def split_beta Let_def)
  next
    case False
    have "alike now (look (snd (act now op k' s)) k) e"
      using other_alike [OF wfs] False al by (metis alike_trans)
    then have "answers_of k (run_calls act (snd (act now op k' s)) cs) = run_entry decide e (calls_of k cs)"
      by (rule Cons.IH [rotated]) (use wfs now in \<open>auto intro: wf_act\<close>)
    with False show ?thesis by (simp add: c answers_of_def calls_of_def split_beta Let_def)
  qed
qed

text \<open>What a key is answered in an interleaved run is the run of its own entry alone.\<close>

theorem reduces:
  assumes "wf base s" "in_time_order cs" "\<forall>c\<in>set cs. base \<le> fst c"
  shows "answers_of k (run_calls act s cs) = run_entry decide (look s k) (calls_of k cs)"
  by (rule answers_entry) (use assms in \<open>auto simp: alike_def\<close>)

text \<open>Isolation: the other keys' calls might as well not have happened.\<close>

theorem isolation:
  assumes "wf base s" "in_time_order cs" "\<forall>c\<in>set cs. base \<le> fst c"
  shows "answers_of k (run_calls act s cs) = run_calls act s (calls_of k cs)"
proof -
  have "answers_of k (run_calls act s (calls_of k cs)) = run_entry decide (look s k) (calls_of k (calls_of k cs))"
    using assms by (intro reduces in_time_order_calls_of) (auto simp: calls_of_def)
  then show ?thesis using reduces [OF assms] by (simp add: answers_of_calls_of)
qed

end

section \<open>The windows limiter\<close>

definition WINDOWS_MIN_INTERVAL :: nat where "WINDOWS_MIN_INTERVAL = 60 * sec"
definition WINDOWS_SWEEP_AT :: nat where "WINDOWS_SWEEP_AT = 4096"

definition windows_key :: "string \<Rightarrow> string \<Rightarrow> string \<Rightarrow> string" where
  "windows_key user prov dev = user @ [char_of (1::nat)] @ prov @ [char_of (1::nat)] @ dev"

definition windows_allow_key :: "nat \<Rightarrow> string \<Rightarrow> (string, nat) hashmap \<Rightarrow> bool \<times> (string, nat) hashmap" where
  "windows_allow_key now key m =
     (if (case hm_get m key of Some prev \<Rightarrow> now - prev < WINDOWS_MIN_INTERVAL | None \<Rightarrow> False)
      then (False, m)
      else let m = (if length m \<ge> WINDOWS_SWEEP_AT
                    then hm_retain (\<lambda>_ t. now - t < WINDOWS_MIN_INTERVAL) m else m)
           in (True, hm_insert key now m))"

definition windows_allow ::
  "nat \<Rightarrow> string \<Rightarrow> string \<Rightarrow> string \<Rightarrow> (string, nat) hashmap \<Rightarrow> bool \<times> (string, nat) hashmap" where
  "windows_allow now user prov dev m = windows_allow_key now (windows_key user prov dev) m"

definition windows_act :: "nat \<Rightarrow> unit \<Rightarrow> string \<Rightarrow> (string, nat) hashmap \<Rightarrow> bool \<times> (string, nat) hashmap" where
  "windows_act now op key m = windows_allow_key now key m"

definition windows_decide :: "nat \<Rightarrow> unit \<Rightarrow> nat option \<Rightarrow> bool \<times> nat option" where
  "windows_decide now op e =
     (case e of Some prev \<Rightarrow> if now - prev < WINDOWS_MIN_INTERVAL then (False, e) else (True, Some now)
      | None \<Rightarrow> (True, Some now))"

definition windows_dead :: "nat \<Rightarrow> nat option \<Rightarrow> bool" where
  "windows_dead now e = (case e of None \<Rightarrow> True | Some t \<Rightarrow> \<not> now - t < WINDOWS_MIN_INTERVAL)"

interpretation windows_limit: keyed_limiter hm_get windows_act windows_decide windows_dead "\<lambda>_. hm_wf"
  by unfold_locales
    (auto simp: windows_act_def windows_allow_key_def windows_decide_def windows_dead_def Let_def
      hm_simps split: option.splits if_splits)

section \<open>The monitor write budget\<close>

definition MONITOR_WINDOW :: nat where "MONITOR_WINDOW = 60 * sec"
definition MONITOR_MAX_WRITES :: nat where "MONITOR_MAX_WRITES = 60"
definition MONITOR_SWEEP_AT :: nat where "MONITOR_SWEEP_AT = 4096"

definition monitor_allow ::
  "nat \<Rightarrow> string \<Rightarrow> (string, nat \<times> nat) hashmap \<Rightarrow> (nat + unit) \<times> (string, nat \<times> nat) hashmap" where
  "monitor_allow now user m0 =
     (let m = (if length m0 \<ge> MONITOR_SWEEP_AT
               then hm_retain (\<lambda>_ (start, _). now - start < MONITOR_WINDOW) m0 else m0);
          entry = (case hm_get m user of Some e \<Rightarrow> e | None \<Rightarrow> (now, 0));
          entry = (if now - fst entry \<ge> MONITOR_WINDOW then (now, 0) else entry)
      in if snd entry \<ge> MONITOR_MAX_WRITES
         then (Inl (max (as_secs (MONITOR_WINDOW - (now - fst entry))) 1), hm_insert user entry m)
         else (Inr (), hm_insert user (fst entry, snd entry + 1) m))"

definition monitor_act ::
  "nat \<Rightarrow> unit \<Rightarrow> string \<Rightarrow> (string, nat \<times> nat) hashmap \<Rightarrow> (nat + unit) \<times> (string, nat \<times> nat) hashmap" where
  "monitor_act now op user m = monitor_allow now user m"

definition monitor_decide :: "nat \<Rightarrow> unit \<Rightarrow> (nat \<times> nat) option \<Rightarrow> (nat + unit) \<times> (nat \<times> nat) option" where
  "monitor_decide now op e =
     (let entry = (case e of Some e \<Rightarrow> e | None \<Rightarrow> (now, 0));
          entry = (if now - fst entry \<ge> MONITOR_WINDOW then (now, 0) else entry)
      in if snd entry \<ge> MONITOR_MAX_WRITES
         then (Inl (max (as_secs (MONITOR_WINDOW - (now - fst entry))) 1), Some entry)
         else (Inr (), Some (fst entry, snd entry + 1)))"

definition monitor_dead :: "nat \<Rightarrow> (nat \<times> nat) option \<Rightarrow> bool" where
  "monitor_dead now e = (case e of None \<Rightarrow> True | Some (start, _) \<Rightarrow> \<not> now - start < MONITOR_WINDOW)"

lemma monitor_window_pos [simp]: "0 < MONITOR_WINDOW" "MONITOR_MAX_WRITES \<noteq> 0"
  by (simp_all add: MONITOR_WINDOW_def MONITOR_MAX_WRITES_def sec_def)

interpretation monitor_limit: keyed_limiter hm_get monitor_act monitor_decide monitor_dead "\<lambda>_. hm_wf"
  by unfold_locales
    (auto simp: monitor_act_def monitor_allow_def monitor_decide_def monitor_dead_def Let_def
      hm_simps not_less split: option.splits if_splits)

section \<open>The brute-force guard\<close>

record brute_entry =
  count :: nat
  first_attempt :: nat
  locked_until :: "nat option"

record brute_cfg =
  max_attempts :: nat
  window :: nat
  lockout :: nat

record brute_guard =
  inner :: "(string, brute_entry) hashmap"
  last_sweep :: nat

datatype brute_op = Check | Record_Failure | Record_Success

definition brute_new :: "nat \<Rightarrow> brute_guard" where
  "brute_new now = \<lparr>inner = [], last_sweep = now\<rparr>"

definition brute_key :: "string \<Rightarrow> string \<Rightarrow> string" where
  "brute_key ip username = ip @ '':'' @ username"

definition brute_kept :: "brute_cfg \<Rightarrow> nat \<Rightarrow> brute_entry \<Rightarrow> bool" where
  "brute_kept c now e =
     (case locked_until e of Some until \<Rightarrow> now < until | None \<Rightarrow> now - first_attempt e \<le> window c)"

definition brute_sweep :: "brute_cfg \<Rightarrow> nat \<Rightarrow> brute_guard \<Rightarrow> brute_guard" where
  "brute_sweep c now g = g\<lparr>inner := hm_retain (\<lambda>_ e. brute_kept c now e) (inner g)\<rparr>"

definition brute_check_key :: "brute_cfg \<Rightarrow> nat \<Rightarrow> string \<Rightarrow> brute_guard \<Rightarrow> (nat + unit) \<times> brute_guard" where
  "brute_check_key c now key g0 =
     (let g = (if now - last_sweep g0 > 60 * sec then (brute_sweep c now g0)\<lparr>last_sweep := now\<rparr> else g0)
      in (case hm_get (inner g) key of
            Some e \<Rightarrow> (case locked_until e of
                Some until \<Rightarrow> if now < until then (Inl (as_secs (until - now) + 1), g) else (Inr (), g)
              | None \<Rightarrow> (Inr (), g))
          | None \<Rightarrow> (Inr (), g)))"

text \<open>The entry a failure leaves: the counter is a \<open>u32\<close>.\<close>

definition brute_bump :: "brute_cfg \<Rightarrow> nat \<Rightarrow> brute_entry option \<Rightarrow> brute_entry" where
  "brute_bump c now e0 =
     (let e = (case e0 of Some e \<Rightarrow> e | None \<Rightarrow> \<lparr>count = 0, first_attempt = now, locked_until = None\<rparr>);
          e = (if now - first_attempt e > window c
               then \<lparr>count = 0, first_attempt = now, locked_until = None\<rparr> else e);
          e = e\<lparr>count := (count e + 1) mod 4294967296\<rparr>
      in if count e \<ge> max_attempts c then e\<lparr>locked_until := Some (now + lockout c)\<rparr> else e)"

definition brute_failure_key :: "brute_cfg \<Rightarrow> nat \<Rightarrow> string \<Rightarrow> brute_guard \<Rightarrow> (nat + unit) \<times> brute_guard" where
  "brute_failure_key c now key g =
     (let e = brute_bump c now (hm_get (inner g) key);
          g1 = g\<lparr>inner := hm_insert key e (inner g)\<rparr>;
          g2 = (if length (inner g1) > 10000 then brute_sweep c now g1 else g1)
      in if count e \<ge> max_attempts c then (Inl (as_secs (lockout c)), g2) else (Inr (), g2))"

definition brute_success_key :: "string \<Rightarrow> brute_guard \<Rightarrow> brute_guard" where
  "brute_success_key key g = g\<lparr>inner := hm_remove key (inner g)\<rparr>"

definition brute_check :: "brute_cfg \<Rightarrow> nat \<Rightarrow> string \<Rightarrow> string \<Rightarrow> brute_guard \<Rightarrow> (nat + unit) \<times> brute_guard" where
  "brute_check c now ip username g = brute_check_key c now (brute_key ip username) g"

definition brute_record_failure ::
  "brute_cfg \<Rightarrow> nat \<Rightarrow> string \<Rightarrow> string \<Rightarrow> brute_guard \<Rightarrow> (nat + unit) \<times> brute_guard" where
  "brute_record_failure c now ip username g = brute_failure_key c now (brute_key ip username) g"

definition brute_record_success :: "string \<Rightarrow> string \<Rightarrow> brute_guard \<Rightarrow> brute_guard" where
  "brute_record_success ip username g = brute_success_key (brute_key ip username) g"

definition brute_act ::
  "brute_cfg \<Rightarrow> nat \<Rightarrow> brute_op \<Rightarrow> string \<Rightarrow> brute_guard \<Rightarrow> (nat + unit) \<times> brute_guard" where
  "brute_act c now op key g =
     (case op of Check \<Rightarrow> brute_check_key c now key g
      | Record_Failure \<Rightarrow> brute_failure_key c now key g
      | Record_Success \<Rightarrow> (Inr (), brute_success_key key g))"

subsection \<open>The decision of one key\<close>

definition brute_look :: "brute_guard \<Rightarrow> string \<Rightarrow> brute_entry option" where
  "brute_look g key = hm_get (inner g) key"

definition brute_decide ::
  "brute_cfg \<Rightarrow> nat \<Rightarrow> brute_op \<Rightarrow> brute_entry option \<Rightarrow> (nat + unit) \<times> brute_entry option" where
  "brute_decide c now op e =
     (case op of
        Check \<Rightarrow> ((case e of Some b \<Rightarrow> (case locked_until b of
              Some until \<Rightarrow> if now < until then Inl (as_secs (until - now) + 1) else Inr ()
            | None \<Rightarrow> Inr ()) | None \<Rightarrow> Inr ()), e)
      | Record_Failure \<Rightarrow> (let b = brute_bump c now e in
            (if count b \<ge> max_attempts c then Inl (as_secs (lockout c)) else Inr (), Some b))
      | Record_Success \<Rightarrow> (Inr (), None))"

text \<open>An entry is dead when a sweep may have dropped it and no call can tell: its window has passed,
  and so has its lock if it has one.\<close>

definition brute_dead :: "brute_cfg \<Rightarrow> nat \<Rightarrow> brute_entry option \<Rightarrow> bool" where
  "brute_dead c now e = (case e of None \<Rightarrow> True | Some b \<Rightarrow>
     now - first_attempt b > window c \<and>
     (case locked_until b of Some until \<Rightarrow> until \<le> now | None \<Rightarrow> True))"

definition brute_wf :: "brute_cfg \<Rightarrow> nat \<Rightarrow> brute_guard \<Rightarrow> bool" where
  "brute_wf c now g \<longleftrightarrow> hm_wf (inner g) \<and>
     (\<forall>k b. hm_get (inner g) k = Some b \<longrightarrow> first_attempt b \<le> now \<and>
        (\<forall>until. locked_until b = Some until \<longrightarrow> first_attempt b + lockout c \<le> until))"

text \<open>The defaults of \<open>config.rs\<close>: five attempts in five minutes lock for fifteen. Only a lock that
  outlives the window makes the sweeps unobservable.\<close>

locale brute_config =
  fixes c :: brute_cfg
  assumes lock_outlives_window: "window c < lockout c"
begin

lemma brute_bump_wf:
  assumes "\<And>b until. e = Some b \<Longrightarrow> first_attempt b \<le> now"
    and "\<And>b until. e = Some b \<Longrightarrow> locked_until b = Some until \<Longrightarrow> first_attempt b + lockout c \<le> until"
  shows "first_attempt (brute_bump c now e) \<le> now"
    and "locked_until (brute_bump c now e) = Some until \<Longrightarrow>
      first_attempt (brute_bump c now e) + lockout c \<le> until"
    and "brute_kept c now (brute_bump c now e)"
  using assms lock_outlives_window
  by (fastforce simp: brute_bump_def brute_kept_def Let_def split: option.splits if_splits)+

lemma sweep_look:
  assumes "hm_wf (inner g)"
  shows "brute_look (brute_sweep c now g) k =
    (case brute_look g k of None \<Rightarrow> None | Some b \<Rightarrow> if brute_kept c now b then Some b else None)"
  using assms by (simp add: brute_look_def brute_sweep_def hm_simps)

lemma sweep_wf: "brute_wf c now g \<Longrightarrow> brute_wf c now (brute_sweep c now g)"
  unfolding brute_wf_def by (auto simp: brute_sweep_def hm_simps split: option.splits if_splits)

lemma dropped_dead:
  assumes "brute_wf c now g" "brute_look g k = Some b" "\<not> brute_kept c now b"
  shows "brute_dead c now (Some b)"
  using assms lock_outlives_window
  by (fastforce simp: brute_wf_def brute_look_def brute_dead_def brute_kept_def split: option.splits)

lemma sweep_alike:
  assumes "brute_wf c now g"
  shows "brute_look (brute_sweep c now g) k = brute_look g k \<or>
    brute_dead c now (brute_look (brute_sweep c now g) k) \<and> brute_dead c now (brute_look g k)"
  using sweep_look [of g now k] dropped_dead [OF assms, of k] assms
  by (cases "brute_look g k") (auto simp: brute_wf_def brute_dead_def)

lemma dead_mono_brute: "brute_dead c now e \<Longrightarrow> now \<le> now' \<Longrightarrow> brute_dead c now' e"
  by (auto simp: brute_dead_def split: option.splits)

lemma wf_mono_brute: "brute_wf c now g \<Longrightarrow> now \<le> now' \<Longrightarrow> brute_wf c now' g"
  unfolding brute_wf_def by (meson order_trans)

lemma check_wf: "brute_wf c now g \<Longrightarrow> brute_wf c now (snd (brute_check_key c now k g))"
  using sweep_wf [of now g]
  by (auto simp: brute_check_key_def Let_def brute_wf_def split: option.splits)

lemma insert_wf:
  assumes "brute_wf c now g"
  shows "brute_wf c now (g\<lparr>inner := hm_insert k (brute_bump c now (hm_get (inner g) k)) (inner g)\<rparr>)"
proof -
  note b = brute_bump_wf [of "hm_get (inner g) k" now]
  show ?thesis using assms b unfolding brute_wf_def by (auto simp: hm_simps)
qed

lemma failure_wf: "brute_wf c now g \<Longrightarrow> brute_wf c now (snd (brute_failure_key c now k g))"
  using insert_wf [of now g k] sweep_wf by (auto simp: brute_failure_key_def Let_def)

lemma success_wf: "brute_wf c now g \<Longrightarrow> brute_wf c now (brute_success_key k g)"
  unfolding brute_wf_def by (auto simp: brute_success_key_def hm_simps split: if_splits)

lemma act_wf: "brute_wf c now g \<Longrightarrow> brute_wf c now (snd (brute_act c now op k g))"
  by (cases op) (auto simp: brute_act_def check_wf failure_wf success_wf)

lemma check_look:
  assumes "brute_wf c now g"
  shows "brute_look (snd (brute_check_key c now k g)) k' = brute_look g k' \<or>
    brute_dead c now (brute_look (snd (brute_check_key c now k g)) k') \<and> brute_dead c now (brute_look g k')"
  using sweep_alike [OF assms, of k']
  by (auto simp: brute_check_key_def Let_def brute_look_def split: option.splits)

lemma check_result:
  assumes "brute_wf c now g"
  shows "fst (brute_check_key c now k g) = fst (brute_decide c now Check (brute_look g k))"
  using sweep_look [of g now k] assms
  by (auto simp: brute_check_key_def brute_decide_def Let_def brute_look_def brute_wf_def brute_kept_def
      split: option.splits if_splits)

lemma failure_look:
  assumes "brute_wf c now g"
  shows "brute_look (snd (brute_failure_key c now k g)) k' =
      (if k' = k then Some (brute_bump c now (brute_look g k)) else brute_look g k') \<or>
    k' \<noteq> k \<and> brute_dead c now (brute_look (snd (brute_failure_key c now k g)) k') \<and>
      brute_dead c now (brute_look g k')"
proof -
  let ?g = "g\<lparr>inner := hm_insert k (brute_bump c now (hm_get (inner g) k)) (inner g)\<rparr>"
  have at: "brute_look ?g k' = (if k' = k then Some (brute_bump c now (brute_look g k)) else brute_look g k')"
    by (simp add: brute_look_def hm_simps)
  have kept: "brute_kept c now (brute_bump c now (brute_look g k))"
    by (rule brute_bump_wf(3)) (use assms in \<open>auto simp: brute_wf_def brute_look_def\<close>)
  show ?thesis
    using sweep_alike [OF insert_wf [OF assms, of k], of k'] sweep_look [of ?g now k'] at kept
      insert_wf [OF assms, of k]
    by (auto simp: brute_failure_key_def Let_def brute_wf_def split: if_splits)
qed

lemma failure_result:
  "fst (brute_failure_key c now k g) = fst (brute_decide c now Record_Failure (brute_look g k))"
  by (simp add: brute_failure_key_def brute_decide_def Let_def brute_look_def)

lemma decide_dead_brute:
  assumes "brute_dead c now e"
  shows "fst (brute_decide c now op e) = fst (brute_decide c now op None) \<and>
    (snd (brute_decide c now op e) = snd (brute_decide c now op None) \<or>
     brute_dead c now (snd (brute_decide c now op e)) \<and> brute_dead c now (snd (brute_decide c now op None)))"
  using assms
  by (cases op) (auto simp: brute_decide_def brute_dead_def brute_bump_def Let_def split: option.splits)

end

sublocale brute_config \<subseteq> guard: keyed_limiter brute_look "brute_act c" "brute_decide c"
    "brute_dead c" "brute_wf c"
proof unfold_locales
  show "brute_wf c now (snd (brute_act c now op k s))" if "brute_wf c now s" for now op k s
    using that by (rule act_wf)
  show "brute_wf c now' s" if "brute_wf c now s" "now \<le> now'" for now now' s
    using that by (rule wf_mono_brute)
  show "brute_dead c now None" for now by (simp add: brute_dead_def)
  show "brute_dead c now' e" if "brute_dead c now e" "now \<le> now'" for now now' e
    using that by (rule dead_mono_brute)
  show "fst (brute_act c now op k s) = fst (brute_decide c now op (brute_look s k))"
    if "brute_wf c now s" for now op k s
    using that by (cases op) (auto simp: brute_act_def check_result failure_result brute_decide_def)
  show "brute_look (snd (brute_act c now op k s)) k = snd (brute_decide c now op (brute_look s k)) \<or>
      brute_dead c now (brute_look (snd (brute_act c now op k s)) k) \<and>
      brute_dead c now (snd (brute_decide c now op (brute_look s k)))"
    if "brute_wf c now s" for now op k s
    using check_look [OF that, of k k] failure_look [OF that, of k k]
    by (cases op) (auto simp: brute_act_def brute_decide_def brute_success_key_def brute_look_def
        hm_simps Let_def)
  show "brute_look (snd (brute_act c now op k s)) k' = brute_look s k' \<or>
      brute_dead c now (brute_look (snd (brute_act c now op k s)) k') \<and> brute_dead c now (brute_look s k')"
    if "brute_wf c now s" "k' \<noteq> k" for now op k k' s
    using check_look [OF that(1), of k k'] failure_look [OF that(1), of k k'] that(2)
    by (cases op) (auto simp: brute_act_def brute_success_key_def brute_look_def hm_simps)
  show "fst (brute_decide c now op e) = fst (brute_decide c now op None) \<and>
      (snd (brute_decide c now op e) = snd (brute_decide c now op None) \<or>
       brute_dead c now (snd (brute_decide c now op e)) \<and> brute_dead c now (snd (brute_decide c now op None)))"
    if "brute_dead c now e" for now op e
    using that by (rule decide_dead_brute)
qed

definition brute_defaults :: brute_cfg where
  "brute_defaults = \<lparr>max_attempts = 5, window = 300 * sec, lockout = 900 * sec\<rparr>"

interpretation brute_default: brute_config brute_defaults
  by unfold_locales (simp add: brute_defaults_def sec_def)

section \<open>What the limiters guarantee\<close>

subsection \<open>The windows limiter\<close>

definition keyed_call :: "nat \<times> string \<times> string \<times> string \<Rightarrow> nat \<times> unit \<times> string" where
  "keyed_call c = (case c of (now, user, prov, dev) \<Rightarrow> (now, (), windows_key user prov dev))"

definition unit_separated :: "string \<Rightarrow> bool" where
  "unit_separated s \<longleftrightarrow> char_of (1::nat) \<notin> set s"

lemma windows_key_inject:
  assumes "unit_separated u" "unit_separated u'" "unit_separated p" "unit_separated p'"
  shows "windows_key u p d = windows_key u' p' d' \<longleftrightarrow> u = u' \<and> p = p' \<and> d = d'"
  using assms by (simp add: windows_key_def unit_separated_def append_sep_inject)

lemma calls_of_keyed:
  assumes "\<forall>(now, u', p', d')\<in>set cs. unit_separated u' \<and> unit_separated p'"
    and "unit_separated u" "unit_separated p"
  shows "calls_of (windows_key u p d) (map keyed_call cs) =
    map keyed_call (filter (\<lambda>(_, c). c = (u, p, d)) cs)"
  using assms by (induction cs) (auto simp: calls_of_def keyed_call_def windows_key_inject)

text \<open>The answers to one device: accept when the last accepted call is a minute old.\<close>

fun spaced :: "nat option \<Rightarrow> nat list \<Rightarrow> bool list" where
  "spaced prev [] = []"
| "spaced prev (t # ts) =
     (if (case prev of None \<Rightarrow> True | Some l \<Rightarrow> t \<ge> l + WINDOWS_MIN_INTERVAL)
      then True # spaced (Some t) ts else False # spaced prev ts)"

lemma run_entry_spaced:
  "map (snd \<circ> snd) (run_entry windows_decide prev cs) = spaced prev (map fst cs)"
proof (induction cs arbitrary: prev)
  case (Cons c cs)
  then show ?case
    by (cases c) (auto simp: windows_decide_def WINDOWS_MIN_INTERVAL_def sec_def split: option.splits)
qed simp

theorem windows_limiter_spacing:
  assumes "in_time_order (map keyed_call cs)"
    and "\<forall>(now, u', p', d')\<in>set cs. unit_separated u' \<and> unit_separated p'"
    and "unit_separated u" "unit_separated p"
  shows "map (snd \<circ> snd) (answers_of (windows_key u p d) (run_calls windows_act [] (map keyed_call cs))) =
    spaced None (map fst (filter (\<lambda>(_, c). c = (u, p, d)) cs))"
proof -
  have "answers_of (windows_key u p d) (run_calls windows_act [] (map keyed_call cs)) =
      run_entry windows_decide None (map keyed_call (filter (\<lambda>(_, c). c = (u, p, d)) cs))"
    using windows_limit.reduces [where base = 0 and s = "[]" and cs = "map keyed_call cs" and k = "windows_key u p d"]
      calls_of_keyed [OF assms(2-4)] assms(1) by simp
  moreover have "map fst (map keyed_call xs) = map fst xs" for xs
    by (simp add: keyed_call_def split_beta)
  ultimately show ?thesis by (simp only: run_entry_spaced)
qed

text \<open>Two accepted calls of one device are at least a minute apart, and a refusal has an accepted call
  less than a minute before it.\<close>

lemma spaced_separated:
  assumes "sorted ts" "case prev of None \<Rightarrow> True | Some l \<Rightarrow> \<forall>t\<in>set ts. l \<le> t"
  shows "(\<forall>l t. prev = Some l \<longrightarrow> (t, True) \<in> set (zip ts (spaced prev ts)) \<longrightarrow> l + WINDOWS_MIN_INTERVAL \<le> t) \<and>
    sorted_wrt (\<lambda>a b. a + WINDOWS_MIN_INTERVAL \<le> b) (map fst (filter snd (zip ts (spaced prev ts))))"
  using assms
proof (induction ts arbitrary: prev)
  case (Cons t ts)
  show ?case
  proof (cases "case prev of None \<Rightarrow> True | Some l \<Rightarrow> t \<ge> l + WINDOWS_MIN_INTERVAL")
    case True
    then show ?thesis using Cons.prems Cons.IH [of "Some t"] by (fastforce split: option.splits)
  next
    case False
    then show ?thesis using Cons.prems Cons.IH [of prev] by (fastforce split: option.splits)
  qed
qed simp

subsection \<open>The monitor budget\<close>

definition times_in :: "nat list \<Rightarrow> nat \<Rightarrow> nat \<Rightarrow> nat" where
  "times_in ts a b = length (filter (\<lambda>t. a \<le> t \<and> t < b) ts)"

definition accepted_times :: "(nat \<times> 'k \<times> (nat + unit)) list \<Rightarrow> nat list" where
  "accepted_times rs = map fst (filter (\<lambda>(_, _, r). r = Inr ()) rs)"

text \<open>What holds of the accepted times \<open>ts\<close> so far and the entry: the entry counts the calls since
  its window began, the window before it held at most sixty, and no sliding minute held more than
  two windows' worth.\<close>

definition budget_inv :: "nat \<Rightarrow> (nat \<times> nat) option \<Rightarrow> nat list \<Rightarrow> bool" where
  "budget_inv now e ts \<longleftrightarrow> (\<forall>t\<in>set ts. t \<le> now) \<and>
     (\<forall>a. times_in ts a (a + MONITOR_WINDOW) \<le> 2 * MONITOR_MAX_WRITES) \<and>
     (case e of None \<Rightarrow> ts = []
      | Some (start, n) \<Rightarrow> start \<le> now \<and> n \<le> MONITOR_MAX_WRITES \<and>
          (\<forall>t\<in>set ts. t < start + MONITOR_WINDOW) \<and>
          length (filter (\<lambda>t. start \<le> t) ts) = n \<and>
          length (filter (\<lambda>t. start - MONITOR_WINDOW \<le> t \<and> t < start) ts) \<le> MONITOR_MAX_WRITES)"

lemma times_in_append: "times_in (xs @ ys) a b = times_in xs a b + times_in ys a b"
  by (simp add: times_in_def)

lemma filter_length_le: "(\<And>x. x \<in> set xs \<Longrightarrow> P x \<Longrightarrow> Q x) \<Longrightarrow> length (filter P xs) \<le> length (filter Q xs)"
  by (induction xs) (auto simp: le_Suc_eq)

lemma filter_length_split:
  "(\<And>x. x \<in> set xs \<Longrightarrow> P x \<Longrightarrow> Q x \<or> R x) \<Longrightarrow>
     length (filter P xs) \<le> length (filter Q xs) + length (filter R xs)"
proof (induction xs)
  case (Cons x xs)
  then have "length (filter P xs) \<le> length (filter Q xs) + length (filter R xs)" by simp
  then show ?case using Cons.prems [of x] by auto
qed simp

lemma budget_accept:
  assumes "budget_inv now (Some (start, n)) ts" "now - start < MONITOR_WINDOW" "n < MONITOR_MAX_WRITES"
  shows "budget_inv now (Some (start, n + 1)) (ts @ [now])"
proof -
  have inv: "start \<le> now" "length (filter (\<lambda>t. start \<le> t) ts) = n"
    "length (filter (\<lambda>t. start - MONITOR_WINDOW \<le> t \<and> t < start) ts) \<le> MONITOR_MAX_WRITES"
    "\<forall>t\<in>set ts. t \<le> now"
    and slide: "\<And>a. times_in ts a (a + MONITOR_WINDOW) \<le> 2 * MONITOR_MAX_WRITES"
    using assms(1) by (auto simp: budget_inv_def)
  have "times_in (ts @ [now]) a (a + MONITOR_WINDOW) \<le> 2 * MONITOR_MAX_WRITES" for a
  proof (cases "a \<le> now \<and> now < a + MONITOR_WINDOW")
    case True
    have "times_in ts a (a + MONITOR_WINDOW) \<le> length (filter (\<lambda>t. start \<le> t) ts) +
        length (filter (\<lambda>t. start - MONITOR_WINDOW \<le> t \<and> t < start) ts)"
      unfolding times_in_def
      by (rule filter_length_split) (use True inv(1) in auto)
    then show ?thesis using inv(2,3) assms(3) True by (simp add: times_in_def)
  next
    case False
    then show ?thesis using slide [of a] by (auto simp: times_in_def)
  qed
  then show ?thesis using inv assms by (auto simp: budget_inv_def)
qed

lemma budget_reset:
  assumes "budget_inv now (Some (start, n)) ts" "\<not> now - start < MONITOR_WINDOW"
  shows "budget_inv now (Some (now, 0)) ts"
proof -
  have inv: "start + MONITOR_WINDOW \<le> now" "\<forall>t\<in>set ts. t < start + MONITOR_WINDOW"
    "length (filter (\<lambda>t. start \<le> t) ts) \<le> MONITOR_MAX_WRITES"
    using assms by (auto simp: budget_inv_def)
  then have "\<forall>t\<in>set ts. t < now" by auto
  then have "filter (\<lambda>t. now \<le> t) ts = []" by (auto simp: filter_empty_conv)
  moreover have "length (filter (\<lambda>t. now - MONITOR_WINDOW \<le> t \<and> t < now) ts) \<le> length (filter (\<lambda>t. start \<le> t) ts)"
    by (rule filter_length_le) (use inv(1) in auto)
  ultimately show ?thesis using assms inv \<open>\<forall>t\<in>set ts. t < now\<close> by (auto simp: budget_inv_def)
qed

lemma budget_later: "budget_inv now e ts \<Longrightarrow> now \<le> now' \<Longrightarrow> budget_inv now' e ts"
  by (auto simp: budget_inv_def split: option.splits)

lemma budget_start: "budget_inv now None [] = budget_inv now (Some (now, 0)) []"
  by (simp add: budget_inv_def times_in_def)

lemma budget_step:
  assumes "budget_inv now e ts"
  shows "budget_inv now (snd (monitor_decide now op e))
    (ts @ (if fst (monitor_decide now op e) = Inr () then [now] else []))"
proof -
  let ?e = "(case e of Some (start, n) \<Rightarrow> if now - start < MONITOR_WINDOW then (start, n) else (now, 0) | None \<Rightarrow> (now, 0))"
  have inv: "budget_inv now (Some ?e) ts"
    using assms budget_reset budget_start by (auto simp: budget_inv_def [of _ None] split: option.splits)
  obtain start n where e: "?e = (start, n)" by fastforce
  then have live: "now - start < MONITOR_WINDOW" by (auto split: option.splits if_splits)
  have "monitor_decide now op e = (if n \<ge> MONITOR_MAX_WRITES
      then (Inl (max (as_secs (MONITOR_WINDOW - (now - start))) 1), Some (start, n))
      else (Inr (), Some (start, n + 1)))"
    using e by (auto simp: monitor_decide_def not_less split: option.splits if_splits)
  then show ?thesis using budget_accept [OF inv [unfolded e] live] inv e by (auto simp: not_le)
qed

lemma budget_run:
  assumes "budget_inv base e ts" "in_time_order cs" "\<forall>c\<in>set cs. base \<le> fst c"
  shows "times_in (ts @ accepted_times (run_entry monitor_decide e cs)) a (a + MONITOR_WINDOW) \<le> 2 * MONITOR_MAX_WRITES"
  using assms
proof (induction cs arbitrary: base e ts)
  case Nil
  then show ?case by (simp add: budget_inv_def accepted_times_def)
next
  case (Cons c cs)
  obtain now op k where c: "c = (now, op, k)" by (cases c)
  have "budget_inv now e ts" using Cons.prems by (auto simp: c intro: budget_later)
  from Cons.IH [OF budget_step [OF this, of op]] Cons.prems show ?case
    by (auto simp: c accepted_times_def split_beta Let_def)
qed

theorem monitor_sliding_budget:
  assumes "in_time_order cs"
  shows "times_in (accepted_times (answers_of user (run_calls monitor_act [] cs))) a (a + MONITOR_WINDOW)
    \<le> 2 * MONITOR_MAX_WRITES"
  using budget_run [of 0 None "[]" "calls_of user cs" a]
    monitor_limit.reduces [where base = 0 and s = "[]" and cs = cs and k = user] assms
  by (simp add: budget_inv_def times_in_def in_time_order_calls_of)

theorem monitor_retry_after_too_short:
  assumes "hm_get m user = Some (start, MONITOR_MAX_WRITES)" "length m < MONITOR_SWEEP_AT"
    and "start \<le> now" "sec < start + MONITOR_WINDOW - now" "\<not> sec dvd start + MONITOR_WINDOW - now"
  shows "\<exists>n n'. fst (monitor_allow now user m) = Inl n \<and>
    fst (monitor_allow (now + n * sec) user (snd (monitor_allow now user m))) = Inl n'"
proof -
  let ?left = "MONITOR_WINDOW - (now - start)"
  have left: "?left = start + MONITOR_WINDOW - now" using assms(3,4) by simp
  have "0 < sec" by (simp add: sec_def)
  then have n: "max (as_secs ?left) 1 = ?left div sec"
    using assms(4) left div_greater_zero_iff [of ?left sec] by (simp add: as_secs_def max_def)
  have "?left mod sec \<noteq> 0" using assms(5) left by (simp add: dvd_eq_mod_eq_0)
  then have "?left div sec * sec < ?left" using div_mult_mod_eq [of ?left sec] by linarith
  then have late: "now + ?left div sec * sec - start < MONITOR_WINDOW" using assms(3) by linarith
  have live: "now - start < MONITOR_WINDOW" using \<open>?left div sec * sec < ?left\<close> by linarith
  have first: "monitor_allow now user m = (Inl (?left div sec), hm_insert user (start, MONITOR_MAX_WRITES) m)"
    using assms(1,2) live n by (simp add: monitor_allow_def not_le Let_def)
  have "length (hm_insert user (start, MONITOR_MAX_WRITES) m) = length m"
    using assms(1) by (simp add: hm_length_insert)
  then show ?thesis using first assms(2) late by (simp add: monitor_allow_def hm_simps not_le Let_def)
qed

theorem monitor_retry_after_too_short_witness:
  "\<exists>n n'. fst (monitor_allow 500000000 ''u'' [(''u'', 0, 60)]) = Inl n \<and>
    fst (monitor_allow (500000000 + n * sec) ''u'' (snd (monitor_allow 500000000 ''u'' [(''u'', 0, 60)]))) = Inl n'"
  using monitor_retry_after_too_short [of "[(''u'', 0, 60)]" "''u''" 0 500000000]
  by (simp add: hm_get_def MONITOR_MAX_WRITES_def MONITOR_SWEEP_AT_def MONITOR_WINDOW_def sec_def)

subsection \<open>The brute-force guard\<close>

definition failures :: "string \<Rightarrow> nat list \<Rightarrow> (nat \<times> brute_op \<times> string) list" where
  "failures k ts = map (\<lambda>t. (t, Record_Failure, k)) ts"

fun entry_after :: "(nat \<Rightarrow> 'o \<Rightarrow> 'e option \<Rightarrow> 'r \<times> 'e option) \<Rightarrow> 'e option \<Rightarrow> (nat \<times> 'o \<times> 'k) list \<Rightarrow> 'e option" where
  "entry_after decide e [] = e"
| "entry_after decide e ((now, op, k) # cs) = entry_after decide (snd (decide now op e)) cs"

lemma run_entry_append:
  "run_entry decide e (xs @ ys) = run_entry decide e xs @ run_entry decide (entry_after decide e xs) ys"
  by (induction decide e xs rule: entry_after.induct) (auto simp: split_beta Let_def)

lemma failures_count:
  assumes "n + length ts \<le> max_attempts c" "max_attempts c < 4294967296" "ts \<noteq> []"
    and "\<forall>t\<in>set ts. t - start \<le> window c"
    and "e = Some \<lparr>count = n, first_attempt = start, locked_until = None\<rparr>"
  shows "entry_after (brute_decide c) e (failures k ts) =
    Some \<lparr>count = n + length ts, first_attempt = start,
      locked_until = (if n + length ts = max_attempts c then Some (last ts + lockout c) else None)\<rparr>"
  using assms
proof (induction ts arbitrary: n e)
  case (Cons t ts)
  have step: "snd (brute_decide c t Record_Failure e) =
    Some \<lparr>count = n + 1, first_attempt = start,
      locked_until = (if n + 1 = max_attempts c then Some (t + lockout c) else None)\<rparr>"
    using Cons.prems by (auto simp: brute_decide_def brute_bump_def Let_def)
  show ?case
  proof (cases "ts = []")
    case True
    with step show ?thesis by (simp add: failures_def)
  next
    case False
    then have "n + 1 \<noteq> max_attempts c" using Cons.prems(1) by (cases ts) auto
    with Cons.prems Cons.IH [of "n + 1"] step False show ?thesis by (simp add: failures_def)
  qed
qed simp

lemma failures_entry:
  assumes "length ts \<le> max_attempts c" "max_attempts c < 4294967296" "ts \<noteq> []"
    and "\<forall>t\<in>set ts. t - hd ts \<le> window c"
  shows "entry_after (brute_decide c) None (failures k ts) =
    Some \<lparr>count = length ts, first_attempt = hd ts,
      locked_until = (if length ts = max_attempts c then Some (last ts + lockout c) else None)\<rparr>"
proof -
  obtain t ts' where ts: "ts = t # ts'" using assms(3) by (cases ts) auto
  have "snd (brute_decide c t Record_Failure None) =
      snd (brute_decide c t Record_Failure (Some \<lparr>count = 0, first_attempt = t, locked_until = None\<rparr>))"
    by (simp add: brute_decide_def brute_bump_def Let_def)
  then have "entry_after (brute_decide c) None (failures k ts) =
      entry_after (brute_decide c) (Some \<lparr>count = 0, first_attempt = t, locked_until = None\<rparr>) (failures k ts)"
    by (simp add: ts failures_def)
  with failures_count [of 0 ts c t _ k] assms show ?thesis by (simp add: ts)
qed

context brute_config begin

lemma guard_reduces:
  assumes "in_time_order cs"
  shows "answers_of k (run_calls (brute_act c) (brute_new 0) cs) = run_entry (brute_decide c) None (calls_of k cs)"
  using guard.reduces [where base = 0 and s = "brute_new 0" and cs = cs and k = k] assms
  by (simp add: brute_new_def brute_wf_def brute_look_def)

lemma guard_isolation:
  assumes "in_time_order cs"
  shows "answers_of k (run_calls (brute_act c) (brute_new 0) cs) =
    run_calls (brute_act c) (brute_new 0) (calls_of k cs)"
  using guard.isolation [where base = 0 and s = "brute_new 0" and cs = cs and k = k] assms
  by (simp add: brute_new_def brute_wf_def)

end

text \<open>The brute force guard answers a key as if only that key's calls had been made: sweeps and other
  keys are unobservable, provided a lockout outlives the window.\<close>

theorem brute_force_isolation:
  assumes "window c < lockout c" "in_time_order cs"
  shows "answers_of k (run_calls (brute_act c) (brute_new 0) cs) =
    run_calls (brute_act c) (brute_new 0) (calls_of k cs)"
  using assms by (intro brute_config.guard_isolation brute_config.intro)

theorem brute_force_lockout:
  assumes "window c < lockout c" "in_time_order cs"
    and "calls_of k cs = failures k ts @ [(now, Check, k)]"
    and "length ts \<le> max_attempts c" "max_attempts c < 4294967296" "ts \<noteq> []"
    and "\<forall>t\<in>set ts. t - hd ts \<le> window c"
  shows "last (answers_of k (run_calls (brute_act c) (brute_new 0) cs)) =
    (now, k, if length ts = max_attempts c \<and> now < last ts + lockout c
             then Inl (as_secs (last ts + lockout c - now) + 1) else Inr ())"
  using brute_config.guard_reduces [OF brute_config.intro [OF assms(1)] assms(2), of k]
    failures_entry [OF assms(4-7), of k]
  by (simp add: assms(3) run_entry_append brute_decide_def)

theorem brute_force_retry_after:
  assumes "window c < lockout c" "in_time_order cs"
    and "calls_of k cs = before @ [(now, Check, k), (later, Check, k)]"
    and "last (butlast (answers_of k (run_calls (brute_act c) (brute_new 0) cs))) = (now, k, Inl n)"
    and "now + n * sec \<le> later"
  shows "last (answers_of k (run_calls (brute_act c) (brute_new 0) cs)) = (later, k, Inr ())"
proof -
  let ?e = "entry_after (brute_decide c) None before"
  have two: "answers_of k (run_calls (brute_act c) (brute_new 0) cs) = run_entry (brute_decide c) None before @
      [(now, k, fst (brute_decide c now Check ?e)), (later, k, fst (brute_decide c later Check ?e))]"
    using brute_config.guard_reduces [OF brute_config.intro [OF assms(1)] assms(2), of k] assms(3)
    by (simp add: run_entry_append split_beta Let_def brute_decide_def)
  have ends: "Inl n = fst (brute_decide c now Check ?e)"
    using assms(4) two by (simp add: butlast_append)
  have bound: "until \<le> now + (as_secs (until - now) + 1) * sec" for until
  proof -
    have "until - now < (as_secs (until - now) + 1) * sec"
      using dividend_less_div_times [of sec "until - now"] by (simp add: as_secs_def sec_def)
    then show ?thesis by linarith
  qed
  have "until \<le> later" if "locked_until b = Some until" "?e = Some b" for until b
  proof -
    have "n = as_secs (until - now) + 1"
      using ends that by (simp add: brute_decide_def split: if_splits)
    with bound [of until] assms(5) show ?thesis by simp
  qed
  then have "\<not> (locked_until b = Some until \<and> ?e = Some b \<and> later < until)" for until b
    by (meson leD)
  then have "fst (brute_decide c later Check ?e) = Inr ()"
    by (force simp: brute_decide_def split: option.splits)
  then show ?thesis by (simp add: two)
qed

theorem brute_key_collision:
  "brute_key ''::1'' ''2:bob'' = brute_key ''::1:2'' ''bob''"
  by (simp add: brute_key_def)

subsection \<open>At concrete runs\<close>

theorem windows_limiter_spacing_witness:
  "map (snd \<circ> snd) (answers_of (windows_key ''u'' ''p'' ''d'') (run_calls windows_act []
     (map keyed_call [(0, ''u'', ''p'', ''d''), (sec, ''u'', ''p'', ''e''), (2 * sec, ''u'', ''p'', ''d'')]))) =
   [True, False]"
  using windows_limiter_spacing [of "[(0, ''u'', ''p'', ''d''), (sec, ''u'', ''p'', ''e''), (2 * sec, ''u'', ''p'', ''d'')]" "''u''" "''p''" "''d''"]
  by (simp add: in_time_order_def keyed_call_def unit_separated_def char_of_def sec_def WINDOWS_MIN_INTERVAL_def)

theorem monitor_sliding_budget_witness:
  "times_in (accepted_times (answers_of ''u'' (run_calls monitor_act []
     [(0, (), ''u''), (1, (), ''v''), (2, (), ''u'')]))) 0 (0 + MONITOR_WINDOW) \<le> 2 * MONITOR_MAX_WRITES"
  by (rule monitor_sliding_budget) (simp add: in_time_order_def)

theorem brute_force_isolation_witness:
  "answers_of ''k'' (run_calls (brute_act brute_defaults) (brute_new 0)
      [(0, Record_Failure, ''k''), (1, Check, ''j''), (2, Check, ''k'')]) =
    run_calls (brute_act brute_defaults) (brute_new 0) [(0, Record_Failure, ''k''), (2, Check, ''k'')]"
  using brute_force_isolation [of brute_defaults "[(0, Record_Failure, ''k''), (1, Check, ''j''), (2, Check, ''k'')]" "''k''"]
  by (simp add: in_time_order_def calls_of_def brute_defaults_def sec_def)

theorem brute_force_lockout_witness:
  "last (answers_of ''k'' (run_calls (brute_act brute_defaults) (brute_new 0)
      (failures ''k'' [0, 1, 2, 3, sec] @ [(2 * sec, Check, ''k'')]))) = (2 * sec, ''k'', Inl 900)"
  using brute_force_lockout [of brute_defaults "failures ''k'' [0, 1, 2, 3, sec] @ [(2 * sec, Check, ''k'')]"
      "''k''" "[0, 1, 2, 3, sec]" "2 * sec"]
  by (simp add: in_time_order_def calls_of_def failures_def brute_defaults_def sec_def as_secs_def)

theorem brute_force_retry_after_witness:
  "last (answers_of ''k'' (run_calls (brute_act brute_defaults) (brute_new 0)
      (failures ''k'' [0, 1, 2, 3, sec] @ [(2 * sec, Check, ''k''), (902 * sec, Check, ''k'')]))) =
    (902 * sec, ''k'', Inr ())"
  by (rule brute_force_retry_after [where before = "failures ''k'' [0, 1, 2, 3, sec]" and now = "2 * sec" and n = 900])
    (simp_all add: in_time_order_def calls_of_def answers_of_def failures_def brute_defaults_def sec_def
      brute_act_def brute_new_def brute_check_key_def brute_failure_key_def brute_bump_def
      brute_sweep_def brute_kept_def hm_retain_def hm_insert_def hm_get_def as_secs_def Let_def)

end
