(* ===== verification/Wire.thy ===== *)
theory Wire
  imports Prelude
begin

text \<open>
  The data every component exchanges: the event row and the rate-limit window
  (\<open>src/src/events/mod.rs\<close>), the query filter, and the field-wise window merge shared by both
  event backends, \<open>merge_wire_windows\<close>.

  The window's field names are those the source reads and writes (the struct itself lives in the
  protocol crate); the widths are those of the \<open>toki_windows\<close> columns in \<open>events/clickhouse.rs\<close>.
\<close>

section \<open>Rows\<close>

record wire_window =
  window_kind :: nat
  limit_id :: string
  account :: string
  window_end_ms :: int
  raw_resets_at_ms :: int
  window_minutes :: nat
  peak_pct_x100 :: nat
  last_pct_x100 :: nat
  observed_ts_ms :: int
  first_seen_ms :: int
  finalized :: bool
  maxed_out :: bool
  limit_reached_kind :: nat
  time_to_100_ms :: int
  active_ms :: nat
  last_sample_gap_ms :: int
  sampled_active_fraction :: nat
  n_samples :: nat
  plan :: string

record server_event =
  device_id :: string
  user_id :: string
  msg_id :: string
  ts_ms :: int
  provider :: string
  model :: string
  project :: string
  session :: string
  input_tokens :: nat
  output_tokens :: nat
  cache_creation_input_tokens :: nat
  cache_read_input_tokens :: nat
  usage_total :: nat

datatype user_filter = Single string | Multiple "string list" | All

definition filter_admits :: "user_filter \<Rightarrow> string \<Rightarrow> bool" where
  "filter_admits f u = (case f of Single v \<Rightarrow> u = v | Multiple vs \<Rightarrow> u \<in> set vs | All \<Rightarrow> True)"

text \<open>The identity a window row is stored under, beside its user and provider.\<close>

type_synonym window_ident = "nat \<times> string \<times> string \<times> int"

definition win_key :: "wire_window \<Rightarrow> window_ident" where
  "win_key w = (window_kind w, limit_id w, account w, window_end_ms w)"

section \<open>The field-wise merge\<close>

definition active_cap :: "nat \<Rightarrow> nat" where
  "active_cap minutes = sat_mul_u64 minutes 60000"

definition merge_time_to_100 :: "int \<Rightarrow> int \<Rightarrow> int" where
  "merge_time_to_100 a b = (if a = -1 then b else if b = -1 then a else min a b)"

text \<open>The assignments of \<open>merge_wire_windows\<close> in the order of the source, those that belong together
  as one step each.\<close>

definition merge_live :: "wire_window \<Rightarrow> wire_window \<Rightarrow> wire_window" where
  "merge_live other prev =
     (if observed_ts_ms other \<ge> observed_ts_ms prev
      then prev\<lparr>observed_ts_ms := observed_ts_ms other,
                raw_resets_at_ms := raw_resets_at_ms other,
                last_sample_gap_ms := last_sample_gap_ms other,
                last_pct_x100 := last_pct_x100 other,
                window_minutes := window_minutes other,
                plan := plan other\<rparr>
      else prev)"

definition join_first_seen :: "int \<Rightarrow> int \<Rightarrow> int" where
  "join_first_seen a b = (if b > 0 then if a > 0 then min a b else b else a)"

definition merge_first_seen :: "wire_window \<Rightarrow> wire_window \<Rightarrow> wire_window" where
  "merge_first_seen other prev =
     (if first_seen_ms other > 0
      then prev\<lparr>first_seen_ms := join_first_seen (first_seen_ms prev) (first_seen_ms other)\<rparr>
      else prev)"

definition merge_flags :: "wire_window \<Rightarrow> wire_window \<Rightarrow> wire_window" where
  "merge_flags other prev =
     prev\<lparr>finalized := finalized prev \<or> finalized other,
          maxed_out := maxed_out prev \<or> maxed_out other,
          limit_reached_kind := max (limit_reached_kind prev) (limit_reached_kind other),
          time_to_100_ms := merge_time_to_100 (time_to_100_ms prev) (time_to_100_ms other)\<rparr>"

definition clamp_active :: "wire_window \<Rightarrow> wire_window" where
  "clamp_active w =
     (let cap = active_cap (window_minutes w)
      in if active_ms w > cap then w\<lparr>active_ms := cap\<rparr> else w)"

definition merge_active :: "wire_window \<Rightarrow> wire_window \<Rightarrow> wire_window" where
  "merge_active other prev = clamp_active (prev\<lparr>active_ms := max (active_ms prev) (active_ms other)\<rparr>)"

definition merge_samples :: "wire_window \<Rightarrow> wire_window \<Rightarrow> wire_window" where
  "merge_samples other prev =
     prev\<lparr>sampled_active_fraction := max (sampled_active_fraction prev) (sampled_active_fraction other),
          n_samples := max (n_samples prev) (n_samples other)\<rparr>"

definition merge_wire_windows :: "wire_window \<Rightarrow> wire_window \<Rightarrow> wire_window" where
  "merge_wire_windows prev other =
     merge_samples other (merge_active other (merge_flags other (merge_first_seen other
       (merge_live other
         (prev\<lparr>peak_pct_x100 := max (peak_pct_x100 prev) (peak_pct_x100 other)\<rparr>)))))"

text \<open>The steps and the merged row, field by field: the live fields follow the newer observation; the
  rest only grow (or shrink, for the first sight and the time to the limit).\<close>

lemma merge_live_sel [simp]:
  "window_kind (merge_live w p) = window_kind p"
  "limit_id (merge_live w p) = limit_id p"
  "account (merge_live w p) = account p"
  "window_end_ms (merge_live w p) = window_end_ms p"
  "raw_resets_at_ms (merge_live w p) = (if observed_ts_ms w \<ge> observed_ts_ms p then raw_resets_at_ms w else raw_resets_at_ms p)"
  "window_minutes (merge_live w p) = (if observed_ts_ms w \<ge> observed_ts_ms p then window_minutes w else window_minutes p)"
  "peak_pct_x100 (merge_live w p) = peak_pct_x100 p"
  "last_pct_x100 (merge_live w p) = (if observed_ts_ms w \<ge> observed_ts_ms p then last_pct_x100 w else last_pct_x100 p)"
  "observed_ts_ms (merge_live w p) = max (observed_ts_ms p) (observed_ts_ms w)"
  "first_seen_ms (merge_live w p) = first_seen_ms p"
  "finalized (merge_live w p) = finalized p"
  "maxed_out (merge_live w p) = maxed_out p"
  "limit_reached_kind (merge_live w p) = limit_reached_kind p"
  "time_to_100_ms (merge_live w p) = time_to_100_ms p"
  "active_ms (merge_live w p) = active_ms p"
  "last_sample_gap_ms (merge_live w p) = (if observed_ts_ms w \<ge> observed_ts_ms p then last_sample_gap_ms w else last_sample_gap_ms p)"
  "sampled_active_fraction (merge_live w p) = sampled_active_fraction p"
  "n_samples (merge_live w p) = n_samples p"
  "plan (merge_live w p) = (if observed_ts_ms w \<ge> observed_ts_ms p then plan w else plan p)"
  by (simp_all add: merge_live_def)

lemma merge_first_seen_sel [simp]:
  "window_kind (merge_first_seen w p) = window_kind p"
  "limit_id (merge_first_seen w p) = limit_id p"
  "account (merge_first_seen w p) = account p"
  "window_end_ms (merge_first_seen w p) = window_end_ms p"
  "raw_resets_at_ms (merge_first_seen w p) = raw_resets_at_ms p"
  "window_minutes (merge_first_seen w p) = window_minutes p"
  "peak_pct_x100 (merge_first_seen w p) = peak_pct_x100 p"
  "last_pct_x100 (merge_first_seen w p) = last_pct_x100 p"
  "observed_ts_ms (merge_first_seen w p) = observed_ts_ms p"
  "first_seen_ms (merge_first_seen w p) = join_first_seen (first_seen_ms p) (first_seen_ms w)"
  "finalized (merge_first_seen w p) = finalized p"
  "maxed_out (merge_first_seen w p) = maxed_out p"
  "limit_reached_kind (merge_first_seen w p) = limit_reached_kind p"
  "time_to_100_ms (merge_first_seen w p) = time_to_100_ms p"
  "active_ms (merge_first_seen w p) = active_ms p"
  "last_sample_gap_ms (merge_first_seen w p) = last_sample_gap_ms p"
  "sampled_active_fraction (merge_first_seen w p) = sampled_active_fraction p"
  "n_samples (merge_first_seen w p) = n_samples p"
  "plan (merge_first_seen w p) = plan p"
  by (simp_all add: merge_first_seen_def join_first_seen_def)

lemma merge_flags_sel [simp]:
  "window_kind (merge_flags w p) = window_kind p"
  "limit_id (merge_flags w p) = limit_id p"
  "account (merge_flags w p) = account p"
  "window_end_ms (merge_flags w p) = window_end_ms p"
  "raw_resets_at_ms (merge_flags w p) = raw_resets_at_ms p"
  "window_minutes (merge_flags w p) = window_minutes p"
  "peak_pct_x100 (merge_flags w p) = peak_pct_x100 p"
  "last_pct_x100 (merge_flags w p) = last_pct_x100 p"
  "observed_ts_ms (merge_flags w p) = observed_ts_ms p"
  "first_seen_ms (merge_flags w p) = first_seen_ms p"
  "finalized (merge_flags w p) = (finalized p \<or> finalized w)"
  "maxed_out (merge_flags w p) = (maxed_out p \<or> maxed_out w)"
  "limit_reached_kind (merge_flags w p) = max (limit_reached_kind p) (limit_reached_kind w)"
  "time_to_100_ms (merge_flags w p) = merge_time_to_100 (time_to_100_ms p) (time_to_100_ms w)"
  "active_ms (merge_flags w p) = active_ms p"
  "last_sample_gap_ms (merge_flags w p) = last_sample_gap_ms p"
  "sampled_active_fraction (merge_flags w p) = sampled_active_fraction p"
  "n_samples (merge_flags w p) = n_samples p"
  "plan (merge_flags w p) = plan p"
  by (simp_all add: merge_flags_def)

lemma clamp_active_sel [simp]:
  "window_kind (clamp_active p) = window_kind p"
  "limit_id (clamp_active p) = limit_id p"
  "account (clamp_active p) = account p"
  "window_end_ms (clamp_active p) = window_end_ms p"
  "raw_resets_at_ms (clamp_active p) = raw_resets_at_ms p"
  "window_minutes (clamp_active p) = window_minutes p"
  "peak_pct_x100 (clamp_active p) = peak_pct_x100 p"
  "last_pct_x100 (clamp_active p) = last_pct_x100 p"
  "observed_ts_ms (clamp_active p) = observed_ts_ms p"
  "first_seen_ms (clamp_active p) = first_seen_ms p"
  "finalized (clamp_active p) = finalized p"
  "maxed_out (clamp_active p) = maxed_out p"
  "limit_reached_kind (clamp_active p) = limit_reached_kind p"
  "time_to_100_ms (clamp_active p) = time_to_100_ms p"
  "active_ms (clamp_active p) = min (active_ms p) (active_cap (window_minutes p))"
  "last_sample_gap_ms (clamp_active p) = last_sample_gap_ms p"
  "sampled_active_fraction (clamp_active p) = sampled_active_fraction p"
  "n_samples (clamp_active p) = n_samples p"
  "plan (clamp_active p) = plan p"
  by (simp_all add: clamp_active_def Let_def)

lemma merge_active_sel [simp]:
  "window_kind (merge_active w p) = window_kind p"
  "limit_id (merge_active w p) = limit_id p"
  "account (merge_active w p) = account p"
  "window_end_ms (merge_active w p) = window_end_ms p"
  "raw_resets_at_ms (merge_active w p) = raw_resets_at_ms p"
  "window_minutes (merge_active w p) = window_minutes p"
  "peak_pct_x100 (merge_active w p) = peak_pct_x100 p"
  "last_pct_x100 (merge_active w p) = last_pct_x100 p"
  "observed_ts_ms (merge_active w p) = observed_ts_ms p"
  "first_seen_ms (merge_active w p) = first_seen_ms p"
  "finalized (merge_active w p) = finalized p"
  "maxed_out (merge_active w p) = maxed_out p"
  "limit_reached_kind (merge_active w p) = limit_reached_kind p"
  "time_to_100_ms (merge_active w p) = time_to_100_ms p"
  "active_ms (merge_active w p) = min (max (active_ms p) (active_ms w)) (active_cap (window_minutes p))"
  "last_sample_gap_ms (merge_active w p) = last_sample_gap_ms p"
  "sampled_active_fraction (merge_active w p) = sampled_active_fraction p"
  "n_samples (merge_active w p) = n_samples p"
  "plan (merge_active w p) = plan p"
  by (simp_all add: merge_active_def)

lemma merge_samples_sel [simp]:
  "window_kind (merge_samples w p) = window_kind p"
  "limit_id (merge_samples w p) = limit_id p"
  "account (merge_samples w p) = account p"
  "window_end_ms (merge_samples w p) = window_end_ms p"
  "raw_resets_at_ms (merge_samples w p) = raw_resets_at_ms p"
  "window_minutes (merge_samples w p) = window_minutes p"
  "peak_pct_x100 (merge_samples w p) = peak_pct_x100 p"
  "last_pct_x100 (merge_samples w p) = last_pct_x100 p"
  "observed_ts_ms (merge_samples w p) = observed_ts_ms p"
  "first_seen_ms (merge_samples w p) = first_seen_ms p"
  "finalized (merge_samples w p) = finalized p"
  "maxed_out (merge_samples w p) = maxed_out p"
  "limit_reached_kind (merge_samples w p) = limit_reached_kind p"
  "time_to_100_ms (merge_samples w p) = time_to_100_ms p"
  "active_ms (merge_samples w p) = active_ms p"
  "last_sample_gap_ms (merge_samples w p) = last_sample_gap_ms p"
  "sampled_active_fraction (merge_samples w p) = max (sampled_active_fraction p) (sampled_active_fraction w)"
  "n_samples (merge_samples w p) = max (n_samples p) (n_samples w)"
  "plan (merge_samples w p) = plan p"
  by (simp_all add: merge_samples_def)

lemma merge_sel [simp]:
  "window_kind (merge_wire_windows p w) = window_kind p"
  "limit_id (merge_wire_windows p w) = limit_id p"
  "account (merge_wire_windows p w) = account p"
  "window_end_ms (merge_wire_windows p w) = window_end_ms p"
  "raw_resets_at_ms (merge_wire_windows p w) = (if observed_ts_ms w \<ge> observed_ts_ms p then raw_resets_at_ms w else raw_resets_at_ms p)"
  "window_minutes (merge_wire_windows p w) = (if observed_ts_ms w \<ge> observed_ts_ms p then window_minutes w else window_minutes p)"
  "peak_pct_x100 (merge_wire_windows p w) = max (peak_pct_x100 p) (peak_pct_x100 w)"
  "last_pct_x100 (merge_wire_windows p w) = (if observed_ts_ms w \<ge> observed_ts_ms p then last_pct_x100 w else last_pct_x100 p)"
  "observed_ts_ms (merge_wire_windows p w) = max (observed_ts_ms p) (observed_ts_ms w)"
  "first_seen_ms (merge_wire_windows p w) = join_first_seen (first_seen_ms p) (first_seen_ms w)"
  "finalized (merge_wire_windows p w) = (finalized p \<or> finalized w)"
  "maxed_out (merge_wire_windows p w) = (maxed_out p \<or> maxed_out w)"
  "limit_reached_kind (merge_wire_windows p w) = max (limit_reached_kind p) (limit_reached_kind w)"
  "time_to_100_ms (merge_wire_windows p w) = merge_time_to_100 (time_to_100_ms p) (time_to_100_ms w)"
  "active_ms (merge_wire_windows p w) = min (max (active_ms p) (active_ms w)) (active_cap (if observed_ts_ms w \<ge> observed_ts_ms p then window_minutes w else window_minutes p))"
  "last_sample_gap_ms (merge_wire_windows p w) = (if observed_ts_ms w \<ge> observed_ts_ms p then last_sample_gap_ms w else last_sample_gap_ms p)"
  "sampled_active_fraction (merge_wire_windows p w) = max (sampled_active_fraction p) (sampled_active_fraction w)"
  "n_samples (merge_wire_windows p w) = max (n_samples p) (n_samples w)"
  "plan (merge_wire_windows p w) = (if observed_ts_ms w \<ge> observed_ts_ms p then plan w else plan p)"
  by (simp_all add: merge_wire_windows_def)

lemma win_key_merge [simp]: "win_key (merge_wire_windows p w) = win_key p"
  by (simp add: win_key_def)

lemma merge_time_to_100_laws:
  "merge_time_to_100 a b = merge_time_to_100 b a"
  "merge_time_to_100 (merge_time_to_100 a b) c = merge_time_to_100 a (merge_time_to_100 b c)"
  "merge_time_to_100 (merge_time_to_100 a b) b = merge_time_to_100 a b"
  by (auto simp: merge_time_to_100_def min_def)

lemma join_first_seen_laws:
  "join_first_seen (join_first_seen a b) b = join_first_seen a b"
  "0 \<le> a \<Longrightarrow> 0 \<le> b \<Longrightarrow> 0 \<le> c \<Longrightarrow>
     join_first_seen (join_first_seen a b) c = join_first_seen (join_first_seen a c) b"
  "0 \<le> a \<Longrightarrow> 0 \<le> b \<Longrightarrow> 0 \<le> join_first_seen a b"
  by (auto simp: join_first_seen_def)

lemma min_max_absorb:
  fixes a b c :: "'a::linorder"
  shows "min (max (min (max a b) c) b) c = min (max a b) c"
    "min (max (min (max a b) c) d) c = min (max (min (max a d) c) b) c"
  by (auto simp: min_def max_def)

lemma wire_window_eqI:
  fixes x y :: wire_window
  assumes "window_kind x = window_kind y" "limit_id x = limit_id y" "account x = account y"
    "window_end_ms x = window_end_ms y" "raw_resets_at_ms x = raw_resets_at_ms y"
    "window_minutes x = window_minutes y" "peak_pct_x100 x = peak_pct_x100 y"
    "last_pct_x100 x = last_pct_x100 y" "observed_ts_ms x = observed_ts_ms y"
    "first_seen_ms x = first_seen_ms y" "finalized x = finalized y" "maxed_out x = maxed_out y"
    "limit_reached_kind x = limit_reached_kind y" "time_to_100_ms x = time_to_100_ms y"
    "active_ms x = active_ms y" "last_sample_gap_ms x = last_sample_gap_ms y"
    "sampled_active_fraction x = sampled_active_fraction y" "n_samples x = n_samples y"
    "plan x = plan y"
  shows "x = y"
  using assms by (cases x, cases y) simp

subsection \<open>Replay\<close>

text \<open>A client resends its whole recent set every cycle, so absorbing a row twice must change
  nothing the second time.\<close>

lemma merge_idem:
  "merge_wire_windows (merge_wire_windows p w) w = merge_wire_windows p w"
  by (rule wire_window_eqI) (simp_all add: merge_time_to_100_laws(3) join_first_seen_laws min_max_absorb)

subsection \<open>Order independence\<close>

text \<open>The states and observations on which absorbing commutes: one window length throughout (the
  cap on \<open>active_ms\<close> derives from it), no negative first sight, and for two different observations
  two different instants (observations of one instant apply in arrival order).\<close>

definition merge_good :: "nat \<Rightarrow> wire_window \<Rightarrow> bool" where
  "merge_good m w \<longleftrightarrow> window_minutes w = m \<and> first_seen_ms w \<ge> 0"

definition distinct_instants :: "wire_window \<Rightarrow> wire_window \<Rightarrow> bool" where
  "distinct_instants x y \<longleftrightarrow> observed_ts_ms x \<noteq> observed_ts_ms y"

lemma merge_commute:
  assumes "merge_good m s" "merge_good m x" "merge_good m y" "distinct_instants x y"
  shows "merge_wire_windows (merge_wire_windows s y) x = merge_wire_windows (merge_wire_windows s x) y"
proof (rule wire_window_eqI, goal_cases)
  case 10
  from assms show ?case by (simp add: merge_good_def join_first_seen_laws)
next
  case 14
  show ?case by (metis merge_sel(14) merge_time_to_100_laws(1,2))
next
  case 15
  from assms show ?case by (simp add: merge_good_def min_max_absorb(2))
qed (use assms in \<open>auto simp: distinct_instants_def max_def\<close>)

interpretation window_merge: absorbing "\<lambda>w s. merge_wire_windows s w" "merge_good m"
    distinct_instants "merge_good m" for m
proof unfold_locales
  show "merge_good m (merge_wire_windows s x)" if "merge_good m s" "merge_good m x" for s x
    using that by (simp add: merge_good_def join_first_seen_laws)
  show "merge_wire_windows (merge_wire_windows s y) x = merge_wire_windows (merge_wire_windows s x) y"
    if "merge_good m s" "merge_good m x" "merge_good m y" "distinct_instants x y" for s x y
    using that by (rule merge_commute)
qed

end
