(* ===== verification/Windows.thy ===== *)
theory Windows
  imports Wire
begin

text \<open>
  What the server does to an uploaded windows batch before storing it: \<open>sanitize_window_batch\<close>
  (validate, clamp, cap) and \<open>premerge_windows\<close> (merge in-batch duplicates), both in
  \<open>src/src/sync/handler.rs\<close>.

  \<open>now\<close> is the server clock in milliseconds, whose range (years up to 262143) leaves the additions
  of a few years far from the ends of an \<open>i64\<close>. \<open>sort_by_key\<close> is the stable \<open>sort_key\<close>;
  \<open>sort_unstable_by\<close> leaves the order of equal keys open, so the sort is an argument, with
  \<open>sorts_by_key\<close> what its documentation promises.
\<close>

section \<open>Sanitizing a batch\<close>

definition MAX_WINDOW_ITEMS :: nat where "MAX_WINDOW_ITEMS = 2000"

definition day_ms :: int where "day_ms = 86400000"

record sanitized_windows =
  items :: "wire_window list"
  stable_rejects :: nat
  transient_rejects :: nat
  over_cap :: nat

definition str_ok :: "string \<Rightarrow> nat \<Rightarrow> bool" where
  "str_ok s max_len \<longleftrightarrow> length s \<le> max_len \<and> \<not> has_control s"

definition window_item_stable_ok :: "int \<Rightarrow> wire_window \<Rightarrow> bool" where
  "window_item_stable_ok now w \<longleftrightarrow>
     str_ok (limit_id w) 64 \<and> str_ok (account w) 64 \<and> str_ok (plan w) 64 \<and>
     window_kind w \<le> 1 \<and> window_minutes w > 0 \<and> window_minutes w \<le> 60 * 24 * 31 \<and>
     first_seen_ms w \<ge> 0 \<and> limit_reached_kind w \<le> 2 \<and> sampled_active_fraction w \<le> 1000 \<and>
     last_sample_gap_ms w \<ge> -86400000 \<and>
     (first_seen_ms w = 0 \<or> first_seen_ms w \<le> observed_ts_ms w) \<and>
     window_end_ms w > now - 2 * 365 * day_ms \<and> raw_resets_at_ms w > now - 2 * 365 * day_ms"

definition window_item_transient_ok :: "int \<Rightarrow> wire_window \<Rightarrow> bool" where
  "window_item_transient_ok now w \<longleftrightarrow>
     window_end_ms w < now + 40 * day_ms \<and> raw_resets_at_ms w < now + 41 * day_ms"

definition raise_observed :: "int \<Rightarrow> wire_window \<Rightarrow> wire_window" where
  "raise_observed now w =
     (let floor = now - 2 * 365 * day_ms
      in if observed_ts_ms w < floor then w\<lparr>observed_ts_ms := floor\<rparr> else w)"

definition cap_active :: "wire_window \<Rightarrow> wire_window" where
  "cap_active w =
     (let cap = sat_mul_u64 (window_minutes w) 60000
      in if active_ms w > cap then w\<lparr>active_ms := cap\<rparr> else w)"

definition lower_observed :: "int \<Rightarrow> wire_window \<Rightarrow> wire_window" where
  "lower_observed now w =
     (let clamp = now + 60000;
          w = (if observed_ts_ms w > clamp then w\<lparr>observed_ts_ms := clamp\<rparr> else w)
      in if first_seen_ms w > observed_ts_ms w then w\<lparr>first_seen_ms := observed_ts_ms w\<rparr> else w)"

definition sanitize_window_batch :: "wire_window list \<Rightarrow> int \<Rightarrow> sanitized_windows" where
  "sanitize_window_batch xs now =
     (let raised = map (raise_observed now) xs;
          stable = filter (window_item_stable_ok now) raised;
          timely = filter (window_item_transient_ok now) stable;
          capped = map cap_active timely;
          over = (if length capped > MAX_WINDOW_ITEMS then length capped - MAX_WINDOW_ITEMS else 0);
          kept = (if length capped > MAX_WINDOW_ITEMS
                  then take MAX_WINDOW_ITEMS (sort_key (\<lambda>w. - window_end_ms w) capped) else capped)
      in \<lparr>items = map (lower_observed now) kept,
          stable_rejects = length raised - length stable,
          transient_rejects = length stable - length timely,
          over_cap = over\<rparr>)"

subsection \<open>What the steps keep\<close>

lemma raise_observed_sel [simp]:
  "observed_ts_ms (raise_observed now w) = max (observed_ts_ms w) (now - 2 * 365 * day_ms)"
  "window_end_ms (raise_observed now w) = window_end_ms w"
  "raw_resets_at_ms (raise_observed now w) = raw_resets_at_ms w"
  "first_seen_ms (raise_observed now w) = first_seen_ms w"
  "win_key (raise_observed now w) = win_key w"
  by (simp_all add: raise_observed_def Let_def win_key_def)

lemma cap_active_sel [simp]:
  "active_ms (cap_active w) = min (active_ms w) (active_cap (window_minutes w))"
  "window_minutes (cap_active w) = window_minutes w"
  "window_end_ms (cap_active w) = window_end_ms w"
  "observed_ts_ms (cap_active w) = observed_ts_ms w"
  "first_seen_ms (cap_active w) = first_seen_ms w"
  "window_item_stable_ok now (cap_active w) = window_item_stable_ok now w"
  "window_item_transient_ok now (cap_active w) = window_item_transient_ok now w"
  "win_key (cap_active w) = win_key w"
  by (simp_all add: cap_active_def active_cap_def Let_def win_key_def
      window_item_stable_ok_def window_item_transient_ok_def)

lemma lower_observed_sel [simp]:
  "observed_ts_ms (lower_observed now w) = min (observed_ts_ms w) (now + 60000)"
  "first_seen_ms (lower_observed now w) = min (first_seen_ms w) (min (observed_ts_ms w) (now + 60000))"
  "window_end_ms (lower_observed now w) = window_end_ms w"
  "active_ms (lower_observed now w) = active_ms w"
  "window_minutes (lower_observed now w) = window_minutes w"
  "window_item_transient_ok now' (lower_observed now w) = window_item_transient_ok now' w"
  "win_key (lower_observed now w) = win_key w"
  by (simp_all add: lower_observed_def Let_def win_key_def window_item_transient_ok_def)

lemma lower_observed_stable_ok:
  assumes "window_item_stable_ok now w" "0 \<le> min (observed_ts_ms w) (now + 60000)"
  shows "window_item_stable_ok now (lower_observed now w)"
  using assms by (auto simp: window_item_stable_ok_def lower_observed_def Let_def)

text \<open>A row the stores may hold: what validation checked, still true after the clamps.\<close>

definition window_storable :: "int \<Rightarrow> wire_window \<Rightarrow> bool" where
  "window_storable now w \<longleftrightarrow> window_item_stable_ok now w \<and> window_item_transient_ok now w \<and>
     active_ms w \<le> active_cap (window_minutes w) \<and>
     now - 2 * 365 * day_ms \<le> observed_ts_ms w \<and> observed_ts_ms w \<le> now + 60000 \<and>
     first_seen_ms w \<le> observed_ts_ms w"

text \<open>The rows that survive validation, before the cap.\<close>

definition valid_rows :: "wire_window list \<Rightarrow> int \<Rightarrow> wire_window list" where
  "valid_rows xs now = map cap_active (filter (window_item_transient_ok now)
     (filter (window_item_stable_ok now) (map (raise_observed now) xs)))"

definition newest_rows :: "wire_window list \<Rightarrow> wire_window list" where
  "newest_rows ws = (if length ws > MAX_WINDOW_ITEMS
     then take MAX_WINDOW_ITEMS (sort_key (\<lambda>w. - window_end_ms w) ws) else ws)"

lemma items_sanitize: "items (sanitize_window_batch xs now) = map (lower_observed now) (newest_rows (valid_rows xs now))"
  by (simp add: sanitize_window_batch_def newest_rows_def valid_rows_def Let_def)

lemma set_newest_rows: "set (newest_rows ws) \<subseteq> set ws"
  by (auto simp: newest_rows_def dest: in_set_takeD)

lemma length_newest_rows [simp]: "length (newest_rows ws) = min (length ws) MAX_WINDOW_ITEMS"
  by (simp add: newest_rows_def)

lemma valid_rows_ok:
  "w \<in> set (valid_rows xs now) \<Longrightarrow> window_item_stable_ok now w \<and> window_item_transient_ok now w \<and>
     active_ms w \<le> active_cap (window_minutes w) \<and> now - 2 * 365 * day_ms \<le> observed_ts_ms w"
  by (auto simp: valid_rows_def)

text \<open>Every row sanitize_window_batch keeps passes validation after the clamps, with its active time
  within the window length and its observation within two years before and one minute after the
  server clock.\<close>

theorem sanitize_storable:
  assumes "2 * 365 * day_ms \<le> now" "w \<in> set (items (sanitize_window_batch xs now))"
  shows "window_storable now w"
proof -
  obtain v where v: "v \<in> set (valid_rows xs now)" "w = lower_observed now v"
    using assms(2) set_newest_rows by (auto simp: items_sanitize)
  from valid_rows_ok [OF v(1)] assms(1) show ?thesis
    by (auto simp: v(2) window_storable_def lower_observed_stable_ok day_ms_def)
qed

theorem sanitize_counts:
  "let s = sanitize_window_batch xs now in
     length (items s) + stable_rejects s + transient_rejects s + over_cap s = length xs \<and>
     length (items s) \<le> MAX_WINDOW_ITEMS"
proof -
  obtain stable timely where st: "stable = filter (window_item_stable_ok now) (map (raise_observed now) xs)"
    "timely = filter (window_item_transient_ok now) stable" by blast
  then have "length stable \<le> length xs" "length timely \<le> length stable"
    by (metis length_filter_le length_map, metis length_filter_le)
  moreover have "length timely = length (valid_rows xs now)" by (simp only: st valid_rows_def length_map)
  moreover have "stable_rejects (sanitize_window_batch xs now) = length xs - length stable"
    "transient_rejects (sanitize_window_batch xs now) = length stable - length timely"
    "over_cap (sanitize_window_batch xs now) = length timely - MAX_WINDOW_ITEMS"
    by (simp_all add: sanitize_window_batch_def st Let_def)
  ultimately show ?thesis by (simp add: items_sanitize Let_def)
qed

text \<open>Over the cap, the rows that end last are the ones kept.\<close>

lemma newest_rows_newest:
  "\<exists>dropped. mset ws = mset (newest_rows ws) + mset dropped \<and>
     (\<forall>k\<in>set (newest_rows ws). \<forall>d\<in>set dropped. window_end_ms d \<le> window_end_ms k)"
proof (cases "length ws > MAX_WINDOW_ITEMS")
  case True
  let ?s = "sort_key (\<lambda>w. - window_end_ms w) ws"
  have s: "newest_rows ws = take MAX_WINDOW_ITEMS ?s" using True by (simp add: newest_rows_def)
  have "sorted (map (\<lambda>w. - window_end_ms w) (take MAX_WINDOW_ITEMS ?s @ drop MAX_WINDOW_ITEMS ?s))"
    by simp
  then have "\<forall>k\<in>set (take MAX_WINDOW_ITEMS ?s). \<forall>d\<in>set (drop MAX_WINDOW_ITEMS ?s). window_end_ms d \<le> window_end_ms k"
    unfolding map_append sorted_append by auto
  moreover have "mset ws = mset (take MAX_WINDOW_ITEMS ?s) + mset (drop MAX_WINDOW_ITEMS ?s)"
    by (metis append_take_drop_id mset_append mset_sort)
  ultimately show ?thesis using s by metis
next
  case False
  then show ?thesis by (intro exI [of _ "[]"]) (simp add: newest_rows_def)
qed

theorem sanitize_keeps_newest:
  "\<exists>dropped. mset (map (lower_observed now) (valid_rows xs now)) =
       mset (items (sanitize_window_batch xs now)) + mset dropped \<and>
     length dropped = over_cap (sanitize_window_batch xs now) \<and>
     (\<forall>k\<in>set (items (sanitize_window_batch xs now)). \<forall>d\<in>set dropped. window_end_ms d \<le> window_end_ms k)"
proof -
  let ?ws = "valid_rows xs now"
  obtain dropped where d: "mset ?ws = mset (newest_rows ?ws) + mset dropped"
    "\<forall>k\<in>set (newest_rows ?ws). \<forall>d\<in>set dropped. window_end_ms d \<le> window_end_ms k"
    using newest_rows_newest by blast
  have "length dropped = length ?ws - MAX_WINDOW_ITEMS"
    using arg_cong [OF d(1), of size] by simp
  moreover have "over_cap (sanitize_window_batch xs now) = length ?ws - MAX_WINDOW_ITEMS"
    by (simp add: sanitize_window_batch_def valid_rows_def Let_def)
  ultimately show ?thesis
    using d by (intro exI [of _ "map (lower_observed now) dropped"]) (auto simp: items_sanitize mset_map)
qed

text \<open>A batch that went through comes back unchanged when sent again at once.\<close>

lemma storable_fixed:
  assumes "window_storable now w"
  shows "raise_observed now w = w" "cap_active w = w" "lower_observed now w = w"
  using assms by (auto simp: window_storable_def raise_observed_def cap_active_def active_cap_def
      lower_observed_def Let_def)

theorem sanitize_resend:
  assumes "2 * 365 * day_ms \<le> now"
  shows "sanitize_window_batch (items (sanitize_window_batch xs now)) now =
    \<lparr>items = items (sanitize_window_batch xs now), stable_rejects = 0, transient_rejects = 0, over_cap = 0\<rparr>"
proof -
  let ?ys = "items (sanitize_window_batch xs now)"
  have ok: "\<And>w. w \<in> set ?ys \<Longrightarrow> window_storable now w" using assms by (rule sanitize_storable)
  then have "map (raise_observed now) ?ys = ?ys" "map cap_active ?ys = ?ys" "map (lower_observed now) ?ys = ?ys"
    using storable_fixed [OF ok] by (auto intro!: map_idI)
  moreover have "filter (window_item_stable_ok now) ?ys = ?ys" "filter (window_item_transient_ok now) ?ys = ?ys"
    using ok by (auto simp: window_storable_def filter_id_conv)
  moreover have "length ?ys \<le> MAX_WINDOW_ITEMS" by (simp add: items_sanitize)
  ultimately show ?thesis by (simp only: sanitize_window_batch_def Let_def) simp
qed

text \<open>Waiting: a row refused as stable, its first sight not after its observation, is refused at every
  later time, and one that passed the horizon check keeps passing it.\<close>

theorem sanitize_stable_reject_is_final:
  assumes "\<not> window_item_stable_ok now (raise_observed now w)" "now \<le> later"
    and "first_seen_ms w = 0 \<or> first_seen_ms w \<le> observed_ts_ms w"
  shows "\<not> window_item_stable_ok later (raise_observed later w)"
  using assms by (auto simp: window_item_stable_ok_def raise_observed_def Let_def split: if_splits)

theorem sanitize_horizon_opens:
  "window_item_transient_ok now w \<Longrightarrow> now \<le> later \<Longrightarrow> window_item_transient_ok later w"
  by (simp add: window_item_transient_ok_def)

text \<open>Without that condition waiting can help after all: the floor the observation is raised to moves
  with the clock, and a first sight after the observation passes once the floor has passed it.\<close>

definition late_row :: wire_window where
  "late_row = \<lparr>window_kind = 0, limit_id = ''l'', account = ''a'', window_end_ms = 63072003000,
     raw_resets_at_ms = 63072003000, window_minutes = 300, peak_pct_x100 = 0, last_pct_x100 = 0,
     observed_ts_ms = 0, first_seen_ms = 2, finalized = False, maxed_out = False,
     limit_reached_kind = 0, time_to_100_ms = -1, active_ms = 0, last_sample_gap_ms = 0,
     sampled_active_fraction = 0, n_samples = 1, plan = ''p''\<rparr>"

theorem sanitize_stable_reject_can_pass_later:
  "stable_rejects (sanitize_window_batch [late_row] 63072000001) = 1 \<and>
   length (items (sanitize_window_batch [late_row] 63072000002)) = 1"
  by (simp add: sanitize_window_batch_def raise_observed_def late_row_def window_item_stable_ok_def
      window_item_transient_ok_def str_ok_def day_ms_def byte_def MAX_WINDOW_ITEMS_def)

section \<open>Merging in-batch duplicates\<close>

fun merge_adjacent :: "wire_window \<Rightarrow> wire_window list \<Rightarrow> wire_window list" where
  "merge_adjacent prev [] = [prev]"
| "merge_adjacent prev (w # ws) =
     (if window_kind prev = window_kind w \<and> limit_id prev = limit_id w \<and>
         account prev = account w \<and> window_end_ms prev = window_end_ms w
      then merge_adjacent (merge_wire_windows prev w) ws
      else prev # merge_adjacent w ws)"

definition premerge_windows :: "(wire_window list \<Rightarrow> wire_window list) \<Rightarrow> wire_window list \<Rightarrow> wire_window list" where
  "premerge_windows sort_unstable xs =
     (case sort_unstable xs of [] \<Rightarrow> [] | w # ws \<Rightarrow> merge_adjacent w ws)"

definition sorts_by_key :: "(wire_window list \<Rightarrow> wire_window list) \<Rightarrow> bool" where
  "sorts_by_key f \<longleftrightarrow> (\<forall>xs. mset (f xs) = mset xs \<and> sorted (map win_key (f xs)))"

lemma sorts_by_key_stable: "sorts_by_key (sort_key win_key)"
  by (simp add: sorts_by_key_def)

lemma same_window_key:
  "window_kind p = window_kind w \<and> limit_id p = limit_id w \<and> account p = account w \<and>
     window_end_ms p = window_end_ms w \<longleftrightarrow> win_key p = win_key w"
  by (simp add: win_key_def)

lemma merge_adjacent_cons [simp]:
  "merge_adjacent prev (w # ws) =
     (if win_key prev = win_key w then merge_adjacent (merge_wire_windows prev w) ws
      else prev # merge_adjacent w ws)"
  by (simp add: win_key_def)

declare merge_adjacent.simps(2) [simp del]

text \<open>The reference: one row per key, the rows of that key merged from the left.\<close>

definition merge_all :: "wire_window list \<Rightarrow> wire_window" where
  "merge_all ws = fold (\<lambda>w s. merge_wire_windows s w) (tl ws) (hd ws)"

abbreviation rows_of :: "window_ident \<Rightarrow> wire_window list \<Rightarrow> wire_window list" where
  "rows_of k ws \<equiv> filter (\<lambda>w. win_key w = k) ws"

lemma merge_adjacent_groups:
  assumes "sorted (map win_key (prev # ws))"
  shows "merge_adjacent prev ws =
    map (\<lambda>k. merge_all (rows_of k (prev # ws))) (remdups_adj (map win_key (prev # ws)))"
  using assms
proof (induction ws arbitrary: prev)
  case Nil
  then show ?case by (simp add: merge_all_def)
next
  case (Cons w ws)
  show ?case
  proof (cases "win_key prev = win_key w")
    case True
    then have "map win_key (merge_wire_windows prev w # ws) = map win_key (w # ws)" by simp
    moreover have "merge_all (rows_of k (merge_wire_windows prev w # ws)) = merge_all (rows_of k (prev # w # ws))" for k
      using True by (simp add: merge_all_def)
    ultimately show ?thesis
      using True Cons.IH [of "merge_wire_windows prev w"] Cons.prems by simp
  next
    case False
    then have "\<forall>v\<in>set (w # ws). win_key prev \<noteq> win_key v"
      using Cons.prems by fastforce
    then have "rows_of (win_key prev) (w # ws) = []"
      and "\<And>k. k \<in> win_key ` set (w # ws) \<Longrightarrow> rows_of k (prev # w # ws) = rows_of k (w # ws)"
      by (auto simp: filter_empty_conv)
    then show ?thesis
      using False Cons.IH [of w] Cons.prems by (simp add: merge_all_def)
  qed
qed

lemma distinct_remdups_adj_sorted: "sorted (xs :: 'a::linorder list) \<Longrightarrow> distinct (remdups_adj xs)"
proof (induction xs rule: remdups_adj.induct)
  case (3 x y xs)
  then have "x \<noteq> y \<Longrightarrow> x \<notin> set (y # xs)" by (metis antisym list.set_intros(1) set_ConsD sorted_simps(2))
  with 3 show ?case by simp
qed simp_all

lemma premerge_groups:
  assumes "sorts_by_key f"
  shows "premerge_windows f xs =
    map (\<lambda>k. merge_all (rows_of k (f xs))) (sorted_list_of_set (win_key ` set xs))"
proof -
  have f: "mset (f xs) = mset xs" "sorted (map win_key (f xs))" using assms by (auto simp: sorts_by_key_def)
  have "remdups_adj (map win_key (f xs)) = sorted_list_of_set (win_key ` set xs)"
    using f mset_eq_setD [OF f(1)]
    by (intro sorted_distinct_set_unique) (auto simp: sorted_remdups_adj distinct_remdups_adj_sorted)
  moreover have "premerge_windows f xs =
      map (\<lambda>k. merge_all (rows_of k (f xs))) (remdups_adj (map win_key (f xs)))"
    using f(2) merge_adjacent_groups by (auto simp: premerge_windows_def split: list.split)
  ultimately show ?thesis by simp
qed

lemma merge_all_Cons: "ws \<noteq> [] \<Longrightarrow> merge_all (ws @ [w]) = merge_wire_windows (merge_all ws) w"
  by (cases ws) (simp_all add: merge_all_def)

lemma merge_all_sel:
  assumes "ws \<noteq> []" "\<forall>w\<in>set ws. win_key w = k"
  shows "win_key (merge_all ws) = k"
    and "peak_pct_x100 (merge_all ws) = Max (peak_pct_x100 ` set ws)"
    and "observed_ts_ms (merge_all ws) = Max (observed_ts_ms ` set ws)"
    and "finalized (merge_all ws) = (\<exists>w\<in>set ws. finalized w)"
    and "maxed_out (merge_all ws) = (\<exists>w\<in>set ws. maxed_out w)"
proof -
  have "win_key (merge_all ws) = k \<and> peak_pct_x100 (merge_all ws) = Max (peak_pct_x100 ` set ws) \<and>
      observed_ts_ms (merge_all ws) = Max (observed_ts_ms ` set ws) \<and>
      finalized (merge_all ws) = (\<exists>w\<in>set ws. finalized w) \<and>
      maxed_out (merge_all ws) = (\<exists>w\<in>set ws. maxed_out w)"
    using assms
  proof (induction ws rule: rev_induct)
    case (snoc w ws)
    then show ?case by (cases "ws = []") (auto simp: merge_all_Cons max.commute merge_all_def)
  qed simp
  then show "win_key (merge_all ws) = k"
    and "peak_pct_x100 (merge_all ws) = Max (peak_pct_x100 ` set ws)"
    and "observed_ts_ms (merge_all ws) = Max (observed_ts_ms ` set ws)"
    and "finalized (merge_all ws) = (\<exists>w\<in>set ws. finalized w)"
    and "maxed_out (merge_all ws) = (\<exists>w\<in>set ws. maxed_out w)" by auto
qed

definition same_key_rows :: "window_ident \<Rightarrow> wire_window list \<Rightarrow> wire_window set" where
  "same_key_rows k xs = {w \<in> set xs. win_key w = k}"

definition summarises :: "wire_window set \<Rightarrow> wire_window \<Rightarrow> bool" where
  "summarises ws r \<longleftrightarrow>
     peak_pct_x100 r = Max (peak_pct_x100 ` ws) \<and> observed_ts_ms r = Max (observed_ts_ms ` ws) \<and>
     (finalized r \<longleftrightarrow> (\<exists>w\<in>ws. finalized w)) \<and> (maxed_out r \<longleftrightarrow> (\<exists>w\<in>ws. maxed_out w))"

lemma merge_all_summarises:
  assumes "ws \<noteq> []" "\<forall>w\<in>set ws. win_key w = k"
  shows "win_key (merge_all ws) = k" "summarises (set ws) (merge_all ws)"
  using merge_all_sel [OF assms] by (simp_all add: summarises_def)

theorem premerge_one_row_per_window:
  assumes "sorts_by_key sort_unstable"
  shows "sorted_wrt (<) (map win_key (premerge_windows sort_unstable xs)) \<and>
    win_key ` set (premerge_windows sort_unstable xs) = win_key ` set xs \<and>
    (\<forall>r\<in>set (premerge_windows sort_unstable xs). summarises (same_key_rows (win_key r) xs) r)"
proof -
  let ?rows = "premerge_windows sort_unstable xs"
  have set: "set (sort_unstable xs) = set xs" using assms by (metis mset_eq_setD sorts_by_key_def)
  have grp: "win_key (merge_all (rows_of k (sort_unstable xs))) = k"
    "summarises (same_key_rows k xs) (merge_all (rows_of k (sort_unstable xs)))"
    if "k \<in> win_key ` set xs" for k
  proof -
    have ne: "rows_of k (sort_unstable xs) \<noteq> []" "\<forall>w\<in>set (rows_of k (sort_unstable xs)). win_key w = k"
      using that set by (auto simp: filter_empty_conv)
    have "set (rows_of k (sort_unstable xs)) = same_key_rows k xs" by (simp add: set same_key_rows_def)
    with merge_all_summarises [OF ne]
    show "win_key (merge_all (rows_of k (sort_unstable xs))) = k"
      "summarises (same_key_rows k xs) (merge_all (rows_of k (sort_unstable xs)))" by auto
  qed
  have keys: "map win_key ?rows = sorted_list_of_set (win_key ` set xs)"
    unfolding premerge_groups [OF assms] map_map by (rule map_idI) (simp add: grp(1))
  have "summarises (same_key_rows (win_key r) xs) r" if r: "r \<in> set ?rows" for r
  proof -
    obtain k where k: "k \<in> win_key ` set xs" "r = merge_all (rows_of k (sort_unstable xs))"
      using r unfolding premerge_groups [OF assms]
      by (simp only: set_map set_sorted_list_of_set finite_imageI finite_set) blast
    show ?thesis using grp [OF k(1)] unfolding k(2) [symmetric] by simp
  qed
  moreover have "sorted_wrt (<) (map win_key ?rows)" by (simp add: keys strict_sorted_iff)
  moreover have "win_key ` set ?rows = win_key ` set xs" using arg_cong [OF keys, of set] by simp
  ultimately show ?thesis by blast
qed

text \<open>On rows of one window, two observations at different instants merge to the same row from either
  side; with \<open>fold_absorb_perm\<close> a whole group does in any order.\<close>

lemma merge_swap:
  assumes "merge_good m x" "merge_good m y" "distinct_instants x y" "win_key x = win_key y"
  shows "merge_wire_windows x y = merge_wire_windows y x"
proof (rule wire_window_eqI, goal_cases)
  case 10
  from assms show ?case by (auto simp: merge_good_def join_first_seen_def min_def)
next
  case 14
  show ?case by (simp add: merge_time_to_100_laws(1))
qed (use assms in \<open>auto simp: distinct_instants_def win_key_def merge_good_def max_def\<close>)

lemma merge_all_perm:
  assumes "mset xs = mset ys" "\<forall>x\<in>set xs. merge_good m x \<and> win_key x = k"
    and "\<forall>x\<in>set xs. \<forall>y\<in>set xs. x = y \<or> distinct_instants x y"
  shows "merge_all xs = merge_all ys"
proof (cases xs)
  case Nil
  with assms(1) show ?thesis by simp
next
  case (Cons x xs')
  then obtain y ys' where ys: "ys = y # ys'" using assms(1) by (cases ys) auto
  let ?go = "fold (\<lambda>w s. merge_wire_windows s w)"
  have perm: "?go us s = ?go vs s" if "mset us = mset vs" "s \<in> set xs" "set us \<subseteq> set xs" for us vs s
    by (rule window_merge.fold_absorb_perm [OF that(1), of m]) (use that assms(2,3) in auto)
  show ?thesis
  proof (cases "x = y")
    case True
    with perm [of xs' ys' x] assms(1) Cons ys show ?thesis by (simp add: merge_all_def subset_insertI)
  next
    case False
    then have y: "y \<in> set xs'" and x: "x \<in> set ys'"
      using mset_eq_setD [OF assms(1)] Cons ys by auto
    have "?go xs' x = ?go (y # remove1 y xs') x"
      by (rule perm) (use y Cons in auto)
    also have "\<dots> = ?go (remove1 y xs') (merge_wire_windows y x)"
      using merge_swap [of m x y] assms(2,3) Cons y False by auto
    also have "\<dots> = ?go (x # remove1 y xs') y" by simp
    also have "\<dots> = ?go ys' y"
    proof (rule perm)
      have "add_mset x (mset xs') = add_mset y (mset ys')" using assms(1) ys Cons by simp
      then have "mset ys' = add_mset x (mset xs' - {#y#})" using False by (metis add_eq_conv_diff)
      then show "mset (x # remove1 y xs') = mset ys'" by simp
    qed (use y Cons in \<open>auto dest: notin_set_remove1 set_remove1_subset [THEN subsetD]\<close>)
    finally show ?thesis by (simp add: merge_all_def Cons ys)
  qed
qed

text \<open>The pre-merged batch does not depend on the order of the upload nor on the unstable sort, when the
  rows of a key agree on the window length and differ in their instants.\<close>

theorem premerge_order_independent:
  assumes "sorts_by_key f" "sorts_by_key g" "mset xs = mset ys"
    and "\<forall>x\<in>set xs. first_seen_ms x \<ge> 0"
    and "\<forall>x\<in>set xs. \<forall>y\<in>same_key_rows (win_key x) xs.
      window_minutes x = window_minutes y \<and> (x = y \<or> observed_ts_ms x \<noteq> observed_ts_ms y)"
  shows "premerge_windows f xs = premerge_windows g ys"
proof -
  have ms: "mset (f xs) = mset xs" "mset (g ys) = mset xs" "set xs = set ys"
    using assms(1,2,3) mset_eq_setD [OF assms(3)] by (simp_all add: sorts_by_key_def)
  have "merge_all (rows_of k (f xs)) = merge_all (rows_of k (g ys))" if k: "k \<in> win_key ` set xs" for k
  proof -
    obtain x0 where x0: "x0 \<in> set xs" "win_key x0 = k" using k by blast
    have "set (rows_of k (f xs)) = same_key_rows k xs"
      using mset_eq_setD [OF ms(1)] by (simp add: same_key_rows_def)
    then have grp: "x \<in> set xs \<and> win_key x = k" if "x \<in> set (rows_of k (f xs))" for x
      using that by (simp add: same_key_rows_def)
    have same: "window_minutes x = window_minutes y \<and> (x = y \<or> observed_ts_ms x \<noteq> observed_ts_ms y)"
      if "x \<in> set xs" "win_key x = k" "y \<in> set xs" "win_key y = k" for x y
    proof -
      have "y \<in> same_key_rows (win_key x) xs" using that by (simp add: same_key_rows_def)
      then show ?thesis using bspec [OF bspec [OF assms(5) that(1)]] by blast
    qed
    show ?thesis
    proof (rule merge_all_perm [where m = "window_minutes x0" and k = k])
      show "mset (rows_of k (f xs)) = mset (rows_of k (g ys))" using ms by (simp add: mset_filter)
      show "\<forall>x\<in>set (rows_of k (f xs)). merge_good (window_minutes x0) x \<and> win_key x = k"
      proof
        fix x assume "x \<in> set (rows_of k (f xs))"
        note x = grp [OF this]
        from x same [OF _ _ x0, of x] assms(4) show "merge_good (window_minutes x0) x \<and> win_key x = k"
          by (simp add: merge_good_def)
      qed
      show "\<forall>x\<in>set (rows_of k (f xs)). \<forall>y\<in>set (rows_of k (f xs)). x = y \<or> distinct_instants x y"
      proof (intro ballI)
        fix x y assume "x \<in> set (rows_of k (f xs))" "y \<in> set (rows_of k (f xs))"
        from grp [OF this(1)] grp [OF this(2)] same [of x y] show "x = y \<or> distinct_instants x y"
          by (simp add: distinct_instants_def)
      qed
    qed
  qed
  then show ?thesis using assms(1,2) ms by (simp add: premerge_groups)
qed

text \<open>The condition on the window lengths is needed: the cap on \<open>active_ms\<close> follows the newest
  length, so what an early cap cut off depends on when it was applied.\<close>

definition observed_row :: "nat \<Rightarrow> nat \<Rightarrow> int \<Rightarrow> wire_window" where
  "observed_row active minutes at =
     late_row\<lparr>active_ms := active, window_minutes := minutes, observed_ts_ms := at, first_seen_ms := 0\<rparr>"

lemma observed_row_sel [simp]:
  "active_ms (observed_row a m t) = a" "window_minutes (observed_row a m t) = m"
  "observed_ts_ms (observed_row a m t) = t" "first_seen_ms (observed_row a m t) = 0"
  "win_key (observed_row a m t) = (0, ''l'', ''a'', 63072003000)"
  by (simp_all add: observed_row_def late_row_def win_key_def)

theorem merge_active_depends_on_order:
  "let a = observed_row 600000 10 1; b = observed_row 0 1 2; c = observed_row 0 10 3 in
     active_ms (merge_wire_windows (merge_wire_windows a b) c) = 60000 \<and>
     active_ms (merge_wire_windows (merge_wire_windows a c) b) = 600000"
  unfolding Let_def by (simp add: active_cap_def sat_mul_u64_def u64_max_def)

subsection \<open>At concrete batches\<close>

definition day_rows :: "wire_window list" where
  "day_rows = [observed_row 5 10 1, observed_row 7 10 2]"

lemma observed_row_stable_ok:
  "0 < m \<Longrightarrow> m \<le> 10 \<Longrightarrow> window_item_stable_ok 63072000000 (observed_row a m t)"
  by (simp add: window_item_stable_ok_def observed_row_def late_row_def str_ok_def byte_def day_ms_def)

theorem sanitize_storable_witness:
  "window_storable 63072000000 (hd (items (sanitize_window_batch [observed_row 5 10 1] 63072000000)))"
proof (rule sanitize_storable)
  have "raise_observed 63072000000 (observed_row 5 10 1) = observed_row 5 10 1"
    by (simp add: raise_observed_def day_ms_def)
  moreover have "window_item_transient_ok 63072000000 (observed_row 5 10 1)"
    by (simp add: window_item_transient_ok_def observed_row_def late_row_def day_ms_def)
  ultimately have "valid_rows [observed_row 5 10 1] 63072000000 = [cap_active (observed_row 5 10 1)]"
    by (simp add: valid_rows_def observed_row_stable_ok)
  then have "items (sanitize_window_batch [observed_row 5 10 1] 63072000000) \<noteq> []"
    by (simp add: items_sanitize newest_rows_def MAX_WINDOW_ITEMS_def)
  then show "hd (items (sanitize_window_batch [observed_row 5 10 1] 63072000000)) \<in>
      set (items (sanitize_window_batch [observed_row 5 10 1] 63072000000))"
    by (rule hd_in_set)
qed (simp add: day_ms_def)

theorem sanitize_keeps_newest_witness:
  "\<exists>dropped. mset (map (lower_observed 63072000000) (valid_rows day_rows 63072000000)) =
       mset (items (sanitize_window_batch day_rows 63072000000)) + mset dropped \<and>
     length dropped = over_cap (sanitize_window_batch day_rows 63072000000)"
  using sanitize_keeps_newest [of 63072000000 day_rows] by blast

theorem sanitize_resend_witness:
  "sanitize_window_batch (items (sanitize_window_batch day_rows 63072000000)) 63072000000 =
    \<lparr>items = items (sanitize_window_batch day_rows 63072000000), stable_rejects = 0, transient_rejects = 0, over_cap = 0\<rparr>"
  by (rule sanitize_resend) (simp add: day_ms_def)

theorem sanitize_stable_reject_is_final_witness:
  "\<not> window_item_stable_ok 6 (raise_observed 6 ((observed_row 5 0 1)))"
  by (rule sanitize_stable_reject_is_final [of 5])
    (simp_all add: window_item_stable_ok_def observed_row_def late_row_def raise_observed_def)

theorem premerge_one_row_per_window_witness:
  "sorted_wrt (<) (map win_key (premerge_windows (sort_key win_key) day_rows)) \<and>
    win_key ` set (premerge_windows (sort_key win_key) day_rows) = win_key ` set day_rows"
  using premerge_one_row_per_window [OF sorts_by_key_stable, of day_rows] by blast

theorem premerge_order_independent_witness:
  "premerge_windows (sort_key win_key) day_rows = premerge_windows (sort_key win_key) (rev day_rows)"
proof (rule premerge_order_independent [OF sorts_by_key_stable sorts_by_key_stable])
  show "\<forall>x\<in>set day_rows. \<forall>y\<in>same_key_rows (win_key x) day_rows.
      window_minutes x = window_minutes y \<and> (x = y \<or> observed_ts_ms x \<noteq> observed_ts_ms y)"
    by (auto simp: day_rows_def same_key_rows_def)
qed (simp_all add: day_rows_def)

end
