(* ===== verification/Frames.thy ===== *)
theory Frames
  imports Prelude
begin

text \<open>
  Frame input and output (\<open>src/src/sync/protocol.rs\<close>): \<open>[msg_type: u32 LE][payload_len: u32 LE][payload]\<close>.

  A reader is the bytes the peer will ever send, in order; \<open>read_exact\<close> fails at their end. The
  message types and \<open>MAX_PAYLOAD_SIZE\<close> belong to the protocol crate, so they are arguments:
  \<open>as_u32\<close> is the cast \<open>msg_type as u32\<close>, \<open>from_u32\<close> is \<open>MsgType::from_u32\<close>, \<open>max_size\<close> is the cap.
\<close>

datatype io_error = Unexpected_Eof | Unknown_Msg_Type nat | Payload_Too_Large nat nat

definition le32 :: "nat \<Rightarrow> string" where "le32 x = rev (be_bytes 4 x)"

definition of_le32 :: "string \<Rightarrow> nat" where "of_le32 bs = of_be (rev bs)"

lemma le32_bytes [bytes_simps]: "length (le32 x) = 4" "x < 4294967296 \<Longrightarrow> of_le32 (le32 x) = x"
  by (simp_all add: le32_def of_le32_def of_be_be_bytes)

lemma of_be_less: "of_be bs < 256 ^ length bs"
proof (induction bs rule: rev_induct)
  case (snoc c bs)
  then have "of_be bs * 256 + byte c < 256 ^ length bs * 256" using byte_less [of c] by linarith
  then show ?case by (simp add: of_be_append1)
qed (simp add: of_be_def)

section \<open>Writing\<close>

definition write_frame :: "('m \<Rightarrow> nat) \<Rightarrow> nat \<Rightarrow> 'm \<Rightarrow> string \<Rightarrow> io_error + string" where
  "write_frame as_u32 max_size msg_type payload =
     (if length payload > max_size then Inl (Payload_Too_Large (length payload) max_size)
      else Inr (le32 (as_u32 msg_type) @ le32 (length payload mod 4294967296) @ payload))"

definition write_empty_frame :: "('m \<Rightarrow> nat) \<Rightarrow> nat \<Rightarrow> 'm \<Rightarrow> io_error + string" where
  "write_empty_frame as_u32 max_size msg_type = write_frame as_u32 max_size msg_type []"

section \<open>Reading\<close>

definition CHUNK :: nat where "CHUNK = 64 * 1024"

lemma CHUNK_pos [simp]: "0 < CHUNK" by (simp add: CHUNK_def)

definition read_exact :: "nat \<Rightarrow> string \<Rightarrow> (io_error + string) \<times> string" where
  "read_exact n s = (if length s < n then (Inl Unexpected_Eof, []) else (Inr (take n s), drop n s))"

text \<open>The chunk loop. Its last component is the size of the payload buffer when it stopped, which
  only ever grew.\<close>

function read_chunks :: "nat \<Rightarrow> string \<Rightarrow> string \<Rightarrow> (io_error + string) \<times> string \<times> nat" where
  "read_chunks remaining payload s =
     (if remaining = 0 then (Inr payload, s, length payload)
      else let tk = min remaining CHUNK
           in (case read_exact tk s of
                 (Inl e, s') \<Rightarrow> (Inl e, s', length payload + tk)
               | (Inr c, s') \<Rightarrow> read_chunks (remaining - tk) (payload @ c) s'))"
  by pat_completeness auto
termination by (relation "measure (\<lambda>(remaining, _, _). remaining)") (auto simp: CHUNK_def)

declare read_chunks.simps [simp del]

definition read_frame_inner ::
  "(nat \<Rightarrow> 'm option) \<Rightarrow> nat \<Rightarrow> string \<Rightarrow> (io_error + 'm \<times> string) \<times> string \<times> nat" where
  "read_frame_inner from_u32 max_payload s =
     (case read_exact 8 s of
        (Inl e, s') \<Rightarrow> (Inl e, s', 0)
      | (Inr header, s') \<Rightarrow>
          (let type_u32 = of_le32 (take 4 header); len = of_le32 (drop 4 header)
           in (case from_u32 type_u32 of
                 None \<Rightarrow> (Inl (Unknown_Msg_Type type_u32), s', 0)
               | Some msg_type \<Rightarrow>
                   if len > max_payload then (Inl (Payload_Too_Large len max_payload), s', 0)
                   else (case read_chunks len [] s' of
                           (Inl e, s'', held) \<Rightarrow> (Inl e, s'', held)
                         | (Inr payload, s'', held) \<Rightarrow> (Inr (msg_type, payload), s'', held)))))"

definition read_frame_limited ::
  "(nat \<Rightarrow> 'm option) \<Rightarrow> nat \<Rightarrow> nat \<Rightarrow> string \<Rightarrow> (io_error + 'm \<times> string) \<times> string \<times> nat" where
  "read_frame_limited from_u32 max_size max_payload s = read_frame_inner from_u32 (min max_payload max_size) s"

definition read_frame ::
  "(nat \<Rightarrow> 'm option) \<Rightarrow> nat \<Rightarrow> string \<Rightarrow> (io_error + 'm \<times> string) \<times> string \<times> nat" where
  "read_frame from_u32 max_size s = read_frame_inner from_u32 max_size s"

section \<open>What the frame layer guarantees\<close>

lemma read_chunks_all:
  "length s \<ge> n \<Longrightarrow> read_chunks n payload s = (Inr (payload @ take n s), drop n s, length payload + n)"
proof (induction n payload s rule: read_chunks.induct)
  case (1 remaining payload s)
  show ?case
  proof (cases "remaining = 0")
    case True
    then show ?thesis by (simp add: read_chunks.simps)
  next
    case False
    let ?tk = "min remaining CHUNK"
    have "read_exact ?tk s = (Inr (take ?tk s), drop ?tk s)" using 1 by (simp add: read_exact_def)
    with 1 False show ?thesis
      by (subst read_chunks.simps) (simp add: Let_def take_add [symmetric] flip: append_take_drop_id)
  qed
qed

lemma read_chunks_eof:
  "length s < n \<Longrightarrow> \<exists>held. read_chunks n payload s = (Inl Unexpected_Eof, [], held) \<and>
     held \<le> length payload + length s + CHUNK \<and> held \<le> length payload + n"
proof (induction n payload s rule: read_chunks.induct)
  case (1 remaining payload s)
  let ?tk = "min remaining CHUNK"
  show ?case
  proof (cases "length s < ?tk")
    case True
    with 1 show ?thesis by (subst read_chunks.simps) (auto simp: read_exact_def)
  next
    case False
    then have "read_exact ?tk s = (Inr (take ?tk s), drop ?tk s)" by (simp add: read_exact_def)
    moreover obtain held where "read_chunks (remaining - ?tk) (payload @ take ?tk s) (drop ?tk s) = (Inl Unexpected_Eof, [], held)"
      "held \<le> length (payload @ take ?tk s) + length (drop ?tk s) + CHUNK"
      "held \<le> length (payload @ take ?tk s) + (remaining - ?tk)"
      using 1 False calculation by (metis (no_types, lifting) diff_less_mono gr_implies_not0 length_drop not_less)
    moreover have "remaining \<noteq> 0" using 1 by simp
    ultimately show ?thesis using False by (subst read_chunks.simps) (auto simp: Let_def)
  qed
qed

lemma read_frame_inner_written:
  assumes "from_u32 (as_u32 m) = Some m" "as_u32 m < 4294967296" "max_size < 4294967296"
    and "write_frame as_u32 max_size m payload = Inr bytes" "length payload \<le> cap"
  shows "read_frame_inner from_u32 cap (bytes @ rest) = (Inr (m, payload), rest, length payload)"
proof -
  have len: "length payload < 4294967296" using assms(3,4) by (auto simp: write_frame_def split: if_splits)
  let ?head = "le32 (as_u32 m) @ le32 (length payload)"
  have bytes: "bytes @ rest = ?head @ payload @ rest"
    using assms(4) len by (simp add: write_frame_def split: if_splits)
  have "read_exact 8 (?head @ payload @ rest) = (Inr ?head, payload @ rest)"
    by (simp add: read_exact_def bytes_simps)
  then show ?thesis
    using assms(1,2,5) len unfolding read_frame_inner_def bytes
    by (simp add: bytes_simps read_chunks_all Let_def)
qed

lemma written_size: "write_frame as_u32 max_size m payload = Inr bytes \<Longrightarrow> length payload \<le> max_size"
  by (auto simp: write_frame_def split: if_splits)

text \<open>C40: Reading what write_frame wrote returns the message type and payload and leaves the bytes that
  follow.\<close>

theorem frame_roundtrip:
  assumes "\<forall>m. from_u32 (as_u32 m) = Some m \<and> as_u32 m < 4294967296" "max_size < 4294967296"
    and "write_frame as_u32 max_size m payload = Inr bytes"
  shows "read_frame from_u32 max_size (bytes @ rest) = (Inr (m, payload), rest, length payload)"
  unfolding read_frame_def using assms(1)
  by (intro read_frame_inner_written [OF _ _ assms(2,3) written_size [OF assms(3)]]) simp_all

text \<open>Before a peer is authenticated its announced length is checked against the small cap, and the
  buffer never exceeds what has arrived by more than one chunk.\<close>

lemma read_chunks_held: "snd (snd (read_chunks n payload s)) \<le> length payload + n"
  using read_chunks_all [of n s payload] read_chunks_eof [of s n payload] by (cases "n \<le> length s") auto

lemma read_chunks_memory:
  "snd (snd (read_chunks n [] s)) \<le> length s + CHUNK"
  using read_chunks_all [of n s "[]"] read_chunks_eof [of s n "[]"] by (cases "n \<le> length s") auto

text \<open>Reading a frame never holds more payload than the peer sent plus one chunk, nor more than the cap.\<close>

theorem read_frame_limited_memory:
  "snd (snd (read_frame_limited from_u32 max_size cap s)) \<le> min (length s + CHUNK) (min cap max_size)"
proof -
  have "b \<le> length s + CHUNK \<and> b \<le> cap \<and> b \<le> max_size"
    if "read_chunks len [] s' = (r, a, b)" "len \<le> cap" "len \<le> max_size" "length s' \<le> length s" for len s' r a b
    using read_chunks_memory [of len s'] read_chunks_held [of len "[]" s'] that by simp
  note bound = this [where s' = "drop 8 s"]
  show ?thesis
    by (auto simp: read_frame_limited_def read_frame_inner_def read_exact_def Let_def not_less
        dest!: bound split: option.splits sum.splits prod.splits)
qed

theorem read_frame_limited_refuses:
  assumes "8 \<le> length s" "of_le32 (take 4 (drop 4 s)) > min cap max_size"
  shows "read_frame_limited from_u32 max_size cap s =
    (case from_u32 (of_le32 (take 4 s)) of
       None \<Rightarrow> (Inl (Unknown_Msg_Type (of_le32 (take 4 s))), drop 8 s, 0)
     | Some m \<Rightarrow> (Inl (Payload_Too_Large (of_le32 (take 4 (drop 4 s))) (min cap max_size)), drop 8 s, 0))"
  using assms by (simp add: read_frame_limited_def read_frame_inner_def read_exact_def Let_def take_drop
      split: option.split)

text \<open>A peer that stops sending mid-frame is an error, never a short payload.\<close>

theorem read_frame_eof:
  assumes "read_frame from_u32 max_size s = (Inr (m, payload), rest, held)"
  shows "from_u32 (of_le32 (take 4 s)) = Some m \<and> length payload = of_le32 (take 4 (drop 4 s)) \<and>
    length payload \<le> max_size \<and> s = take 8 s @ payload @ rest"
proof -
  let ?len = "of_le32 (take 4 (drop 4 s))"
  have s: "8 \<le> length s" "from_u32 (of_le32 (take 4 s)) = Some m" "?len \<le> max_size"
    "read_chunks ?len [] (drop 8 s) = (Inr payload, rest, held)"
    using assms by (auto simp: read_frame_def read_frame_inner_def read_exact_def Let_def take_drop not_less
        split: if_splits option.splits sum.splits prod.splits)
  have "?len \<le> length (drop 8 s)" using s(4) read_chunks_eof [of "drop 8 s" ?len "[]"] by force
  from read_chunks_all [OF this, of "[]"] s(4)
  have "payload = take ?len (drop 8 s)" "rest = drop ?len (drop 8 s)" by simp_all
  with s \<open>?len \<le> length (drop 8 s)\<close> show ?thesis by (simp del: drop_drop)
qed

subsection \<open>At concrete frames\<close>

definition three_types :: "nat \<Rightarrow> nat option" where "three_types n = (if n < 3 then Some n else None)"

theorem frame_roundtrip_witness:
  "read_frame (\<lambda>n. if n = 1 then Some () else None) 16 (le32 1 @ le32 2 @ ''hi'' @ ''xy'') = (Inr ((), ''hi''), ''xy'', 2)"
  using frame_roundtrip [of "\<lambda>n. if n = 1 then Some () else None" "\<lambda>_. 1" 16 "()" "''hi''"
      "le32 1 @ le32 2 @ ''hi''" "''xy''"]
  by (simp add: write_frame_def numeral_2_eq_2)

theorem read_frame_limited_refuses_witness:
  "read_frame_limited three_types 1000 4 (le32 1 @ le32 5 @ ''hello'') =
    (Inl (Payload_Too_Large 5 4), ''hello'', 0)"
  using read_frame_limited_refuses [of "le32 1 @ le32 5 @ ''hello''" 4 1000 three_types]
  by (simp add: bytes_simps three_types_def)

theorem read_frame_eof_witness:
  "let s = le32 1 @ le32 2 @ ''hi'' @ ''xy'' in
     three_types (of_le32 (take 4 s)) = Some 1 \<and> length ''hi'' = of_le32 (take 4 (drop 4 s)) \<and>
     length ''hi'' \<le> 16 \<and> s = take 8 s @ ''hi'' @ ''xy''"
proof -
  have "read_frame three_types 16 (le32 1 @ le32 2 @ ''hi'' @ ''xy'') = (Inr (1, ''hi''), ''xy'', 2)"
    using read_chunks_all [of 2 "''hixy''" "[]"]
    by (simp add: read_frame_def read_frame_inner_def read_exact_def bytes_simps three_types_def Let_def)
  from read_frame_eof [OF this] show ?thesis unfolding Let_def .
qed

end
