(* ===== verification/Tables.thy ===== *)
theory Tables
  imports Prelude
begin

text \<open>
  The slice of SQL the repository uses, over tables that are lists of rows in insertion order:
  \<open>INSERT\<close>, \<open>UPDATE ... WHERE\<close>, \<open>DELETE ... WHERE\<close>, \<open>SELECT ... WHERE\<close>. A unique key is a
  partial function on rows (\<open>None\<close> for a null, which no unique index compares), and the locale
  \<open>unique_key\<close> is what such a key promises.
\<close>

datatype sql_error = Unique_Failed | Foreign_Key_Failed | Conflict_Target_Unmatched

definition insert_row :: "('r \<Rightarrow> 'r \<Rightarrow> bool) \<Rightarrow> 'r \<Rightarrow> 'r list \<Rightarrow> sql_error + 'r list" where
  "insert_row clash r rs = (if \<exists>r'\<in>set rs. clash r r' then Inl Unique_Failed else Inr (rs @ [r]))"

definition rows_affected :: "('r \<Rightarrow> bool) \<Rightarrow> 'r list \<Rightarrow> nat" where
  "rows_affected p rs = length (filter p rs)"

definition update_rows :: "('r \<Rightarrow> bool) \<Rightarrow> ('r \<Rightarrow> 'r) \<Rightarrow> 'r list \<Rightarrow> 'r list" where
  "update_rows p f rs = map (\<lambda>r. if p r then f r else r) rs"

definition delete_rows :: "('r \<Rightarrow> bool) \<Rightarrow> 'r list \<Rightarrow> 'r list" where
  "delete_rows p rs = filter (\<lambda>r. \<not> p r) rs"

definition exists_row :: "('r \<Rightarrow> bool) \<Rightarrow> 'r list \<Rightarrow> bool" where
  "exists_row p rs \<longleftrightarrow> (\<exists>r\<in>set rs. p r)"

lemma rows_affected_pos: "0 < rows_affected p rs \<longleftrightarrow> exists_row p rs"
  by (auto simp: rows_affected_def exists_row_def filter_empty_conv)

lemma set_delete_rows [simp]: "set (delete_rows p rs) = {r \<in> set rs. \<not> p r}"
  by (auto simp: delete_rows_def)

lemma set_update_rows: "set (update_rows p f rs) = (\<lambda>r. if p r then f r else r) ` set rs"
  by (simp add: update_rows_def)

lemma find_Some_iff_unique:
  "find p rs = Some r \<Longrightarrow> r \<in> set rs \<and> p r"
  by (induction rs) (auto split: if_splits)

lemma find_append:
  "find p (xs @ ys) = (case find p xs of None \<Rightarrow> find p ys | Some x \<Rightarrow> Some x)"
  by (induction xs) auto

section \<open>Unique keys\<close>

definition distinct_key :: "('r \<Rightarrow> 'k option) \<Rightarrow> 'r list \<Rightarrow> bool" where
  "distinct_key key rs \<longleftrightarrow> distinct (List.map_filter key rs)"

definition key_clash :: "('r \<Rightarrow> 'k option) \<Rightarrow> 'r \<Rightarrow> 'r \<Rightarrow> bool" where
  "key_clash key r r' \<longleftrightarrow> key r \<noteq> None \<and> key r' = key r"

lemma set_map_filter: "k \<in> set (List.map_filter key rs) \<longleftrightarrow> (\<exists>r\<in>set rs. key r = Some k)"
  by (induction rs) (auto simp: map_filter_simps split: option.splits)

lemma map_filter_of_map: "List.map_filter key rs = List.map_filter id (map key rs)"
  by (induction rs) (auto simp: map_filter_simps split: option.split)

lemma map_filter_append [simp]: "List.map_filter f (xs @ ys) = List.map_filter f xs @ List.map_filter f ys"
  by (simp add: List.map_filter_def)

lemma distinct_key_insert:
  assumes "distinct_key key rs" "insert_row clash r rs = Inr rs'" "\<And>r'. key_clash key r r' \<Longrightarrow> clash r r'"
  shows "distinct_key key rs'"
proof -
  have "rs' = rs @ [r]" "\<forall>r'\<in>set rs. \<not> key_clash key r r'"
    using assms(2,3) by (auto simp: insert_row_def split: if_splits)
  then show ?thesis
    using assms(1) by (cases "key r") (auto simp: distinct_key_def map_filter_simps set_map_filter key_clash_def)
qed

lemma distinct_key_delete:
  "distinct_key key rs \<Longrightarrow> distinct_key key (delete_rows p rs)"
  by (induction rs) (auto simp: distinct_key_def delete_rows_def map_filter_simps set_map_filter split: option.splits)

lemma distinct_key_update:
  assumes "distinct_key key rs" "\<And>r. key (f r) = key r"
  shows "distinct_key key (update_rows p f rs)"
proof -
  have "List.map_filter key (update_rows p f rs) = List.map_filter key rs"
    by (induction rs) (auto simp: update_rows_def map_filter_simps assms(2) split: option.splits)
  with assms(1) show ?thesis by (simp add: distinct_key_def)
qed

lemma distinct_key_same:
  assumes "distinct_key key rs" "r \<in> set rs" "r' \<in> set rs" "key r = Some k" "key r' = Some k"
  shows "r = r'"
  using assms
  by (induction rs) (auto simp: distinct_key_def map_filter_simps set_map_filter split: option.splits)

lemma find_distinct_key:
  assumes "distinct_key key rs" "r \<in> set rs" "key r = Some k" "\<And>r'. p r' \<longleftrightarrow> key r' = Some k"
  shows "find p rs = Some r"
proof (cases "find p rs")
  case None
  then show ?thesis using assms(2,3,4) by (auto simp: find_None_iff)
next
  case (Some r')
  then show ?thesis using assms find_Some_iff_unique [OF Some] distinct_key_same [OF assms(1,2)] by force
qed

section \<open>A table under its key\<close>

text \<open>
  The contract of a table that has a total key: a row is found under its key after it was inserted,
  an update that keeps keys is seen at exactly the rows it names, and a delete removes exactly the
  rows it names.
\<close>

locale keyed_table =
  fixes key :: "'r \<Rightarrow> 'k" and clash :: "'r \<Rightarrow> 'r \<Rightarrow> bool"
  assumes clash_key: "key r' = key r \<Longrightarrow> clash r r'"
begin

definition row :: "'k \<Rightarrow> 'r list \<Rightarrow> 'r option" where
  "row k rs = find (\<lambda>r. key r = k) rs"

definition keyed :: "'r list \<Rightarrow> bool" where
  "keyed rs \<longleftrightarrow> distinct (map key rs)"

lemma keyed_distinct_key: "keyed rs \<longleftrightarrow> distinct_key (\<lambda>r. Some (key r)) rs"
  by (simp add: keyed_def distinct_key_def map_filter_def comp_def)

lemma keyed_insert: "keyed rs \<Longrightarrow> insert_row clash r rs = Inr rs' \<Longrightarrow> keyed rs'"
  using clash_key by (fastforce simp: keyed_def insert_row_def split: if_splits)

lemma keyed_delete: "keyed rs \<Longrightarrow> keyed (delete_rows p rs)"
  unfolding keyed_distinct_key by (rule distinct_key_delete)

lemma keyed_update: "keyed rs \<Longrightarrow> (\<And>r. key (f r) = key r) \<Longrightarrow> keyed (update_rows p f rs)"
  unfolding keyed_distinct_key by (rule distinct_key_update) auto

lemma row_Some:
  assumes "keyed rs"
  shows "row k rs = Some r \<longleftrightarrow> r \<in> set rs \<and> key r = k"
proof
  assume "row k rs = Some r"
  then show "r \<in> set rs \<and> key r = k" using find_Some_iff_unique by (fastforce simp: row_def)
next
  assume "r \<in> set rs \<and> key r = k"
  then show "row k rs = Some r"
    using assms find_distinct_key [of "\<lambda>r. Some (key r)" rs r k "\<lambda>r. key r = k"]
    by (simp add: row_def keyed_distinct_key)
qed

lemma row_None: "row k rs = None \<longleftrightarrow> (\<forall>r\<in>set rs. key r \<noteq> k)"
  by (auto simp: row_def find_None_iff)

lemma row_insert:
  assumes "insert_row clash r rs = Inr rs'"
  shows "row k rs' = (if k = key r then Some r else row k rs)"
proof -
  have "rs' = rs @ [r]" "\<forall>r'\<in>set rs. key r' \<noteq> key r"
    using assms clash_key by (auto simp: insert_row_def split: if_splits)
  then show ?thesis
    using find_None_iff [of "\<lambda>r'. key r' = key r" rs]
    by (cases "row k rs") (auto simp: row_def find_append dest: find_Some_iff_unique)
qed

lemma row_delete:
  assumes "keyed rs"
  shows "row k (delete_rows p rs) = (case row k rs of None \<Rightarrow> None | Some r \<Rightarrow> if p r then None else Some r)"
proof (cases "row k (delete_rows p rs)")
  case None
  then show ?thesis
    using row_Some [OF assms] by (auto simp: row_None split: option.split)
next
  case (Some r)
  then have "row k rs = Some r" "\<not> p r"
    using row_Some [OF assms] row_Some [OF keyed_delete [OF assms]] by auto
  with Some show ?thesis by simp
qed

lemma row_update:
  "(\<And>r. key (f r) = key r) \<Longrightarrow>
     row k (update_rows p f rs) = map_option (\<lambda>r. if p r then f r else r) (row k rs)"
  by (induction rs) (auto simp: row_def update_rows_def)

end

end
