(* ===== verification/Sqlite.thy ===== *)
theory Sqlite
  imports Tables
begin

text \<open>
  The SQLite repository (\<open>src/src/db/sqlite.rs\<close>, with the rows of \<open>src/src/db/models.rs\<close> and the
  interface of \<open>src/src/db/mod.rs\<close>). A database is a record of tables, one row record per
  \<open>CREATE TABLE\<close>; an operation takes the database and returns its result and the database after it.
  \<open>Utc::now().timestamp()\<close> and \<open>Uuid::new_v4()\<close> are arguments.

  A statement can fail for a constraint; the failures of the disk or of a busy database are not
  modelled. An error is the string \<open>to_string()\<close> shows, which after \<open>.context(c)\<close> is \<open>c\<close> alone.
  Ties of an \<open>ORDER BY\<close> keep the order of the rows.
\<close>

section \<open>Rows and tables\<close>

record user_row =
  u_id :: string
  u_username :: string
  u_password_hash :: string
  u_role :: string
  u_created_at :: int
  u_updated_at :: int
  u_oidc_sub :: "string option"
  u_oidc_issuer :: "string option"
  u_active :: bool

record device_row =
  d_id :: string
  d_user_id :: string
  d_name :: string
  d_device_key :: "string option"
  d_created_at :: int
  d_last_seen_at :: int

record cursor_row =
  c_device_id :: string
  c_provider :: string
  c_last_ts :: int
  c_updated_at :: int

record token_row =
  t_jti :: string
  t_user_id :: string
  t_device_id :: "string option"
  t_expires_at :: int
  t_revoked :: bool
  t_created_at :: int

record team_row =
  g_id :: string
  g_name :: string
  g_created_at :: int
  g_updated_at :: int

record member_row =
  m_team_id :: string
  m_user_id :: string
  m_role :: string
  m_joined_at :: int

record code_row =
  k_device_code :: string
  k_user_code :: string
  k_expires_at :: int
  k_approved_by :: "string option"
  k_access_token :: "string option"
  k_refresh_token :: "string option"

record pending_row =
  p_id :: string
  p_username :: string
  p_password_hash :: string
  p_requested_at :: int

record setting_row =
  s_key :: string
  s_value :: string
  s_updated_at :: int

record monitor_row =
  w_user_id :: string
  w_key :: string
  w_value :: string
  w_size_bytes :: int
  w_version :: int
  w_updated_at :: int

record sqlite_db =
  users :: "user_row list"
  devices :: "device_row list"
  cursors :: "cursor_row list"
  refresh_tokens :: "token_row list"
  teams :: "team_row list"
  team_members :: "member_row list"
  device_codes :: "code_row list"
  pending_registrations :: "pending_row list"
  server_settings :: "setting_row list"
  monitor_settings :: "monitor_row list"

definition empty_db :: sqlite_db where
  "empty_db = \<lparr>users = [], devices = [], cursors = [], refresh_tokens = [], teams = [], team_members = [],
     device_codes = [], pending_registrations = [], server_settings = [], monitor_settings = []\<rparr>"

type_synonym 'a db_result = "'a result \<times> sqlite_db"

text \<open>What two rows of a table may not share.\<close>

definition user_clash :: "user_row \<Rightarrow> user_row \<Rightarrow> bool" where
  "user_clash r r' \<longleftrightarrow> u_id r' = u_id r \<or> u_username r' = u_username r \<or>
     (u_oidc_sub r \<noteq> None \<and> u_oidc_sub r' = u_oidc_sub r \<and> u_oidc_issuer r \<noteq> None \<and> u_oidc_issuer r' = u_oidc_issuer r)"

definition device_clash :: "device_row \<Rightarrow> device_row \<Rightarrow> bool" where
  "device_clash r r' \<longleftrightarrow> d_id r' = d_id r \<or> (d_device_key r \<noteq> None \<and> d_device_key r' = d_device_key r)"

definition cursor_clash :: "cursor_row \<Rightarrow> cursor_row \<Rightarrow> bool" where
  "cursor_clash r r' \<longleftrightarrow> c_device_id r' = c_device_id r \<and> c_provider r' = c_provider r"

definition token_clash :: "token_row \<Rightarrow> token_row \<Rightarrow> bool" where
  "token_clash r r' \<longleftrightarrow> t_jti r' = t_jti r"

definition team_clash :: "team_row \<Rightarrow> team_row \<Rightarrow> bool" where
  "team_clash r r' \<longleftrightarrow> g_id r' = g_id r \<or> g_name r' = g_name r"

definition member_clash :: "member_row \<Rightarrow> member_row \<Rightarrow> bool" where
  "member_clash r r' \<longleftrightarrow> m_team_id r' = m_team_id r \<and> m_user_id r' = m_user_id r"

definition code_clash :: "code_row \<Rightarrow> code_row \<Rightarrow> bool" where
  "code_clash r r' \<longleftrightarrow> k_device_code r' = k_device_code r \<or> k_user_code r' = k_user_code r"

definition pending_clash :: "pending_row \<Rightarrow> pending_row \<Rightarrow> bool" where
  "pending_clash r r' \<longleftrightarrow> p_id r' = p_id r \<or> p_username r' = p_username r"

definition setting_clash :: "setting_row \<Rightarrow> setting_row \<Rightarrow> bool" where
  "setting_clash r r' \<longleftrightarrow> s_key r' = s_key r"

definition monitor_clash :: "monitor_row \<Rightarrow> monitor_row \<Rightarrow> bool" where
  "monitor_clash r r' \<longleftrightarrow> w_user_id r' = w_user_id r \<and> w_key r' = w_key r"

text \<open>The statements that touch a foreign key: an insert needs its parents, a delete takes the
  children declared \<open>ON DELETE CASCADE\<close> with it.\<close>

definition has_user :: "sqlite_db \<Rightarrow> string \<Rightarrow> bool" where
  "has_user db u = exists_row (\<lambda>r. u_id r = u) (users db)"

definition has_device :: "sqlite_db \<Rightarrow> string \<Rightarrow> bool" where
  "has_device db d = exists_row (\<lambda>r. d_id r = d) (devices db)"

definition has_team :: "sqlite_db \<Rightarrow> string \<Rightarrow> bool" where
  "has_team db g = exists_row (\<lambda>r. g_id r = g) (teams db)"

definition delete_devices :: "(device_row \<Rightarrow> bool) \<Rightarrow> sqlite_db \<Rightarrow> sqlite_db" where
  "delete_devices p db =
     db\<lparr>devices := delete_rows p (devices db),
        cursors := delete_rows (\<lambda>c. exists_row (\<lambda>r. p r \<and> d_id r = c_device_id c) (devices db)) (cursors db)\<rparr>"

definition delete_users :: "(user_row \<Rightarrow> bool) \<Rightarrow> sqlite_db \<Rightarrow> sqlite_db" where
  "delete_users p db =
     (let gone = (\<lambda>u. exists_row (\<lambda>r. p r \<and> u_id r = u) (users db));
          db = delete_devices (\<lambda>r. gone (d_user_id r)) db
      in db\<lparr>users := delete_rows p (users db),
            refresh_tokens := delete_rows (\<lambda>r. gone (t_user_id r)) (refresh_tokens db),
            team_members := delete_rows (\<lambda>r. gone (m_user_id r)) (team_members db),
            monitor_settings := delete_rows (\<lambda>r. gone (w_user_id r)) (monitor_settings db)\<rparr>)"

definition delete_teams :: "(team_row \<Rightarrow> bool) \<Rightarrow> sqlite_db \<Rightarrow> sqlite_db" where
  "delete_teams p db =
     db\<lparr>teams := delete_rows p (teams db),
        team_members := delete_rows (\<lambda>m. exists_row (\<lambda>r. p r \<and> g_id r = m_team_id m) (teams db)) (team_members db)\<rparr>"

definition insert_user :: "user_row \<Rightarrow> sqlite_db \<Rightarrow> sql_error + sqlite_db" where
  "insert_user r db = (case insert_row user_clash r (users db) of Inl e \<Rightarrow> Inl e | Inr rs \<Rightarrow> Inr (db\<lparr>users := rs\<rparr>))"

definition insert_device :: "device_row \<Rightarrow> sqlite_db \<Rightarrow> sql_error + sqlite_db" where
  "insert_device r db =
     (case insert_row device_clash r (devices db) of
        Inl e \<Rightarrow> Inl e
      | Inr rs \<Rightarrow> if has_user db (d_user_id r) then Inr (db\<lparr>devices := rs\<rparr>) else Inl Foreign_Key_Failed)"

definition insert_token :: "token_row \<Rightarrow> sqlite_db \<Rightarrow> sql_error + sqlite_db" where
  "insert_token r db =
     (case insert_row token_clash r (refresh_tokens db) of
        Inl e \<Rightarrow> Inl e
      | Inr rs \<Rightarrow> if has_user db (t_user_id r) then Inr (db\<lparr>refresh_tokens := rs\<rparr>) else Inl Foreign_Key_Failed)"

definition insert_member :: "member_row \<Rightarrow> sqlite_db \<Rightarrow> sql_error + sqlite_db" where
  "insert_member r db =
     (case insert_row member_clash r (team_members db) of
        Inl e \<Rightarrow> Inl e
      | Inr rs \<Rightarrow> if has_team db (m_team_id r) \<and> has_user db (m_user_id r)
                  then Inr (db\<lparr>team_members := rs\<rparr>) else Inl Foreign_Key_Failed)"

text \<open>The text of SQLite's message, and what the repository makes of an error.\<close>

definition sql_display :: "sql_error \<Rightarrow> string" where
  "sql_display e = (case e of
     Unique_Failed \<Rightarrow> ''UNIQUE constraint failed''
   | Foreign_Key_Failed \<Rightarrow> ''FOREIGN KEY constraint failed''
   | Conflict_Target_Unmatched \<Rightarrow> ''ON CONFLICT clause does not match any PRIMARY KEY or UNIQUE constraint'')"

definition contains :: "string \<Rightarrow> string \<Rightarrow> bool" where
  "contains s sub = sublist sub s"

definition with_context :: "string \<Rightarrow> sql_error + sqlite_db \<Rightarrow> sqlite_db \<Rightarrow> unit db_result" where
  "with_context c r db = (case r of Inl _ \<Rightarrow> (Inl c, db) | Inr db' \<Rightarrow> (Inr (), db'))"

section \<open>Seeding\<close>

text \<open>The admin row \<open>migrate\<close> adds to a database without users; \<open>hash\<close> is the bcrypt hash of
  the seed password.\<close>

definition seed_admin :: "int \<Rightarrow> string \<Rightarrow> string \<Rightarrow> sqlite_db \<Rightarrow> unit db_result" where
  "seed_admin now uuid hash db =
     (if users db = []
      then with_context ''seed: create default admin''
        (insert_user \<lparr>u_id = uuid, u_username = ''admin'', u_password_hash = hash, u_role = ''admin'',
           u_created_at = now, u_updated_at = now, u_oidc_sub = None, u_oidc_issuer = None, u_active = True\<rparr> db) db
      else (Inr (), db))"

section \<open>Users\<close>

record new_user =
  nu_id :: string
  nu_username :: string
  nu_password_hash :: string
  nu_role :: string

record new_oidc_user =
  no_id :: string
  no_username :: string
  no_role :: string
  no_oidc_sub :: string
  no_oidc_issuer :: string

record user_summary =
  us_id :: string
  us_username :: string
  us_role :: string
  us_created_at :: int
  us_active :: bool

definition get_user_by_username :: "string \<Rightarrow> sqlite_db \<Rightarrow> user_row option result" where
  "get_user_by_username username db = Inr (find (\<lambda>r. u_username r = username) (users db))"

definition get_user_by_id :: "string \<Rightarrow> sqlite_db \<Rightarrow> user_row option result" where
  "get_user_by_id i db = Inr (find (\<lambda>r. u_id r = i) (users db))"

definition create_user :: "int \<Rightarrow> new_user \<Rightarrow> sqlite_db \<Rightarrow> unit db_result" where
  "create_user now u db =
     (case insert_user \<lparr>u_id = nu_id u, u_username = nu_username u, u_password_hash = nu_password_hash u,
             u_role = nu_role u, u_created_at = now, u_updated_at = now,
             u_oidc_sub = None, u_oidc_issuer = None, u_active = True\<rparr> db of
        Inl e \<Rightarrow> (Inl (if contains (sql_display e) ''UNIQUE''
                      then ''UNIQUE constraint violation: username already exists''
                      else ''create_user: '' @ sql_display e), db)
      | Inr db' \<Rightarrow> (Inr (), db'))"

definition delete_user :: "string \<Rightarrow> sqlite_db \<Rightarrow> bool db_result" where
  "delete_user i db =
     (Inr (rows_affected (\<lambda>r. u_id r = i) (users db) > 0), delete_users (\<lambda>r. u_id r = i) db)"

definition update_password :: "int \<Rightarrow> string \<Rightarrow> string \<Rightarrow> sqlite_db \<Rightarrow> unit db_result" where
  "update_password now user hash db =
     (Inr (), db\<lparr>users := update_rows (\<lambda>r. u_id r = user)
        (\<lambda>r. r\<lparr>u_password_hash := hash, u_updated_at := now\<rparr>) (users db)\<rparr>)"

definition list_users :: "sqlite_db \<Rightarrow> user_summary list result" where
  "list_users db = Inr (map (\<lambda>r. \<lparr>us_id = u_id r, us_username = u_username r, us_role = u_role r,
     us_created_at = u_created_at r, us_active = u_active r\<rparr>) (sort_key u_created_at (users db)))"

definition user_is_admin :: "string \<Rightarrow> sqlite_db \<Rightarrow> bool result" where
  "user_is_admin user db = Inr (map_option u_role (find (\<lambda>r. u_id r = user) (users db)) = Some ''admin'')"

definition update_user_role :: "int \<Rightarrow> string \<Rightarrow> string \<Rightarrow> sqlite_db \<Rightarrow> bool db_result" where
  "update_user_role now user role db =
     (Inr (rows_affected (\<lambda>r. u_id r = user) (users db) > 0),
      db\<lparr>users := update_rows (\<lambda>r. u_id r = user) (\<lambda>r. r\<lparr>u_role := role, u_updated_at := now\<rparr>) (users db)\<rparr>)"

definition set_user_active :: "int \<Rightarrow> string \<Rightarrow> bool \<Rightarrow> sqlite_db \<Rightarrow> bool db_result" where
  "set_user_active now user active db =
     (Inr (rows_affected (\<lambda>r. u_id r = user) (users db) > 0),
      db\<lparr>users := update_rows (\<lambda>r. u_id r = user) (\<lambda>r. r\<lparr>u_active := active, u_updated_at := now\<rparr>) (users db)\<rparr>)"

definition count_active_admins_except :: "string \<Rightarrow> sqlite_db \<Rightarrow> nat result" where
  "count_active_admins_except username db =
     Inr (rows_affected (\<lambda>r. u_role r = ''admin'' \<and> u_active r \<and> u_username r \<noteq> username) (users db))"

definition find_user_by_oidc :: "string \<Rightarrow> string \<Rightarrow> sqlite_db \<Rightarrow> user_row option result" where
  "find_user_by_oidc issuer sub db =
     Inr (find (\<lambda>r. u_oidc_issuer r = Some issuer \<and> u_oidc_sub r = Some sub) (users db))"

text \<open>The upsert names \<open>(oidc_issuer, oidc_sub)\<close> as its conflict target without the \<open>WHERE\<close> of
  the partial index, the only index on these columns, so SQLite finds no index to match and the
  statement does not compile.\<close>

definition upsert_target_matches :: "bool \<Rightarrow> bool \<Rightarrow> bool" where
  "upsert_target_matches index_is_partial target_has_where \<longleftrightarrow> (index_is_partial \<longrightarrow> target_has_where)"

definition create_oidc_user :: "int \<Rightarrow> new_oidc_user \<Rightarrow> sqlite_db \<Rightarrow> unit db_result" where
  "create_oidc_user now u db =
     (let r = \<lparr>u_id = no_id u, u_username = no_username u, u_password_hash = [], u_role = no_role u,
                u_created_at = now, u_updated_at = now, u_oidc_sub = Some (no_oidc_sub u),
                u_oidc_issuer = Some (no_oidc_issuer u), u_active = True\<rparr>;
          same = (\<lambda>r. u_oidc_sub r = Some (no_oidc_sub u) \<and> u_oidc_issuer r = Some (no_oidc_issuer u))
      in with_context ''create_oidc_user''
          (if \<not> upsert_target_matches True False then Inl Conflict_Target_Unmatched
           else if exists_row same (users db)
           then Inr (db\<lparr>users := update_rows same (\<lambda>r. r\<lparr>u_updated_at := now\<rparr>) (users db)\<rparr>)
           else insert_user r db) db)"

section \<open>Devices\<close>

record device_summary =
  ds_id :: string
  ds_name :: string
  ds_device_key :: string
  ds_last_seen_at :: int

record device_admin_summary =
  da_id :: string
  da_name :: string
  da_username :: string
  da_last_seen_at :: int

definition find_device_by_key_and_user :: "string \<Rightarrow> string \<Rightarrow> sqlite_db \<Rightarrow> string option result" where
  "find_device_by_key_and_user device_key user db =
     Inr (map_option d_id (find (\<lambda>r. d_device_key r = Some device_key \<and> d_user_id r = user) (devices db)))"

definition create_device :: "int \<Rightarrow> string \<Rightarrow> string \<Rightarrow> string \<Rightarrow> string \<Rightarrow> sqlite_db \<Rightarrow> unit db_result" where
  "create_device now i user name device_key db =
     with_context ''create_device'' (insert_device \<lparr>d_id = i, d_user_id = user, d_name = name,
       d_device_key = Some device_key, d_created_at = now, d_last_seen_at = now\<rparr> db) db"

definition update_device_seen :: "int \<Rightarrow> string \<Rightarrow> string \<Rightarrow> sqlite_db \<Rightarrow> unit db_result" where
  "update_device_seen now i name db =
     (Inr (), db\<lparr>devices := update_rows (\<lambda>r. d_id r = i) (\<lambda>r. r\<lparr>d_last_seen_at := now, d_name := name\<rparr>) (devices db)\<rparr>)"

definition list_user_devices :: "string \<Rightarrow> sqlite_db \<Rightarrow> device_summary list result" where
  "list_user_devices user db =
     Inr (map (\<lambda>r. \<lparr>ds_id = d_id r, ds_name = d_name r,
            ds_device_key = (case d_device_key r of None \<Rightarrow> [] | Some k \<Rightarrow> k), ds_last_seen_at = d_last_seen_at r\<rparr>)
       (sort_key (\<lambda>r. - d_last_seen_at r) (filter (\<lambda>r. d_user_id r = user) (devices db))))"

definition list_all_devices :: "sqlite_db \<Rightarrow> device_admin_summary list result" where
  "list_all_devices db =
     Inr (sort_key (\<lambda>r. - da_last_seen_at r)
       (concat (map (\<lambda>r. map (\<lambda>u. \<lparr>da_id = d_id r, da_name = d_name r, da_username = u_username u,
            da_last_seen_at = d_last_seen_at r\<rparr>) (filter (\<lambda>u. u_id u = d_user_id r) (users db))) (devices db))))"

definition delete_device :: "string \<Rightarrow> sqlite_db \<Rightarrow> bool db_result" where
  "delete_device i db =
     (Inr (rows_affected (\<lambda>r. d_id r = i) (devices db) > 0), delete_devices (\<lambda>r. d_id r = i) db)"

definition delete_user_device :: "string \<Rightarrow> string \<Rightarrow> sqlite_db \<Rightarrow> bool db_result" where
  "delete_user_device i user db =
     (Inr (rows_affected (\<lambda>r. d_id r = i \<and> d_user_id r = user) (devices db) > 0),
      delete_devices (\<lambda>r. d_id r = i \<and> d_user_id r = user) db)"

definition device_belongs_to_user :: "string \<Rightarrow> string \<Rightarrow> sqlite_db \<Rightarrow> bool result" where
  "device_belongs_to_user i user db = Inr (rows_affected (\<lambda>r. d_id r = i \<and> d_user_id r = user) (devices db) > 0)"

definition rename_device :: "string \<Rightarrow> string \<Rightarrow> string \<Rightarrow> sqlite_db \<Rightarrow> bool db_result" where
  "rename_device i user name db =
     (Inr (rows_affected (\<lambda>r. d_id r = i \<and> d_user_id r = user) (devices db) > 0),
      db\<lparr>devices := update_rows (\<lambda>r. d_id r = i \<and> d_user_id r = user) (\<lambda>r. r\<lparr>d_name := name\<rparr>) (devices db)\<rparr>)"

definition get_user_device_ids :: "string \<Rightarrow> sqlite_db \<Rightarrow> string list result" where
  "get_user_device_ids user db = Inr (map d_id (filter (\<lambda>r. d_user_id r = user) (devices db)))"

section \<open>Cursors\<close>

text \<open>\<open>INSERT OR IGNORE\<close> skips a row that violates a unique key; a missing device is still an error.\<close>

definition ensure_cursor :: "int \<Rightarrow> string \<Rightarrow> string \<Rightarrow> sqlite_db \<Rightarrow> unit db_result" where
  "ensure_cursor now dev prov db =
     (case insert_row cursor_clash \<lparr>c_device_id = dev, c_provider = prov, c_last_ts = 0, c_updated_at = now\<rparr> (cursors db) of
        Inl _ \<Rightarrow> (Inr (), db)
      | Inr rs \<Rightarrow> if has_device db dev then (Inr (), db\<lparr>cursors := rs\<rparr>) else (Inl ''ensure_cursor'', db))"

definition get_last_ts :: "string \<Rightarrow> string \<Rightarrow> sqlite_db \<Rightarrow> int result" where
  "get_last_ts dev prov db =
     Inr (case find (\<lambda>r. c_device_id r = dev \<and> c_provider r = prov) (cursors db) of
            None \<Rightarrow> 0 | Some r \<Rightarrow> c_last_ts r)"

definition advance_cursor :: "int \<Rightarrow> string \<Rightarrow> string \<Rightarrow> int \<Rightarrow> sqlite_db \<Rightarrow> unit db_result" where
  "advance_cursor now dev prov ts db =
     (Inr (), db\<lparr>cursors := update_rows (\<lambda>r. c_device_id r = dev \<and> c_provider r = prov)
        (\<lambda>r. r\<lparr>c_last_ts := max (c_last_ts r) ts, c_updated_at := now\<rparr>) (cursors db)\<rparr>)"

definition reset_cursor :: "int \<Rightarrow> string \<Rightarrow> string \<Rightarrow> sqlite_db \<Rightarrow> unit db_result" where
  "reset_cursor now dev prov db =
     (Inr (), db\<lparr>cursors := update_rows (\<lambda>r. c_device_id r = dev \<and> c_provider r = prov)
        (\<lambda>r. r\<lparr>c_last_ts := 0, c_updated_at := now\<rparr>) (cursors db)\<rparr>)"

section \<open>Teams\<close>

record team_with_count =
  tc_id :: string
  tc_name :: string
  tc_member_count :: nat
  tc_created_at :: int

record team_membership =
  tm_team_id :: string
  tm_team_name :: string
  tm_role :: string

record team_member_summary =
  ts_user_id :: string
  ts_username :: string
  ts_role :: string
  ts_joined_at :: int

definition create_team :: "int \<Rightarrow> string \<Rightarrow> string \<Rightarrow> sqlite_db \<Rightarrow> unit db_result" where
  "create_team now i name db =
     with_context ''create_team''
       (case insert_row team_clash \<lparr>g_id = i, g_name = name, g_created_at = now, g_updated_at = now\<rparr> (teams db) of
          Inl e \<Rightarrow> Inl e | Inr rs \<Rightarrow> Inr (db\<lparr>teams := rs\<rparr>)) db"

definition get_team :: "string \<Rightarrow> sqlite_db \<Rightarrow> team_row option result" where
  "get_team i db = Inr (find (\<lambda>r. g_id r = i) (teams db))"

definition list_teams :: "sqlite_db \<Rightarrow> team_row list result" where
  "list_teams db = Inr (sort_key g_name (teams db))"

definition list_teams_with_member_count :: "sqlite_db \<Rightarrow> team_with_count list result" where
  "list_teams_with_member_count db =
     Inr (map (\<lambda>r. \<lparr>tc_id = g_id r, tc_name = g_name r,
            tc_member_count = rows_affected (\<lambda>m. m_team_id m = g_id r) (team_members db),
            tc_created_at = g_created_at r\<rparr>) (sort_key g_created_at (teams db)))"

definition delete_team :: "string \<Rightarrow> sqlite_db \<Rightarrow> bool db_result" where
  "delete_team i db = (Inr (rows_affected (\<lambda>r. g_id r = i) (teams db) > 0), delete_teams (\<lambda>r. g_id r = i) db)"

definition list_user_teams :: "string \<Rightarrow> sqlite_db \<Rightarrow> team_membership list result" where
  "list_user_teams user db =
     Inr (sort_key tm_team_name
       (concat (map (\<lambda>m. map (\<lambda>g. \<lparr>tm_team_id = m_team_id m, tm_team_name = g_name g, tm_role = m_role m\<rparr>)
            (filter (\<lambda>g. g_id g = m_team_id m) (teams db)))
          (filter (\<lambda>m. m_user_id m = user) (team_members db)))))"

definition add_team_member :: "int \<Rightarrow> string \<Rightarrow> string \<Rightarrow> string \<Rightarrow> sqlite_db \<Rightarrow> unit db_result" where
  "add_team_member now team user role db =
     with_context ''add_team_member''
       (insert_member \<lparr>m_team_id = team, m_user_id = user, m_role = role, m_joined_at = now\<rparr> db) db"

definition remove_team_member :: "string \<Rightarrow> string \<Rightarrow> sqlite_db \<Rightarrow> bool db_result" where
  "remove_team_member team user db =
     (Inr (rows_affected (\<lambda>m. m_team_id m = team \<and> m_user_id m = user) (team_members db) > 0),
      db\<lparr>team_members := delete_rows (\<lambda>m. m_team_id m = team \<and> m_user_id m = user) (team_members db)\<rparr>)"

definition list_team_members :: "string \<Rightarrow> sqlite_db \<Rightarrow> team_member_summary list result" where
  "list_team_members team db =
     Inr (sort_key ts_joined_at
       (concat (map (\<lambda>m. map (\<lambda>u. \<lparr>ts_user_id = m_user_id m, ts_username = u_username u, ts_role = m_role m,
              ts_joined_at = m_joined_at m\<rparr>) (filter (\<lambda>u. u_id u = m_user_id m) (users db)))
          (filter (\<lambda>m. m_team_id m = team) (team_members db)))))"

definition get_team_member_role :: "string \<Rightarrow> string \<Rightarrow> sqlite_db \<Rightarrow> string option result" where
  "get_team_member_role team user db =
     Inr (map_option m_role (find (\<lambda>m. m_team_id m = team \<and> m_user_id m = user) (team_members db)))"

section \<open>Pending registrations\<close>

record pending_registration =
  pr_id :: string
  pr_username :: string
  pr_requested_at :: int

definition create_pending_registration :: "int \<Rightarrow> string \<Rightarrow> string \<Rightarrow> string \<Rightarrow> sqlite_db \<Rightarrow> unit db_result" where
  "create_pending_registration now i username hash db =
     (case insert_row pending_clash \<lparr>p_id = i, p_username = username, p_password_hash = hash, p_requested_at = now\<rparr>
             (pending_registrations db) of
        Inl e \<Rightarrow> (Inl (if contains (sql_display e) ''UNIQUE''
                      then ''UNIQUE constraint violation: username already pending''
                      else ''create_pending_registration: '' @ sql_display e), db)
      | Inr rs \<Rightarrow> (Inr (), db\<lparr>pending_registrations := rs\<rparr>))"

definition list_pending_registrations :: "sqlite_db \<Rightarrow> pending_registration list result" where
  "list_pending_registrations db =
     Inr (map (\<lambda>r. \<lparr>pr_id = p_id r, pr_username = p_username r, pr_requested_at = p_requested_at r\<rparr>)
       (sort_key p_requested_at (pending_registrations db)))"

text \<open>A transaction that fails leaves the database as it was.\<close>

definition approve_registration :: "int \<Rightarrow> string \<Rightarrow> string \<Rightarrow> sqlite_db \<Rightarrow> bool db_result" where
  "approve_registration now uuid i db =
     (case find (\<lambda>r. p_id r = i) (pending_registrations db) of
        None \<Rightarrow> (Inr False, db)
      | Some p \<Rightarrow>
          if rows_affected (\<lambda>r. u_username r = p_username p) (users db) > 0
          then (Inl ''UNIQUE constraint: username already exists in users'', db)
          else (case insert_user \<lparr>u_id = uuid, u_username = p_username p, u_password_hash = p_password_hash p,
                       u_role = ''user'', u_created_at = now, u_updated_at = now,
                       u_oidc_sub = None, u_oidc_issuer = None, u_active = True\<rparr> db of
                  Inl _ \<Rightarrow> (Inl ''approve_registration: create user'', db)
                | Inr db' \<Rightarrow> (Inr True, db'\<lparr>pending_registrations :=
                      delete_rows (\<lambda>r. p_id r = p_id p) (pending_registrations db')\<rparr>)))"

definition reject_registration :: "string \<Rightarrow> sqlite_db \<Rightarrow> bool db_result" where
  "reject_registration i db =
     (Inr (rows_affected (\<lambda>r. p_id r = i) (pending_registrations db) > 0),
      db\<lparr>pending_registrations := delete_rows (\<lambda>r. p_id r = i) (pending_registrations db)\<rparr>)"

definition cleanup_old_pending_registrations :: "int \<Rightarrow> int \<Rightarrow> sqlite_db \<Rightarrow> nat db_result" where
  "cleanup_old_pending_registrations now max_age db =
     (Inr (rows_affected (\<lambda>r. p_requested_at r < now - max_age) (pending_registrations db)),
      db\<lparr>pending_registrations := delete_rows (\<lambda>r. p_requested_at r < now - max_age) (pending_registrations db)\<rparr>)"

section \<open>Refresh tokens\<close>

definition store_refresh_token :: "int \<Rightarrow> string \<Rightarrow> string \<Rightarrow> string option \<Rightarrow> int \<Rightarrow> sqlite_db \<Rightarrow> unit db_result" where
  "store_refresh_token now jti user dev expires_at db =
     with_context ''store_refresh_token'' (insert_token \<lparr>t_jti = jti, t_user_id = user, t_device_id = dev,
       t_expires_at = expires_at, t_revoked = False, t_created_at = now\<rparr> db) db"

definition is_refresh_token_revoked :: "string \<Rightarrow> sqlite_db \<Rightarrow> bool result" where
  "is_refresh_token_revoked jti db =
     Inr (case find (\<lambda>r. t_jti r = jti) (refresh_tokens db) of None \<Rightarrow> True | Some r \<Rightarrow> t_revoked r)"

definition revoke_refresh_token :: "string \<Rightarrow> sqlite_db \<Rightarrow> unit db_result" where
  "revoke_refresh_token jti db =
     (Inr (), db\<lparr>refresh_tokens := update_rows (\<lambda>r. t_jti r = jti) (\<lambda>r. r\<lparr>t_revoked := True\<rparr>) (refresh_tokens db)\<rparr>)"

definition revoke_user_refresh_tokens :: "string \<Rightarrow> sqlite_db \<Rightarrow> unit db_result" where
  "revoke_user_refresh_tokens user db =
     (Inr (), db\<lparr>refresh_tokens := update_rows (\<lambda>r. t_user_id r = user \<and> \<not> t_revoked r)
        (\<lambda>r. r\<lparr>t_revoked := True\<rparr>) (refresh_tokens db)\<rparr>)"

definition rotate_refresh_token ::
  "int \<Rightarrow> string \<Rightarrow> string \<Rightarrow> string \<Rightarrow> string option \<Rightarrow> int \<Rightarrow> sqlite_db \<Rightarrow> unit db_result" where
  "rotate_refresh_token now old_jti new_jti user dev expires_at db =
     (if (case find (\<lambda>r. t_jti r = old_jti) (refresh_tokens db) of None \<Rightarrow> True | Some r \<Rightarrow> t_revoked r)
      then (Inl ''refresh token already used or revoked'', db)
      else with_context ''failed to store new refresh token''
        (insert_token \<lparr>t_jti = new_jti, t_user_id = user, t_device_id = dev,
           t_expires_at = expires_at, t_revoked = False, t_created_at = now\<rparr>
          (db\<lparr>refresh_tokens := update_rows (\<lambda>r. t_jti r = old_jti) (\<lambda>r. r\<lparr>t_revoked := True\<rparr>) (refresh_tokens db)\<rparr>)) db)"

definition cleanup_expired_tokens :: "int \<Rightarrow> sqlite_db \<Rightarrow> nat db_result" where
  "cleanup_expired_tokens now db =
     (Inr (rows_affected (\<lambda>r. t_expires_at r < now \<or> t_revoked r) (refresh_tokens db)),
      db\<lparr>refresh_tokens := delete_rows (\<lambda>r. t_expires_at r < now \<or> t_revoked r) (refresh_tokens db)\<rparr>)"

section \<open>Device codes\<close>

definition create_device_code :: "string \<Rightarrow> string \<Rightarrow> int \<Rightarrow> sqlite_db \<Rightarrow> unit db_result" where
  "create_device_code device_code user_code expires_at db =
     with_context ''create_device_code''
       (case insert_row code_clash \<lparr>k_device_code = device_code, k_user_code = user_code, k_expires_at = expires_at,
               k_approved_by = None, k_access_token = None, k_refresh_token = None\<rparr> (device_codes db) of
          Inl e \<Rightarrow> Inl e | Inr rs \<Rightarrow> Inr (db\<lparr>device_codes := rs\<rparr>)) db"

definition get_device_code :: "string \<Rightarrow> sqlite_db \<Rightarrow> code_row option result" where
  "get_device_code device_code db = Inr (find (\<lambda>r. k_device_code r = device_code) (device_codes db))"

definition get_device_code_by_user_code :: "string \<Rightarrow> sqlite_db \<Rightarrow> code_row option result" where
  "get_device_code_by_user_code user_code db = Inr (find (\<lambda>r. k_user_code r = user_code) (device_codes db))"

definition approve_device_code :: "string \<Rightarrow> string \<Rightarrow> string \<Rightarrow> string \<Rightarrow> sqlite_db \<Rightarrow> bool db_result" where
  "approve_device_code user_code user access refresh db =
     (Inr (rows_affected (\<lambda>r. k_user_code r = user_code \<and> k_approved_by r = None) (device_codes db) > 0),
      db\<lparr>device_codes := update_rows (\<lambda>r. k_user_code r = user_code \<and> k_approved_by r = None)
        (\<lambda>r. r\<lparr>k_approved_by := Some user, k_access_token := Some access, k_refresh_token := Some refresh\<rparr>) (device_codes db)\<rparr>)"

definition delete_device_code :: "string \<Rightarrow> sqlite_db \<Rightarrow> unit db_result" where
  "delete_device_code device_code db =
     (Inr (), db\<lparr>device_codes := delete_rows (\<lambda>r. k_device_code r = device_code) (device_codes db)\<rparr>)"

definition cleanup_expired_device_codes :: "int \<Rightarrow> sqlite_db \<Rightarrow> nat db_result" where
  "cleanup_expired_device_codes now db =
     (Inr (rows_affected (\<lambda>r. k_expires_at r < now) (device_codes db)),
      db\<lparr>device_codes := delete_rows (\<lambda>r. k_expires_at r < now) (device_codes db)\<rparr>)"

section \<open>Server settings\<close>

definition get_server_setting :: "string \<Rightarrow> sqlite_db \<Rightarrow> string option result" where
  "get_server_setting key db = Inr (map_option s_value (find (\<lambda>r. s_key r = key) (server_settings db)))"

definition set_server_setting :: "int \<Rightarrow> string \<Rightarrow> string \<Rightarrow> sqlite_db \<Rightarrow> unit db_result" where
  "set_server_setting now key val db =
     (Inr (), db\<lparr>server_settings :=
        (case insert_row setting_clash \<lparr>s_key = key, s_value = val, s_updated_at = now\<rparr> (server_settings db) of
           Inl _ \<Rightarrow> update_rows (\<lambda>r. s_key r = key) (\<lambda>r. r\<lparr>s_value := val, s_updated_at := now\<rparr>) (server_settings db)
         | Inr rs \<Rightarrow> rs)\<rparr>)"

definition list_server_settings :: "sqlite_db \<Rightarrow> (string \<times> string) list result" where
  "list_server_settings db = Inr (map (\<lambda>r. (s_key r, s_value r)) (sort_key s_key (server_settings db)))"

definition health_check :: "sqlite_db \<Rightarrow> unit result" where
  "health_check db = Inr ()"

section \<open>Monitor settings\<close>

record monitor_setting =
  ms_key :: string
  ms_value :: string
  ms_version :: int
  ms_updated_at :: int

record monitor_setting_meta =
  mm_key :: string
  mm_version :: int
  mm_updated_at :: int
  mm_size_bytes :: int

record monitor_quota =
  q_max_entries :: int
  q_max_total_bytes :: int

record monitor_usage =
  mu_entries :: int
  mu_total_bytes :: int

datatype monitor_write_outcome =
    Written int int "int option"
  | Write_Version_Mismatch "int option" "int option"
  | Quota_Exceeded string int int

datatype monitor_delete_outcome = Deleted | Not_Found | Delete_Version_Mismatch int int

definition monitor_of :: "string \<Rightarrow> sqlite_db \<Rightarrow> monitor_row list" where
  "monitor_of user db = filter (\<lambda>r. w_user_id r = user) (monitor_settings db)"

definition monitor_row_at :: "string \<Rightarrow> string \<Rightarrow> sqlite_db \<Rightarrow> monitor_row option" where
  "monitor_row_at user key db = find (\<lambda>r. w_user_id r = user \<and> w_key r = key) (monitor_settings db)"

definition list_monitor_settings :: "string \<Rightarrow> sqlite_db \<Rightarrow> monitor_setting list result" where
  "list_monitor_settings user db =
     Inr (map (\<lambda>r. \<lparr>ms_key = w_key r, ms_value = w_value r, ms_version = w_version r, ms_updated_at = w_updated_at r\<rparr>)
       (sort_key w_key (monitor_of user db)))"

definition list_monitor_setting_index :: "string \<Rightarrow> sqlite_db \<Rightarrow> monitor_setting_meta list result" where
  "list_monitor_setting_index user db =
     Inr (map (\<lambda>r. \<lparr>mm_key = w_key r, mm_version = w_version r, mm_updated_at = w_updated_at r, mm_size_bytes = w_size_bytes r\<rparr>)
       (sort_key w_key (monitor_of user db)))"

definition get_monitor_setting :: "string \<Rightarrow> string \<Rightarrow> sqlite_db \<Rightarrow> monitor_setting option result" where
  "get_monitor_setting user key db =
     Inr (map_option (\<lambda>r. \<lparr>ms_key = key, ms_value = w_value r, ms_version = w_version r, ms_updated_at = w_updated_at r\<rparr>)
       (monitor_row_at user key db))"

definition monitor_settings_usage :: "string \<Rightarrow> sqlite_db \<Rightarrow> monitor_usage result" where
  "monitor_settings_usage user db =
     Inr \<lparr>mu_entries = int (length (monitor_of user db)), mu_total_bytes = sum_list (map w_size_bytes (monitor_of user db))\<rparr>"

definition upsert_monitor_setting ::
  "int \<Rightarrow> string \<Rightarrow> string \<Rightarrow> string \<Rightarrow> int option \<Rightarrow> monitor_quota \<Rightarrow> sqlite_db \<Rightarrow> monitor_write_outcome db_result" where
  "upsert_monitor_setting now user key val if_version quota db =
     (let size = int (length val);
          current = monitor_row_at user key db;
          actual = (case current of None \<Rightarrow> 0 | Some r \<Rightarrow> w_version r)
      in if (case if_version of None \<Rightarrow> False | Some expected \<Rightarrow> actual \<noteq> expected)
         then (Inr (Write_Version_Mismatch (map_option w_version current) (map_option w_updated_at current)), db)
         else
           (let count = int (length (monitor_of user db));
                total = sum_list (map w_size_bytes (monitor_of user db));
                existing_size = (case current of None \<Rightarrow> 0 | Some r \<Rightarrow> w_size_bytes r);
                new_count = (if current \<noteq> None then count else count + 1);
                new_total = total - existing_size + size
            in if new_count > q_max_entries quota
               then (Inr (Quota_Exceeded ''entries'' new_count (q_max_entries quota)), db)
               else if new_total > q_max_total_bytes quota
               then (Inr (Quota_Exceeded ''bytes'' new_total (q_max_total_bytes quota)), db)
               else (case current of
                   Some r \<Rightarrow>
                     (Inr (Written (w_version r + 1) now (Some (w_version r))),
                      db\<lparr>monitor_settings := update_rows (\<lambda>r. w_user_id r = user \<and> w_key r = key)
                        (\<lambda>r. r\<lparr>w_value := val, w_size_bytes := size, w_version := w_version r + 1, w_updated_at := now\<rparr>)
                        (monitor_settings db)\<rparr>)
                 | None \<Rightarrow>
                     if has_user db user
                     then (Inr (Written 1 now None), db\<lparr>monitor_settings := monitor_settings db @
                        [\<lparr>w_user_id = user, w_key = key, w_value = val, w_size_bytes = size, w_version = 1, w_updated_at = now\<rparr>]\<rparr>)
                     else (Inl ''upsert_monitor_setting: write'', db))))"

definition delete_monitor_setting :: "string \<Rightarrow> string \<Rightarrow> int option \<Rightarrow> sqlite_db \<Rightarrow> monitor_delete_outcome db_result" where
  "delete_monitor_setting user key if_version db =
     (let hit = (\<lambda>r. w_user_id r = user \<and> w_key r = key \<and>
                   (case if_version of None \<Rightarrow> True | Some expected \<Rightarrow> w_version r = expected));
          affected = rows_affected hit (monitor_settings db);
          db' = db\<lparr>monitor_settings := delete_rows hit (monitor_settings db)\<rparr>
      in if affected > 0 then (Inr Deleted, db')
         else (case monitor_row_at user key db' of
                 Some r \<Rightarrow> if if_version \<noteq> None then (Inr (Delete_Version_Mismatch (w_version r) (w_updated_at r)), db')
                           else (Inr Not_Found, db')
               | None \<Rightarrow> (Inr Not_Found, db')))"

end
