(* ===== verification/Repository.thy ===== *)
theory Repository
  imports Sqlite
begin

text \<open>
  What the repository promises, whatever sequence of its operations has run: \<open>db_op\<close> lists every
  operation that changes the database, \<open>db_exec\<close> runs one, and \<open>db_reachable\<close> is what any sequence
  of them leads to. The invariant \<open>db_ok\<close> is the schema: the declared keys are unique and every
  foreign key has its parent. On it rest the single use of refresh tokens, the cursors that only
  move forward, and the monitor store's versions and quota.
\<close>

section \<open>The operations\<close>

datatype db_op =
    Seed_Admin string string
  | Create_User new_user
  | Delete_User string
  | Update_Password string string
  | Update_User_Role string string
  | Set_User_Active string bool
  | Create_Oidc_User new_oidc_user
  | Create_Device string string string string
  | Update_Device_Seen string string
  | Delete_Device string
  | Delete_User_Device string string
  | Rename_Device string string string
  | Ensure_Cursor string string
  | Advance_Cursor string string int
  | Reset_Cursor string string
  | Create_Team string string
  | Delete_Team string
  | Add_Team_Member string string string
  | Remove_Team_Member string string
  | Create_Pending string string string
  | Approve_Registration string string
  | Reject_Registration string
  | Cleanup_Pending int
  | Store_Token string string "string option" int
  | Revoke_Token string
  | Revoke_User_Tokens string
  | Rotate_Token string string string "string option" int
  | Cleanup_Tokens
  | Create_Code string string int
  | Approve_Code string string string string
  | Delete_Code string
  | Cleanup_Codes
  | Set_Server_Setting string string
  | Upsert_Monitor string string string "int option" monitor_quota
  | Delete_Monitor string string "int option"

fun db_exec :: "int \<Rightarrow> db_op \<Rightarrow> sqlite_db \<Rightarrow> sqlite_db" where
  "db_exec now (Seed_Admin i h) db = snd (seed_admin now i h db)"
| "db_exec now (Create_User u) db = snd (create_user now u db)"
| "db_exec now (Delete_User i) db = snd (delete_user i db)"
| "db_exec now (Update_Password u h) db = snd (update_password now u h db)"
| "db_exec now (Update_User_Role u r) db = snd (update_user_role now u r db)"
| "db_exec now (Set_User_Active u a) db = snd (set_user_active now u a db)"
| "db_exec now (Create_Oidc_User u) db = snd (create_oidc_user now u db)"
| "db_exec now (Create_Device i u n k) db = snd (create_device now i u n k db)"
| "db_exec now (Update_Device_Seen i n) db = snd (update_device_seen now i n db)"
| "db_exec now (Delete_Device i) db = snd (delete_device i db)"
| "db_exec now (Delete_User_Device i u) db = snd (delete_user_device i u db)"
| "db_exec now (Rename_Device i u n) db = snd (rename_device i u n db)"
| "db_exec now (Ensure_Cursor d p) db = snd (ensure_cursor now d p db)"
| "db_exec now (Advance_Cursor d p ts) db = snd (advance_cursor now d p ts db)"
| "db_exec now (Reset_Cursor d p) db = snd (reset_cursor now d p db)"
| "db_exec now (Create_Team i n) db = snd (create_team now i n db)"
| "db_exec now (Delete_Team i) db = snd (delete_team i db)"
| "db_exec now (Add_Team_Member g u r) db = snd (add_team_member now g u r db)"
| "db_exec now (Remove_Team_Member g u) db = snd (remove_team_member g u db)"
| "db_exec now (Create_Pending i u h) db = snd (create_pending_registration now i u h db)"
| "db_exec now (Approve_Registration uuid i) db = snd (approve_registration now uuid i db)"
| "db_exec now (Reject_Registration i) db = snd (reject_registration i db)"
| "db_exec now (Cleanup_Pending age) db = snd (cleanup_old_pending_registrations now age db)"
| "db_exec now (Store_Token j u d e) db = snd (store_refresh_token now j u d e db)"
| "db_exec now (Revoke_Token j) db = snd (revoke_refresh_token j db)"
| "db_exec now (Revoke_User_Tokens u) db = snd (revoke_user_refresh_tokens u db)"
| "db_exec now (Rotate_Token j j' u d e) db = snd (rotate_refresh_token now j j' u d e db)"
| "db_exec now Cleanup_Tokens db = snd (cleanup_expired_tokens now db)"
| "db_exec now (Create_Code d u e) db = snd (create_device_code d u e db)"
| "db_exec now (Approve_Code c u a r) db = snd (approve_device_code c u a r db)"
| "db_exec now (Delete_Code d) db = snd (delete_device_code d db)"
| "db_exec now Cleanup_Codes db = snd (cleanup_expired_device_codes now db)"
| "db_exec now (Set_Server_Setting k v) db = snd (set_server_setting now k v db)"
| "db_exec now (Upsert_Monitor u k v e q) db = snd (upsert_monitor_setting now u k v e q db)"
| "db_exec now (Delete_Monitor u k e) db = snd (delete_monitor_setting u k e db)"

inductive db_reachable :: "sqlite_db \<Rightarrow> bool" where
  start: "db_reachable empty_db"
| step: "db_reachable db \<Longrightarrow> db_reachable (db_exec now op db)"

section \<open>The schema invariant\<close>

definition users_ok :: "sqlite_db \<Rightarrow> bool" where
  "users_ok db \<longleftrightarrow> distinct (map u_id (users db)) \<and> distinct (map u_username (users db))"

definition devices_ok :: "sqlite_db \<Rightarrow> bool" where
  "devices_ok db \<longleftrightarrow> distinct (map d_id (devices db)) \<and> distinct_key d_device_key (devices db) \<and>
     (\<forall>r\<in>set (devices db). d_user_id r \<in> u_id ` set (users db))"

definition cursors_ok :: "sqlite_db \<Rightarrow> bool" where
  "cursors_ok db \<longleftrightarrow> distinct (map (\<lambda>r. (c_device_id r, c_provider r)) (cursors db)) \<and>
     (\<forall>r\<in>set (cursors db). c_device_id r \<in> d_id ` set (devices db))"

definition tokens_ok :: "sqlite_db \<Rightarrow> bool" where
  "tokens_ok db \<longleftrightarrow> distinct (map t_jti (refresh_tokens db)) \<and>
     (\<forall>r\<in>set (refresh_tokens db). t_user_id r \<in> u_id ` set (users db))"

definition teams_ok :: "sqlite_db \<Rightarrow> bool" where
  "teams_ok db \<longleftrightarrow> distinct (map g_id (teams db)) \<and> distinct (map g_name (teams db))"

definition members_ok :: "sqlite_db \<Rightarrow> bool" where
  "members_ok db \<longleftrightarrow> distinct (map (\<lambda>r. (m_team_id r, m_user_id r)) (team_members db)) \<and>
     (\<forall>r\<in>set (team_members db). m_team_id r \<in> g_id ` set (teams db)) \<and>
     (\<forall>r\<in>set (team_members db). m_user_id r \<in> u_id ` set (users db))"

definition codes_ok :: "sqlite_db \<Rightarrow> bool" where
  "codes_ok db \<longleftrightarrow> distinct (map k_device_code (device_codes db)) \<and> distinct (map k_user_code (device_codes db))"

definition pending_ok :: "sqlite_db \<Rightarrow> bool" where
  "pending_ok db \<longleftrightarrow> distinct (map p_id (pending_registrations db)) \<and> distinct (map p_username (pending_registrations db))"

definition settings_ok :: "sqlite_db \<Rightarrow> bool" where
  "settings_ok db \<longleftrightarrow> distinct (map s_key (server_settings db))"

definition monitor_ok :: "sqlite_db \<Rightarrow> bool" where
  "monitor_ok db \<longleftrightarrow> distinct (map (\<lambda>r. (w_user_id r, w_key r)) (monitor_settings db)) \<and>
     (\<forall>r\<in>set (monitor_settings db). w_user_id r \<in> u_id ` set (users db)) \<and>
     (\<forall>r\<in>set (monitor_settings db). w_size_bytes r = int (length (w_value r)) \<and> 1 \<le> w_version r)"

definition db_ok :: "sqlite_db \<Rightarrow> bool" where
  "db_ok db \<longleftrightarrow> users_ok db \<and> devices_ok db \<and> cursors_ok db \<and> tokens_ok db \<and> teams_ok db \<and>
     members_ok db \<and> codes_ok db \<and> pending_ok db \<and> settings_ok db \<and> monitor_ok db"

lemmas db_ok_defs = users_ok_def devices_ok_def cursors_ok_def tokens_ok_def teams_ok_def
  members_ok_def codes_ok_def pending_ok_def settings_ok_def monitor_ok_def

lemma has_user_iff: "has_user db u \<longleftrightarrow> u \<in> u_id ` set (users db)"
  by (auto simp: has_user_def exists_row_def)

lemma has_device_iff: "has_device db d \<longleftrightarrow> d \<in> d_id ` set (devices db)"
  by (auto simp: has_device_def exists_row_def)

lemma has_team_iff: "has_team db g \<longleftrightarrow> g \<in> g_id ` set (teams db)"
  by (auto simp: has_team_def exists_row_def)

text \<open>How the statements act on keys and foreign keys.\<close>

lemma map_update_rows [simp]: "(\<And>r. key (f r) = key r) \<Longrightarrow> map key (update_rows p f rs) = map key rs"
  by (induction rs) (auto simp: update_rows_def)

lemma image_update_rows [simp]: "(\<And>r. key (f r) = key r) \<Longrightarrow> key ` set (update_rows p f rs) = key ` set rs"
  by (metis list.set_map map_update_rows)

lemma ball_update_rows [simp]:
  "(\<And>r. key (f r) = key r) \<Longrightarrow> (\<forall>r\<in>set (update_rows p f rs). key r \<in> A) \<longleftrightarrow> (\<forall>r\<in>set rs. key r \<in> A)"
  by (induction rs) (auto simp: update_rows_def)

lemma distinct_delete_rows [simp]: "distinct (map key rs) \<Longrightarrow> distinct (map key (delete_rows p rs))"
  by (simp add: delete_rows_def distinct_map_filter)

lemma insert_row_Inr: "insert_row clash r rs = Inr rs' \<Longrightarrow> rs' = rs @ [r] \<and> (\<forall>r'\<in>set rs. \<not> clash r r')"
  by (auto simp: insert_row_def split: if_splits)

lemma cascade_keeps_parents:
  assumes "\<forall>c\<in>set cs. f c \<in> g ` set ps"
  shows "\<forall>c\<in>set (delete_rows (\<lambda>c. exists_row (\<lambda>r. p r \<and> g r = f c) ps) cs). f c \<in> g ` set (delete_rows p ps)"
  using assms by (fastforce simp: exists_row_def)

text \<open>Replacing one table by rows that satisfy its own part of the schema.\<close>

lemma db_ok_set_users:
  assumes "db_ok db" "map u_id rs = map u_id (users db)" "map u_username rs = map u_username (users db)"
  shows "db_ok (db\<lparr>users := rs\<rparr>)"
proof -
  have "u_id ` set rs = u_id ` set (users db)" using assms(2) by (metis list.set_map)
  with assms show ?thesis by (simp add: db_ok_def db_ok_defs)
qed

lemma db_ok_add_user:
  assumes "db_ok db" "insert_user r db = Inr db'"
  shows "db_ok db'"
proof -
  have "db' = db\<lparr>users := users db @ [r]\<rparr>" "\<forall>r'\<in>set (users db). \<not> user_clash r r'"
    using assms(2) by (auto simp: insert_user_def dest!: insert_row_Inr split: sum.splits)
  with assms(1) show ?thesis by (auto simp: db_ok_def db_ok_defs user_clash_def)
qed

lemma db_ok_set_devices:
  assumes "db_ok db" "map d_id rs = map d_id (devices db)"
    "map d_device_key rs = map d_device_key (devices db)" "map d_user_id rs = map d_user_id (devices db)"
  shows "db_ok (db\<lparr>devices := rs\<rparr>)"
proof -
  have "d_id ` set rs = d_id ` set (devices db)" "d_user_id ` set rs = d_user_id ` set (devices db)"
    using assms(2,4) by (metis list.set_map)+
  moreover from this(2) have "\<forall>r\<in>set rs. d_user_id r \<in> u_id ` set (users db)"
    using assms(1) by (force simp: db_ok_def devices_ok_def)
  moreover have "List.map_filter d_device_key rs = List.map_filter d_device_key (devices db)"
    using assms(3) by (metis map_filter_of_map)
  ultimately show ?thesis using assms by (simp add: db_ok_def db_ok_defs distinct_key_def)
qed

lemma db_ok_add_device:
  assumes "db_ok db" "insert_device r db = Inr db'"
  shows "db_ok db'"
proof -
  obtain rs where rs: "insert_row device_clash r (devices db) = Inr rs" "db' = db\<lparr>devices := rs\<rparr>"
    "has_user db (d_user_id r)"
    using assms(2) by (auto simp: insert_device_def split: sum.splits if_splits)
  have "distinct_key d_device_key rs"
    using assms(1) by (intro distinct_key_insert [OF _ rs(1)]) (auto simp: db_ok_def devices_ok_def device_clash_def key_clash_def)
  with rs assms(1) insert_row_Inr [OF rs(1)] show ?thesis
    by (auto simp: db_ok_def db_ok_defs device_clash_def has_user_iff)
qed

lemma db_ok_set_cursors:
  "db_ok db \<Longrightarrow> cursors_ok (db\<lparr>cursors := rs\<rparr>) \<Longrightarrow> db_ok (db\<lparr>cursors := rs\<rparr>)"
  by (simp add: db_ok_def db_ok_defs)

lemma db_ok_set_tokens:
  "db_ok db \<Longrightarrow> tokens_ok (db\<lparr>refresh_tokens := rs\<rparr>) \<Longrightarrow> db_ok (db\<lparr>refresh_tokens := rs\<rparr>)"
  by (simp add: db_ok_def db_ok_defs)

lemma db_ok_add_token:
  assumes "db_ok db" "insert_token r db = Inr db'"
  shows "db_ok db'"
proof -
  obtain rs where rs: "insert_row token_clash r (refresh_tokens db) = Inr rs" "db' = db\<lparr>refresh_tokens := rs\<rparr>"
    "has_user db (t_user_id r)"
    using assms(2) by (auto simp: insert_token_def split: sum.splits if_splits)
  have "tokens_ok (db\<lparr>refresh_tokens := rs\<rparr>)"
    using assms(1) insert_row_Inr [OF rs(1)] rs(3) by (auto simp: db_ok_def tokens_ok_def token_clash_def has_user_iff)
  with db_ok_set_tokens [OF assms(1)] show ?thesis by (simp add: rs(2))
qed

lemma db_ok_set_teams:
  assumes "db_ok db" "teams_ok (db\<lparr>teams := rs\<rparr>)" "g_id ` set (teams db) \<subseteq> g_id ` set rs"
  shows "db_ok (db\<lparr>teams := rs\<rparr>)"
proof -
  have "\<forall>r\<in>set (team_members db). m_team_id r \<in> g_id ` set rs"
    using assms(1,3) by (force simp: db_ok_def members_ok_def)
  with assms(1,2) show ?thesis by (simp add: db_ok_def db_ok_defs)
qed

lemma db_ok_set_members:
  "db_ok db \<Longrightarrow> members_ok (db\<lparr>team_members := rs\<rparr>) \<Longrightarrow> db_ok (db\<lparr>team_members := rs\<rparr>)"
  by (simp add: db_ok_def db_ok_defs)

lemma db_ok_add_member:
  assumes "db_ok db" "insert_member r db = Inr db'"
  shows "db_ok db'"
proof -
  obtain rs where rs: "insert_row member_clash r (team_members db) = Inr rs" "db' = db\<lparr>team_members := rs\<rparr>"
    "has_team db (m_team_id r)" "has_user db (m_user_id r)"
    using assms(2) by (auto simp: insert_member_def split: sum.splits if_splits)
  have "members_ok (db\<lparr>team_members := rs\<rparr>)"
    using assms(1) insert_row_Inr [OF rs(1)] rs(3,4)
    by (auto simp: db_ok_def members_ok_def member_clash_def has_user_iff has_team_iff)
  with db_ok_set_members [OF assms(1)] show ?thesis by (simp add: rs(2))
qed

lemma db_ok_set_codes:
  "db_ok db \<Longrightarrow> codes_ok (db\<lparr>device_codes := rs\<rparr>) \<Longrightarrow> db_ok (db\<lparr>device_codes := rs\<rparr>)"
  by (simp add: db_ok_def db_ok_defs)

lemma db_ok_set_pending:
  "db_ok db \<Longrightarrow> pending_ok (db\<lparr>pending_registrations := rs\<rparr>) \<Longrightarrow> db_ok (db\<lparr>pending_registrations := rs\<rparr>)"
  by (simp add: db_ok_def db_ok_defs)

lemma db_ok_set_settings:
  "db_ok db \<Longrightarrow> settings_ok (db\<lparr>server_settings := rs\<rparr>) \<Longrightarrow> db_ok (db\<lparr>server_settings := rs\<rparr>)"
  by (simp add: db_ok_def db_ok_defs)

lemma db_ok_set_monitor:
  "db_ok db \<Longrightarrow> monitor_ok (db\<lparr>monitor_settings := rs\<rparr>) \<Longrightarrow> db_ok (db\<lparr>monitor_settings := rs\<rparr>)"
  by (simp add: db_ok_def db_ok_defs)

section \<open>Every operation keeps the schema\<close>

lemma with_context_ok:
  "db_ok db \<Longrightarrow> (\<And>db'. r = Inr db' \<Longrightarrow> db_ok db') \<Longrightarrow> db_ok (snd (with_context c r db))"
  by (cases r) (auto simp: with_context_def)

lemma delete_devices_ok: "db_ok db \<Longrightarrow> db_ok (delete_devices p db)"
  using cascade_keeps_parents [of "cursors db" c_device_id d_id "devices db" p]
  by (simp add: db_ok_def db_ok_defs delete_devices_def distinct_key_delete)

lemma delete_users_ok:
  assumes "db_ok db"
  shows "db_ok (delete_users p db)"
proof -
  let ?gone = "\<lambda>u. exists_row (\<lambda>r. p r \<and> u_id r = u) (users db)"
  have ok: "db_ok (delete_devices (\<lambda>r. ?gone (d_user_id r)) db)" using assms by (rule delete_devices_ok)
  have "\<forall>c\<in>set (delete_rows (\<lambda>c. ?gone (f c)) cs). f c \<in> u_id ` set (delete_rows p (users db))"
    if "\<forall>c\<in>set cs. f c \<in> u_id ` set (users db)" for f :: "'c \<Rightarrow> string" and cs
    using that by (rule cascade_keeps_parents)
  note parents = this [of "devices db" d_user_id] this [of "refresh_tokens db" t_user_id]
    this [of "team_members db" m_user_id] this [of "monitor_settings db" w_user_id]
  show ?thesis
    using ok assms parents
    by (simp add: db_ok_def db_ok_defs delete_users_def delete_devices_def Let_def)
qed

lemma delete_teams_ok: "db_ok db \<Longrightarrow> db_ok (delete_teams p db)"
  using cascade_keeps_parents [of "team_members db" m_team_id g_id "teams db" p]
  by (simp add: db_ok_def db_ok_defs delete_teams_def)

lemma user_ops_ok:
  assumes "db_ok db"
  shows "db_ok (snd (seed_admin now i h db))" "db_ok (snd (create_user now nu db))"
    "db_ok (snd (delete_user i db))" "db_ok (snd (update_password now i h db))"
    "db_ok (snd (update_user_role now i h db))" "db_ok (snd (set_user_active now i a db))"
    "db_ok (snd (create_oidc_user now ou db))"
  using assms
  by (auto simp: seed_admin_def create_user_def delete_user_def update_password_def update_user_role_def
      set_user_active_def create_oidc_user_def upsert_target_matches_def Let_def
      intro!: with_context_ok db_ok_set_users delete_users_ok dest: db_ok_add_user split: sum.splits)

lemma device_ops_ok:
  assumes "db_ok db"
  shows "db_ok (snd (create_device now i u n k db))" "db_ok (snd (update_device_seen now i n db))"
    "db_ok (snd (delete_device i db))" "db_ok (snd (delete_user_device i u db))"
    "db_ok (snd (rename_device i u n db))"
  using assms
  by (auto simp: create_device_def update_device_seen_def delete_device_def delete_user_device_def rename_device_def
      intro!: with_context_ok db_ok_set_devices delete_devices_ok dest: db_ok_add_device)

lemma cursor_ops_ok:
  assumes "db_ok db"
  shows "db_ok (snd (ensure_cursor now d p db))" "db_ok (snd (advance_cursor now d p ts db))"
    "db_ok (snd (reset_cursor now d p db))"
proof -
  have c: "cursors_ok db" using assms by (simp add: db_ok_def)
  with assms show "db_ok (snd (advance_cursor now d p ts db))" "db_ok (snd (reset_cursor now d p db))"
    by (auto simp: advance_cursor_def reset_cursor_def cursors_ok_def intro!: db_ok_set_cursors)
  have "db_ok (db\<lparr>cursors := rs\<rparr>)"
    if "insert_row cursor_clash \<lparr>c_device_id = d, c_provider = p, c_last_ts = 0, c_updated_at = now\<rparr> (cursors db) = Inr rs"
      "has_device db d" for rs
    using insert_row_Inr [OF that(1)] that(2) c assms
    by (intro db_ok_set_cursors) (fastforce simp: cursors_ok_def cursor_clash_def has_device_iff)+
  with assms show "db_ok (snd (ensure_cursor now d p db))" by (auto simp: ensure_cursor_def split: sum.splits)
qed

lemma team_ops_ok:
  assumes "db_ok db"
  shows "db_ok (snd (create_team now i n db))" "db_ok (snd (delete_team i db))"
    "db_ok (snd (add_team_member now g u r db))" "db_ok (snd (remove_team_member g u db))"
proof -
  have "teams_ok db" "members_ok db" using assms by (simp_all add: db_ok_def)
  with assms show "db_ok (snd (create_team now i n db))" "db_ok (snd (delete_team i db))"
    "db_ok (snd (add_team_member now g u r db))" "db_ok (snd (remove_team_member g u db))"
    by (auto simp: create_team_def delete_team_def add_team_member_def remove_team_member_def
        teams_ok_def members_ok_def team_clash_def
        intro!: with_context_ok db_ok_set_teams db_ok_set_members delete_teams_ok
        dest!: insert_row_Inr dest: db_ok_add_member split: sum.splits)
qed

lemma pending_ops_ok:
  assumes "db_ok db"
  shows "db_ok (snd (create_pending_registration now i u h db))" "db_ok (snd (reject_registration i db))"
    "db_ok (snd (cleanup_old_pending_registrations now age db))"
proof -
  have "pending_ok db" using assms by (simp add: db_ok_def)
  with assms show "db_ok (snd (create_pending_registration now i u h db))" "db_ok (snd (reject_registration i db))"
    "db_ok (snd (cleanup_old_pending_registrations now age db))"
    by (auto simp: create_pending_registration_def reject_registration_def cleanup_old_pending_registrations_def
        pending_ok_def pending_clash_def intro!: db_ok_set_pending dest!: insert_row_Inr split: sum.splits)
qed

lemma approve_registration_ok:
  assumes "db_ok db"
  shows "db_ok (snd (approve_registration now uuid i db))"
proof -
  have "db_ok (db'\<lparr>pending_registrations := delete_rows (\<lambda>r. p_id r = j) (pending_registrations db')\<rparr>)"
    if "insert_user r db = Inr db'" for r db' j
  proof -
    have "db_ok db'" using assms that by (rule db_ok_add_user)
    then show ?thesis by (intro db_ok_set_pending) (simp_all add: db_ok_def pending_ok_def)
  qed
  with assms show ?thesis by (auto simp: approve_registration_def split: option.splits sum.splits)
qed

lemma token_ops_ok:
  assumes "db_ok db"
  shows "db_ok (snd (store_refresh_token now j u d e db))" "db_ok (snd (revoke_refresh_token j db))"
    "db_ok (snd (revoke_user_refresh_tokens u db))" "db_ok (snd (cleanup_expired_tokens now db))"
    "db_ok (snd (rotate_refresh_token now j j' u d e db))"
proof -
  have t: "tokens_ok db" using assms by (simp add: db_ok_def)
  have revoked: "db_ok (db\<lparr>refresh_tokens := update_rows p (\<lambda>r. r\<lparr>t_revoked := True\<rparr>) (refresh_tokens db)\<rparr>)" for p
    using t assms by (intro db_ok_set_tokens) (simp_all add: tokens_ok_def)
  show "db_ok (snd (rotate_refresh_token now j j' u d e db))"
    using revoked [of "\<lambda>r. t_jti r = j"] assms
    by (auto simp: rotate_refresh_token_def intro!: with_context_ok dest: db_ok_add_token)
  from t assms revoked show "db_ok (snd (store_refresh_token now j u d e db))" "db_ok (snd (revoke_refresh_token j db))"
    "db_ok (snd (revoke_user_refresh_tokens u db))" "db_ok (snd (cleanup_expired_tokens now db))"
    by (auto simp: store_refresh_token_def revoke_refresh_token_def revoke_user_refresh_tokens_def
        cleanup_expired_tokens_def tokens_ok_def intro!: with_context_ok db_ok_set_tokens dest: db_ok_add_token)
qed

lemma code_ops_ok:
  assumes "db_ok db"
  shows "db_ok (snd (create_device_code d u e db))" "db_ok (snd (approve_device_code u i a r db))"
    "db_ok (snd (delete_device_code d db))" "db_ok (snd (cleanup_expired_device_codes now db))"
proof -
  have "codes_ok db" using assms by (simp add: db_ok_def)
  with assms show "db_ok (snd (create_device_code d u e db))" "db_ok (snd (approve_device_code u i a r db))"
    "db_ok (snd (delete_device_code d db))" "db_ok (snd (cleanup_expired_device_codes now db))"
    by (auto simp: create_device_code_def approve_device_code_def delete_device_code_def
        cleanup_expired_device_codes_def codes_ok_def code_clash_def
        intro!: with_context_ok db_ok_set_codes dest!: insert_row_Inr split: sum.splits)
qed

lemma set_server_setting_ok:
  assumes "db_ok db"
  shows "db_ok (snd (set_server_setting now k v db))"
proof -
  have c: "settings_ok db" using assms by (simp add: db_ok_def)
  have "db_ok (db\<lparr>server_settings := rs\<rparr>)"
    if "insert_row setting_clash \<lparr>s_key = k, s_value = v, s_updated_at = now\<rparr> (server_settings db) = Inr rs" for rs
    using insert_row_Inr [OF that] c assms
    by (intro db_ok_set_settings) (auto simp: settings_ok_def setting_clash_def)
  moreover have "db_ok (db\<lparr>server_settings := update_rows (\<lambda>r. s_key r = k) (\<lambda>r. r\<lparr>s_value := v, s_updated_at := now\<rparr>) (server_settings db)\<rparr>)"
    using c assms by (intro db_ok_set_settings) (simp_all add: settings_ok_def)
  ultimately show ?thesis by (auto simp: set_server_setting_def split: sum.splits)
qed

lemma find_monitor: "monitor_row_at user key db = Some r \<Longrightarrow> r \<in> set (monitor_settings db) \<and> w_user_id r = user \<and> w_key r = key"
  by (auto simp: monitor_row_at_def dest!: find_Some_iff_unique)

lemma no_monitor: "monitor_row_at user key db = None \<longleftrightarrow> (\<forall>r\<in>set (monitor_settings db). (w_user_id r, w_key r) \<noteq> (user, key))"
  by (auto simp: monitor_row_at_def find_None_iff)

lemma monitor_ops_ok:
  assumes "db_ok db"
  shows "db_ok (snd (upsert_monitor_setting now user key val if_version quota db))"
    and "db_ok (snd (delete_monitor_setting user key if_version db))"
proof -
  have m: "monitor_ok db" using assms by (simp add: db_ok_def)
  have "db_ok (db\<lparr>monitor_settings := update_rows (\<lambda>r. w_user_id r = user \<and> w_key r = key)
      (\<lambda>r. r\<lparr>w_value := val, w_size_bytes := int (length val), w_version := w_version r + 1, w_updated_at := now\<rparr>)
      (monitor_settings db)\<rparr>)"
    using m assms by (intro db_ok_set_monitor) (auto simp: monitor_ok_def set_update_rows)
  moreover have "db_ok (db\<lparr>monitor_settings := monitor_settings db @
      [\<lparr>w_user_id = user, w_key = key, w_value = val, w_size_bytes = int (length val), w_version = 1, w_updated_at = now\<rparr>]\<rparr>)"
    if "monitor_row_at user key db = None" "has_user db user"
    using m assms that by (intro db_ok_set_monitor) (auto simp: monitor_ok_def no_monitor has_user_iff)
  ultimately show "db_ok (snd (upsert_monitor_setting now user key val if_version quota db))"
    using assms by (auto simp: upsert_monitor_setting_def Let_def split: option.splits)
  have "db_ok (db\<lparr>monitor_settings := delete_rows p (monitor_settings db)\<rparr>)" for p
    using m assms by (intro db_ok_set_monitor) (auto simp: monitor_ok_def)
  then show "db_ok (snd (delete_monitor_setting user key if_version db))"
    by (auto simp: delete_monitor_setting_def Let_def split: option.splits)
qed

lemmas db_ops_ok = user_ops_ok device_ops_ok cursor_ops_ok team_ops_ok pending_ops_ok
  approve_registration_ok token_ops_ok code_ops_ok set_server_setting_ok monitor_ops_ok

lemma db_exec_ok: "db_ok db \<Longrightarrow> db_ok (db_exec now op db)"
  by (cases op) (simp_all add: db_ops_ok)

lemma reachable_ok: "db_reachable db \<Longrightarrow> db_ok db"
proof (induction rule: db_reachable.induct)
  case start
  then show ?case by (simp add: empty_db_def db_ok_def db_ok_defs distinct_key_def map_filter_simps)
next
  case (step db now op)
  then show ?case by (simp add: db_exec_ok)
qed



end
