(* ===== verification/Guarantees.thy ===== *)
theory Guarantees
  imports Repository
begin

text \<open>
  What the clients of the repository rest on, over any sequence of its operations: a refresh token
  rotates once, a cursor moves only forward until it is reset, a conditional monitor write never
  overwrites what its author has not seen, the monitor store stays within its quota, and a deleted
  account leaves nothing behind.
\<close>

fun db_run :: "(int \<times> db_op) list \<Rightarrow> sqlite_db \<Rightarrow> sqlite_db" where
  "db_run [] db = db"
| "db_run ((now, op) # ops) db = db_run ops (db_exec now op db)"

lemma db_run_ok: "db_ok db \<Longrightarrow> db_ok (db_run ops db)"
  by (induction ops db rule: db_run.induct) (simp_all add: db_exec_ok)

text \<open>Each operation by the tables it can touch.\<close>

lemma insert_user_sel:
  "insert_user r db = Inr db' \<Longrightarrow> refresh_tokens db' = refresh_tokens db \<and> cursors db' = cursors db \<and>
     monitor_settings db' = monitor_settings db"
  by (auto simp: insert_user_def split: sum.splits)

lemma insert_device_sel:
  "insert_device r db = Inr db' \<Longrightarrow> refresh_tokens db' = refresh_tokens db \<and> cursors db' = cursors db \<and>
     monitor_settings db' = monitor_settings db"
  by (auto simp: insert_device_def split: sum.splits if_splits)

lemma insert_member_sel:
  "insert_member r db = Inr db' \<Longrightarrow> refresh_tokens db' = refresh_tokens db \<and> cursors db' = cursors db \<and>
     monitor_settings db' = monitor_settings db"
  by (auto simp: insert_member_def split: sum.splits if_splits)

lemma insert_token_sel:
  "insert_token r db = Inr db' \<Longrightarrow> cursors db' = cursors db \<and> monitor_settings db' = monitor_settings db"
  by (auto simp: insert_token_def split: sum.splits if_splits)

lemma with_context_sel:
  "(\<And>db'. r = Inr db' \<Longrightarrow> f db' = f db) \<Longrightarrow> f (snd (with_context c r db)) = f db"
  by (cases r) (auto simp: with_context_def)

lemmas op_defs = seed_admin_def create_user_def delete_user_def update_password_def update_user_role_def
  set_user_active_def create_oidc_user_def create_device_def update_device_seen_def delete_device_def
  delete_user_device_def rename_device_def ensure_cursor_def advance_cursor_def reset_cursor_def
  create_team_def delete_team_def add_team_member_def remove_team_member_def
  create_pending_registration_def approve_registration_def reject_registration_def
  cleanup_old_pending_registrations_def store_refresh_token_def revoke_refresh_token_def
  revoke_user_refresh_tokens_def rotate_refresh_token_def cleanup_expired_tokens_def
  create_device_code_def approve_device_code_def delete_device_code_def cleanup_expired_device_codes_def
  set_server_setting_def upsert_monitor_setting_def delete_monitor_setting_def

lemmas insert_sel = insert_user_sel insert_device_sel insert_member_sel insert_token_sel

lemmas delete_defs = delete_users_def delete_devices_def delete_teams_def

fun writes_tokens :: "db_op \<Rightarrow> bool" where
  "writes_tokens (Delete_User _) = True"
| "writes_tokens (Store_Token _ _ _ _) = True"
| "writes_tokens (Revoke_Token _) = True"
| "writes_tokens (Revoke_User_Tokens _) = True"
| "writes_tokens (Rotate_Token _ _ _ _ _) = True"
| "writes_tokens Cleanup_Tokens = True"
| "writes_tokens _ = False"

lemma tokens_untouched: "\<not> writes_tokens op \<Longrightarrow> refresh_tokens (db_exec now op db) = refresh_tokens db"
  by (cases op) (auto simp: op_defs delete_defs Let_def upsert_target_matches_def
      intro!: with_context_sel dest: insert_sel split: option.splits sum.splits)

fun writes_cursors :: "db_op \<Rightarrow> bool" where
  "writes_cursors (Delete_User _) = True"
| "writes_cursors (Delete_Device _) = True"
| "writes_cursors (Delete_User_Device _ _) = True"
| "writes_cursors (Ensure_Cursor _ _) = True"
| "writes_cursors (Advance_Cursor _ _ _) = True"
| "writes_cursors (Reset_Cursor _ _) = True"
| "writes_cursors _ = False"

lemma cursors_untouched: "\<not> writes_cursors op \<Longrightarrow> cursors (db_exec now op db) = cursors db"
  by (cases op) (auto simp: op_defs delete_defs Let_def upsert_target_matches_def
      intro!: with_context_sel dest: insert_sel split: option.splits sum.splits)

fun writes_monitor :: "db_op \<Rightarrow> bool" where
  "writes_monitor (Delete_User _) = True"
| "writes_monitor (Upsert_Monitor _ _ _ _ _) = True"
| "writes_monitor (Delete_Monitor _ _ _) = True"
| "writes_monitor _ = False"

lemma monitor_untouched: "\<not> writes_monitor op \<Longrightarrow> monitor_settings (db_exec now op db) = monitor_settings db"
  by (cases op) (auto simp: op_defs delete_defs Let_def upsert_target_matches_def
      intro!: with_context_sel dest: insert_sel split: option.splits sum.splits)

section \<open>Refresh tokens\<close>

definition token_dead :: "string \<Rightarrow> sqlite_db \<Rightarrow> bool" where
  "token_dead j db \<longleftrightarrow> (\<forall>r\<in>set (refresh_tokens db). t_jti r = j \<longrightarrow> t_revoked r)"

fun issues_token :: "string \<Rightarrow> db_op \<Rightarrow> bool" where
  "issues_token j (Store_Token j' _ _ _) = (j' = j)"
| "issues_token j (Rotate_Token _ j' _ _ _) = (j' = j)"
| "issues_token j _ = False"

lemma dead_token_answer:
  assumes "token_dead j db"
  shows "is_refresh_token_revoked j db = Inr True"
    "rotate_refresh_token now j j' u d e db = (Inl ''refresh token already used or revoked'', db)"
proof -
  have "(case find (\<lambda>r. t_jti r = j) (refresh_tokens db) of None \<Rightarrow> True | Some r \<Rightarrow> t_revoked r)"
    using assms by (auto simp: token_dead_def dest!: find_Some_iff_unique split: option.split)
  then show "is_refresh_token_revoked j db = Inr True"
    "rotate_refresh_token now j j' u d e db = (Inl ''refresh token already used or revoked'', db)"
    by (simp_all add: is_refresh_token_revoked_def rotate_refresh_token_def)
qed

lemma insert_token_fresh:
  assumes "insert_token r db = Inr db'"
  shows "t_jti r \<notin> t_jti ` set (refresh_tokens db)"
proof -
  obtain rs where "insert_row token_clash r (refresh_tokens db) = Inr rs"
    using assms by (auto simp: insert_token_def split: sum.splits)
  from insert_row_Inr [OF this] show ?thesis by (auto simp: token_clash_def)
qed

lemma insert_token_dead:
  assumes "token_dead j db" "insert_token r db = Inr db'" "t_jti r \<noteq> j"
  shows "token_dead j db'"
  using assms by (auto simp: insert_token_def token_dead_def dest!: insert_row_Inr split: sum.splits if_splits)

lemma revoking_dead:
  "token_dead j db \<Longrightarrow> token_dead j (db\<lparr>refresh_tokens := update_rows p (\<lambda>r. r\<lparr>t_revoked := True\<rparr>) (refresh_tokens db)\<rparr>)"
  by (auto simp: token_dead_def set_update_rows)

lemma deleting_dead:
  "token_dead j db \<Longrightarrow> refresh_tokens db' = delete_rows p (refresh_tokens db) \<Longrightarrow> token_dead j db'"
  by (auto simp: token_dead_def)

definition token_row_of :: "int \<Rightarrow> string \<Rightarrow> string \<Rightarrow> string option \<Rightarrow> int \<Rightarrow> token_row" where
  "token_row_of now j u d e = \<lparr>t_jti = j, t_user_id = u, t_device_id = d, t_expires_at = e, t_revoked = False, t_created_at = now\<rparr>"

definition revoke_rows :: "(token_row \<Rightarrow> bool) \<Rightarrow> sqlite_db \<Rightarrow> sqlite_db" where
  "revoke_rows p db = db\<lparr>refresh_tokens := update_rows p (\<lambda>r. r\<lparr>t_revoked := True\<rparr>) (refresh_tokens db)\<rparr>"

lemma revoke_rows_dead:
  assumes "\<And>r. r \<in> set (refresh_tokens db) \<Longrightarrow> t_jti r = j \<Longrightarrow> p r \<or> t_revoked r"
  shows "token_dead j (revoke_rows p db)"
  unfolding token_dead_def
proof (intro ballI impI)
  fix r assume r: "r \<in> set (refresh_tokens (revoke_rows p db))" "t_jti r = j"
  then obtain r0 where r0: "r0 \<in> set (refresh_tokens db)" "r = (if p r0 then r0\<lparr>t_revoked := True\<rparr> else r0)"
    by (auto simp: revoke_rows_def update_rows_def)
  with r(2) assms [of r0] show "t_revoked r" by (cases "p r0") auto
qed

lemma rotate_cases:
  obtains (refused) err where "rotate_refresh_token now old new u d e db = (Inl err, db)"
  | (stored) db' r where "rotate_refresh_token now old new u d e db = (Inr (), db')"
      "insert_token (token_row_of now new u d e) (revoke_rows (\<lambda>r. t_jti r = old) db) = Inr db'"
      "r \<in> set (refresh_tokens db)" "t_jti r = old"
proof (cases "find (\<lambda>r. t_jti r = old) (refresh_tokens db)")
  case None
  then show ?thesis by (intro refused) (simp add: rotate_refresh_token_def)
next
  case (Some r)
  note r = find_Some_iff_unique [OF Some]
  show ?thesis
  proof (cases "insert_token (token_row_of now new u d e) (revoke_rows (\<lambda>r. t_jti r = old) db)")
    case (Inl err)
    show ?thesis
    proof (cases "t_revoked r")
      case True
      then show ?thesis using Some by (intro refused) (simp add: rotate_refresh_token_def)
    next
      case False
      then show ?thesis using Some Inl
        by (intro refused) (simp add: rotate_refresh_token_def with_context_def token_row_of_def revoke_rows_def)
    qed
  next
    case (Inr db')
    show ?thesis
    proof (cases "t_revoked r")
      case True
      then show ?thesis using Some by (intro refused) (simp add: rotate_refresh_token_def)
    next
      case False
      then show ?thesis using Some Inr r
        by (intro stored [of db' r]) (simp_all add: rotate_refresh_token_def with_context_def token_row_of_def revoke_rows_def)
    qed
  qed
qed

lemma dead_stays_dead:
  assumes "token_dead j db" "\<not> issues_token j op"
  shows "token_dead j (db_exec now op db)"
proof (cases "writes_tokens op")
  case False
  then show ?thesis using assms(1) tokens_untouched by (simp add: token_dead_def)
next
  case True
  then show ?thesis
  proof (cases op)
    case (Delete_User i)
    with assms(1) show ?thesis by (auto simp: token_dead_def delete_user_def delete_defs Let_def)
  next
    case (Store_Token j' u d e)
    with assms insert_token_dead show ?thesis by (auto simp: store_refresh_token_def with_context_def split: sum.splits)
  next
    case (Rotate_Token old new u d e)
    show ?thesis
    proof (cases rule: rotate_cases [where now = now and old = old and new = new and u = u and d = d and e = e and db = db])
      case refused
      with assms(1) Rotate_Token show ?thesis by simp
    next
      case (stored db')
      have "token_dead j (revoke_rows (\<lambda>r. t_jti r = old) db)"
        unfolding revoke_rows_def using assms(1) by (rule revoking_dead)
      from insert_token_dead [OF this stored(2)] stored(1) assms(2) Rotate_Token show ?thesis
        by (simp add: token_row_of_def)
    qed
  qed (use assms(1) in \<open>auto simp: op_defs intro: revoking_dead deleting_dead\<close>)
qed

lemma run_stays_dead:
  "token_dead j db \<Longrightarrow> \<forall>(now, op)\<in>set ops. \<not> issues_token j op \<Longrightarrow> token_dead j (db_run ops db)"
  by (induction ops db rule: db_run.induct) (auto simp: dead_stays_dead)

lemma rotated_dead:
  assumes "rotate_refresh_token now old new u d e db = (Inr (), db')"
  shows "token_dead old db'"
proof (cases rule: rotate_cases [where now = now and old = old and new = new and u = u and d = d and e = e and db = db])
  case refused
  with assms show ?thesis by simp
next
  case (stored db'' r)
  have "old \<in> t_jti ` set (refresh_tokens (revoke_rows (\<lambda>r. t_jti r = old) db))"
    using stored(3,4) by (simp add: revoke_rows_def rev_image_eqI)
  moreover have "new \<notin> t_jti ` set (refresh_tokens (revoke_rows (\<lambda>r. t_jti r = old) db))"
    using insert_token_fresh [OF stored(2)] by (simp add: token_row_of_def)
  ultimately have "new \<noteq> old" by auto
  moreover have "token_dead old (revoke_rows (\<lambda>r. t_jti r = old) db)"
    by (rule revoke_rows_dead) simp
  ultimately have "token_dead old db''" using insert_token_dead [OF _ stored(2)] by (simp add: token_row_of_def)
  with assms stored(1) show ?thesis by simp
qed

theorem refresh_token_single_use:
  assumes "rotate_refresh_token now old new u d e db = (Inr (), db')"
    and "\<forall>(t, op)\<in>set ops. \<not> issues_token old op"
  shows "rotate_refresh_token later old new' u' d' e' (db_run ops db') =
    (Inl ''refresh token already used or revoked'', db_run ops db')"
proof -
  have "token_dead old db'" using assms(1) by (rule rotated_dead)
  then show ?thesis by (intro dead_token_answer run_stays_dead assms(2))
qed

theorem revocation_is_final:
  assumes "\<forall>(t, op)\<in>set ops. \<not> issues_token j op"
    and "(\<exists>r\<in>set (refresh_tokens db). t_jti r = j \<and> t_user_id r = u) \<or> (\<forall>r\<in>set (refresh_tokens db). t_jti r \<noteq> j)"
    and "distinct (map t_jti (refresh_tokens db))"
  shows "is_refresh_token_revoked j (db_run ops (snd (revoke_user_refresh_tokens u db))) = Inr True"
proof -
  have "t_user_id r = u" if r: "r \<in> set (refresh_tokens db)" "t_jti r = j" for r
  proof -
    obtain r' where "r' \<in> set (refresh_tokens db)" "t_jti r' = j" "t_user_id r' = u" using assms(2) r by blast
    moreover have "inj_on t_jti (set (refresh_tokens db))" using assms(3) by (simp add: distinct_map)
    ultimately have "r = r'" using r by (intro inj_onD [of t_jti]) simp_all
    with \<open>t_user_id r' = u\<close> show ?thesis by simp
  qed
  then have "token_dead j (revoke_rows (\<lambda>r. t_user_id r = u \<and> \<not> t_revoked r) db)"
    by (intro revoke_rows_dead) blast
  then have "token_dead j (snd (revoke_user_refresh_tokens u db))"
    by (simp add: revoke_user_refresh_tokens_def revoke_rows_def)
  then show ?thesis by (intro dead_token_answer run_stays_dead assms(1))
qed

section \<open>Cursors\<close>

definition last_ts :: "string \<Rightarrow> string \<Rightarrow> sqlite_db \<Rightarrow> int" where
  "last_ts dev prov db = (case get_last_ts dev prov db of Inl _ \<Rightarrow> 0 | Inr ts \<Rightarrow> ts)"

fun resets_cursor :: "string \<Rightarrow> string \<Rightarrow> db_op \<Rightarrow> bool" where
  "resets_cursor dev prov (Reset_Cursor d p) = (d = dev \<and> p = prov)"
| "resets_cursor dev prov (Delete_Device d) = (d = dev)"
| "resets_cursor dev prov (Delete_User_Device d u) = (d = dev)"
| "resets_cursor dev prov (Delete_User u) = True"
| "resets_cursor dev prov _ = False"

interpretation cursor_table: keyed_table "\<lambda>r. (c_device_id r, c_provider r)" cursor_clash
  by unfold_locales (simp add: cursor_clash_def)

lemma last_ts_row: "last_ts dev prov db = (case cursor_table.row (dev, prov) (cursors db) of None \<Rightarrow> 0 | Some r \<Rightarrow> c_last_ts r)"
  by (simp add: last_ts_def get_last_ts_def cursor_table.row_def)

lemma row_keep:
  assumes "\<forall>r\<in>set rs. key r = k \<longrightarrow> \<not> p r"
  shows "find (\<lambda>r. key r = k) (delete_rows p rs) = find (\<lambda>r. key r = k) rs"
  using assms by (induction rs) (auto simp: delete_rows_def)

lemma ensure_cursor_last_ts [simp]: "last_ts dev prov (snd (ensure_cursor now d p db)) = last_ts dev prov db"
proof (cases "insert_row cursor_clash \<lparr>c_device_id = d, c_provider = p, c_last_ts = 0, c_updated_at = now\<rparr> (cursors db)")
  case (Inr rs)
  have "cursor_table.row (d, p) (cursors db) = None"
    using insert_row_Inr [OF Inr] by (auto simp: cursor_table.row_None cursor_clash_def)
  then show ?thesis using cursor_table.row_insert [OF Inr, of "(dev, prov)"] Inr
    by (auto simp: ensure_cursor_def last_ts_row)
qed (simp add: ensure_cursor_def)

lemma cursor_row_key: "cursor_table.row (dev, prov) rs = Some r \<Longrightarrow> c_device_id r = dev \<and> c_provider r = prov"
  using find_Some_iff_unique by (fastforce simp: cursor_table.row_def)

lemma advance_cursor_last_ts:
  "last_ts dev prov (snd (advance_cursor now d p ts db)) =
     (if (d, p) = (dev, prov) \<and> cursor_table.row (dev, prov) (cursors db) \<noteq> None
      then max (last_ts dev prov db) ts else last_ts dev prov db)"
  by (cases "cursor_table.row (dev, prov) (cursors db)")
    (auto simp: advance_cursor_def last_ts_row cursor_table.row_update dest: cursor_row_key)

lemma reset_cursor_last_ts:
  "last_ts dev prov (snd (reset_cursor now d p db)) = (if (d, p) = (dev, prov) then 0 else last_ts dev prov db)"
  by (cases "cursor_table.row (dev, prov) (cursors db)")
    (auto simp: reset_cursor_def last_ts_row cursor_table.row_update dest: cursor_row_key)

lemma delete_devices_last_ts:
  assumes "\<forall>r\<in>set (devices db). p r \<longrightarrow> d_id r \<noteq> dev"
  shows "last_ts dev prov (delete_devices p db) = last_ts dev prov db"
proof -
  have "find (\<lambda>r. (c_device_id r, c_provider r) = (dev, prov)) (delete_rows q (cursors db)) =
      find (\<lambda>r. (c_device_id r, c_provider r) = (dev, prov)) (cursors db)"
    if "\<And>c. c_device_id c = dev \<Longrightarrow> \<not> q c" for q
    by (rule row_keep) (use that in auto)
  note keep = this [of "\<lambda>c. exists_row (\<lambda>r. p r \<and> d_id r = c_device_id c) (devices db)"]
  have "\<not> exists_row (\<lambda>r. p r \<and> d_id r = dev) (devices db)" using assms by (auto simp: exists_row_def)
  then show ?thesis using keep by (simp add: last_ts_row cursor_table.row_def delete_devices_def)
qed

lemma cursor_step_forward:
  assumes "\<not> resets_cursor dev prov op"
  shows "last_ts dev prov db \<le> last_ts dev prov (db_exec now op db)"
proof (cases "writes_cursors op")
  case False
  then have "cursors (db_exec now op db) = cursors db" by (rule cursors_untouched)
  then show ?thesis by (simp add: last_ts_row)
next
  case True
  then show ?thesis
  proof (cases op)
    case (Delete_Device d)
    with assms show ?thesis by (simp add: delete_device_def delete_devices_last_ts)
  next
    case (Delete_User_Device d u)
    with assms show ?thesis by (simp add: delete_user_device_def delete_devices_last_ts)
  next
    case (Reset_Cursor d p)
    with assms show ?thesis by (auto simp: reset_cursor_last_ts)
  qed (use assms in \<open>simp_all add: advance_cursor_last_ts\<close>)
qed

theorem cursor_only_moves_forward:
  assumes "\<forall>(now, op)\<in>set ops. \<not> resets_cursor dev prov op"
  shows "last_ts dev prov db \<le> last_ts dev prov (db_run ops db)"
  using assms
proof (induction ops db rule: db_run.induct)
  case (2 now op ops db)
  then have "last_ts dev prov db \<le> last_ts dev prov (db_exec now op db)" by (simp add: cursor_step_forward)
  also have "\<dots> \<le> last_ts dev prov (db_run ops (db_exec now op db))" using 2 by simp
  finally show ?case by simp
qed simp

section \<open>Monitor settings\<close>

interpretation monitor_table: keyed_table "\<lambda>r. (w_user_id r, w_key r)" monitor_clash
  by unfold_locales (simp add: monitor_clash_def)

lemma monitor_row_at_row: "monitor_row_at user key db = monitor_table.row (user, key) (monitor_settings db)"
  by (simp add: monitor_row_at_def monitor_table.row_def)

lemma monitor_keyed: "db_ok db \<Longrightarrow> monitor_table.keyed (monitor_settings db)"
  by (simp add: db_ok_def monitor_ok_def monitor_table.keyed_def)

lemma monitor_row_key: "monitor_row_at user key db = Some r \<Longrightarrow> w_user_id r = user \<and> w_key r = key"
  using find_monitor by blast

text \<open>What an upsert does, by outcome.\<close>

definition monitor_upsert_row :: "int \<Rightarrow> string \<Rightarrow> string \<Rightarrow> string \<Rightarrow> int \<Rightarrow> monitor_row" where
  "monitor_upsert_row now user key val version =
     \<lparr>w_user_id = user, w_key = key, w_value = val, w_size_bytes = int (length val), w_version = version, w_updated_at = now\<rparr>"

definition stored_version :: "string \<Rightarrow> string \<Rightarrow> sqlite_db \<Rightarrow> int" where
  "stored_version user key db = (case monitor_row_at user key db of None \<Rightarrow> 0 | Some r \<Rightarrow> w_version r)"

lemma find_snoc: "find p (xs @ [x]) = (case find p xs of None \<Rightarrow> if p x then Some x else None | Some y \<Rightarrow> Some y)"
  by (simp add: find_append split: option.split)

lemma upsert_written:
  assumes "upsert_monitor_setting now user key val if_version quota db = (Inr (Written version at prev), db')"
  shows "version = stored_version user key db + 1" "at = now"
    "prev = map_option w_version (monitor_row_at user key db)"
    "if_version = None \<or> if_version = Some (stored_version user key db)"
    "monitor_row_at user key db' = Some (monitor_upsert_row now user key val version)"
    "(user', key') \<noteq> (user, key) \<Longrightarrow> monitor_row_at user' key' db' = monitor_row_at user' key' db"
proof -
  show v: "version = stored_version user key db + 1" "at = now"
    "prev = map_option w_version (monitor_row_at user key db)"
    "if_version = None \<or> if_version = Some (stored_version user key db)"
    using assms by (auto simp: upsert_monitor_setting_def stored_version_def Let_def split: option.splits if_splits)
  let ?p = "\<lambda>r. w_user_id r = user \<and> w_key r = key"
  let ?f = "\<lambda>r. r\<lparr>w_value := val, w_size_bytes := int (length val), w_version := w_version r + 1, w_updated_at := now\<rparr>"
  have db': "db' = db\<lparr>monitor_settings := (case monitor_row_at user key db of
      Some r \<Rightarrow> update_rows ?p ?f (monitor_settings db)
    | None \<Rightarrow> monitor_settings db @ [monitor_upsert_row now user key val 1])\<rparr>"
    using assms by (auto simp: upsert_monitor_setting_def monitor_upsert_row_def Let_def split: option.splits if_splits)
  have upd: "monitor_table.row k (update_rows ?p ?f rs) = map_option (\<lambda>r. if ?p r then ?f r else r) (monitor_table.row k rs)" for k rs
    by (rule monitor_table.row_update) simp
  show "monitor_row_at user key db' = Some (monitor_upsert_row now user key val version)"
  proof (cases "monitor_row_at user key db")
    case None
    then show ?thesis using db' v(1)
      by (simp add: monitor_row_at_row monitor_table.row_def find_snoc stored_version_def monitor_upsert_row_def)
  next
    case (Some r)
    then show ?thesis using db' v(1) upd [of "(user, key)" "monitor_settings db"] monitor_row_key [OF Some]
      by (cases r) (simp add: monitor_row_at_row stored_version_def monitor_upsert_row_def)
  qed
  assume other: "(user', key') \<noteq> (user, key)"
  show "monitor_row_at user' key' db' = monitor_row_at user' key' db"
  proof (cases "monitor_row_at user key db")
    case None
    then show ?thesis using db' other
      by (auto simp: monitor_row_at_row monitor_table.row_def find_snoc monitor_upsert_row_def split: option.split)
  next
    case (Some r)
    have "?p r \<longrightarrow> False" if "monitor_row_at user' key' db = Some r" for r
      using monitor_row_key [OF that] other by auto
    then show ?thesis using Some db' upd [of "(user', key')" "monitor_settings db"]
      by (cases "monitor_row_at user' key' db") (auto simp: monitor_row_at_row)
  qed
qed

lemma upsert_not_written:
  assumes "upsert_monitor_setting now user key val if_version quota db = (r, db')"
    and "\<And>version at prev. r \<noteq> Inr (Written version at prev)"
  shows "db' = db"
  using assms by (auto simp: upsert_monitor_setting_def Let_def split: option.splits if_splits)

lemma upsert_outcomes:
  obtains (written) version at prev where
    "upsert_monitor_setting now user key val if_version quota db = (Inr (Written version at prev), snd (upsert_monitor_setting now user key val if_version quota db))"
  | (refused) "snd (upsert_monitor_setting now user key val if_version quota db) = db"
proof (cases "\<exists>version at prev. fst (upsert_monitor_setting now user key val if_version quota db) = Inr (Written version at prev)")
  case True
  then show ?thesis by (metis prod.collapse written)
next
  case False
  then show ?thesis using upsert_not_written by (metis prod.collapse refused)
qed

text \<open>An entry is dropped by its own delete or with its user.\<close>

fun drops_entry :: "string \<Rightarrow> string \<Rightarrow> db_op \<Rightarrow> bool" where
  "drops_entry user key (Delete_Monitor u k _) = (u = user \<and> k = key)"
| "drops_entry user key (Delete_User u) = True"
| "drops_entry user key _ = False"

lemma monitor_step_version:
  assumes "\<not> drops_entry user key op" "monitor_row_at user key db = Some r"
  shows "\<exists>r'. monitor_row_at user key (db_exec now op db) = Some r' \<and> (r' = r \<or> w_version r < w_version r')"
proof (cases "writes_monitor op")
  case False
  then have "monitor_settings (db_exec now op db) = monitor_settings db" by (rule monitor_untouched)
  with assms(2) show ?thesis by (simp add: monitor_row_at_def)
next
  case True
  then show ?thesis
  proof (cases op)
    case (Upsert_Monitor u k v e q)
    show ?thesis
    proof (cases rule: upsert_outcomes [where now = now and user = u and key = k and val = v and if_version = e and quota = q and db = db])
      case (written version at prev)
      note w = upsert_written [OF written]
      show ?thesis
      proof (cases "(user, key) = (u, k)")
        case True
        then show ?thesis using w(1,5) assms(2) Upsert_Monitor
          by (auto simp: stored_version_def monitor_upsert_row_def)
      next
        case False
        then show ?thesis using w(6) assms(2) Upsert_Monitor by auto
      qed
    next
      case refused
      then show ?thesis using assms(2) Upsert_Monitor by simp
    qed
  next
    case (Delete_Monitor u k e)
    let ?hit = "\<lambda>r. w_user_id r = u \<and> w_key r = k \<and> (case e of None \<Rightarrow> True | Some v \<Rightarrow> w_version r = v)"
    have "monitor_settings (db_exec now op db) = delete_rows ?hit (monitor_settings db)"
      using Delete_Monitor by (auto simp: delete_monitor_setting_def Let_def split: option.splits)
    moreover have "find (\<lambda>r. (w_user_id r, w_key r) = (user, key)) (delete_rows ?hit (monitor_settings db)) =
        find (\<lambda>r. (w_user_id r, w_key r) = (user, key)) (monitor_settings db)"
      by (rule row_keep) (use Delete_Monitor assms(1) in auto)
    ultimately show ?thesis using assms(2) by (simp add: monitor_row_at_def)
  qed (use assms in simp_all)
qed

lemma monitor_run_version:
  assumes "\<forall>(now, op)\<in>set ops. \<not> drops_entry user key op" "monitor_row_at user key db = Some r"
  shows "\<exists>r'. monitor_row_at user key (db_run ops db) = Some r' \<and> (r' = r \<or> w_version r < w_version r')"
  using assms
proof (induction ops db arbitrary: r rule: db_run.induct)
  case (2 now op ops db)
  then obtain r1 where r1: "monitor_row_at user key (db_exec now op db) = Some r1" "r1 = r \<or> w_version r < w_version r1"
    using monitor_step_version by fastforce
  from 2(1) [OF _ r1(1)] 2(2) obtain r2 where
    "monitor_row_at user key (db_run ops (db_exec now op db)) = Some r2" "r2 = r1 \<or> w_version r1 < w_version r2"
    by auto
  with r1(2) show ?case by (auto intro: less_trans)
qed simp

text \<open>A conditional write that goes through replaces exactly the row its author had read.\<close>

theorem monitor_cas_no_lost_update:
  assumes "monitor_row_at user key db = Some r" "\<forall>(t, op)\<in>set ops. \<not> drops_entry user key op"
    and "upsert_monitor_setting now user key val (Some (w_version r)) quota (db_run ops db) =
      (Inr (Written version at prev), db')"
  shows "monitor_row_at user key (db_run ops db) = Some r \<and> version = w_version r + 1 \<and>
    monitor_row_at user key db' = Some (monitor_upsert_row now user key val version)"
proof -
  obtain r' where r': "monitor_row_at user key (db_run ops db) = Some r'" "r' = r \<or> w_version r < w_version r'"
    using monitor_run_version [OF assms(2,1)] by blast
  note w = upsert_written [OF assms(3)]
  have "w_version r' = w_version r" using w(4) r'(1) by (simp add: stored_version_def)
  with r'(2) have "r' = r" by auto
  with r'(1) w(1,5) show ?thesis by (simp add: stored_version_def)
qed

text \<open>An entry deleted in between starts again at version 1, so its old version matches again.\<close>

definition one_user_db :: sqlite_db where
  "one_user_db = empty_db\<lparr>users := [\<lparr>u_id = ''u'', u_username = ''ann'', u_password_hash = [], u_role = ''user'',
     u_created_at = 0, u_updated_at = 0, u_oidc_sub = None, u_oidc_issuer = None, u_active = True\<rparr>]\<rparr>"

definition free_quota :: monitor_quota where
  "free_quota = \<lparr>q_max_entries = 10, q_max_total_bytes = 1000\<rparr>"

theorem monitor_version_repeats:
  "let db1 = db_exec 1 (Upsert_Monitor ''u'' ''k'' ''old'' None free_quota) one_user_db;
       db2 = db_run [(2, Delete_Monitor ''u'' ''k'' (Some 1)), (3, Upsert_Monitor ''u'' ''k'' ''new'' (Some 0) free_quota)] db1
   in stored_version ''u'' ''k'' db1 = 1 \<and> stored_version ''u'' ''k'' db2 = 1 \<and>
      fst (upsert_monitor_setting 4 ''u'' ''k'' ''mine'' (Some 1) free_quota db2) = Inr (Written 2 4 (Some 1))"
  by (simp add: one_user_db_def free_quota_def empty_db_def upsert_monitor_setting_def delete_monitor_setting_def
      stored_version_def monitor_row_at_def monitor_of_def has_user_def exists_row_def rows_affected_def
      delete_rows_def Let_def)

subsection \<open>The quota\<close>

definition bytes_of :: "string \<Rightarrow> monitor_row list \<Rightarrow> int" where
  "bytes_of user rs = sum_list (map w_size_bytes (filter (\<lambda>r. w_user_id r = user) rs))"

definition entries_of :: "string \<Rightarrow> monitor_row list \<Rightarrow> int" where
  "entries_of user rs = int (length (filter (\<lambda>r. w_user_id r = user) rs))"

definition within_quota :: "monitor_quota \<Rightarrow> sqlite_db \<Rightarrow> bool" where
  "within_quota q db \<longleftrightarrow> (\<forall>u. entries_of u (monitor_settings db) \<le> q_max_entries q \<and>
     bytes_of u (monitor_settings db) \<le> q_max_total_bytes q)"

lemma usage_of_user:
  "monitor_settings_usage user db =
     Inr \<lparr>mu_entries = entries_of user (monitor_settings db), mu_total_bytes = bytes_of user (monitor_settings db)\<rparr>"
  by (simp add: monitor_settings_usage_def entries_of_def bytes_of_def monitor_of_def)

lemma bytes_update_one:
  assumes "distinct (map (\<lambda>r. (w_user_id r, w_key r)) rs)" "r \<in> set rs" "w_user_id r = user" "w_key r = key"
    and "\<And>r. w_user_id (f r) = w_user_id r"
  shows "bytes_of u (update_rows (\<lambda>r. w_user_id r = user \<and> w_key r = key) f rs) =
    bytes_of u rs + (if u = user then w_size_bytes (f r) - w_size_bytes r else 0)"
  using assms(1,2)
proof (induction rs)
  case (Cons a rs)
  show ?case
  proof (cases "a = r")
    case True
    have "update_rows (\<lambda>r. w_user_id r = user \<and> w_key r = key) f rs = rs"
      unfolding update_rows_def using Cons.prems(1) True assms(3,4) by (intro map_idI) (auto simp: image_iff)
    with True assms(3-5) show ?thesis by (simp add: update_rows_def bytes_of_def)
  next
    case False
    then have r: "r \<in> set rs" using Cons.prems(2) by simp
    have "\<not> (w_user_id a = user \<and> w_key a = key)" using Cons.prems(1) r assms(3,4) by force
    with Cons.IH [OF _ r] Cons.prems(1) show ?thesis by (auto simp: update_rows_def bytes_of_def)
  qed
qed simp

lemma entries_update [simp]:
  "(\<And>r. w_user_id (f r) = w_user_id r) \<Longrightarrow> entries_of u (update_rows p f rs) = entries_of u rs"
  by (induction rs) (auto simp: update_rows_def entries_of_def)

lemma usage_delete:
  assumes "\<forall>r\<in>set rs. 0 \<le> w_size_bytes r"
  shows "entries_of u (delete_rows p rs) \<le> entries_of u rs" "bytes_of u (delete_rows p rs) \<le> bytes_of u rs"
  using assms by (induction rs) (auto simp: delete_rows_def entries_of_def bytes_of_def)

lemma upsert_within_quota:
  assumes "db_ok db" "within_quota q db"
    and "upsert_monitor_setting now user key val if_version q db = (Inr (Written version at prev), db')"
  shows "within_quota q db'"
proof (cases "monitor_row_at user key db")
  case None
  then have "db' = db\<lparr>monitor_settings := monitor_settings db @ [monitor_upsert_row now user key val 1]\<rparr>"
    "entries_of user (monitor_settings db) + 1 \<le> q_max_entries q"
    "bytes_of user (monitor_settings db) + int (length val) \<le> q_max_total_bytes q"
    using assms(3) by (auto simp: upsert_monitor_setting_def monitor_upsert_row_def monitor_of_def entries_of_def
        bytes_of_def Let_def split: if_splits)
  with assms(2) show ?thesis by (auto simp: within_quota_def entries_of_def bytes_of_def monitor_upsert_row_def)
next
  case (Some r)
  let ?f = "\<lambda>r. r\<lparr>w_value := val, w_size_bytes := int (length val), w_version := w_version r + 1, w_updated_at := now\<rparr>"
  have db': "db' = db\<lparr>monitor_settings := update_rows (\<lambda>r. w_user_id r = user \<and> w_key r = key) ?f (monitor_settings db)\<rparr>"
    and total: "bytes_of user (monitor_settings db) - w_size_bytes r + int (length val) \<le> q_max_total_bytes q"
    using assms(3) Some by (auto simp: upsert_monitor_setting_def monitor_of_def bytes_of_def Let_def split: if_splits)
  have r: "r \<in> set (monitor_settings db)" "w_user_id r = user" "w_key r = key" using find_monitor [OF Some] by auto
  have "bytes_of u (monitor_settings db') =
      bytes_of u (monitor_settings db) + (if u = user then int (length val) - w_size_bytes r else 0)" for u
    using bytes_update_one [of "monitor_settings db" r user key ?f u] assms(1) r
    by (simp add: db' db_ok_def monitor_ok_def)
  moreover have "entries_of u (monitor_settings db') = entries_of u (monitor_settings db)" for u by (simp add: db')
  ultimately show ?thesis using assms(2) total by (simp add: within_quota_def)
qed

lemma delete_within_quota:
  assumes "db_ok db" "within_quota q db" "monitor_settings db' = delete_rows p (monitor_settings db)"
  shows "within_quota q db'"
proof -
  have "\<forall>r\<in>set (monitor_settings db). 0 \<le> w_size_bytes r" using assms(1) by (auto simp: db_ok_def monitor_ok_def)
  note usage_delete [OF this]
  then show ?thesis using assms(2,3) unfolding within_quota_def by (metis order_trans)
qed

fun uses_quota :: "monitor_quota \<Rightarrow> db_op \<Rightarrow> bool" where
  "uses_quota q (Upsert_Monitor _ _ _ _ q') = (q' = q)"
| "uses_quota q _ = True"

lemma quota_step:
  assumes "db_ok db" "within_quota q db" "uses_quota q op"
  shows "within_quota q (db_exec now op db)"
proof (cases "writes_monitor op")
  case False
  then have "monitor_settings (db_exec now op db) = monitor_settings db" by (rule monitor_untouched)
  with assms(2) show ?thesis by (simp add: within_quota_def)
next
  case True
  then show ?thesis
  proof (cases op)
    case (Upsert_Monitor u k v e q')
    show ?thesis
    proof (cases rule: upsert_outcomes [where now = now and user = u and key = k and val = v and if_version = e and quota = q and db = db])
      case (written version at prev)
      from upsert_within_quota [OF assms(1,2) this] assms(3) Upsert_Monitor show ?thesis by simp
    next
      case refused
      with assms(2,3) Upsert_Monitor show ?thesis by simp
    qed
  next
    case (Delete_Monitor u k e)
    then show ?thesis
      by (intro delete_within_quota [OF assms(1,2), where p = "\<lambda>r. w_user_id r = u \<and> w_key r = k \<and>
            (case e of None \<Rightarrow> True | Some v \<Rightarrow> w_version r = v)"])
        (auto simp: delete_monitor_setting_def Let_def split: option.splits)
  next
    case (Delete_User u)
    then show ?thesis
      by (intro delete_within_quota [OF assms(1,2), where p = "\<lambda>r. exists_row (\<lambda>x. u_id x = u \<and> u_id x = w_user_id r) (users db)"])
        (simp add: delete_user_def delete_defs Let_def)
  qed simp_all
qed

text \<open>With one quota throughout, no run of operations leaves a user with more monitor entries or bytes
  than the quota.\<close>

theorem monitor_quota_invariant:
  assumes "db_reachable db" "within_quota q db" "\<forall>(now, op)\<in>set ops. uses_quota q op"
  shows "within_quota q (db_run ops db)"
proof -
  have "db_ok db" using assms(1) by (rule reachable_ok)
  then show ?thesis using assms(2,3)
  proof (induction ops db rule: db_run.induct)
    case (2 now op ops db)
    then show ?case by (simp add: quota_step db_exec_ok)
  qed simp
qed

section \<open>Accounts\<close>

definition mentions_user :: "string \<Rightarrow> sqlite_db \<Rightarrow> bool" where
  "mentions_user u db \<longleftrightarrow>
     (\<exists>r\<in>set (users db). u_id r = u) \<or> (\<exists>r\<in>set (devices db). d_user_id r = u) \<or>
     (\<exists>r\<in>set (refresh_tokens db). t_user_id r = u) \<or> (\<exists>r\<in>set (team_members db). m_user_id r = u) \<or>
     (\<exists>r\<in>set (monitor_settings db). w_user_id r = u)"

lemma parents_mention:
  assumes "db_ok db" "mentions_user u db"
  shows "\<exists>r\<in>set (users db). u_id r = u"
proof -
  have "u \<in> u_id ` set (users db)"
    using assms by (fastforce simp: mentions_user_def db_ok_def devices_ok_def tokens_ok_def members_ok_def monitor_ok_def)
  then show ?thesis by auto
qed

theorem delete_user_leaves_nothing:
  assumes "db_reachable db"
  shows "\<not> mentions_user u (snd (delete_user u db)) \<and>
    (\<forall>c\<in>set (cursors (snd (delete_user u db))). \<exists>d\<in>set (devices (snd (delete_user u db))). d_id d = c_device_id c \<and> d_user_id d \<noteq> u)"
proof -
  let ?db = "snd (delete_user u db)"
  have ok: "db_ok ?db" using reachable_ok [OF assms] by (rule user_ops_ok)
  have "\<not> (\<exists>r\<in>set (users ?db). u_id r = u)" by (simp add: delete_user_def delete_users_def Let_def)
  then have no: "\<not> mentions_user u ?db" using parents_mention [OF ok] by blast
  moreover have "\<exists>d\<in>set (devices ?db). d_id d = c_device_id c \<and> d_user_id d \<noteq> u" if "c \<in> set (cursors ?db)" for c
  proof -
    have "c_device_id c \<in> d_id ` set (devices ?db)" using ok that by (simp add: db_ok_def cursors_ok_def)
    then show ?thesis using no by (auto simp: mentions_user_def)
  qed
  ultimately show ?thesis by blast
qed

text \<open>Approval moves a registration into the users, or changes nothing.\<close>

theorem approve_registration_all_or_nothing:
  assumes "approve_registration now uuid i db = (r, db')" "distinct (map p_id (pending_registrations db))"
  shows "(r = Inr True \<longrightarrow> (\<exists>p\<in>set (pending_registrations db). p_id p = i \<and>
      users db' = users db @ [\<lparr>u_id = uuid, u_username = p_username p, u_password_hash = p_password_hash p,
        u_role = ''user'', u_created_at = now, u_updated_at = now, u_oidc_sub = None, u_oidc_issuer = None, u_active = True\<rparr>] \<and>
      pending_registrations db' = delete_rows (\<lambda>p. p_id p = i) (pending_registrations db))) \<and>
    (r \<noteq> Inr True \<longrightarrow> db' = db)"
proof (cases "find (\<lambda>r. p_id r = i) (pending_registrations db)")
  case None
  with assms(1) show ?thesis by (auto simp: approve_registration_def)
next
  case (Some p)
  note p = find_Some_iff_unique [OF Some]
  show ?thesis using assms(1) p unfolding approve_registration_def Some
    by (auto simp: insert_user_def dest!: insert_row_Inr split: if_splits sum.splits)
qed

lemma unique_in_messages:
  "contains (sql_display Unique_Failed) ''UNIQUE''" "\<not> contains ''create_team'' ''UNIQUE''"
  "\<not> contains ''add_team_member'' ''UNIQUE''" "\<not> contains ''create_oidc_user'' ''UNIQUE''"
  by code_simp+

text \<open>A username already taken is the one refusal that says so.\<close>

theorem create_user_conflict_is_reported:
  "fst (create_user now u db) = Inr () \<or>
   fst (create_user now u db) = Inl ''UNIQUE constraint violation: username already exists'' \<and> snd (create_user now u db) = db"
  by (auto simp: create_user_def insert_user_def insert_row_def unique_in_messages split: sum.splits if_splits)

text \<open>The errors that lose the \<open>UNIQUE\<close> their handlers look for, so that a duplicate is answered as an
  internal error; and the upsert that cannot run at all.\<close>

theorem duplicates_lose_their_cause:
  "(\<forall>r\<in>set (teams db). \<exists>e. create_team now i (g_name r) db = (Inl e, db) \<and> \<not> contains e ''UNIQUE'') \<and>
   (\<forall>r\<in>set (team_members db). \<exists>e. add_team_member now (m_team_id r) (m_user_id r) role db = (Inl e, db) \<and> \<not> contains e ''UNIQUE'')"
proof (intro conjI ballI)
  fix r assume "r \<in> set (teams db)"
  then have "create_team now i (g_name r) db = (Inl ''create_team'', db)"
    by (auto simp: create_team_def insert_row_def team_clash_def with_context_def)
  then show "\<exists>e. create_team now i (g_name r) db = (Inl e, db) \<and> \<not> contains e ''UNIQUE''"
    by (simp add: unique_in_messages)
next
  fix r assume "r \<in> set (team_members db)"
  then have "add_team_member now (m_team_id r) (m_user_id r) role db = (Inl ''add_team_member'', db)"
    by (auto simp: add_team_member_def insert_member_def insert_row_def member_clash_def with_context_def)
  then show "\<exists>e. add_team_member now (m_team_id r) (m_user_id r) role db = (Inl e, db) \<and> \<not> contains e ''UNIQUE''"
    by (simp add: unique_in_messages)
qed


section \<open>Device codes and clean-up\<close>

theorem device_code_approved_once:
  assumes "distinct (map k_user_code (device_codes db))" "approve_device_code c u a r db = (Inr True, db')"
  shows "approve_device_code c u' a' r' db' = (Inr False, db') \<and>
    (\<exists>k\<in>set (device_codes db'). k_user_code k = c \<and> k_approved_by k = Some u \<and> k_access_token k = Some a \<and> k_refresh_token k = Some r)"
proof -
  let ?p = "\<lambda>k. k_user_code k = c \<and> k_approved_by k = None"
  let ?f = "\<lambda>k. k\<lparr>k_approved_by := Some u, k_access_token := Some a, k_refresh_token := Some r\<rparr>"
  have db': "device_codes db' = update_rows ?p ?f (device_codes db)" and "exists_row ?p (device_codes db)"
    using assms(2) by (auto simp: approve_device_code_def rows_affected_pos)
  then obtain k where k: "k \<in> set (device_codes db)" "?p k" by (auto simp: exists_row_def)
  have none: "\<not> ?p k'" if k': "k' \<in> set (device_codes db')" for k'
  proof -
    obtain k0 where "k' = (if ?p k0 then ?f k0 else k0)" using k' unfolding db' update_rows_def set_map by blast
    then show ?thesis by (cases "?p k0") simp_all
  qed
  have "filter ?p (device_codes db') = []" using none by (simp only: filter_empty_conv) blast
  moreover have "update_rows ?p g (device_codes db') = device_codes db'" for g
    unfolding update_rows_def by (rule map_idI) (simp only: none if_False)
  ultimately have "approve_device_code c u' a' r' db' = (Inr False, db')"
    by (simp add: approve_device_code_def rows_affected_def)
  moreover have "?f k \<in> set (device_codes db')" unfolding db' update_rows_def set_map
    by (rule image_eqI [of _ _ k]) (simp_all only: k simp_thms if_True)
  ultimately show ?thesis using k by (intro conjI bexI [of _ "?f k"]) auto
qed

text \<open>Dropping revoked and expired tokens changes no answer about a live one.\<close>

theorem token_cleanup_unobservable:
  assumes "distinct (map t_jti (refresh_tokens db))"
    and "\<forall>r\<in>set (refresh_tokens db). t_jti r = j \<longrightarrow> now \<le> t_expires_at r"
  shows "is_refresh_token_revoked j (snd (cleanup_expired_tokens now db)) = is_refresh_token_revoked j db"
proof (cases "token_dead j db")
  case True
  then have "token_dead j (snd (cleanup_expired_tokens now db))" by (auto simp: token_dead_def cleanup_expired_tokens_def)
  with True show ?thesis by (simp add: dead_token_answer(1))
next
  case False
  then obtain r where r: "r \<in> set (refresh_tokens db)" "t_jti r = j" "\<not> t_revoked r" by (auto simp: token_dead_def)
  let ?gone = "\<lambda>r. t_expires_at r < now \<or> t_revoked r"
  have only: "r' = r" if "r' \<in> set (refresh_tokens db)" "t_jti r' = j" for r'
    using assms(1) that r by (metis distinct_map inj_onD)
  have "find (\<lambda>r. t_jti r = j) (delete_rows ?gone (refresh_tokens db)) = find (\<lambda>r. t_jti r = j) (refresh_tokens db)"
    by (rule row_keep) (use only r assms(2) in fastforce)
  then show ?thesis by (simp add: is_refresh_token_revoked_def cleanup_expired_tokens_def)
qed

section \<open>At concrete databases\<close>

definition token_db :: sqlite_db where
  "token_db = one_user_db\<lparr>refresh_tokens := [\<lparr>t_jti = ''j'', t_user_id = ''u'', t_device_id = None, t_expires_at = 9, t_revoked = False, t_created_at = 0\<rparr>]\<rparr>"

lemma one_user_reachable: "db_reachable (db_exec 0 (Create_User \<lparr>nu_id = ''u'', nu_username = ''ann'', nu_password_hash = [], nu_role = ''user''\<rparr>) empty_db)"
  by (intro db_reachable.intros)

lemma one_user_created:
  "db_exec 0 (Create_User \<lparr>nu_id = ''u'', nu_username = ''ann'', nu_password_hash = [], nu_role = ''user''\<rparr>) empty_db = one_user_db"
  by (simp add: create_user_def insert_user_def insert_row_def empty_db_def one_user_db_def)

theorem refresh_token_single_use_witness:
  "let db' = snd (rotate_refresh_token 1 ''j'' ''j2'' ''u'' None 9 token_db) in
     rotate_refresh_token 3 ''j'' ''j3'' ''u'' None 9 (db_run [(2, Revoke_User_Tokens ''u'')] db') =
       (Inl ''refresh token already used or revoked'', db_run [(2, Revoke_User_Tokens ''u'')] db')"
proof -
  have "rotate_refresh_token 1 ''j'' ''j2'' ''u'' None 9 token_db = (Inr (), snd (rotate_refresh_token 1 ''j'' ''j2'' ''u'' None 9 token_db))"
    by (simp add: rotate_refresh_token_def token_db_def one_user_db_def empty_db_def insert_token_def insert_row_def
        update_rows_def token_clash_def has_user_def exists_row_def with_context_def)
  from refresh_token_single_use [OF this, of "[(2, Revoke_User_Tokens ''u'')]"] show ?thesis by (simp add: Let_def)
qed

theorem revocation_is_final_witness:
  "is_refresh_token_revoked ''j'' (db_run [(2, Store_Token ''j4'' ''u'' None 9)] (snd (revoke_user_refresh_tokens ''u'' token_db))) = Inr True"
  by (rule revocation_is_final) (simp_all add: token_db_def)

theorem cursor_only_moves_forward_witness:
  "last_ts ''d'' ''p'' one_user_db \<le> last_ts ''d'' ''p'' (db_run [(1, Ensure_Cursor ''d'' ''p''), (2, Reset_Cursor ''d'' ''q'')] one_user_db)"
  by (rule cursor_only_moves_forward) simp

theorem monitor_cas_no_lost_update_witness:
  "let db = db_exec 1 (Upsert_Monitor ''u'' ''k'' ''a'' None free_quota) one_user_db;
       run = db_run [(2, Upsert_Monitor ''u'' ''l'' ''b'' None free_quota)] db;
       db' = snd (upsert_monitor_setting 3 ''u'' ''k'' ''c'' (Some 1) free_quota run)
   in monitor_row_at ''u'' ''k'' run = Some (monitor_upsert_row 1 ''u'' ''k'' ''a'' 1) \<and> (2::int) = 1 + 1 \<and>
      monitor_row_at ''u'' ''k'' db' = Some (monitor_upsert_row 3 ''u'' ''k'' ''c'' 2)"
proof -
  let ?db = "db_exec 1 (Upsert_Monitor ''u'' ''k'' ''a'' None free_quota) one_user_db"
  let ?ops = "[(2, Upsert_Monitor ''u'' ''l'' ''b'' None free_quota)]"
  let ?r = "monitor_upsert_row 1 ''u'' ''k'' ''a'' 1"
  note defs = one_user_db_def free_quota_def empty_db_def upsert_monitor_setting_def monitor_row_at_def monitor_of_def
    has_user_def exists_row_def monitor_upsert_row_def Let_def
  have "monitor_row_at ''u'' ''k'' ?db = Some ?r" by (simp add: defs)
  moreover have "\<forall>(t, op)\<in>set ?ops. \<not> drops_entry ''u'' ''k'' op" by simp
  moreover have "fst (upsert_monitor_setting 3 ''u'' ''k'' ''c'' (Some (w_version ?r)) free_quota (db_run ?ops ?db)) = Inr (Written 2 3 (Some 1))"
    by (simp add: defs)
  then have "upsert_monitor_setting 3 ''u'' ''k'' ''c'' (Some (w_version ?r)) free_quota (db_run ?ops ?db) =
      (Inr (Written 2 3 (Some 1)), snd (upsert_monitor_setting 3 ''u'' ''k'' ''c'' (Some (w_version ?r)) free_quota (db_run ?ops ?db)))"
    by (metis prod.collapse)
  ultimately have "monitor_row_at ''u'' ''k'' (db_run ?ops ?db) = Some ?r \<and> 2 = w_version ?r + 1 \<and>
      monitor_row_at ''u'' ''k'' (snd (upsert_monitor_setting 3 ''u'' ''k'' ''c'' (Some (w_version ?r)) free_quota (db_run ?ops ?db))) =
      Some (monitor_upsert_row 3 ''u'' ''k'' ''c'' 2)"
    by (rule monitor_cas_no_lost_update)
  moreover have "w_version ?r = 1" by (simp add: monitor_upsert_row_def)
  ultimately show ?thesis unfolding Let_def by simp
qed

theorem monitor_quota_invariant_witness:
  "within_quota free_quota (db_run [(1, Upsert_Monitor ''u'' ''k'' ''a'' None free_quota)] one_user_db)"
  using monitor_quota_invariant [OF one_user_reachable [unfolded one_user_created],
      of free_quota "[(1, Upsert_Monitor ''u'' ''k'' ''a'' None free_quota)]"]
  by (simp add: within_quota_def one_user_db_def empty_db_def free_quota_def entries_of_def bytes_of_def)

theorem delete_user_leaves_nothing_witness:
  "\<not> mentions_user ''u'' (snd (delete_user ''u'' one_user_db))"
  using delete_user_leaves_nothing [OF one_user_reachable [unfolded one_user_created], of "''u''"] by blast

theorem approve_registration_all_or_nothing_witness:
  "let db = snd (create_pending_registration 0 ''p'' ''ann'' ''h'' empty_db);
       db' = snd (approve_registration 1 ''u'' ''p'' db)
   in (\<exists>p\<in>set (pending_registrations db). p_id p = ''p'' \<and>
      users db' = users db @ [\<lparr>u_id = ''u'', u_username = p_username p, u_password_hash = p_password_hash p,
        u_role = ''user'', u_created_at = 1, u_updated_at = 1, u_oidc_sub = None, u_oidc_issuer = None, u_active = True\<rparr>] \<and>
      pending_registrations db' = delete_rows (\<lambda>p. p_id p = ''p'') (pending_registrations db))"
proof -
  let ?db = "snd (create_pending_registration 0 ''p'' ''ann'' ''h'' empty_db)"
  have "approve_registration 1 ''u'' ''p'' ?db = (Inr True, snd (approve_registration 1 ''u'' ''p'' ?db))"
    "distinct (map p_id (pending_registrations ?db))"
    by (simp_all add: create_pending_registration_def empty_db_def insert_row_def approve_registration_def
        rows_affected_def insert_user_def)
  from approve_registration_all_or_nothing [OF this] show ?thesis unfolding Let_def by blast
qed

theorem device_code_approved_once_witness:
  "approve_device_code ''c'' ''u'' ''a'' ''r''
     (snd (approve_device_code ''c'' ''v'' ''a'' ''r'' (snd (create_device_code ''d'' ''c'' 9 empty_db)))) =
   (Inr False, snd (approve_device_code ''c'' ''v'' ''a'' ''r'' (snd (create_device_code ''d'' ''c'' 9 empty_db))))"
proof -
  let ?db = "snd (create_device_code ''d'' ''c'' 9 empty_db)"
  have "distinct (map k_user_code (device_codes ?db))"
    "approve_device_code ''c'' ''v'' ''a'' ''r'' ?db = (Inr True, snd (approve_device_code ''c'' ''v'' ''a'' ''r'' ?db))"
    by (simp_all add: create_device_code_def empty_db_def insert_row_def with_context_def approve_device_code_def rows_affected_def)
  from device_code_approved_once [OF this] show ?thesis by blast
qed

theorem token_cleanup_unobservable_witness:
  "is_refresh_token_revoked ''j'' (snd (cleanup_expired_tokens 5 token_db)) = is_refresh_token_revoked ''j'' token_db"
  by (rule token_cleanup_unobservable) (simp_all add: token_db_def)

end
