(* ===== verification/Kv.thy ===== *)
theory Kv
  imports Prelude
begin

text \<open>
  The embedded key-value store the event store is written against (the \<open>fjall\<close> crate). Its code is
  not part of the repository, so its operations are the fields of a record \<open>kv_ops\<close> that every
  definition using them takes as an argument. The locale \<open>ordered_kv\<close> is what its documentation
  promises: a keyspace is a map from byte strings to byte strings, read in ascending key order, and a
  batch applies its writes in order, atomically. \<open>mem_kv\<close> is an in-memory instance.
\<close>

datatype keyspace = Events | Idx_Msg | Idx_User | Sessions | Windows | Meta

datatype kv_write = Put keyspace string string | Del keyspace string

type_synonym kv_item = "(string \<times> string) result"

record 's kv_ops =
  kv_get :: "'s \<Rightarrow> keyspace \<Rightarrow> string \<Rightarrow> string option result"
  kv_range :: "'s \<Rightarrow> keyspace \<Rightarrow> string \<Rightarrow> kv_item list"
  kv_prefix :: "'s \<Rightarrow> keyspace \<Rightarrow> string \<Rightarrow> kv_item list"
  kv_commit :: "'s \<Rightarrow> kv_write list \<Rightarrow> 's result"

fun apply_write :: "keyspace \<Rightarrow> kv_write \<Rightarrow> (string \<rightharpoonup> string) \<Rightarrow> (string \<rightharpoonup> string)" where
  "apply_write ks (Put ks' k v) m = (if ks' = ks then m(k \<mapsto> v) else m)"
| "apply_write ks (Del ks' k) m = (if ks' = ks then m(k := None) else m)"

definition apply_writes :: "keyspace \<Rightarrow> kv_write list \<Rightarrow> (string \<rightharpoonup> string) \<Rightarrow> (string \<rightharpoonup> string)" where
  "apply_writes ks ws m = fold (apply_write ks) ws m"

lemma apply_writes_simps [simp]:
  "apply_writes ks [] m = m"
  "apply_writes ks (w # ws) m = apply_writes ks ws (apply_write ks w m)"
  "apply_writes ks (ws @ ws') m = apply_writes ks ws' (apply_writes ks ws m)"
  by (simp_all add: apply_writes_def)

text \<open>What a list of writes does to one key: the last write to it decides.\<close>

fun write_to :: "keyspace \<Rightarrow> string \<Rightarrow> kv_write \<Rightarrow> bool" where
  "write_to ks k (Put ks' k' v) = (ks' = ks \<and> k' = k)"
| "write_to ks k (Del ks' k') = (ks' = ks \<and> k' = k)"

fun write_value :: "kv_write \<Rightarrow> string option" where
  "write_value (Put ks k v) = Some v"
| "write_value (Del ks k) = None"

lemma apply_write_at: "apply_write ks w m k = (if write_to ks k w then write_value w else m k)"
  by (cases w) auto

lemma apply_writes_at:
  "apply_writes ks ws m k =
     (case find (write_to ks k) (rev ws) of None \<Rightarrow> m k | Some w \<Rightarrow> write_value w)"
  by (induction ws rule: rev_induct) (auto simp: apply_write_at)

lemma apply_writes_untouched: "\<forall>w\<in>set ws. \<not> write_to ks k w \<Longrightarrow> apply_writes ks ws m k = m k"
  by (induction ws rule: rev_induct) (auto simp: apply_write_at)

lemma apply_dels:
  "apply_writes ks (map (Del ks) xs) m k = (if k \<in> set xs then None else m k)"
  "ks' \<noteq> ks \<Longrightarrow> apply_writes ks' (map (Del ks) xs) m = m"
  by (induction xs arbitrary: m) auto

definition sorted_map :: "(string \<times> string) list \<Rightarrow> bool" where
  "sorted_map xs \<longleftrightarrow> sorted_wrt (<) (map fst xs)"

lemma sorted_map_distinct: "sorted_map xs \<Longrightarrow> distinct (map fst xs)"
  by (simp add: sorted_map_def strict_sorted_iff)

lemma sorted_map_filter: "sorted_map xs \<Longrightarrow> sorted_map (filter p xs)"
  by (induction xs) (auto simp: sorted_map_def)

lemma map_of_in_set: "distinct (map fst xs) \<Longrightarrow> map_of xs k = Some v \<longleftrightarrow> (k, v) \<in> set xs"
  by simp

lemma map_of_rebuild: "distinct (map fst xs) \<Longrightarrow> map (\<lambda>k. (k, the (map_of xs k))) (map fst xs) = xs"
  unfolding map_map by (rule map_idI) auto

lemma sorted_map_unique:
  assumes "sorted_map xs" "sorted_map ys" "map_of xs = map_of ys"
  shows "xs = ys"
proof -
  have "set xs = set ys"
    using assms by (metis map_of_inject_set sorted_map_distinct)
  then have "map fst xs = map fst ys"
    using assms(1,2) by (metis list.set_map sorted_distinct_set_unique sorted_map_def strict_sorted_iff)
  then show ?thesis
    using map_of_rebuild sorted_map_distinct assms by metis
qed

section \<open>The documented behaviour\<close>

locale ordered_kv =
  fixes ops :: "'s kv_ops" and contents :: "'s \<Rightarrow> keyspace \<Rightarrow> (string \<times> string) list"
  assumes contents_sorted: "sorted_map (contents s ks)"
    and get_law: "kv_get ops s ks k = Inr (map_of (contents s ks) k)"
    and range_law: "kv_range ops s ks from_key = map Inr (filter (\<lambda>(k, v). from_key \<le> k) (contents s ks))"
    and prefix_law: "kv_prefix ops s ks p = map Inr (filter (\<lambda>(k, v). prefix p k) (contents s ks))"
    and commit_law: "\<exists>s'. kv_commit ops s ws = Inr s' \<and>
          (\<forall>ks. map_of (contents s' ks) = apply_writes ks ws (map_of (contents s ks)))"
begin

definition cmap :: "'s \<Rightarrow> keyspace \<Rightarrow> (string \<rightharpoonup> string)" where
  "cmap s ks = map_of (contents s ks)"

lemma contents_cmap: "(k, v) \<in> set (contents s ks) \<longleftrightarrow> cmap s ks k = Some v"
  using sorted_map_distinct [OF contents_sorted] by (simp add: cmap_def)

lemma get_cmap: "kv_get ops s ks k = Inr (cmap s ks k)"
  by (simp add: get_law cmap_def)

lemma commit_cmap: "\<exists>s'. kv_commit ops s ws = Inr s' \<and> (\<forall>ks. cmap s' ks = apply_writes ks ws (cmap s ks))"
  using commit_law [of s ws] by (simp add: cmap_def [abs_def])

lemma range_all: "kv_range ops s ks [] = map Inr (contents s ks)"
proof -
  have "filter (\<lambda>(k, v). [] \<le> k) xs = xs" for xs :: "(string \<times> string) list"
    by (induction xs) auto
  then show ?thesis by (simp add: range_law)
qed

lemma same_contents: "cmap s ks = cmap s' ks' \<Longrightarrow> contents s ks = contents s' ks'"
  by (rule sorted_map_unique [OF contents_sorted contents_sorted]) (simp add: cmap_def)

end

section \<open>An instance in memory\<close>

text \<open>A log of writes, newest first: a write is kept with its value or, deleted, with none.\<close>

definition mem_map :: "(keyspace \<times> string \<times> string option) list \<Rightarrow> keyspace \<Rightarrow> (string \<rightharpoonup> string)" where
  "mem_map db ks k = (case find (\<lambda>(ks', k', v). ks' = ks \<and> k' = k) db of None \<Rightarrow> None | Some (_, _, v) \<Rightarrow> v)"

definition mem_contents :: "(keyspace \<times> string \<times> string option) list \<Rightarrow> keyspace \<Rightarrow> (string \<times> string) list" where
  "mem_contents db ks =
     map (\<lambda>k. (k, the (mem_map db ks k)))
       (filter (\<lambda>k. mem_map db ks k \<noteq> None) (sorted_list_of_set (set (map (fst \<circ> snd) db))))"

definition mem_write :: "kv_write \<Rightarrow> (keyspace \<times> string \<times> string option) list \<Rightarrow> (keyspace \<times> string \<times> string option) list" where
  "mem_write w db = (case w of Put ks k v \<Rightarrow> (ks, k, Some v) # db | Del ks k \<Rightarrow> (ks, k, None) # db)"

definition mem_kv :: "(keyspace \<times> string \<times> string option) list kv_ops" where
  "mem_kv = \<lparr>
     kv_get = (\<lambda>db ks k. Inr (map_of (mem_contents db ks) k)),
     kv_range = (\<lambda>db ks from_key. map Inr (filter (\<lambda>(k, v). from_key \<le> k) (mem_contents db ks))),
     kv_prefix = (\<lambda>db ks p. map Inr (filter (\<lambda>(k, v). prefix p k) (mem_contents db ks))),
     kv_commit = (\<lambda>db ws. Inr (fold mem_write ws db))\<rparr>"

lemma map_of_mem_contents: "map_of (mem_contents db ks) = mem_map db ks"
proof
  fix k
  have "mem_map db ks k = None" if "k \<notin> set (map (fst \<circ> snd) db)"
    using that by (auto simp: mem_map_def split: option.split dest!: find_Some_iff [THEN iffD1]) (metis comp_apply fst_conv image_eqI nth_mem snd_conv)
  moreover have "map_of (map (\<lambda>k. (k, the (m k))) (filter (\<lambda>k. m k \<noteq> None) ks')) k = (if k \<in> set ks' then m k else None)"
    for m :: "string \<rightharpoonup> string" and ks'
    by (induction ks') auto
  ultimately show "map_of (mem_contents db ks) k = mem_map db ks k"
    by (auto simp: mem_contents_def)
qed

lemma mem_map_write: "mem_map (mem_write w db) ks = apply_write ks w (mem_map db ks)"
  by (cases w) (auto simp: mem_write_def mem_map_def)

interpretation mem: ordered_kv mem_kv mem_contents
proof unfold_locales
  show "sorted_map (mem_contents db ks)" for db ks
    by (simp add: mem_contents_def sorted_map_def map_map comp_def sorted_wrt_filter)
  have "mem_map (fold mem_write ws db) ks = apply_writes ks ws (mem_map db ks)" for ws db ks
    by (induction ws arbitrary: db) (simp_all add: mem_map_write)
  then show "\<exists>db'. kv_commit mem_kv db ws = Inr db' \<and>
      (\<forall>ks. map_of (mem_contents db' ks) = apply_writes ks ws (map_of (mem_contents db ks)))" for db ws
    by (simp add: mem_kv_def map_of_mem_contents)
qed (simp_all add: mem_kv_def)

end
