(* ===== verification/Fjall.thy ===== *)
theory Fjall
  imports Wire Kv
begin

text \<open>
  The embedded event store (\<open>src/src/events/fjall_store.rs\<close>): the row keys, the value codec, and the
  operations of the \<open>EventStore\<close> trait, over the key-value store of theory \<open>Kv\<close>. The mutexes make
  the operations atomic with respect to one another, so an operation is a function of the state.
  \<open>bincode\<close> is a third-party crate, hence the functions of the record \<open>codec\<close>; the iteration order of
  the \<open>HashMap\<close> of winners is the argument \<open>order\<close>. A \<open>String\<close> is its bytes, so the conversions from
  stored bytes back to a \<open>String\<close> are the identity.
\<close>

section \<open>Values\<close>

record persisted_event =
  pe_device_id :: string
  pe_user_id :: string
  pe_msg_id :: string
  pe_ts_ms :: int
  pe_provider :: string
  pe_model :: string
  pe_project :: string
  pe_input_tokens :: nat
  pe_output_tokens :: nat
  pe_cache_creation_input_tokens :: nat
  pe_cache_read_input_tokens :: nat
  pe_usage_total :: nat

record codec =
  ser_event :: "persisted_event \<Rightarrow> string"
  de_event :: "string \<Rightarrow> persisted_event option"
  ser_window :: "wire_window \<Rightarrow> string"
  de_window :: "string \<Rightarrow> wire_window option"

definition encode_event :: "codec \<Rightarrow> server_event \<Rightarrow> string" where
  "encode_event cd e = ser_event cd \<lparr>
     pe_device_id = device_id e, pe_user_id = user_id e, pe_msg_id = msg_id e, pe_ts_ms = ts_ms e,
     pe_provider = provider e, pe_model = model e, pe_project = project e,
     pe_input_tokens = input_tokens e, pe_output_tokens = output_tokens e,
     pe_cache_creation_input_tokens = cache_creation_input_tokens e,
     pe_cache_read_input_tokens = cache_read_input_tokens e, pe_usage_total = usage_total e\<rparr>"

definition decode_event :: "codec \<Rightarrow> string \<Rightarrow> server_event option" where
  "decode_event cd bytes =
     (case de_event cd bytes of
        None \<Rightarrow> None
      | Some e \<Rightarrow> Some \<lparr>device_id = pe_device_id e, user_id = pe_user_id e, msg_id = pe_msg_id e,
          ts_ms = pe_ts_ms e, provider = pe_provider e, model = pe_model e, project = pe_project e,
          session = [], input_tokens = pe_input_tokens e, output_tokens = pe_output_tokens e,
          cache_creation_input_tokens = pe_cache_creation_input_tokens e,
          cache_read_input_tokens = pe_cache_read_input_tokens e, usage_total = pe_usage_total e\<rparr>)"

definition load_session :: "'s kv_ops \<Rightarrow> 's \<Rightarrow> string \<Rightarrow> string" where
  "load_session ops s event_key = (case kv_get ops s Sessions event_key of Inr (Some bytes) \<Rightarrow> bytes | _ \<Rightarrow> [])"

definition WINDOW_VALUE_VERSION :: nat where "WINDOW_VALUE_VERSION = 1"

definition encode_window :: "codec \<Rightarrow> wire_window \<Rightarrow> string" where
  "encode_window cd w = char_of WINDOW_VALUE_VERSION # ser_window cd w"

datatype window_decode = Valid wire_window | Future_Version | Corrupt

definition decode_window_versioned :: "codec \<Rightarrow> string \<Rightarrow> window_decode" where
  "decode_window_versioned cd bytes =
     (case bytes of
        [] \<Rightarrow> Corrupt
      | version # body \<Rightarrow>
          if byte version > WINDOW_VALUE_VERSION then Future_Version
          else (case de_window cd body of Some w \<Rightarrow> Valid w | None \<Rightarrow> Corrupt))"

definition decode_window :: "codec \<Rightarrow> string \<Rightarrow> wire_window option" where
  "decode_window cd bytes = (case decode_window_versioned cd bytes of Valid w \<Rightarrow> Some w | _ \<Rightarrow> None)"

section \<open>Keys\<close>

definition event_key :: "int \<Rightarrow> string \<Rightarrow> string \<Rightarrow> string \<Rightarrow> string" where
  "event_key ts dev prov msg = be64 ts @ dev @ nul # prov @ nul # msg"

definition idx_key :: "string \<Rightarrow> string \<Rightarrow> string \<Rightarrow> string" where
  "idx_key dev prov msg = dev @ nul # prov @ nul # msg"

definition user_idx_key :: "string \<Rightarrow> string \<Rightarrow> string" where
  "user_idx_key user ek = user @ nul # ek"

definition window_row_key :: "string \<Rightarrow> string \<Rightarrow> wire_window \<Rightarrow> string" where
  "window_row_key user prov w =
     user @ nul # prov @ nul # limit_id w @ nul # account w @ nul # char_of (window_kind w) # be64 (window_end_ms w)"

section \<open>Upserting events\<close>

definition idx_key_of :: "server_event \<Rightarrow> string" where
  "idx_key_of e = idx_key (device_id e) (provider e) (msg_id e)"

definition event_key_of :: "server_event \<Rightarrow> string" where
  "event_key_of e = event_key (ts_ms e) (device_id e) (provider e) (msg_id e)"

definition key_ts :: "string \<Rightarrow> int" where
  "key_ts k = of_be64 (take 8 k)"

definition upsert_one :: "'s kv_ops \<Rightarrow> codec \<Rightarrow> 's \<Rightarrow> kv_write list \<Rightarrow> server_event \<Rightarrow> kv_write list" where
  "upsert_one ops cd s batch e =
     (let ik = idx_key_of e;
          new_event_key = event_key_of e;
          val = encode_event cd e;
          inserts = [Put Events new_event_key val, Put Idx_User (user_idx_key (user_id e) new_event_key) val]
            @ (if session e \<noteq> [] then [Put Sessions new_event_key (session e)] else [])
            @ [Put Idx_Msg ik new_event_key]
      in (case kv_get ops s Idx_Msg ik of
            Inr (Some prev_key) \<Rightarrow>
              (let prev_ts = (if length prev_key \<ge> 8 then key_ts prev_key else i64_min)
               in if ts_ms e < prev_ts then batch
                  else
                    (let prev_user = (case kv_get ops s Events prev_key of
                           Inr (Some v) \<Rightarrow> (case decode_event cd v of Some p \<Rightarrow> user_id p | None \<Rightarrow> user_id e)
                         | _ \<Rightarrow> user_id e)
                     in batch @ [Del Events prev_key, Del Idx_User (user_idx_key prev_user prev_key), Del Sessions prev_key]
                          @ inserts))
          | _ \<Rightarrow> batch @ inserts))"

text \<open>The in-memory dedup of a batch: the first event with the largest timestamp per key.\<close>

fun winners :: "server_event list \<Rightarrow> (string, server_event) hashmap \<Rightarrow> (string, server_event) hashmap" where
  "winners [] m = m"
| "winners (e # es) m =
     (case hm_get m (idx_key_of e) of
        Some existing \<Rightarrow> if ts_ms existing \<ge> ts_ms e then winners es m
                         else winners es (hm_insert (idx_key_of e) e m)
      | None \<Rightarrow> winners es (hm_insert (idx_key_of e) e m))"

definition upsert_events ::
  "'s kv_ops \<Rightarrow> codec \<Rightarrow> (server_event list \<Rightarrow> server_event list) \<Rightarrow> server_event list \<Rightarrow> 's \<Rightarrow> unit result \<times> 's" where
  "upsert_events ops cd order events s =
     (if events = [] then (Inr (), s)
      else (case kv_commit ops s (foldl (upsert_one ops cd s) [] (order (map snd (winners events [])))) of
              Inl _ \<Rightarrow> (Inl ''fjall batch commit'', s)
            | Inr s' \<Rightarrow> (Inr (), s')))"

section \<open>Querying events\<close>

fun scan_events_loop ::
  "'s kv_ops \<Rightarrow> codec \<Rightarrow> 's \<Rightarrow> int \<Rightarrow> user_filter \<Rightarrow> nat \<Rightarrow> kv_item list \<Rightarrow> server_event list \<Rightarrow> server_event list" where
  "scan_events_loop ops cd s until f limit [] results = results"
| "scan_events_loop ops cd s until f limit (Inl _ # kvs) results = scan_events_loop ops cd s until f limit kvs results"
| "scan_events_loop ops cd s until f limit (Inr (key, val) # kvs) results =
     (if length key < 8 then scan_events_loop ops cd s until f limit kvs results
      else if key_ts key \<ge> until then results
      else (case decode_event cd val of
              None \<Rightarrow> scan_events_loop ops cd s until f limit kvs results
            | Some e0 \<Rightarrow>
                (let e = e0\<lparr>session := load_session ops s key\<rparr>
                 in if \<not> filter_admits f (user_id e) then scan_events_loop ops cd s until f limit kvs results
                    else let results = results @ [e]
                         in if length results \<ge> limit then results
                            else scan_events_loop ops cd s until f limit kvs results)))"

definition scan_events :: "'s kv_ops \<Rightarrow> codec \<Rightarrow> 's \<Rightarrow> int \<Rightarrow> int \<Rightarrow> user_filter \<Rightarrow> nat \<Rightarrow> server_event list" where
  "scan_events ops cd s since until f limit =
     scan_events_loop ops cd s until f limit (kv_range ops s Events (be64 since)) []"

fun scan_user_loop ::
  "'s kv_ops \<Rightarrow> codec \<Rightarrow> 's \<Rightarrow> nat \<Rightarrow> int \<Rightarrow> int \<Rightarrow> nat \<Rightarrow> kv_item list \<Rightarrow> server_event list \<Rightarrow> server_event list" where
  "scan_user_loop ops cd s ts_off since until limit [] results = results"
| "scan_user_loop ops cd s ts_off since until limit (Inl _ # kvs) results =
     scan_user_loop ops cd s ts_off since until limit kvs results"
| "scan_user_loop ops cd s ts_off since until limit (Inr (key, val) # kvs) results =
     (if length key < ts_off + 8 then scan_user_loop ops cd s ts_off since until limit kvs results
      else
        (let ts = key_ts (drop ts_off key)
         in if ts \<ge> until then results
            else if ts < since then scan_user_loop ops cd s ts_off since until limit kvs results
            else (case decode_event cd val of
                    Some e0 \<Rightarrow>
                      (let results = results @ [e0\<lparr>session := load_session ops s (drop ts_off key)\<rparr>]
                       in if length results \<ge> limit then results
                          else scan_user_loop ops cd s ts_off since until limit kvs results)
                  | None \<Rightarrow> scan_user_loop ops cd s ts_off since until limit kvs results)))"

definition scan_user_events :: "'s kv_ops \<Rightarrow> codec \<Rightarrow> 's \<Rightarrow> string \<Rightarrow> int \<Rightarrow> int \<Rightarrow> nat \<Rightarrow> server_event list" where
  "scan_user_events ops cd s user since until limit =
     scan_user_loop ops cd s (length user + 1) since until limit (kv_prefix ops s Idx_User (user @ [nul])) []"

fun scan_users :: "'s kv_ops \<Rightarrow> codec \<Rightarrow> 's \<Rightarrow> int \<Rightarrow> int \<Rightarrow> nat \<Rightarrow> string list \<Rightarrow> server_event list \<Rightarrow> server_event list" where
  "scan_users ops cd s since until limit [] out = out"
| "scan_users ops cd s since until limit (u # us) out =
     (if length out \<ge> limit then out
      else scan_users ops cd s since until limit us
             (out @ scan_user_events ops cd s u since until (limit - length out)))"

definition query_events ::
  "'s kv_ops \<Rightarrow> codec \<Rightarrow> int \<Rightarrow> int \<Rightarrow> user_filter \<Rightarrow> nat \<Rightarrow> 's \<Rightarrow> server_event list result" where
  "query_events ops cd since until f limit s =
     Inr (case f of
            Single u \<Rightarrow> scan_user_events ops cd s u since until limit
          | Multiple us \<Rightarrow> scan_users ops cd s since until limit us []
          | All \<Rightarrow> scan_events ops cd s since until f limit)"

section \<open>Deleting events\<close>

definition stale_pointer :: "int \<Rightarrow> kv_item \<Rightarrow> kv_write list" where
  "stale_pointer cutoff item = (case item of
     Inl _ \<Rightarrow> []
   | Inr (k, v) \<Rightarrow> if length v \<ge> 8 \<and> key_ts v < cutoff then [Del Idx_Msg k] else [])"

definition cleanup_old_dedup :: "'s kv_ops \<Rightarrow> string \<Rightarrow> int \<Rightarrow> 's \<Rightarrow> unit result \<times> 's" where
  "cleanup_old_dedup ops dev cutoff s =
     (let batch = concat (map (stale_pointer cutoff) (kv_prefix ops s Idx_Msg (dev @ [nul])))
      in if length batch > 0
         then (case kv_commit ops s batch of
                 Inl _ \<Rightarrow> (Inl ''fjall cleanup_old_dedup commit'', s)
               | Inr s' \<Rightarrow> (Inr (), s'))
         else (Inr (), s))"

definition drop_event :: "codec \<Rightarrow> string \<Rightarrow> kv_item \<Rightarrow> kv_write list" where
  "drop_event cd dev item = (case item of
     Inl _ \<Rightarrow> []
   | Inr (k, v) \<Rightarrow>
       (case decode_event cd v of
          None \<Rightarrow> []
        | Some ev \<Rightarrow> if device_id ev \<noteq> dev then []
                    else [Del Idx_User (user_idx_key (user_id ev) k), Del Idx_Msg (idx_key_of ev),
                          Del Sessions k, Del Events k]))"

definition drop_pointer :: "kv_item \<Rightarrow> kv_write list" where
  "drop_pointer item = (case item of Inl _ \<Rightarrow> [] | Inr (k, v) \<Rightarrow> [Del Idx_Msg k])"

definition delete_device_events :: "'s kv_ops \<Rightarrow> codec \<Rightarrow> string \<Rightarrow> 's \<Rightarrow> unit result \<times> 's" where
  "delete_device_events ops cd dev s =
     (case kv_commit ops s (concat (map (drop_event cd dev) (kv_range ops s Events []))
             @ concat (map drop_pointer (kv_prefix ops s Idx_Msg (dev @ [nul])))) of
        Inl _ \<Rightarrow> (Inl ''fjall delete_device commit'', s)
      | Inr s' \<Rightarrow> (Inr (), s'))"

section \<open>Windows\<close>

fun upsert_windows_loop ::
  "'s kv_ops \<Rightarrow> codec \<Rightarrow> string \<Rightarrow> string \<Rightarrow> wire_window list \<Rightarrow> nat \<Rightarrow> 's \<Rightarrow> nat result \<times> 's" where
  "upsert_windows_loop ops cd user prov [] skipped s = (Inr skipped, s)"
| "upsert_windows_loop ops cd user prov (w # ws) skipped s =
     (let key = window_row_key user prov w;
          store = (\<lambda>merged. (case kv_commit ops s [Put Windows key (encode_window cd merged)] of
                     Inl e \<Rightarrow> (Inl e, s)
                   | Inr s' \<Rightarrow> upsert_windows_loop ops cd user prov ws skipped s'))
      in (case kv_get ops s Windows key of
            Inl e \<Rightarrow> (Inl e, s)
          | Inr None \<Rightarrow> store w
          | Inr (Some prev_bytes) \<Rightarrow>
              (case decode_window_versioned cd prev_bytes of
                 Valid prev \<Rightarrow>
                   (let merged = merge_wire_windows prev w
                    in if merged = prev then upsert_windows_loop ops cd user prov ws skipped s else store merged)
               | Future_Version \<Rightarrow> upsert_windows_loop ops cd user prov ws (skipped + 1) s
               | Corrupt \<Rightarrow> store w)))"

definition upsert_windows ::
  "'s kv_ops \<Rightarrow> codec \<Rightarrow> string \<Rightarrow> string \<Rightarrow> wire_window list \<Rightarrow> 's \<Rightarrow> nat result \<times> 's" where
  "upsert_windows ops cd user prov ws s =
     (if ws = [] then (Inr 0, s) else upsert_windows_loop ops cd user prov ws 0 s)"

definition key_anchor :: "string \<Rightarrow> int option" where
  "key_anchor k = (if length k < 8 then None else Some (of_be64 (drop (length k - 8) k)))"

fun query_windows_loop ::
  "codec \<Rightarrow> nat \<Rightarrow> int \<Rightarrow> kv_item list \<Rightarrow> (string \<times> wire_window) list \<Rightarrow> (string \<times> wire_window) list result" where
  "query_windows_loop cd plen since [] out = Inr out"
| "query_windows_loop cd plen since (Inl e # kvs) out = Inl e"
| "query_windows_loop cd plen since (Inr (key, val) # kvs) out =
     (let rest = drop plen key
      in if nul \<notin> set rest then query_windows_loop cd plen since kvs out
         else if (case key_anchor key of Some a \<Rightarrow> a < since | None \<Rightarrow> False)
         then query_windows_loop cd plen since kvs out
         else (case decode_window cd val of
                 Some w \<Rightarrow> query_windows_loop cd plen since kvs
                   (if window_end_ms w \<ge> since then out @ [(takeWhile (\<lambda>b. b \<noteq> nul) rest, w)] else out)
               | None \<Rightarrow> query_windows_loop cd plen since kvs out))"

definition query_user_windows ::
  "'s kv_ops \<Rightarrow> codec \<Rightarrow> string \<Rightarrow> int \<Rightarrow> 's \<Rightarrow> (string \<times> wire_window) list result" where
  "query_user_windows ops cd user since s =
     query_windows_loop cd (length user + 1) since (kv_prefix ops s Windows (user @ [nul])) []"

definition CLEANUP_BATCH :: nat where "CLEANUP_BATCH = 10000"

fun collect_stale :: "int \<Rightarrow> kv_item list \<Rightarrow> string list \<Rightarrow> string list result" where
  "collect_stale cutoff [] stale = Inr stale"
| "collect_stale cutoff (Inl e # kvs) stale = Inl e"
| "collect_stale cutoff (Inr (key, val) # kvs) stale =
     (case key_anchor key of
        Some a \<Rightarrow> if a < cutoff
                  then (let stale = stale @ [key]
                        in if length stale \<ge> CLEANUP_BATCH then Inr stale else collect_stale cutoff kvs stale)
                  else collect_stale cutoff kvs stale
      | None \<Rightarrow> collect_stale cutoff kvs stale)"

fun remove_keys :: "'s kv_ops \<Rightarrow> string list \<Rightarrow> 's \<Rightarrow> unit result \<times> 's" where
  "remove_keys ops [] s = (Inr (), s)"
| "remove_keys ops (k # ks) s =
     (case kv_commit ops s [Del Windows k] of Inl e \<Rightarrow> (Inl e, s) | Inr s' \<Rightarrow> remove_keys ops ks s')"

text \<open>The loop over the batches ends when a pass finds nothing; \<open>None\<close> would be a loop that never does.\<close>

partial_function (option) cleanup_windows_loop :: "'s kv_ops \<Rightarrow> int \<Rightarrow> nat \<Rightarrow> 's \<Rightarrow> (nat result \<times> 's) option" where
  "cleanup_windows_loop ops cutoff removed s =
     (case collect_stale cutoff (kv_range ops s Windows []) [] of
        Inl e \<Rightarrow> Some (Inl e, s)
      | Inr stale \<Rightarrow>
          if stale = [] then Some (Inr removed, s)
          else (case remove_keys ops stale s of
                  (Inl e, s') \<Rightarrow> Some (Inl e, s')
                | (Inr _, s') \<Rightarrow> cleanup_windows_loop ops cutoff (removed + length stale) s'))"

definition cleanup_old_windows :: "'s kv_ops \<Rightarrow> int \<Rightarrow> 's \<Rightarrow> (nat result \<times> 's) option" where
  "cleanup_old_windows ops cutoff s = cleanup_windows_loop ops cutoff 0 s"

fun all_keys :: "kv_item list \<Rightarrow> string list result" where
  "all_keys [] = Inr []"
| "all_keys (Inl e # kvs) = Inl e"
| "all_keys (Inr (k, v) # kvs) = (case all_keys kvs of Inl e \<Rightarrow> Inl e | Inr ks \<Rightarrow> Inr (k # ks))"

definition delete_user_windows :: "'s kv_ops \<Rightarrow> string \<Rightarrow> 's \<Rightarrow> unit result \<times> 's" where
  "delete_user_windows ops user s =
     (case all_keys (kv_prefix ops s Windows (user @ [nul])) of
        Inl e \<Rightarrow> (Inl e, s)
      | Inr ks \<Rightarrow> remove_keys ops ks s)"

end
