(* ===== verification/Event_Log.thy ===== *)
theory Event_Log
  imports Fjall
begin

text \<open>
  The event store's contract and its refinement. An \<open>event_log\<close> is what the store means: the rows,
  by identity (device, provider, message) and timestamp, and for each identity the timestamp of the
  row a later event replaces (absent once \<open>cleanup_old_dedup\<close> has pruned it). \<open>represents\<close> relates
  the four keyspaces to a log; every operation of \<open>Fjall\<close> is shown to act on the log as its
  specification says.

  The identities of a log are free of NUL bytes, which separate the parts of a key, and every event
  of a device belongs to one user, its \<open>owner\<close>.
\<close>

section \<open>The log\<close>

datatype ident = Ident (id_device: string) (id_provider: string) (id_msg: string)

record event_log =
  rows :: "ident \<times> int \<rightharpoonup> server_event"
  pointers :: "ident \<rightharpoonup> int"

definition ident_of :: "server_event \<Rightarrow> ident" where
  "ident_of e = Ident (device_id e) (provider e) (msg_id e)"

text \<open>An event that brings no session leaves the one already stored under its own row key, which a row
  without a pointer may have.\<close>

definition keep_session :: "server_event option \<Rightarrow> server_event \<Rightarrow> server_event" where
  "keep_session old e = (case old of
     Some f \<Rightarrow> if session e = [] then e\<lparr>session := session f\<rparr> else e | None \<Rightarrow> e)"

definition log_insert :: "server_event \<Rightarrow> event_log \<Rightarrow> event_log" where
  "log_insert e L =
     \<lparr>rows = (rows L)((ident_of e, ts_ms e) \<mapsto> keep_session (rows L (ident_of e, ts_ms e)) e),
      pointers = (pointers L)(ident_of e \<mapsto> ts_ms e)\<rparr>"

definition log_remove :: "ident \<Rightarrow> int \<Rightarrow> event_log \<Rightarrow> event_log" where
  "log_remove i t L = L\<lparr>rows := (rows L)((i, t) := None)\<rparr>"

definition log_upsert :: "server_event \<Rightarrow> event_log \<Rightarrow> event_log" where
  "log_upsert e L =
     (case pointers L (ident_of e) of
        Some t \<Rightarrow> if ts_ms e < t then L else log_insert e (log_remove (ident_of e) t L)
      | None \<Rightarrow> log_insert e L)"

lemmas log_upsert_defs = log_upsert_def log_insert_def log_remove_def

lemma keep_session_sel [simp]:
  "ident_of (keep_session old e) = ident_of e" "ts_ms (keep_session old e) = ts_ms e"
  "user_id (keep_session old e) = user_id e" "device_id (keep_session old e) = device_id e"
  "keep_session None e = e"
  by (auto simp: keep_session_def ident_of_def split: option.split)

definition log_prune :: "string \<Rightarrow> int \<Rightarrow> event_log \<Rightarrow> event_log" where
  "log_prune dev cutoff L = L\<lparr>pointers := (\<lambda>i. case pointers L i of
      Some t \<Rightarrow> if id_device i = dev \<and> t < cutoff then None else Some t | None \<Rightarrow> None)\<rparr>"

definition log_delete_device :: "string \<Rightarrow> event_log \<Rightarrow> event_log" where
  "log_delete_device dev L =
     \<lparr>rows = (\<lambda>(i, t). if id_device i = dev then None else rows L (i, t)),
      pointers = (\<lambda>i. if id_device i = dev then None else pointers L i)\<rparr>"

definition ident_ok :: "ident \<Rightarrow> bool" where
  "ident_ok i \<longleftrightarrow> nul \<notin> set (id_device i) \<and> nul \<notin> set (id_provider i)"

definition event_ok :: "(string \<Rightarrow> string) \<Rightarrow> server_event \<Rightarrow> bool" where
  "event_ok owner e \<longleftrightarrow> ident_ok (ident_of e) \<and> in_i64 (ts_ms e) \<and> nul \<notin> set (user_id e) \<and>
     user_id e = owner (device_id e)"

lemma event_ok_keep [simp]: "event_ok owner (keep_session old e) = event_ok owner e"
  by (simp add: event_ok_def)

definition log_ok :: "(string \<Rightarrow> string) \<Rightarrow> event_log \<Rightarrow> bool" where
  "log_ok owner L \<longleftrightarrow>
     (\<forall>i t e. rows L (i, t) = Some e \<longrightarrow> ident_of e = i \<and> ts_ms e = t \<and> event_ok owner e) \<and>
     (\<forall>i t. pointers L i = Some t \<longrightarrow> rows L (i, t) \<noteq> None)"

text \<open>A log none of whose rows has lost its pointer has one row per identity.\<close>

definition log_complete :: "event_log \<Rightarrow> bool" where
  "log_complete L \<longleftrightarrow> (\<forall>i t e. rows L (i, t) = Some e \<longrightarrow> pointers L i = Some t)"

definition current :: "event_log \<Rightarrow> ident \<Rightarrow> server_event option" where
  "current L i = (case pointers L i of None \<Rightarrow> None | Some t \<Rightarrow> rows L (i, t))"

definition empty_log :: event_log where "empty_log = \<lparr>rows = Map.empty, pointers = Map.empty\<rparr>"

lemma row_ok:
  "log_ok owner L \<Longrightarrow> rows L (i, t) = Some e \<Longrightarrow> ident_of e = i \<and> ts_ms e = t \<and> event_ok owner e"
  by (auto simp: log_ok_def)

lemma pointer_row:
  assumes "log_ok owner L" "pointers L i = Some t"
  obtains e where "rows L (i, t) = Some e" "ident_of e = i" "ts_ms e = t" "event_ok owner e"
proof -
  obtain e where "rows L (i, t) = Some e" using assms unfolding log_ok_def by blast
  then show ?thesis using row_ok [OF assms(1)] that by blast
qed

lemma log_ok_upsert: "log_ok owner L \<Longrightarrow> event_ok owner e \<Longrightarrow> log_ok owner (log_upsert e L)"
  by (auto simp: log_ok_def log_upsert_defs split: option.splits if_splits)

lemma log_ok_prune: "log_ok owner L \<Longrightarrow> log_ok owner (log_prune dev cutoff L)"
  by (auto simp: log_ok_def log_prune_def split: option.splits if_splits)

lemma log_ok_delete: "log_ok owner L \<Longrightarrow> log_ok owner (log_delete_device dev L)"
  by (auto simp: log_ok_def log_delete_device_def split: if_splits)

lemma log_complete_upsert:
  assumes "log_complete L"
  shows "log_complete (log_upsert e L)"
  unfolding log_complete_def
proof (intro allI impI)
  fix i t f assume row: "rows (log_upsert e L) (i, t) = Some f"
  have "rows L (i, t) = Some f \<longrightarrow> pointers L i = Some t" using assms unfolding log_complete_def by blast
  with row show "pointers (log_upsert e L) i = Some t"
    by (auto simp: log_upsert_defs split: option.splits if_splits)
qed


text \<open>What an upsert leaves current: the newer of the two, the arriving one on a tie.\<close>

definition newer :: "server_event option \<Rightarrow> server_event \<Rightarrow> server_event" where
  "newer old e = (case old of Some o' \<Rightarrow> if ts_ms e < ts_ms o' then o' else e | None \<Rightarrow> e)"

lemma current_upsert:
  assumes "log_ok owner L" "log_complete L"
  shows "current (log_upsert e L) = (current L)(ident_of e \<mapsto> newer (current L (ident_of e)) e)"
proof (cases "pointers L (ident_of e)")
  case None
  then have "rows L (ident_of e, ts_ms e) = None" using assms(2) unfolding log_complete_def by (metis not_None_eq)
  with None show ?thesis
    by (auto simp: current_def log_upsert_defs newer_def fun_eq_iff split: option.split)
next
  case (Some t)
  obtain o' where o': "rows L (ident_of e, t) = Some o'" "ts_ms o' = t" using assms(1) Some by (rule pointer_row)
  have "t \<noteq> ts_ms e \<Longrightarrow> rows L (ident_of e, ts_ms e) = None"
    using assms(2) Some unfolding log_complete_def by (metis not_None_eq option.inject)
  with Some o' show ?thesis
    by (auto simp: current_def log_upsert_defs newer_def fun_eq_iff split: option.split)
qed

text \<open>A complete log is determined by what is current.\<close>

lemma row_current:
  assumes "log_ok owner L" "log_complete L"
  shows "rows L (i, t) = (case current L i of Some e \<Rightarrow> if ts_ms e = t then Some e else None | None \<Rightarrow> None)"
proof (cases "rows L (i, t)")
  case None
  show ?thesis
  proof (cases "pointers L i")
    case (Some t')
    obtain e where "rows L (i, t') = Some e" "ts_ms e = t'" using assms(1) Some by (rule pointer_row)
    with None Some show ?thesis by (auto simp: current_def)
  qed (simp add: None current_def)
next
  case (Some e)
  then have "pointers L i = Some t" using assms(2) by (auto simp: log_complete_def)
  with Some row_ok [OF assms(1) Some] show ?thesis by (simp add: current_def)
qed

lemma pointer_current:
  assumes "log_ok owner L"
  shows "pointers L i = map_option ts_ms (current L i)"
proof (cases "pointers L i")
  case (Some t)
  obtain e where "rows L (i, t) = Some e" "ts_ms e = t" using assms Some by (rule pointer_row)
  with Some show ?thesis by (simp add: current_def)
qed (simp add: current_def)

lemma complete_determined:
  assumes "log_ok owner L" "log_ok owner L'" "log_complete L" "log_complete L'" "current L = current L'"
  shows "L = L'"
proof -
  have "rows L x = rows L' x" for x
    using row_current [OF assms(1,3)] row_current [OF assms(2,4)] assms(5) by (cases x) simp
  moreover have "pointers L i = pointers L' i" for i
    using pointer_current [OF assms(1)] pointer_current [OF assms(2)] assms(5) by simp
  ultimately show ?thesis by (cases L, cases L') auto
qed

subsection \<open>Upserts commute\<close>

definition different_rank :: "server_event \<Rightarrow> server_event \<Rightarrow> bool" where
  "different_rank x y \<longleftrightarrow> ident_of x = ident_of y \<longrightarrow> ts_ms x \<noteq> ts_ms y"

definition complete_ok :: "(string \<Rightarrow> string) \<Rightarrow> event_log \<Rightarrow> bool" where
  "complete_ok owner L \<longleftrightarrow> log_ok owner L \<and> log_complete L"

lemma newer_commute:
  "ts_ms x \<noteq> ts_ms y \<Longrightarrow> newer (Some (newer c y)) x = newer (Some (newer c x)) y"
  by (auto simp: newer_def split: option.splits)

lemma log_upsert_commute:
  assumes "complete_ok owner L" "event_ok owner x" "event_ok owner y" "different_rank x y"
  shows "log_upsert x (log_upsert y L) = log_upsert y (log_upsert x L)"
proof -
  have ok: "log_ok owner L" "log_complete L" using assms(1) by (simp_all add: complete_ok_def)
  note ok_x = log_ok_upsert [OF ok(1) assms(2)] log_complete_upsert [OF ok(2), of x]
    and ok_y = log_ok_upsert [OF ok(1) assms(3)] log_complete_upsert [OF ok(2), of y]
  have "current (log_upsert x (log_upsert y L)) = current (log_upsert y (log_upsert x L))"
    using assms(4) newer_commute
    by (auto simp: current_upsert [OF ok_x] current_upsert [OF ok_y] current_upsert [OF ok] fun_eq_iff different_rank_def)
  then show ?thesis
    by (rule complete_determined [rotated -1])
      (use assms(2,3) ok ok_x ok_y in \<open>auto intro: log_ok_upsert log_complete_upsert\<close>)
qed

interpretation event_merge: absorbing log_upsert "complete_ok owner" different_rank "event_ok owner" for owner
proof unfold_locales
  show "complete_ok owner (log_upsert x L)" if "complete_ok owner L" "event_ok owner x" for L x
    using that by (simp add: complete_ok_def log_ok_upsert log_complete_upsert)
  show "log_upsert x (log_upsert y L) = log_upsert y (log_upsert x L)"
    if "complete_ok owner L" "event_ok owner x" "event_ok owner y" "different_rank x y" for L x y
    using that by (rule log_upsert_commute)
qed

subsection \<open>Batches\<close>

text \<open>Events of different identities commute on any log, so the iteration order of the winners does not
  matter.\<close>

lemma log_upsert_commute_other:
  assumes "ident_of x \<noteq> ident_of y"
  shows "log_upsert x (log_upsert y L) = log_upsert y (log_upsert x L)"
  using assms
  by (cases "pointers L (ident_of x)"; cases "pointers L (ident_of y)")
    (auto simp: log_upsert_defs fun_upd_twist)

interpretation winner_merge: absorbing log_upsert "\<lambda>_. True" "\<lambda>x y. ident_of x \<noteq> ident_of y" "\<lambda>_. True"
  by unfold_locales (simp_all add: log_upsert_commute_other)

definition keyed_ok :: "server_event list \<Rightarrow> bool" where
  "keyed_ok es \<longleftrightarrow> (\<forall>e\<in>set es. ident_ok (ident_of e))"

fun best :: "server_event option \<Rightarrow> server_event list \<Rightarrow> server_event option" where
  "best acc [] = acc"
| "best acc (e # es) =
     best (case acc of Some x \<Rightarrow> if ts_ms x \<ge> ts_ms e then acc else Some e | None \<Rightarrow> Some e) es"

lemma hm_get_winners:
  "hm_get (winners es m) k = best (hm_get m k) (filter (\<lambda>e. idx_key_of e = k) es)"
  by (induction es m rule: winners.induct) (auto simp: hm_simps split: option.splits)

lemma winners_wf: "hm_wf m \<Longrightarrow> hm_wf (winners es m)"
  by (induction es m rule: winners.induct) (auto simp: hm_simps split: option.splits)

lemma best_None: "best acc es = None \<longleftrightarrow> acc = None \<and> es = []"
  by (induction es arbitrary: acc) (auto split: option.splits)

lemma best_Some:
  "best acc es = Some b \<Longrightarrow> (acc = Some b \<or> b \<in> set es) \<and> (\<forall>e\<in>set es. ts_ms e \<le> ts_ms b) \<and>
     (\<forall>a. acc = Some a \<longrightarrow> ts_ms a \<le> ts_ms b)"
proof (induction es arbitrary: acc)
  case (Cons e es)
  let ?acc = "case acc of Some x \<Rightarrow> if ts_ms x \<ge> ts_ms e then acc else Some e | None \<Rightarrow> Some e"
  from Cons.IH [of ?acc] Cons.prems
  have ih: "?acc = Some b \<or> b \<in> set es" "\<forall>e\<in>set es. ts_ms e \<le> ts_ms b" "\<forall>a. ?acc = Some a \<longrightarrow> ts_ms a \<le> ts_ms b"
    by auto
  then show ?case by (fastforce split: option.splits if_splits)
qed simp

definition batch_winners :: "server_event list \<Rightarrow> server_event list" where
  "batch_winners es = map snd (winners es [])"

definition log_batch :: "server_event list \<Rightarrow> event_log \<Rightarrow> event_log" where
  "log_batch es L = fold log_upsert (batch_winners es) L"

definition of_ident :: "ident \<Rightarrow> server_event list \<Rightarrow> server_event list" where
  "of_ident i es = filter (\<lambda>e. ident_of e = i) es"

lemma winner_iff:
  "e \<in> set (batch_winners es) \<longleftrightarrow> best None (filter (\<lambda>f. idx_key_of f = idx_key_of e) es) = Some e"
proof -
  have wf: "hm_wf (winners es [])" by (simp add: winners_wf)
  have mem: "(k, e) \<in> set (winners es []) \<longleftrightarrow> best None (filter (\<lambda>f. idx_key_of f = k) es) = Some e" for k
    using map_of_eq_Some_iff [OF wf, of k e] hm_get_winners [of es "[]" k] by (auto simp: hm_get_def)
  have "k = idx_key_of e" if "(k, e) \<in> set (winners es [])" for k
    using that best_Some [of None "filter (\<lambda>f. idx_key_of f = k) es" e] by (auto simp: mem)
  then show ?thesis using mem by (force simp: batch_winners_def)
qed

lemma winner_in_batch: "e \<in> set (batch_winners es) \<Longrightarrow> e \<in> set es"
  using best_Some by (fastforce simp: winner_iff)

lemma winners_distinct:
  assumes "keyed_ok es"
  shows "distinct (map ident_of (batch_winners es))"
proof -
  have key: "k = idx_key_of e" if "(k, e) \<in> set (winners es [])" for k e
    using that winners_wf [of "[]" es] hm_get_winners [of es "[]" k]
      best_Some [of None "filter (\<lambda>f. idx_key_of f = k) es" e] by (auto simp: hm_get_def)
  have "map fst (winners es []) = map (idx_key_of \<circ> snd) (winners es [])"
    using key by (intro map_cong) auto
  note eq = this
  have "distinct (map (idx_key_of \<circ> snd) (winners es []))"
    unfolding eq [symmetric] by (simp add: winners_wf)
  then have "distinct (map idx_key_of (batch_winners es))" by (simp add: batch_winners_def)
  then have "inj_on idx_key_of (set (batch_winners es))" "distinct (batch_winners es)"
    by (auto simp: distinct_map)
  moreover have "inj_on ident_of (set (batch_winners es))"
  proof (rule inj_onI)
    fix x y assume "x \<in> set (batch_winners es)" "y \<in> set (batch_winners es)" "ident_of x = ident_of y"
    moreover from this(3) have "idx_key_of x = idx_key_of y" by (simp add: ident_of_def idx_key_of_def)
    ultimately show "x = y" using \<open>inj_on idx_key_of (set (batch_winners es))\<close> by (simp add: inj_onD)
  qed
  ultimately show ?thesis by (simp add: distinct_map)
qed

lemma same_idx_key:
  "ident_ok (ident_of x) \<Longrightarrow> ident_ok (ident_of y) \<Longrightarrow> idx_key_of x = idx_key_of y \<longleftrightarrow> ident_of x = ident_of y"
  by (auto simp: ident_ok_def ident_of_def idx_key_of_def idx_key_def append_sep_inject)

lemma winner_of_ident:
  assumes "keyed_ok es" "e \<in> set (batch_winners es)"
  shows "best None (of_ident (ident_of e) es) = Some e"
proof -
  have "filter (\<lambda>f. idx_key_of f = idx_key_of e) es = of_ident (ident_of e) es"
    using assms(1) winner_in_batch [OF assms(2)] same_idx_key
    by (auto simp: of_ident_def keyed_ok_def intro!: filter_cong)
  with assms(2) show ?thesis by (simp add: winner_iff)
qed

lemma winner_exists:
  assumes "keyed_ok es" "e \<in> set es"
  shows "\<exists>w\<in>set (batch_winners es). ident_of w = ident_of e"
proof -
  have "best None (filter (\<lambda>f. idx_key_of f = idx_key_of e) es) \<noteq> None"
    using assms(2) by (auto simp: best_None filter_empty_conv)
  then obtain w where w: "best None (filter (\<lambda>f. idx_key_of f = idx_key_of e) es) = Some w" by blast
  then have "idx_key_of w = idx_key_of e" "w \<in> set es" using best_Some [OF w] by auto
  moreover from this have "ident_of w = ident_of e" using assms same_idx_key by (auto simp: keyed_ok_def)
  moreover have "w \<in> set (batch_winners es)" unfolding winner_iff calculation(1) by (rule w)
  ultimately show ?thesis by blast
qed

text \<open>What is current after a batch of distinct identities, and after any batch.\<close>

lemma current_fold_distinct:
  assumes "complete_ok owner L" "\<forall>e\<in>set ws. event_ok owner e" "distinct (map ident_of ws)"
  shows "complete_ok owner (fold log_upsert ws L) \<and>
    current (fold log_upsert ws L) i =
      (case find (\<lambda>w. ident_of w = i) ws of Some w \<Rightarrow> Some (newer (current L i) w) | None \<Rightarrow> current L i)"
  using assms
proof (induction ws arbitrary: L)
  case (Cons w ws)
  have ok: "complete_ok owner (log_upsert w L)"
    using Cons.prems by (simp add: complete_ok_def log_ok_upsert log_complete_upsert)
  have cur: "current (log_upsert w L) = (current L)(ident_of w \<mapsto> newer (current L (ident_of w)) w)"
    using Cons.prems(1) by (intro current_upsert) (auto simp: complete_ok_def)
  have "find (\<lambda>v. ident_of v = ident_of w) ws = None" using Cons.prems(3)
    by (simp add: find_None_iff) (metis image_eqI)
  with Cons.IH [OF ok] Cons.prems(2,3) cur show ?case by (auto split: option.split)
qed simp

lemma current_batch:
  assumes "complete_ok owner L" "\<forall>e\<in>set es. event_ok owner e"
  shows "complete_ok owner (log_batch es L) \<and>
    current (log_batch es L) i =
      (case best None (of_ident i es) of Some w \<Rightarrow> Some (newer (current L i) w) | None \<Rightarrow> current L i)"
proof -
  have keyed: "keyed_ok es" using assms(2) by (auto simp: keyed_ok_def event_ok_def)
  have fold: "complete_ok owner (log_batch es L) \<and> current (log_batch es L) i =
      (case find (\<lambda>w. ident_of w = i) (batch_winners es) of Some w \<Rightarrow> Some (newer (current L i) w) | None \<Rightarrow> current L i)"
    unfolding log_batch_def
    by (rule current_fold_distinct) (use assms winner_in_batch winners_distinct [OF keyed] in auto)
  have "find (\<lambda>w. ident_of w = i) (batch_winners es) = best None (of_ident i es)"
  proof (cases "find (\<lambda>w. ident_of w = i) (batch_winners es)")
    case None
    then have "of_ident i es = []" using winner_exists [OF keyed] by (auto simp: find_None_iff of_ident_def filter_empty_conv)
    with None show ?thesis by simp
  next
    case (Some w)
    then have "w \<in> set (batch_winners es)" "ident_of w = i" by (auto simp: find_Some_iff)
    with Some winner_of_ident [OF keyed, of w] show ?thesis by simp
  qed
  with fold show ?thesis by simp
qed

text \<open>Sending a batch twice changes nothing the second time.\<close>

lemma newer_idem: "newer (Some (newer c w)) w = newer c w"
  by (auto simp: newer_def split: option.splits)

lemma log_batch_idem:
  assumes "complete_ok owner L" "\<forall>e\<in>set es. event_ok owner e"
  shows "log_batch es (log_batch es L) = log_batch es L"
proof -
  note once = current_batch [OF assms]
  note twice = current_batch [OF conjunct1 [OF once] assms(2)]
  have "current (log_batch es (log_batch es L)) i = current (log_batch es L) i" for i
    using once [of i] twice [of i] by (auto simp: newer_idem split: option.splits)
  then show ?thesis
    using once twice by (intro complete_determined [of owner]) (auto simp: complete_ok_def)
qed

end
