(* ===== verification/Event_Refinement.thy ===== *)
theory Event_Refinement
  imports Event_Log
begin

text \<open>
  The refinement between the keyspaces of theory \<open>Fjall\<close> and the log of theory \<open>Event_Log\<close>:
  \<open>under \<kappa> D M A\<close> says that the byte map \<open>M\<close> is the map \<open>A\<close> with its arguments from \<open>D\<close> coded by \<open>\<kappa>\<close>,
  and \<open>represents\<close> that the four keyspaces are the log under the four key functions.
\<close>

section \<open>Coded maps\<close>

definition under :: "('a \<Rightarrow> string) \<Rightarrow> 'a set \<Rightarrow> (string \<rightharpoonup> string) \<Rightarrow> ('a \<rightharpoonup> string) \<Rightarrow> bool" where
  "under \<kappa> D M A \<longleftrightarrow> (\<forall>x\<in>D. M (\<kappa> x) = A x) \<and> (\<forall>x. x \<notin> D \<longrightarrow> A x = None) \<and>
     (\<forall>k v. M k = Some v \<longrightarrow> k \<in> \<kappa> ` D)"

lemma under_at: "under \<kappa> D M A \<Longrightarrow> x \<in> D \<Longrightarrow> M (\<kappa> x) = A x"
  by (simp add: under_def)

lemma under_key:
  assumes "under \<kappa> D M A" "M k = Some v"
  obtains x where "x \<in> D" "k = \<kappa> x" "A x = Some v"
  using assms unfolding under_def by (metis imageE)

lemma under_update:
  assumes "inj_on \<kappa> D" "under \<kappa> D M A" "x \<in> D"
  shows "under \<kappa> D (M(\<kappa> x := v)) (A(x := v))"
  using assms by (auto simp: under_def inj_on_eq_iff)

lemma under_cong: "under \<kappa> D M A \<Longrightarrow> A = A' \<Longrightarrow> under \<kappa> D M A'"
  by simp

section \<open>The keys\<close>

definition row_ids :: "(ident \<times> int) set" where
  "row_ids = {(i, t). ident_ok i \<and> in_i64 t}"

definition user_ids :: "(string \<times> ident \<times> int) set" where
  "user_ids = {(u, x). nul \<notin> set u \<and> x \<in> row_ids}"

definition ek :: "ident \<times> int \<Rightarrow> string" where
  "ek x = (case x of (i, t) \<Rightarrow> event_key t (id_device i) (id_provider i) (id_msg i))"

definition uk :: "string \<times> ident \<times> int \<Rightarrow> string" where
  "uk y = (case y of (u, x) \<Rightarrow> user_idx_key u (ek x))"

definition ik :: "ident \<Rightarrow> string" where
  "ik i = idx_key (id_device i) (id_provider i) (id_msg i)"

lemma idx_key_inject:
  assumes "ident_ok i" "ident_ok j"
  shows "ik i = ik j \<longleftrightarrow> i = j"
  using assms by (cases i, cases j) (auto simp: ik_def idx_key_def ident_ok_def append_sep_inject)

lemma inj_ik: "inj_on ik {i. ident_ok i}"
  by (simp add: inj_on_def idx_key_inject)

lemma ek_be64: "ek (i, t) = be64 t @ ik i"
  by (simp add: ek_def event_key_def ik_def idx_key_def)

lemma key_ts_ek [simp]: "in_i64 t \<Longrightarrow> key_ts (ek (i, t)) = t"
  by (simp add: key_ts_def ek_be64)

lemma length_ek: "8 \<le> length (ek x)"
  by (cases x) (simp add: ek_be64)

lemma ek_inject:
  assumes "x \<in> row_ids" "y \<in> row_ids"
  shows "ek x = ek y \<longleftrightarrow> x = y"
  using assms by (cases x, cases y) (auto simp: ek_be64 row_ids_def be64_inject idx_key_inject)

lemma inj_ek: "inj_on ek row_ids"
  by (simp add: inj_on_def ek_inject)

lemma uk_inject:
  assumes "x \<in> user_ids" "y \<in> user_ids"
  shows "uk x = uk y \<longleftrightarrow> x = y"
  using assms by (cases x, cases y) (auto simp: uk_def user_idx_key_def user_ids_def append_sep_inject ek_inject)

lemma inj_uk: "inj_on uk user_ids"
  by (simp add: inj_on_def uk_inject)

lemma event_keys:
  "event_key_of e = ek (ident_of e, ts_ms e)" "idx_key_of e = ik (ident_of e)"
  "user_idx_key u (ek x) = uk (u, x)"
  by (simp_all add: event_key_of_def ek_def idx_key_of_def ik_def uk_def ident_of_def)

lemma event_ok_ids:
  assumes "event_ok owner e"
  shows "ident_ok (ident_of e)" "(ident_of e, ts_ms e) \<in> row_ids" "(user_id e, ident_of e, ts_ms e) \<in> user_ids"
  using assms by (auto simp: event_ok_def row_ids_def user_ids_def simp del: all_simps)

lemma pointer_ident: "log_ok owner L \<Longrightarrow> pointers L i = Some t \<Longrightarrow> ident_ok i"
  using event_ok_ids(1) by (metis pointer_row)

section \<open>Representation\<close>

definition events_view :: "codec \<Rightarrow> event_log \<Rightarrow> ident \<times> int \<rightharpoonup> string" where
  "events_view cd L = (\<lambda>x. map_option (encode_event cd) (rows L x))"

definition users_view :: "codec \<Rightarrow> event_log \<Rightarrow> string \<times> ident \<times> int \<rightharpoonup> string" where
  "users_view cd L = (\<lambda>(u, x). case rows L x of Some e \<Rightarrow> if user_id e = u then Some (encode_event cd e) else None | None \<Rightarrow> None)"

definition sessions_view :: "event_log \<Rightarrow> ident \<times> int \<rightharpoonup> string" where
  "sessions_view L = (\<lambda>x. case rows L x of Some e \<Rightarrow> if session e = [] then None else Some (session e) | None \<Rightarrow> None)"

definition pointers_view :: "event_log \<Rightarrow> ident \<rightharpoonup> string" where
  "pointers_view L = (\<lambda>i. map_option (\<lambda>t. ek (i, t)) (pointers L i))"

definition represents :: "codec \<Rightarrow> (keyspace \<Rightarrow> string \<rightharpoonup> string) \<Rightarrow> event_log \<Rightarrow> bool" where
  "represents cd m L \<longleftrightarrow>
     under ek row_ids (m Events) (events_view cd L) \<and>
     under uk user_ids (m Idx_User) (users_view cd L) \<and>
     under ek row_ids (m Sessions) (sessions_view L) \<and>
     under ik {i. ident_ok i} (m Idx_Msg) (pointers_view L)"

text \<open>The writes one event causes, from the log alone.\<close>

definition insert_writes :: "codec \<Rightarrow> server_event \<Rightarrow> kv_write list" where
  "insert_writes cd e =
     (let x = (ident_of e, ts_ms e)
      in [Put Events (ek x) (encode_event cd e), Put Idx_User (uk (user_id e, x)) (encode_event cd e)]
         @ (if session e \<noteq> [] then [Put Sessions (ek x) (session e)] else [])
         @ [Put Idx_Msg (ik (ident_of e)) (ek x)])"

definition log_writes :: "codec \<Rightarrow> event_log \<Rightarrow> server_event \<Rightarrow> kv_write list" where
  "log_writes cd L e =
     (case pointers L (ident_of e) of
        None \<Rightarrow> insert_writes cd e
      | Some t \<Rightarrow> if ts_ms e < t then []
                 else [Del Events (ek (ident_of e, t)), Del Idx_User (uk (user_id e, ident_of e, t)),
                       Del Sessions (ek (ident_of e, t))] @ insert_writes cd e)"

lemma log_writes_local:
  "pointers L (ident_of e) = pointers L' (ident_of e) \<Longrightarrow> log_writes cd L e = log_writes cd L' e"
  by (simp add: log_writes_def)

lemma log_upsert_other:
  "i \<noteq> ident_of e \<Longrightarrow> pointers (log_upsert e L) i = pointers L i"
  by (simp add: log_upsert_defs split: option.split)

lemma encode_event_keep [simp]: "encode_event cd (keep_session old e) = encode_event cd e"
  by (auto simp: encode_event_def keep_session_def split: option.split)

lemma session_keep:
  "session (keep_session old e) = (if session e = [] then (case old of Some f \<Rightarrow> session f | None \<Rightarrow> []) else session e)"
  by (auto simp: keep_session_def split: option.split)

lemma insert_represents:
  assumes "represents cd m L" "event_ok owner e"
    and "\<And>f. rows L (ident_of e, ts_ms e) = Some f \<Longrightarrow> ident_of f = ident_of e \<and> event_ok owner f"
  shows "represents cd (\<lambda>ks. apply_writes ks (insert_writes cd e) (m ks)) (log_insert e L)"
proof -
  let ?x = "(ident_of e, ts_ms e)"
  note ids = event_ok_ids [OF assms(2)]
  have same_user: "user_id f = user_id e" if "rows L ?x = Some f" for f
  proof -
    have "device_id f = device_id e" "user_id f = owner (device_id f)"
      using assms(3) [OF that] by (auto simp: ident_of_def event_ok_def)
    then show ?thesis using assms(2) by (simp add: event_ok_def)
  qed
  have ev: "events_view cd (log_insert e L) = (events_view cd L)(?x := Some (encode_event cd e))"
    by (auto simp: events_view_def log_insert_def)
  have us: "users_view cd (log_insert e L) = (users_view cd L)((user_id e, ?x) := Some (encode_event cd e))"
    using same_user by (auto simp: users_view_def log_insert_def fun_eq_iff split: option.splits)
  have se: "sessions_view (log_insert e L) =
      (if session e = [] then sessions_view L else (sessions_view L)(?x := Some (session e)))"
    by (auto simp: sessions_view_def log_insert_def session_keep fun_eq_iff split: option.split)
  have po: "pointers_view (log_insert e L) = (pointers_view L)(ident_of e := Some (ek ?x))"
    by (auto simp: pointers_view_def log_insert_def)
  have "under ek row_ids (apply_writes Events (insert_writes cd e) (m Events)) (events_view cd (log_insert e L))"
    using assms(1) ids unfolding ev by (auto simp: represents_def insert_writes_def Let_def intro!: under_update inj_ek)
  moreover have "under uk user_ids (apply_writes Idx_User (insert_writes cd e) (m Idx_User)) (users_view cd (log_insert e L))"
    using assms(1) ids unfolding us by (auto simp: represents_def insert_writes_def Let_def intro!: under_update inj_uk)
  moreover have "under ek row_ids (apply_writes Sessions (insert_writes cd e) (m Sessions)) (sessions_view (log_insert e L))"
    using assms(1) ids unfolding se by (auto simp: represents_def insert_writes_def Let_def intro!: under_update inj_ek)
  moreover have "under ik {i. ident_ok i} (apply_writes Idx_Msg (insert_writes cd e) (m Idx_Msg)) (pointers_view (log_insert e L))"
    using assms(1) ids unfolding po by (auto simp: represents_def insert_writes_def Let_def intro!: under_update inj_ik)
  ultimately show ?thesis by (simp add: represents_def)
qed

definition remove_writes :: "string \<Rightarrow> ident \<Rightarrow> int \<Rightarrow> kv_write list" where
  "remove_writes u i t = [Del Events (ek (i, t)), Del Idx_User (uk (u, i, t)), Del Sessions (ek (i, t))]"

lemma remove_represents:
  assumes "represents cd m L" "rows L (i, t) = Some f" "log_ok owner L"
  shows "represents cd (\<lambda>ks. apply_writes ks (remove_writes (user_id f) i t) (m ks)) (log_remove i t L)"
proof -
  let ?x = "(i, t)"
  have ids: "?x \<in> row_ids" "(user_id f, ?x) \<in> user_ids"
    using event_ok_ids [of owner f] row_ok [OF assms(3,2)] by auto
  have ev: "events_view cd (log_remove i t L) = (events_view cd L)(?x := None)"
    by (auto simp: events_view_def log_remove_def)
  have us: "users_view cd (log_remove i t L) = (users_view cd L)((user_id f, ?x) := None)"
    using assms(2) by (auto simp: users_view_def log_remove_def fun_eq_iff)
  have se: "sessions_view (log_remove i t L) = (sessions_view L)(?x := None)"
    by (auto simp: sessions_view_def log_remove_def)
  have po: "pointers_view (log_remove i t L) = pointers_view L"
    by (auto simp: pointers_view_def log_remove_def)
  show ?thesis
    using assms(1) ids unfolding represents_def ev us se po
    by (auto simp: remove_writes_def intro!: under_update inj_ek inj_uk)
qed

lemma log_writes_represent:
  assumes "represents cd m L" "log_ok owner L" "event_ok owner e"
  shows "represents cd (\<lambda>ks. apply_writes ks (log_writes cd L e) (m ks)) (log_upsert e L)"
proof (cases "pointers L (ident_of e)")
  case None
  then show ?thesis using insert_represents [OF assms(1,3)] row_ok [OF assms(2)] by (simp add: log_writes_def log_upsert_def)
next
  case (Some t)
  obtain f where f: "rows L (ident_of e, t) = Some f" "ident_of f = ident_of e" "event_ok owner f"
    using assms(2) Some by (rule pointer_row)
  then have "user_id f = user_id e" using assms(3) by (simp add: ident_of_def event_ok_def)
  show ?thesis
  proof (cases "ts_ms e < t")
    case True
    with assms(1) Some show ?thesis by (simp add: log_writes_def log_upsert_def)
  next
    case False
    let ?R = "log_remove (ident_of e) t L"
    have "represents cd (\<lambda>ks. apply_writes ks (remove_writes (user_id e) (ident_of e) t) (m ks)) ?R"
      using remove_represents [OF assms(1) f(1) assms(2)] \<open>user_id f = user_id e\<close> by simp
    moreover have "ident_of g = ident_of e \<and> event_ok owner g" if "rows ?R (ident_of e, ts_ms e) = Some g" for g
      using that row_ok [OF assms(2)] by (auto simp: log_remove_def split: if_splits)
    ultimately have "represents cd (\<lambda>ks. apply_writes ks (insert_writes cd e)
        (apply_writes ks (remove_writes (user_id e) (ident_of e) t) (m ks))) (log_insert e ?R)"
      using assms(3) by (intro insert_represents)
    with Some False show ?thesis by (simp add: log_writes_def log_upsert_def remove_writes_def)
  qed
qed

text \<open>A batch: events of different identities do not see each other's writes.\<close>

definition batch_writes :: "codec \<Rightarrow> event_log \<Rightarrow> server_event list \<Rightarrow> kv_write list" where
  "batch_writes cd L es = concat (map (log_writes cd L) es)"

lemma batch_represents:
  assumes "represents cd m L" "log_ok owner L" "\<forall>e\<in>set es. event_ok owner e" "distinct (map ident_of es)"
    and "\<forall>e\<in>set es. pointers L0 (ident_of e) = pointers L (ident_of e)"
  shows "represents cd (\<lambda>ks. apply_writes ks (batch_writes cd L0 es) (m ks)) (fold log_upsert es L) \<and>
    log_ok owner (fold log_upsert es L)"
  using assms
proof (induction es arbitrary: m L)
  case (Cons e es)
  have e: "event_ok owner e" "log_writes cd L0 e = log_writes cd L e"
    using Cons.prems(3,5) log_writes_local [of L0 e L] by auto
  have rep: "represents cd (\<lambda>ks. apply_writes ks (log_writes cd L0 e) (m ks)) (log_upsert e L)"
    unfolding e(2) using Cons.prems(1,2) e(1) by (rule log_writes_represent)
  have "\<forall>f\<in>set es. pointers L0 (ident_of f) = pointers (log_upsert e L) (ident_of f)"
    using Cons.prems(4,5) log_upsert_other by (metis (no_types, lifting) distinct.simps(2) image_eqI list.set_intros(2) list.set_map list.simps(9))
  from Cons.IH [OF rep log_ok_upsert [OF Cons.prems(2) e(1)] _ _ this] Cons.prems(3,4)
  show ?case by (simp add: batch_writes_def)
qed (simp add: batch_writes_def)

section \<open>The store's environment\<close>

locale fjall_env = ordered_kv ops contents
  for ops :: "'s kv_ops" and contents :: "'s \<Rightarrow> keyspace \<Rightarrow> (string \<times> string) list" +
  fixes cd :: codec
  assumes event_codec: "de_event cd (ser_event cd p) = Some p"
    and window_codec: "de_window cd (ser_window cd w) = Some w"
begin

lemma decode_encode: "decode_event cd (encode_event cd e) = Some (e\<lparr>session := []\<rparr>)"
  by (simp add: decode_event_def encode_event_def event_codec)

lemma upsert_one_writes:
  assumes "represents cd (cmap s) L" "log_ok owner L" "event_ok owner e"
  shows "upsert_one ops cd s batch e = batch @ log_writes cd L e"
proof -
  have ptr: "cmap s Idx_Msg (ik (ident_of e)) = map_option (\<lambda>t. ek (ident_of e, t)) (pointers L (ident_of e))"
    using assms(1) under_at [of ik "{i. ident_ok i}" "cmap s Idx_Msg" "pointers_view L" "ident_of e"] event_ok_ids [OF assms(3)]
    by (simp add: represents_def pointers_view_def)
  show ?thesis
  proof (cases "pointers L (ident_of e)")
    case None
    with ptr show ?thesis
      by (simp add: upsert_one_def get_cmap event_keys log_writes_def insert_writes_def Let_def)
  next
    case (Some t)
    obtain f where f: "rows L (ident_of e, t) = Some f" "ident_of f = ident_of e" "ts_ms f = t" "event_ok owner f"
      using assms(2) Some by (rule pointer_row)
    have t: "in_i64 t" and row: "(ident_of e, t) \<in> row_ids" using event_ok_ids [OF f(4)] f(2,3) by (auto simp: row_ids_def)
    have "cmap s Events (ek (ident_of e, t)) = Some (encode_event cd f)"
      using assms(1) under_at [OF _ row, of ek "cmap s Events" "events_view cd L"] f(1)
      by (simp add: represents_def events_view_def)
    moreover have "user_id f = user_id e" using f(2,4) assms(3) by (simp add: ident_of_def event_ok_def)
    moreover note Some ptr t length_ek [of "(ident_of e, t)"]
    ultimately show ?thesis
      by (simp add: upsert_one_def get_cmap event_keys log_writes_def insert_writes_def decode_encode Let_def)
  qed
qed

lemma upsert_batch_writes:
  assumes "represents cd (cmap s) L" "log_ok owner L" "\<forall>e\<in>set es. event_ok owner e"
  shows "foldl (upsert_one ops cd s) batch es = batch @ batch_writes cd L es"
  using assms(3)
proof (induction es arbitrary: batch)
  case (Cons e es)
  then show ?case using upsert_one_writes [OF assms(1,2)] by (simp add: batch_writes_def)
qed (simp add: batch_writes_def)

end

definition stores ::
  "('s \<Rightarrow> keyspace \<Rightarrow> (string \<times> string) list) \<Rightarrow> codec \<Rightarrow> (string \<Rightarrow> string) \<Rightarrow> 's \<Rightarrow> event_log \<Rightarrow> bool" where
  "stores contents cd owner s L \<longleftrightarrow> represents cd (\<lambda>ks. map_of (contents s ks)) L \<and> log_ok owner L"

text \<open>A batch of deletions, and what it leaves of a coded map.\<close>

fun is_del :: "kv_write \<Rightarrow> bool" where
  "is_del (Del _ _) = True"
| "is_del (Put _ _ _) = False"

lemma apply_all_dels:
  "\<forall>w\<in>set ws. is_del w \<Longrightarrow> apply_writes ks ws m k = (if Del ks k \<in> set ws then None else m k)"
proof (induction ws rule: rev_induct)
  case (snoc w ws)
  then show ?case by (cases w) (auto simp: apply_write_at)
qed simp

lemma under_restrict:
  assumes "under \<kappa> D M A" "\<And>x. x \<in> D \<Longrightarrow> A x \<noteq> None \<Longrightarrow> \<kappa> x \<in> K \<longleftrightarrow> P x"
  shows "under \<kappa> D (\<lambda>k. if k \<in> K then None else M k) (\<lambda>x. if P x then None else A x)"
  unfolding under_def
proof (intro conjI ballI allI impI)
  fix x assume "x \<in> D"
  then show "(if \<kappa> x \<in> K then None else M (\<kappa> x)) = (if P x then None else A x)"
    using assms(2) [of x] under_at [OF assms(1)] by (cases "A x") auto
next
  fix x assume "x \<notin> D"
  then show "(if P x then None else A x) = None" using assms(1) by (simp add: under_def)
next
  fix k v assume "(if k \<in> K then None else M k) = Some v"
  then show "k \<in> \<kappa> ` D" using assms(1) by (auto simp: under_def split: if_splits)
qed

lemma device_prefix:
  assumes "ident_ok i" "nul \<notin> set dev"
  shows "prefix (dev @ [nul]) (ik i) \<longleftrightarrow> id_device i = dev"
proof
  assume "prefix (dev @ [nul]) (ik i)"
  then obtain r where "id_device i @ nul # id_provider i @ nul # id_msg i = dev @ nul # r"
    by (auto simp: prefix_def ik_def idx_key_def)
  then show "id_device i = dev" using assms by (simp add: append_sep_inject ident_ok_def)
next
  assume "id_device i = dev"
  then show "prefix (dev @ [nul]) (ik i)" by (auto simp: prefix_def ik_def idx_key_def)
qed

context fjall_env begin

abbreviation holds :: "(string \<Rightarrow> string) \<Rightarrow> 's \<Rightarrow> event_log \<Rightarrow> bool" where
  "holds owner s L \<equiv> stores contents cd owner s L"

lemma holds_iff: "holds owner s L \<longleftrightarrow> represents cd (cmap s) L \<and> log_ok owner L"
  by (simp add: stores_def cmap_def [abs_def])

lemma upsert_events_holds:
  assumes "holds owner s L" "\<forall>e\<in>set es. event_ok owner e"
    and "mset (order (batch_winners es)) = mset (batch_winners es)"
  shows "\<exists>s'. upsert_events ops cd order es s = (Inr (), s') \<and> holds owner s' (log_batch es L)"
proof (cases "es = []")
  case True
  with assms(1) show ?thesis by (simp add: upsert_events_def log_batch_def batch_winners_def)
next
  case False
  let ?ws = "order (batch_winners es)"
  have keyed: "keyed_ok es" using assms(2) by (auto simp: keyed_ok_def event_ok_def)
  have ok: "\<forall>e\<in>set ?ws. event_ok owner e"
    using assms(2) winner_in_batch mset_eq_setD [OF assms(3)] by blast
  have dist: "distinct (map ident_of ?ws)"
    using winners_distinct [OF keyed] assms(3) by (metis mset_eq_imp_distinct_iff mset_map)
  have rep: "represents cd (cmap s) L" "log_ok owner L" using assms(1) by (simp_all add: holds_iff)
  obtain s' where s': "kv_commit ops s (batch_writes cd L ?ws) = Inr s'"
    "\<forall>ks. cmap s' ks = apply_writes ks (batch_writes cd L ?ws) (cmap s ks)"
    using commit_cmap by blast
  have "fold log_upsert ?ws L = log_batch es L"
    unfolding log_batch_def
    by (rule winner_merge.fold_absorb_perm) (use assms(3) dist in \<open>auto simp: distinct_map inj_on_def\<close>)
  moreover have "represents cd (\<lambda>ks. apply_writes ks (batch_writes cd L ?ws) (cmap s ks)) (fold log_upsert ?ws L) \<and>
      log_ok owner (fold log_upsert ?ws L)"
    using batch_represents [OF rep ok dist, of L] by simp
  moreover have "cmap s' = (\<lambda>ks. apply_writes ks (batch_writes cd L ?ws) (cmap s ks))"
    using s'(2) by blast
  ultimately have "holds owner s' (log_batch es L)" by (simp only: holds_iff)
  moreover have "upsert_events ops cd order es s = (Inr (), s')"
    using False s'(1) upsert_batch_writes [OF rep ok] by (simp add: upsert_events_def batch_winners_def)
  ultimately show ?thesis by blast
qed

lemma pointer_entry:
  assumes "holds owner s L"
  shows "cmap s Idx_Msg k = Some v \<longleftrightarrow> (\<exists>i t. pointers L i = Some t \<and> k = ik i \<and> v = ek (i, t))"
proof
  have u: "under ik {i. ident_ok i} (cmap s Idx_Msg) (pointers_view L)" and ok: "log_ok owner L"
    using assms by (simp_all add: holds_iff represents_def)
  show "cmap s Idx_Msg k = Some v \<Longrightarrow> \<exists>i t. pointers L i = Some t \<and> k = ik i \<and> v = ek (i, t)"
    using u by (auto elim!: under_key simp: pointers_view_def)
  assume "\<exists>i t. pointers L i = Some t \<and> k = ik i \<and> v = ek (i, t)"
  then obtain i t where it: "pointers L i = Some t" "k = ik i" "v = ek (i, t)" by blast
  obtain e where "ident_of e = i" "event_ok owner e" using ok it(1) by (rule pointer_row)
  then have "i \<in> {i. ident_ok i}" using event_ok_ids by auto
  from under_at [OF u this] it show "cmap s Idx_Msg k = Some v" by (simp add: pointers_view_def)
qed

lemma event_entry:
  assumes "holds owner s L"
  shows "cmap s Events k = Some v \<longleftrightarrow> (\<exists>x e. rows L x = Some e \<and> k = ek x \<and> v = encode_event cd e)"
proof
  have u: "under ek row_ids (cmap s Events) (events_view cd L)" and ok: "log_ok owner L"
    using assms by (simp_all add: holds_iff represents_def)
  show "cmap s Events k = Some v \<Longrightarrow> \<exists>x e. rows L x = Some e \<and> k = ek x \<and> v = encode_event cd e"
    using u by (elim under_key) (auto simp: events_view_def)
  assume "\<exists>x e. rows L x = Some e \<and> k = ek x \<and> v = encode_event cd e"
  then obtain x e where xe: "rows L x = Some e" "k = ek x" "v = encode_event cd e" by blast
  have "ident_of e = fst x" "ts_ms e = snd x" "event_ok owner e" using row_ok [OF ok, of "fst x" "snd x" e] xe(1) by auto
  then have "x \<in> row_ids" using event_ok_ids(2) [of owner e] by simp
  from under_at [OF u this] xe show "cmap s Events k = Some v" by (simp add: events_view_def)
qed

lemma cleanup_old_dedup_holds:
  assumes "holds owner s L" "nul \<notin> set dev"
  shows "\<exists>s'. cleanup_old_dedup ops dev cutoff s = (Inr (), s') \<and> holds owner s' (log_prune dev cutoff L)"
proof -
  let ?ws = "concat (map (stale_pointer cutoff) (kv_prefix ops s Idx_Msg (dev @ [nul])))"
  obtain s' where s': "kv_commit ops s ?ws = Inr s'" "\<forall>ks. cmap s' ks = apply_writes ks ?ws (cmap s ks)"
    using commit_cmap by blast
  have rep: "represents cd (cmap s) L" "log_ok owner L" using assms(1) by (simp_all add: holds_iff)
  have dels: "\<forall>w\<in>set ?ws. is_del w" by (auto simp: stale_pointer_def prefix_law split: if_splits)
  let ?K = "{k. \<exists>v. cmap s Idx_Msg k = Some v \<and> prefix (dev @ [nul]) k \<and> 8 \<le> length v \<and> key_ts v < cutoff}"
  have mem: "Del Idx_Msg k \<in> set ?ws \<longleftrightarrow> (\<exists>v. cmap s Idx_Msg k = Some v \<and> prefix (dev @ [nul]) k \<and> 8 \<le> length v \<and> key_ts v < cutoff)" for k
    by (auto simp: stale_pointer_def prefix_law contents_cmap [symmetric] split: if_splits)
  have other: "Del ks k \<notin> set ?ws" if "ks \<noteq> Idx_Msg" for ks k
    using that by (auto simp: stale_pointer_def prefix_law split: if_splits)
  have view: "pointers_view (log_prune dev cutoff L) =
      (\<lambda>i. if id_device i = dev \<and> (\<exists>t. pointers L i = Some t \<and> t < cutoff) then None else pointers_view L i)"
    by (auto simp: pointers_view_def log_prune_def split: option.split)
  have "under ik {i. ident_ok i} (cmap s' Idx_Msg) (pointers_view (log_prune dev cutoff L))"
  proof -
    have "under ik {i. ident_ok i} (\<lambda>k. if k \<in> ?K then None else cmap s Idx_Msg k)
       (\<lambda>i. if id_device i = dev \<and> (\<exists>t. pointers L i = Some t \<and> t < cutoff) then None else pointers_view L i)"
    proof (rule under_restrict)
      show "under ik {i. ident_ok i} (cmap s Idx_Msg) (pointers_view L)" using rep by (simp add: represents_def)
      fix i assume i: "i \<in> {i. ident_ok i}" "pointers_view L i \<noteq> None"
      then obtain t where t: "pointers L i = Some t" by (auto simp: pointers_view_def)
      then have "cmap s Idx_Msg (ik i) = Some (ek (i, t))" using pointer_entry [OF assms(1)] by blast
      moreover have "in_i64 t" using pointer_row [OF rep(2) t] by (auto simp: event_ok_def)
      ultimately show "ik i \<in> ?K \<longleftrightarrow> id_device i = dev \<and> (\<exists>t. pointers L i = Some t \<and> t < cutoff)"
        using i(1) t device_prefix [OF _ assms(2), of i] length_ek by auto
    qed
    moreover have "cmap s' Idx_Msg = (\<lambda>k. if k \<in> ?K then None else cmap s Idx_Msg k)"
      by (rule ext) (simp only: s'(2) [rule_format] apply_all_dels [OF dels] mem mem_Collect_eq)
    ultimately show ?thesis by (simp only: view)
  qed
  moreover have "cmap s' ks = cmap s ks" if "ks \<noteq> Idx_Msg" for ks
    by (rule ext) (simp only: s'(2) [rule_format] apply_all_dels [OF dels] other [OF that] if_False)
  ultimately have new: "holds owner s' (log_prune dev cutoff L)"
    using rep by (simp add: holds_iff represents_def log_ok_prune)
      (simp add: log_prune_def events_view_def users_view_def sessions_view_def)
  show ?thesis
  proof (cases "?ws = []")
    case True
    then have "cmap s' ks = cmap s ks" for ks using s'(2) by (simp only: apply_writes_simps)
    then have "holds owner s (log_prune dev cutoff L)" using new by (simp add: holds_iff represents_def)
    with True show ?thesis by (simp add: cleanup_old_dedup_def)
  next
    case False
    with s'(1) new show ?thesis by (simp add: cleanup_old_dedup_def)
  qed
qed

lemma drop_event_writes:
  assumes "holds owner s L" "cmap s Events k = Some v"
  shows "\<exists>i t e. rows L (i, t) = Some e \<and> ident_of e = i \<and> ts_ms e = t \<and> event_ok owner e \<and> k = ek (i, t) \<and>
    drop_event cd dev (Inr (k, v)) = (if id_device i = dev
      then [Del Idx_User (uk (user_id e, i, t)), Del Idx_Msg (ik i), Del Sessions (ek (i, t)), Del Events (ek (i, t))] else [])"
proof -
  obtain i t e where e: "rows L (i, t) = Some e" "k = ek (i, t)" "v = encode_event cd e"
    using event_entry [OF assms(1)] assms(2) by auto
  then have "ident_of e = i" "ts_ms e = t" "event_ok owner e" using row_ok [of owner L i t e] assms(1) by (auto simp: holds_iff)
  with e show ?thesis
    by (intro exI [of _ i] exI [of _ t] exI [of _ e])
      (auto simp: drop_event_def decode_encode event_keys idx_key_of_def ident_of_def ik_def)
qed

lemma delete_writes:
  fixes s owner L dev
  defines "ws \<equiv> concat (map (drop_event cd dev) (kv_range ops s Events []))
             @ concat (map drop_pointer (kv_prefix ops s Idx_Msg (dev @ [nul])))"
  assumes "holds owner s L" "nul \<notin> set dev"
  shows "\<forall>w\<in>set ws. is_del w"
    "(i, t) \<in> row_ids \<Longrightarrow> events_view cd L (i, t) \<noteq> None \<Longrightarrow> Del Events (ek (i, t)) \<in> set ws \<longleftrightarrow> id_device i = dev"
    "(i, t) \<in> row_ids \<Longrightarrow> sessions_view L (i, t) \<noteq> None \<Longrightarrow> Del Sessions (ek (i, t)) \<in> set ws \<longleftrightarrow> id_device i = dev"
    "(u, i, t) \<in> user_ids \<Longrightarrow> users_view cd L (u, i, t) \<noteq> None \<Longrightarrow> Del Idx_User (uk (u, i, t)) \<in> set ws \<longleftrightarrow> id_device i = dev"
    "ident_ok i \<Longrightarrow> pointers_view L i \<noteq> None \<Longrightarrow> Del Idx_Msg (ik i) \<in> set ws \<longleftrightarrow> id_device i = dev"
proof -
  have ok: "log_ok owner L" using assms(2) by (simp add: holds_iff)
  let ?W = "\<lambda>j r e. {Del Idx_User (uk (user_id e, j, r)), Del Idx_Msg (ik j), Del Sessions (ek (j, r)), Del Events (ek (j, r))}"
  have ws: "w \<in> set ws \<longleftrightarrow> (\<exists>k v. cmap s Events k = Some v \<and> w \<in> set (drop_event cd dev (Inr (k, v)))) \<or>
      (\<exists>k v. cmap s Idx_Msg k = Some v \<and> prefix (dev @ [nul]) k \<and> w = Del Idx_Msg k)" for w
    by (auto simp: ws_def range_all prefix_law drop_pointer_def contents_cmap)
  have event_part: "(\<exists>k v. cmap s Events k = Some v \<and> w \<in> set (drop_event cd dev (Inr (k, v)))) \<longleftrightarrow>
      (\<exists>j r e. rows L (j, r) = Some e \<and> id_device j = dev \<and> w \<in> ?W j r e)" for w
  proof
    assume "\<exists>k v. cmap s Events k = Some v \<and> w \<in> set (drop_event cd dev (Inr (k, v)))"
    then obtain k v where kv: "cmap s Events k = Some v" "w \<in> set (drop_event cd dev (Inr (k, v)))" by blast
    obtain j r e where jr: "rows L (j, r) = Some e" "drop_event cd dev (Inr (k, v)) = (if id_device j = dev
      then [Del Idx_User (uk (user_id e, j, r)), Del Idx_Msg (ik j), Del Sessions (ek (j, r)), Del Events (ek (j, r))] else [])"
      using drop_event_writes [OF assms(2) kv(1), of dev] by blast
    then have "id_device j = dev \<and> w \<in> ?W j r e" using kv(2) by (simp split: if_splits)
    with jr(1) show "\<exists>j r e. rows L (j, r) = Some e \<and> id_device j = dev \<and> w \<in> ?W j r e" by blast
  next
    assume "\<exists>j r e. rows L (j, r) = Some e \<and> id_device j = dev \<and> w \<in> ?W j r e"
    then obtain j r e where jr: "rows L (j, r) = Some e" "id_device j = dev" "w \<in> ?W j r e" by blast
    have kv: "cmap s Events (ek (j, r)) = Some (encode_event cd e)" using event_entry [OF assms(2)] jr(1) by blast
    have "ident_of e = j" "ts_ms e = r" using row_ok [OF ok jr(1)] by auto
    then have "w \<in> set (drop_event cd dev (Inr (ek (j, r), encode_event cd e)))"
      using jr(2,3) by (auto simp: drop_event_def decode_encode event_keys idx_key_of_def ident_of_def ik_def)
    with kv show "\<exists>k v. cmap s Events k = Some v \<and> w \<in> set (drop_event cd dev (Inr (k, v)))" by blast
  qed
  have pointer_part: "(\<exists>k v. cmap s Idx_Msg k = Some v \<and> prefix (dev @ [nul]) k \<and> w = Del Idx_Msg k) \<longleftrightarrow>
      (\<exists>j r. pointers L j = Some r \<and> id_device j = dev \<and> w = Del Idx_Msg (ik j))" for w
  proof -
    have pre: "prefix (dev @ [nul]) (ik j) \<longleftrightarrow> id_device j = dev" if "pointers L j = Some r" for j r
      using device_prefix [OF pointer_ident [OF ok that] assms(3)] .
    have "(\<exists>k v. cmap s Idx_Msg k = Some v \<and> prefix (dev @ [nul]) k \<and> w = Del Idx_Msg k) \<longleftrightarrow>
        (\<exists>j r. pointers L j = Some r \<and> prefix (dev @ [nul]) (ik j) \<and> w = Del Idx_Msg (ik j))"
      by (simp only: pointer_entry [OF assms(2)]) blast
    then show ?thesis using pre by blast
  qed
  note W = ws event_part pointer_part
  show "\<forall>w\<in>set ws. is_del w" by (auto simp: W)
  have row_id: "(j, r) \<in> row_ids \<and> (user_id e, j, r) \<in> user_ids \<and> ident_ok j" if "rows L (j, r) = Some e" for j r e
    using row_ok [OF ok that] event_ok_ids [of owner e] by auto
  show "Del Events (ek (i, t)) \<in> set ws \<longleftrightarrow> id_device i = dev" if "(i, t) \<in> row_ids" "events_view cd L (i, t) \<noteq> None"
  proof -
    have "Del Events (ek (i, t)) \<in> ?W j r e \<longleftrightarrow> j = i \<and> r = t" if "rows L (j, r) = Some e" for j r e
      using ek_inject [OF \<open>(i, t) \<in> row_ids\<close>, of "(j, r)"] row_id [OF that] by auto
    with that(2) show ?thesis unfolding W by (auto simp: events_view_def)
  qed
  show "Del Sessions (ek (i, t)) \<in> set ws \<longleftrightarrow> id_device i = dev" if "(i, t) \<in> row_ids" "sessions_view L (i, t) \<noteq> None"
  proof -
    have "Del Sessions (ek (i, t)) \<in> ?W j r e \<longleftrightarrow> j = i \<and> r = t" if "rows L (j, r) = Some e" for j r e
      using ek_inject [OF \<open>(i, t) \<in> row_ids\<close>, of "(j, r)"] row_id [OF that] by auto
    with that(2) show ?thesis unfolding W by (auto simp: sessions_view_def split: option.splits)
  qed
  show "Del Idx_User (uk (u, i, t)) \<in> set ws \<longleftrightarrow> id_device i = dev" if "(u, i, t) \<in> user_ids" "users_view cd L (u, i, t) \<noteq> None"
  proof -
    have "Del Idx_User (uk (u, i, t)) \<in> ?W j r e \<longleftrightarrow> user_id e = u \<and> j = i \<and> r = t" if "rows L (j, r) = Some e" for j r e
      using uk_inject [OF \<open>(u, i, t) \<in> user_ids\<close>, of "(user_id e, j, r)"] row_id [OF that] by auto
    with that(2) show ?thesis unfolding W by (auto simp: users_view_def split: option.splits if_splits)
  qed
  show "Del Idx_Msg (ik i) \<in> set ws \<longleftrightarrow> id_device i = dev" if "ident_ok i" "pointers_view L i \<noteq> None"
  proof -
    have "ident_ok j" if "pointers L j = Some r" for j r
      using ok that by (rule pointer_ident)
    then have "j = i" if "ik i = ik j" "pointers L j = Some r" for j r
      using idx_key_inject [OF \<open>ident_ok i\<close>, of j] that by auto
    moreover have "j = i" if "ik i = ik j" "rows L (j, r) = Some e" for j r e
      using idx_key_inject [OF \<open>ident_ok i\<close>, of j] row_id [OF that(2)] that(1) by auto
    ultimately show ?thesis using that(2) unfolding W by (auto simp: pointers_view_def)
  qed
qed

end

context fjall_env begin

lemma view_delete:
  "events_view cd (log_delete_device dev L) = (\<lambda>x. if id_device (fst x) = dev then None else events_view cd L x)"
  "sessions_view (log_delete_device dev L) = (\<lambda>x. if id_device (fst x) = dev then None else sessions_view L x)"
  "users_view cd (log_delete_device dev L) = (\<lambda>y. if id_device (fst (snd y)) = dev then None else users_view cd L y)"
  "pointers_view (log_delete_device dev L) = (\<lambda>i. if id_device i = dev then None else pointers_view L i)"
  by (auto simp: events_view_def sessions_view_def users_view_def pointers_view_def log_delete_device_def fun_eq_iff)

lemma delete_device_events_holds:
  assumes "holds owner s L" "nul \<notin> set dev"
  shows "\<exists>s'. delete_device_events ops cd dev s = (Inr (), s') \<and> holds owner s' (log_delete_device dev L)"
proof -
  let ?ws = "concat (map (drop_event cd dev) (kv_range ops s Events []))
             @ concat (map drop_pointer (kv_prefix ops s Idx_Msg (dev @ [nul])))"
  obtain s' where s': "kv_commit ops s ?ws = Inr s'" "\<forall>ks. cmap s' ks = apply_writes ks ?ws (cmap s ks)"
    using commit_cmap by blast
  note dw = delete_writes [OF assms]
  have rep: "represents cd (cmap s) L" "log_ok owner L" using assms(1) by (simp_all add: holds_iff)
  have at: "cmap s' ks = (\<lambda>k. if k \<in> {k. Del ks k \<in> set ?ws} then None else cmap s ks k)" for ks
    by (rule ext) (simp only: s'(2) [rule_format] apply_all_dels [OF dw(1)] mem_Collect_eq)
  have "under ek row_ids (cmap s' Events) (events_view cd (log_delete_device dev L))"
    unfolding at view_delete using rep(1) dw(2) unfolding represents_def
    by (intro under_restrict) (auto simp only: mem_Collect_eq split_paired_all fst_conv)
  moreover have "under uk user_ids (cmap s' Idx_User) (users_view cd (log_delete_device dev L))"
    unfolding at view_delete using rep(1) dw(4) unfolding represents_def
    by (intro under_restrict) (auto simp only: mem_Collect_eq split_paired_all fst_conv snd_conv)
  moreover have "under ek row_ids (cmap s' Sessions) (sessions_view (log_delete_device dev L))"
    unfolding at view_delete using rep(1) dw(3) unfolding represents_def
    by (intro under_restrict) (auto simp only: mem_Collect_eq split_paired_all fst_conv)
  moreover have "under ik {i. ident_ok i} (cmap s' Idx_Msg) (pointers_view (log_delete_device dev L))"
    unfolding at view_delete using rep(1) dw(5) unfolding represents_def
    by (intro under_restrict) (auto simp only: mem_Collect_eq)
  ultimately have "holds owner s' (log_delete_device dev L)"
    using rep(2) by (simp only: holds_iff represents_def log_ok_delete)
  with s'(1) show ?thesis by (simp add: delete_device_events_def)
qed

end

section \<open>Queries\<close>

text \<open>The scans walk a list of stored rows: \<open>faithful ops cd s off g es\<close> says that \<open>g\<close> gives, for each event of
  \<open>es\<close>, an entry from which the scan recovers it, \<open>off\<close> bytes of the key being skipped.\<close>

definition faithful ::
  "'s kv_ops \<Rightarrow> codec \<Rightarrow> 's \<Rightarrow> nat \<Rightarrow> (server_event \<Rightarrow> string \<times> string) \<Rightarrow> server_event list \<Rightarrow> bool" where
  "faithful ops cd s off g es \<longleftrightarrow> (\<forall>e\<in>set es. off + 8 \<le> length (fst (g e)) \<and>
     key_ts (drop off (fst (g e))) = ts_ms e \<and> decode_event cd (snd (g e)) = Some (e\<lparr>session := []\<rparr>) \<and>
     load_session ops s (drop off (fst (g e))) = session e)"

text \<open>A scan stops when it holds \<open>limit\<close> rows, and looks only after it has added one.\<close>

lemma take_one_more:
  "take (max (Suc 0) (n - m)) (x # xs) = x # (if n \<le> Suc m then [] else take (max (Suc 0) (n - Suc m)) xs)"
proof (cases "n \<le> Suc m")
  case True
  then have "max (Suc 0) (n - m) = Suc 0" by simp
  with True show ?thesis by simp
next
  case False
  then have "max (Suc 0) (n - m) = Suc (max (Suc 0) (n - Suc m))" by simp
  with False show ?thesis by simp
qed

lemma sorted_cut: "sorted (t # map ts_ms es) \<Longrightarrow> until \<le> t \<Longrightarrow> filter (\<lambda>e. ts_ms e < until) es = []"
  by (fastforce simp: filter_empty_conv)

lemma scan_events_list:
  assumes "faithful ops cd s 0 g es" "sorted (map ts_ms es)"
  shows "scan_events_loop ops cd s until f limit (map (\<lambda>e. Inr (g e)) es) results =
    results @ take (max 1 (limit - length results))
      (filter (\<lambda>e. filter_admits f (user_id e)) (filter (\<lambda>e. ts_ms e < until) es))"
  using assms
proof (induction es arbitrary: results)
  case (Cons e es)
  obtain k v where kv: "g e = (k, v)" by fastforce
  have e: "8 \<le> length k" "key_ts k = ts_ms e" "decode_event cd v = Some (e\<lparr>session := []\<rparr>)" "load_session ops s k = session e"
    using Cons.prems(1) kv by (auto simp: faithful_def)
  have ih: "scan_events_loop ops cd s until f limit (map (\<lambda>e. Inr (g e)) es) results =
    results @ take (max 1 (limit - length results))
      (filter (\<lambda>e. filter_admits f (user_id e)) (filter (\<lambda>e. ts_ms e < until) es))" for results
    using Cons.prems by (intro Cons.IH) (auto simp: faithful_def)
  show ?case
  proof (cases "ts_ms e < until")
    case True
    with e ih show ?thesis by (simp add: kv take_one_more Let_def)
  next
    case False
    then have "filter (\<lambda>e. ts_ms e < until) es = []" using Cons.prems(2) by (intro sorted_cut [of "ts_ms e"]) auto
    with e False show ?thesis by (simp add: kv)
  qed
qed simp

lemma scan_user_list:
  assumes "faithful ops cd s off g es" "sorted (map ts_ms es)"
  shows "scan_user_loop ops cd s off since until limit (map (\<lambda>e. Inr (g e)) es) results =
    results @ take (max 1 (limit - length results)) (filter (\<lambda>e. since \<le> ts_ms e) (filter (\<lambda>e. ts_ms e < until) es))"
  using assms
proof (induction es arbitrary: results)
  case (Cons e es)
  obtain k v where kv: "g e = (k, v)" by fastforce
  have e: "off + 8 \<le> length k" "key_ts (drop off k) = ts_ms e" "decode_event cd v = Some (e\<lparr>session := []\<rparr>)"
    "load_session ops s (drop off k) = session e"
    using Cons.prems(1) kv by (auto simp: faithful_def)
  have ih: "scan_user_loop ops cd s off since until limit (map (\<lambda>e. Inr (g e)) es) results =
    results @ take (max 1 (limit - length results)) (filter (\<lambda>e. since \<le> ts_ms e) (filter (\<lambda>e. ts_ms e < until) es))" for results
    using Cons.prems by (intro Cons.IH) (auto simp: faithful_def)
  show ?case
  proof (cases "ts_ms e < until")
    case True
    with e ih show ?thesis by (simp add: kv take_one_more Let_def)
  next
    case False
    then have "filter (\<lambda>e. ts_ms e < until) es = []" using Cons.prems(2) by (intro sorted_cut [of "ts_ms e"]) auto
    with e False show ?thesis by (simp add: kv)
  qed
qed simp

text \<open>What a query promises: the stored rows it asks for, oldest first, cut after \<open>limit\<close>; for several
  users, one user's rows after the other's.\<close>

definition listing :: "event_log \<Rightarrow> (server_event \<Rightarrow> bool) \<Rightarrow> server_event list \<Rightarrow> bool" where
  "listing L P es \<longleftrightarrow> distinct es \<and> sorted (map ts_ms es) \<and> set es = {e \<in> ran (rows L). P e}"

definition asked :: "string \<Rightarrow> int \<Rightarrow> int \<Rightarrow> server_event \<Rightarrow> bool" where
  "asked u since until e \<longleftrightarrow> user_id e = u \<and> since \<le> ts_ms e \<and> ts_ms e < until"

definition query_answer :: "event_log \<Rightarrow> user_filter \<Rightarrow> int \<Rightarrow> int \<Rightarrow> nat \<Rightarrow> server_event list \<Rightarrow> bool" where
  "query_answer L f since until limit out =
     (case f of
        Single u \<Rightarrow> \<exists>es. listing L (asked u since until) es \<and> out = take limit es
      | Multiple us \<Rightarrow> \<exists>ess. list_all2 (\<lambda>u. listing L (asked u since until)) us ess \<and> out = take limit (concat ess)
      | All \<Rightarrow> \<exists>es. listing L (\<lambda>e. since \<le> ts_ms e \<and> ts_ms e < until) es \<and> out = take limit es)"

definition log_nonneg :: "event_log \<Rightarrow> bool" where
  "log_nonneg L \<longleftrightarrow> (\<forall>e\<in>ran (rows L). 0 \<le> ts_ms e)"

lemma list_map_witness:
  assumes "\<forall>y\<in>set ys. \<exists>x. y = f x \<and> P x"
  shows "\<exists>xs. ys = map f xs \<and> (\<forall>x\<in>set xs. P x)"
  using assms
proof (induction ys)
  case (Cons y ys)
  then obtain x xs where "y = f x" "P x" "ys = map f xs" "\<forall>x\<in>set xs. P x" by auto
  then show ?case by (intro exI [of _ "x # xs"]) auto
qed simp

lemma append_less: "pre @ u < pre @ (v :: 'a::linorder list) \<longleftrightarrow> u < v"
  by (induction pre) auto

definition row_entry :: "codec \<Rightarrow> string \<Rightarrow> server_event \<Rightarrow> string \<times> string" where
  "row_entry cd pre e = (pre @ ek (ident_of e, ts_ms e), encode_event cd e)"

lemma row_entry_order:
  assumes "fst (row_entry cd pre e) < fst (row_entry cd pre e')" "0 \<le> ts_ms e'" "in_i64 (ts_ms e)"
  shows "ts_ms e \<le> ts_ms e'"
proof (rule ccontr)
  assume "\<not> ts_ms e \<le> ts_ms e'"
  then have "be64 (ts_ms e') @ ik (ident_of e') < be64 (ts_ms e) @ ik (ident_of e)"
    using assms by (intro be64_less) auto
  with assms(1) show False by (auto simp: row_entry_def append_less ek_be64)
qed

context fjall_env begin

lemma row_session:
  assumes "holds owner s L" "rows L x = Some e"
  shows "load_session ops s (ek x) = session e"
proof -
  have ok: "log_ok owner L" and u: "under ek row_ids (cmap s Sessions) (sessions_view L)"
    using assms(1) by (auto simp: holds_iff represents_def)
  have "x \<in> row_ids" using row_ok [OF ok, of "fst x" "snd x" e] assms(2) event_ok_ids(2) [of owner e] by auto
  from under_at [OF u this] assms(2) show ?thesis
    by (simp add: load_session_def get_cmap sessions_view_def)
qed

lemma rows_listed:
  assumes "holds owner s L" "log_nonneg L" "sorted_map kvs"
    and "\<And>k v. (k, v) \<in> set kvs \<longleftrightarrow> (\<exists>x e. rows L x = Some e \<and> P e \<and> k = pre @ ek x \<and> v = encode_event cd e)"
  shows "\<exists>es. kvs = map (row_entry cd pre) es \<and> faithful ops cd s (length pre) (row_entry cd pre) es \<and> listing L P es"
proof -
  have ok: "log_ok owner L" using assms(1) by (simp add: holds_iff)
  have at: "rows L x = Some e \<Longrightarrow> x = (ident_of e, ts_ms e) \<and> event_ok owner e" for x e
    using row_ok [OF ok] by (cases x) auto
  have "\<exists>es. kvs = map (row_entry cd pre) es \<and> (\<forall>e\<in>set es. e \<in> ran (rows L) \<and> P e)"
    by (rule list_map_witness) (use assms(4) at in \<open>fastforce simp: row_entry_def ran_def\<close>)
  then obtain es where es: "kvs = map (row_entry cd pre) es" "\<forall>e\<in>set es. e \<in> ran (rows L) \<and> P e" by blast
  have row: "rows L (ident_of e, ts_ms e) = Some e \<and> event_ok owner e" if "e \<in> ran (rows L)" for e
    using that at by (auto simp: ran_def)
  have keys: "sorted_wrt (\<lambda>e e'. fst (row_entry cd pre e) < fst (row_entry cd pre e')) es"
    using assms(3) by (simp add: es(1) sorted_map_def sorted_wrt_map comp_def)
  have "sorted_wrt (\<lambda>e e'. ts_ms e \<le> ts_ms e') es"
  proof (rule sorted_wrt_mono_rel [OF _ keys])
    fix e e' assume m: "e \<in> set es" "e' \<in> set es" "fst (row_entry cd pre e) < fst (row_entry cd pre e')"
    then have "0 \<le> ts_ms e'" "in_i64 (ts_ms e)"
      using es(2) row assms(2) by (auto simp: log_nonneg_def event_ok_def)
    with m(3) show "ts_ms e \<le> ts_ms e'" by (rule row_entry_order)
  qed
  then have "sorted (map ts_ms es)" by (simp add: sorted_wrt_map)
  moreover have "distinct es"
    using sorted_map_distinct [OF assms(3)] by (simp add: es(1) distinct_map comp_def)
  moreover have "e \<in> set es" if "e \<in> ran (rows L)" "P e" for e
  proof -
    have "row_entry cd pre e \<in> set kvs" using assms(4) row [OF that(1)] that(2) by (auto simp: row_entry_def)
    then obtain e' where e': "e' \<in> set es" "row_entry cd pre e = row_entry cd pre e'" by (auto simp: es(1))
    have "e' \<in> ran (rows L)" using es(2) e'(1) by blast
    then have "(ident_of e, ts_ms e) \<in> row_ids" "(ident_of e', ts_ms e') \<in> row_ids"
      using row that(1) event_ok_ids(2) by blast+
    then have "(ident_of e, ts_ms e) = (ident_of e', ts_ms e')"
      using e'(2) ek_inject by (simp add: row_entry_def)
    then show ?thesis using row es(2) that(1) e'(1) by (metis option.inject)
  qed
  moreover have "faithful ops cd s (length pre) (row_entry cd pre) es"
    unfolding faithful_def
  proof
    fix e assume "e \<in> set es"
    then have e: "rows L (ident_of e, ts_ms e) = Some e" "in_i64 (ts_ms e)" using es(2) row by (auto simp: event_ok_def)
    then show "length pre + 8 \<le> length (fst (row_entry cd pre e)) \<and>
       key_ts (drop (length pre) (fst (row_entry cd pre e))) = ts_ms e \<and>
       decode_event cd (snd (row_entry cd pre e)) = Some (e\<lparr>session := []\<rparr>) \<and>
       load_session ops s (drop (length pre) (fst (row_entry cd pre e))) = session e"
      using row_session [OF assms(1) e(1)] length_ek [of "(ident_of e, ts_ms e)"] by (simp add: row_entry_def decode_encode)
  qed
  ultimately show ?thesis using es unfolding listing_def by (intro exI [of _ es]) blast
qed

end

lemma prefix_le: "u \<le> u @ (v :: string)"
  by (induction u) auto

lemma range_start:
  assumes "0 \<le> since" "in_i64 since" "0 \<le> t" "in_i64 t"
  shows "be64 since \<le> ek (i, t) \<longleftrightarrow> since \<le> t"
proof (cases since t rule: linorder_cases)
  case less
  then have "be64 since @ [] < be64 t @ ik i" using assms by (intro be64_less) auto
  with less show ?thesis by (simp add: ek_be64)
next
  case equal
  then show ?thesis by (simp add: ek_be64 prefix_le)
next
  case greater
  then have "be64 t @ ik i < be64 since @ []" using assms by (intro be64_less) auto
  with greater show ?thesis by (simp add: ek_be64)
qed

lemma listing_filter: "listing L P es \<Longrightarrow> listing L (\<lambda>e. P e \<and> Q e) (filter Q es)"
  by (auto simp: listing_def intro: sorted_filter)

lemma listing_cong: "listing L P es \<Longrightarrow> (\<And>e. P e \<longleftrightarrow> Q e) \<Longrightarrow> listing L Q es"
  by (simp add: listing_def)

context fjall_env begin

lemma scan_events_answer:
  assumes "holds owner s L" "log_nonneg L" "0 \<le> since" "in_i64 since"
  shows "\<exists>es. listing L (\<lambda>e. since \<le> ts_ms e \<and> ts_ms e < until) es \<and>
    scan_events ops cd s since until All limit = take (max 1 limit) es"
proof -
  let ?kvs = "filter (\<lambda>(k, v). be64 since \<le> k) (contents s Events)"
  have ok: "log_ok owner L" using assms(1) by (simp add: holds_iff)
  have start: "be64 since \<le> ek x \<longleftrightarrow> since \<le> ts_ms e" if "rows L x = Some e" for x e
  proof -
    have "e \<in> ran (rows L)" using that unfolding ran_def by blast
    moreover have "ts_ms e = snd x" "in_i64 (ts_ms e)" "(fst x, snd x) = x"
      using row_ok [OF ok, of "fst x" "snd x" e] that by (auto simp: event_ok_def)
    ultimately show ?thesis using range_start [OF assms(3,4), of "ts_ms e" "fst x"] assms(2) by (auto simp: log_nonneg_def)
  qed
  have "\<exists>es. ?kvs = map (row_entry cd []) es \<and> faithful ops cd s (length ([] :: string)) (row_entry cd []) es \<and>
      listing L (\<lambda>e. since \<le> ts_ms e) es"
  proof (rule rows_listed [OF assms(1,2)])
    show "sorted_map ?kvs" by (intro sorted_map_filter contents_sorted)
    show "(k, v) \<in> set ?kvs \<longleftrightarrow> (\<exists>x e. rows L x = Some e \<and> since \<le> ts_ms e \<and> k = [] @ ek x \<and> v = encode_event cd e)" for k v
    proof -
      have "(k, v) \<in> set ?kvs \<longleftrightarrow> (\<exists>x e. rows L x = Some e \<and> k = ek x \<and> v = encode_event cd e) \<and> be64 since \<le> k"
        using event_entry [OF assms(1)] by (simp add: contents_cmap)
      also have "\<dots> \<longleftrightarrow> (\<exists>x e. rows L x = Some e \<and> since \<le> ts_ms e \<and> k = ek x \<and> v = encode_event cd e)"
        using start by blast
      finally show ?thesis by simp
    qed
  qed
  then obtain es where es: "?kvs = map (row_entry cd []) es" "faithful ops cd s 0 (row_entry cd []) es"
    "listing L (\<lambda>e. since \<le> ts_ms e) es" by auto
  have kvs: "map Inr ?kvs = map (\<lambda>e. Inr (row_entry cd [] e)) es" by (simp add: es(1))
  have "scan_events ops cd s since until All limit = take (max 1 limit) (filter (\<lambda>e. ts_ms e < until) es)"
    unfolding scan_events_def range_law kvs
    using scan_events_list [OF es(2), of until All limit "[]"] es(3) by (simp add: listing_def filter_admits_def)
  with listing_filter [OF es(3), of "\<lambda>e. ts_ms e < until"] show ?thesis by blast
qed

lemma user_entry:
  assumes "holds owner s L" "nul \<notin> set u"
  shows "cmap s Idx_User k = Some v \<and> prefix (u @ [nul]) k \<longleftrightarrow>
    (\<exists>x e. rows L x = Some e \<and> user_id e = u \<and> k = (u @ [nul]) @ ek x \<and> v = encode_event cd e)"
proof
  have un: "under uk user_ids (cmap s Idx_User) (users_view cd L)" and ok: "log_ok owner L"
    using assms(1) by (simp_all add: holds_iff represents_def)
  {
    assume kv: "cmap s Idx_User k = Some v \<and> prefix (u @ [nul]) k"
    then obtain w x where x: "(w, x) \<in> user_ids" "k = uk (w, x)" "users_view cd L (w, x) = Some v"
      using un by (auto elim: under_key)
    obtain r where "w @ nul # ek x = u @ nul # r"
      using kv x(2) by (auto simp: prefix_def uk_def user_idx_key_def)
    then have "w = u" using x(1) assms(2) by (simp add: user_ids_def append_sep_inject)
    with x(3) obtain e where "rows L x = Some e" "user_id e = u" "v = encode_event cd e"
      by (auto simp: users_view_def split: option.splits if_splits)
    with \<open>w = u\<close> x(2) show "\<exists>x e. rows L x = Some e \<and> user_id e = u \<and> k = (u @ [nul]) @ ek x \<and> v = encode_event cd e"
      by (intro exI [of _ x] exI [of _ e]) (simp add: uk_def user_idx_key_def)
  }
  assume "\<exists>x e. rows L x = Some e \<and> user_id e = u \<and> k = (u @ [nul]) @ ek x \<and> v = encode_event cd e"
  then obtain x e where xe: "rows L x = Some e" "user_id e = u" "k = uk (u, x)" "v = encode_event cd e"
    by (auto simp: uk_def user_idx_key_def)
  have "(u, x) \<in> user_ids" using row_ok [OF ok, of "fst x" "snd x" e] xe(1,2) event_ok_ids(3) [of owner e] by auto
  from under_at [OF un this] xe show "cmap s Idx_User k = Some v \<and> prefix (u @ [nul]) k"
    by (auto simp: users_view_def uk_def user_idx_key_def prefix_def)
qed

lemma scan_user_answer:
  assumes "holds owner s L" "log_nonneg L" "nul \<notin> set u"
  shows "\<exists>es. listing L (asked u since until) es \<and>
    (\<forall>limit. scan_user_events ops cd s u since until limit = take (max 1 limit) es)"
proof -
  let ?kvs = "filter (\<lambda>(k, v). prefix (u @ [nul]) k) (contents s Idx_User)"
  have "\<exists>es. ?kvs = map (row_entry cd (u @ [nul])) es \<and>
      faithful ops cd s (length (u @ [nul])) (row_entry cd (u @ [nul])) es \<and> listing L (\<lambda>e. user_id e = u) es"
  proof (rule rows_listed [OF assms(1,2)])
    show "sorted_map ?kvs" by (intro sorted_map_filter contents_sorted)
    show "(k, v) \<in> set ?kvs \<longleftrightarrow> (\<exists>x e. rows L x = Some e \<and> user_id e = u \<and> k = (u @ [nul]) @ ek x \<and> v = encode_event cd e)" for k v
      using user_entry [OF assms(1,3)] by (simp add: contents_cmap)
  qed
  then obtain es where es: "?kvs = map (row_entry cd (u @ [nul])) es" "faithful ops cd s (length u + 1) (row_entry cd (u @ [nul])) es"
    "listing L (\<lambda>e. user_id e = u) es" by auto
  let ?es = "filter (\<lambda>e. since \<le> ts_ms e) (filter (\<lambda>e. ts_ms e < until) es)"
  have kvs: "map Inr ?kvs = map (\<lambda>e. Inr (row_entry cd (u @ [nul]) e)) es" by (simp add: es(1))
  have "scan_user_events ops cd s u since until limit = take (max 1 limit) ?es" for limit
    using scan_user_list [OF es(2), of since until limit "[]"] es(3)
    unfolding scan_user_events_def prefix_law listing_def kvs by (simp only: append_Nil list.size diff_zero)
  moreover have "listing L (asked u since until) ?es"
    using listing_filter [OF listing_filter [OF es(3)]] by (rule listing_cong) (auto simp: asked_def)
  ultimately show ?thesis by blast
qed

lemma scan_users_answer:
  assumes "\<forall>u\<in>set us. \<exists>es. P u es \<and> (\<forall>limit. scan_user_events ops cd s u since until limit = take (max 1 limit) es)"
  shows "\<exists>ess. list_all2 P us ess \<and> (\<forall>out. scan_users ops cd s since until limit us out = out @ take (limit - length out) (concat ess))"
  using assms
proof (induction us)
  case (Cons u us)
  then obtain es ess where "P u es" and scan: "\<And>limit. scan_user_events ops cd s u since until limit = take (max 1 limit) es"
    and "list_all2 P us ess"
    and rest: "\<And>out. scan_users ops cd s since until limit us out = out @ take (limit - length out) (concat ess)"
    by auto
  have "scan_users ops cd s since until limit (u # us) out = out @ take (limit - length out) (concat (es # ess))" for out
  proof (cases "limit \<le> length out")
    case False
    then have "max (Suc 0) (limit - length out) = limit - length out" by simp
    with False scan rest show ?thesis by (simp add: min_def)
  qed simp
  with \<open>P u es\<close> \<open>list_all2 P us ess\<close> show ?case by (intro exI [of _ "es # ess"]) simp
qed simp

lemma query_events_answer:
  assumes "holds owner s L" "log_nonneg L" "0 \<le> since" "in_i64 since" "1 \<le> limit"
    and "\<forall>u. nul \<in> set u \<longrightarrow> f \<noteq> Single u \<and> (\<forall>us. f = Multiple us \<longrightarrow> u \<notin> set us)"
  shows "\<exists>out. query_events ops cd since until f limit s = Inr out \<and> query_answer L f since until limit out"
proof (cases f)
  case (Single u)
  then obtain es where "listing L (asked u since until) es" "scan_user_events ops cd s u since until limit = take (max 1 limit) es"
    using scan_user_answer [OF assms(1,2), of u since until] assms(6) by blast
  moreover have "max (Suc 0) limit = limit" using assms(5) by simp
  ultimately show ?thesis using Single by (auto simp: query_events_def query_answer_def)
next
  case (Multiple us)
  have "\<forall>u\<in>set us. \<exists>es. listing L (asked u since until) es \<and>
      (\<forall>limit. scan_user_events ops cd s u since until limit = take (max 1 limit) es)"
    using scan_user_answer [OF assms(1,2)] Multiple assms(6) by blast
  from scan_users_answer [OF this, of limit]
  obtain ess where "list_all2 (\<lambda>u. listing L (asked u since until)) us ess"
    "scan_users ops cd s since until limit us [] = take limit (concat ess)" by auto
  with Multiple show ?thesis by (auto simp: query_events_def query_answer_def)
next
  case All
  have "max (Suc 0) limit = limit" using assms(5) by simp
  with scan_events_answer [OF assms(1,2,3,4), of until limit] All
  show ?thesis by (auto simp: query_events_def query_answer_def)
qed

end

end
