(* ===== verification/Plain.thy ===== *)
theory Plain
  imports Prelude
begin

text \<open>
  Text: decimal numbers as \<open>format!\<close> prints them and the UTF-8 characters of a string, and a plain
  length-prefixed encoding with its decoder, from which the parameters of the model (codecs, token
  formats) are instantiated.
\<close>

section \<open>Decimal numbers\<close>

definition digit :: "nat \<Rightarrow> char" where
  "digit n = char_of (48 + n)"

fun dec :: "nat \<Rightarrow> string" where
  "dec n = (if n < 10 then [digit n] else dec (n div 10) @ [digit (n mod 10)])"

declare dec.simps [simp del]

definition dec_int :: "int \<Rightarrow> string" where
  "dec_int x = (if x < 0 then CHR ''-'' # dec (nat (- x)) else dec (nat x))"

section \<open>Characters\<close>

text \<open>A character of a UTF-8 string is a byte followed by its continuation bytes \<open>10xxxxxx\<close>.\<close>

definition continuation :: "char \<Rightarrow> bool" where
  "continuation c \<longleftrightarrow> 128 \<le> byte c \<and> byte c < 192"

function utf8_chars :: "string \<Rightarrow> string list" where
  "utf8_chars [] = []"
| "utf8_chars (c # cs) = (c # takeWhile continuation cs) # utf8_chars (dropWhile continuation cs)"
  by pat_completeness auto
termination
  by (relation "measure length") (auto simp: le_imp_less_Suc length_dropWhile_le)

lemma concat_utf8_chars [simp]: "concat (utf8_chars s) = s"
  by (induction s rule: utf8_chars.induct) auto

lemma utf8_chars_nonempty: "[] \<notin> set (utf8_chars s)"
  by (induction s rule: utf8_chars.induct) auto

definition ascii_digit :: "char \<Rightarrow> bool" where
  "ascii_digit c \<longleftrightarrow> 48 \<le> byte c \<and> byte c \<le> 57"

definition ascii_lower :: "char \<Rightarrow> bool" where
  "ascii_lower c \<longleftrightarrow> 97 \<le> byte c \<and> byte c \<le> 122"

definition ascii_upper :: "char \<Rightarrow> bool" where
  "ascii_upper c \<longleftrightarrow> 65 \<le> byte c \<and> byte c \<le> 90"

definition ascii_alnum :: "char \<Rightarrow> bool" where
  "ascii_alnum c \<longleftrightarrow> ascii_digit c \<or> ascii_lower c \<or> ascii_upper c"

section \<open>A plain encoding\<close>

definition put_nat :: "nat \<Rightarrow> string" where
  "put_nat n = replicate n CHR ''1'' @ ''0''"

definition get_nat :: "string \<Rightarrow> nat \<times> string" where
  "get_nat s = (length (takeWhile (\<lambda>c. c = CHR ''1'') s), drop 1 (dropWhile (\<lambda>c. c = CHR ''1'') s))"

definition put_str :: "string \<Rightarrow> string" where
  "put_str s = put_nat (length s) @ s"

definition get_str :: "string \<Rightarrow> string \<times> string" where
  "get_str s = (let (n, r) = get_nat s in (take n r, drop n r))"

definition put_int :: "int \<Rightarrow> string" where
  "put_int x = (if x < 0 then put_nat 1 @ put_nat (nat (- x)) else put_nat 0 @ put_nat (nat x))"

definition get_int :: "string \<Rightarrow> int \<times> string" where
  "get_int s = (let (neg, r) = get_nat s; (n, r) = get_nat r in (if neg = 1 then - int n else int n, r))"

definition put_bool :: "bool \<Rightarrow> string" where
  "put_bool b = put_nat (if b then 1 else 0)"

definition get_bool :: "string \<Rightarrow> bool \<times> string" where
  "get_bool s = (let (n, r) = get_nat s in (n = 1, r))"

lemma get_nat_put [simp]: "get_nat (put_nat n @ r) = (n, r)"
  unfolding get_nat_def put_nat_def by (induction n) auto

lemma get_put [simp]:
  "get_str (put_str s @ r) = (s, r)" "get_int (put_int x @ r) = (x, r)" "get_bool (put_bool b @ r) = (b, r)"
  by (simp_all add: get_str_def put_str_def get_int_def put_int_def get_bool_def put_bool_def)

lemma get_put_end [simp]: "get_nat (put_nat n) = (n, [])" "get_str (put_str s) = (s, [])"
  using get_nat_put [of n "[]"] get_put(1) [of s "[]"] by simp_all

end
