(* ===== verification/Event_Store.thy ===== *)
theory Event_Store
  imports Event_Refinement Plain
begin

text \<open>
  What the event store promises its callers: the refinement of theory \<open>Event_Refinement\<close> stated over
  any key-value store and value codec that keep their documented laws, and the same laws shown of
  an in-memory store with a plain length-prefixed codec, on which the properties are applied.
\<close>

section \<open>A plain codec\<close>

definition plain_ser_event :: "persisted_event \<Rightarrow> string" where
  "plain_ser_event e = put_str (pe_device_id e) @ put_str (pe_user_id e) @ put_str (pe_msg_id e) @ put_int (pe_ts_ms e) @
     put_str (pe_provider e) @ put_str (pe_model e) @ put_str (pe_project e) @ put_nat (pe_input_tokens e) @
     put_nat (pe_output_tokens e) @ put_nat (pe_cache_creation_input_tokens e) @
     put_nat (pe_cache_read_input_tokens e) @ put_nat (pe_usage_total e)"

definition plain_de_event :: "string \<Rightarrow> persisted_event option" where
  "plain_de_event s =
     (let (dev, s) = get_str s; (user, s) = get_str s; (msg, s) = get_str s; (ts, s) = get_int s;
          (prov, s) = get_str s; (mdl, s) = get_str s; (proj, s) = get_str s; (i, s) = get_nat s;
          (out, s) = get_nat s; (cc, s) = get_nat s; (cr, s) = get_nat s; (tot, s) = get_nat s
      in Some \<lparr>pe_device_id = dev, pe_user_id = user, pe_msg_id = msg, pe_ts_ms = ts, pe_provider = prov,
           pe_model = mdl, pe_project = proj, pe_input_tokens = i, pe_output_tokens = out,
           pe_cache_creation_input_tokens = cc, pe_cache_read_input_tokens = cr, pe_usage_total = tot\<rparr>)"

definition plain_ser_window :: "wire_window \<Rightarrow> string" where
  "plain_ser_window w = put_nat (window_kind w) @ put_str (limit_id w) @ put_str (account w) @ put_int (window_end_ms w) @
     put_int (raw_resets_at_ms w) @ put_nat (window_minutes w) @ put_nat (peak_pct_x100 w) @ put_nat (last_pct_x100 w) @
     put_int (observed_ts_ms w) @ put_int (first_seen_ms w) @ put_bool (finalized w) @ put_bool (maxed_out w) @
     put_nat (limit_reached_kind w) @ put_int (time_to_100_ms w) @ put_nat (active_ms w) @ put_int (last_sample_gap_ms w) @
     put_nat (sampled_active_fraction w) @ put_nat (n_samples w) @ put_str (plan w)"

definition plain_de_window :: "string \<Rightarrow> wire_window option" where
  "plain_de_window s =
     (let (kind, s) = get_nat s; (lim, s) = get_str s; (acc, s) = get_str s; (wend, s) = get_int s; (raw, s) = get_int s;
          (mins, s) = get_nat s; (peak, s) = get_nat s; (last, s) = get_nat s; (obs, s) = get_int s; (seen, s) = get_int s;
          (fin, s) = get_bool s; (maxed, s) = get_bool s; (reached, s) = get_nat s; (t100, s) = get_int s;
          (act, s) = get_nat s; (gap, s) = get_int s; (frac, s) = get_nat s; (n, s) = get_nat s; (pl, s) = get_str s
      in Some \<lparr>window_kind = kind, limit_id = lim, account = acc, window_end_ms = wend, raw_resets_at_ms = raw,
           window_minutes = mins, peak_pct_x100 = peak, last_pct_x100 = last, observed_ts_ms = obs, first_seen_ms = seen,
           finalized = fin, maxed_out = maxed, limit_reached_kind = reached, time_to_100_ms = t100, active_ms = act,
           last_sample_gap_ms = gap, sampled_active_fraction = frac, n_samples = n, plan = pl\<rparr>)"

definition plain_codec :: codec where
  "plain_codec = \<lparr>ser_event = plain_ser_event, de_event = plain_de_event,
     ser_window = plain_ser_window, de_window = plain_de_window\<rparr>"

interpretation plain: fjall_env mem_kv mem_contents plain_codec
  by unfold_locales
    (simp_all add: plain_codec_def plain_ser_event_def plain_de_event_def plain_ser_window_def plain_de_window_def)

lemma plain_env: "fjall_env mem_kv mem_contents plain_codec"
  by (rule plain.fjall_env_axioms)

lemma empty_stores: "stores mem_contents cd owner [] empty_log"
  by (simp add: stores_def represents_def under_def log_ok_def empty_log_def mem_contents_def
      events_view_def users_view_def sessions_view_def pointers_view_def)

lemma empty_complete: "complete_ok owner empty_log"
  by (simp add: complete_ok_def log_ok_def log_complete_def empty_log_def)

section \<open>Writing events\<close>

text \<open>\<open>accept\<close> names the batches the lemmas below are about: keys without NUL, one owner per device.\<close>

definition accept :: "(string \<Rightarrow> string) \<Rightarrow> server_event list \<Rightarrow> bool" where
  "accept owner es \<longleftrightarrow> (\<forall>e\<in>set es. event_ok owner e)"

definition any_order :: "('a list \<Rightarrow> 'a list) \<Rightarrow> bool" where
  "any_order f \<longleftrightarrow> (\<forall>xs. mset (f xs) = mset xs)"

lemma upsert_stores:
  assumes "fjall_env ops contents cd" "any_order order" "stores contents cd owner s L" "accept owner es"
  shows "\<exists>s'. upsert_events ops cd order es s = (Inr (), s') \<and> stores contents cd owner s' (log_batch es L)"
  using assms by (intro fjall_env.upsert_events_holds) (auto simp: accept_def any_order_def)


text \<open>Two states that hold the same log hold the same bytes.\<close>

lemma under_unique:
  assumes "under \<kappa> D M A" "under \<kappa> D M' A"
  shows "M = M'"
proof
  fix k
  show "M k = M' k"
  proof (cases "k \<in> \<kappa> ` D")
    case True
    then show ?thesis using assms by (auto simp: under_def)
  next
    case False
    then have "M k = None" "M' k = None" using assms unfolding under_def by (metis not_None_eq)+
    then show ?thesis by simp
  qed
qed

definition same_events :: "('s \<Rightarrow> keyspace \<Rightarrow> (string \<times> string) list) \<Rightarrow> 's \<Rightarrow> 's \<Rightarrow> bool" where
  "same_events contents s s' \<longleftrightarrow> (\<forall>ks\<in>{Events, Idx_Msg, Idx_User, Sessions}. contents s ks = contents s' ks)"

lemma stores_unique:
  assumes "fjall_env ops contents cd" "stores contents cd owner s L" "stores contents cd owner s' L"
  shows "same_events contents s s'"
proof -
  have kv: "ordered_kv ops contents" using assms(1) by (simp add: fjall_env_def)
  have "map_of (contents s ks) = map_of (contents s' ks)" if "ks \<in> {Events, Idx_Msg, Idx_User, Sessions}" for ks
    using that assms(2,3) by (auto simp: stores_def represents_def intro: under_unique)
  then show ?thesis
    unfolding same_events_def
    by (auto intro!: sorted_map_unique ordered_kv.contents_sorted [OF kv])
qed

theorem upsert_events_resend:
  assumes "fjall_env ops contents cd" "any_order order" "stores contents cd owner s L" "log_complete L" "accept owner es"
    and "upsert_events ops cd order es s = (r, s1)" "upsert_events ops cd order es s1 = (r', s2)"
  shows "r = Inr () \<and> r' = Inr () \<and> same_events contents s1 s2"
proof -
  have ok: "complete_ok owner L" using assms(3,4) by (simp add: complete_ok_def stores_def)
  have s1: "r = Inr ()" "stores contents cd owner s1 (log_batch es L)"
    using upsert_stores [OF assms(1,2,3,5)] assms(6) by auto
  have s2: "r' = Inr ()" "stores contents cd owner s2 (log_batch es (log_batch es L))"
    using upsert_stores [OF assms(1,2) s1(2) assms(5)] assms(7) by auto
  have "log_batch es (log_batch es L) = log_batch es L"
    using log_batch_idem [OF ok] assms(5) by (simp add: accept_def)
  then show ?thesis using s1 s2 stores_unique [OF assms(1) s1(2)] by simp
qed

text \<open>Batches may arrive in any order: what decides is the newest event of an identity.\<close>

fun upsert_all ::
  "'s kv_ops \<Rightarrow> codec \<Rightarrow> (server_event list \<Rightarrow> server_event list) \<Rightarrow> server_event list list \<Rightarrow> 's \<Rightarrow> 's" where
  "upsert_all ops cd order [] s = s"
| "upsert_all ops cd order (es # ess) s = upsert_all ops cd order ess (snd (upsert_events ops cd order es s))"

lemma newest_of_batches:
  assumes "complete_ok owner L" "\<forall>es\<in>set ess. accept owner es"
  shows "complete_ok owner (fold log_batch ess L) \<and>
    current (fold log_batch ess L) i = fold (\<lambda>es c. case best None (of_ident i es) of
       Some e \<Rightarrow> Some (newer c e) | None \<Rightarrow> c) ess (current L i)"
  using assms
proof (induction ess arbitrary: L)
  case (Cons es ess)
  from Cons.prems have "\<forall>e\<in>set es. event_ok owner e" by (simp add: accept_def)
  from current_batch [OF Cons.prems(1) this] Cons.IH [of "log_batch es L"] Cons.prems(2)
  show ?case by simp
qed simp

lemma upsert_all_stores:
  assumes "fjall_env ops contents cd" "any_order order" "stores contents cd owner s L" "\<forall>es\<in>set ess. accept owner es"
  shows "stores contents cd owner (upsert_all ops cd order ess s) (fold log_batch ess L)"
  using assms(3,4)
proof (induction ess arbitrary: s L)
  case (Cons es ess)
  from upsert_stores [OF assms(1,2) Cons.prems(1)] Cons.prems(2)
  have "stores contents cd owner (snd (upsert_events ops cd order es s)) (log_batch es L)" by fastforce
  with Cons.IH Cons.prems(2) show ?case by simp
qed simp

lemma fold_log_batch: "fold log_batch ess L = fold log_upsert (concat (map batch_winners ess)) L"
  by (induction ess arbitrary: L) (simp_all add: log_batch_def)

lemma mset_concat_map: "mset (concat (map f xs)) = \<Sum>\<^sub># (image_mset (mset \<circ> f) (mset xs))"
  by (induction xs) simp_all

lemma mset_concat_perm: "mset xs = mset ys \<Longrightarrow> mset (concat (map f xs)) = mset (concat (map f ys))"
  by (simp only: mset_concat_map)

theorem upsert_events_any_order:
  assumes "fjall_env ops contents cd" "any_order order" "stores contents cd owner s L" "log_complete L"
    and "\<forall>es\<in>set ess. accept owner es" "mset ess = mset ess'"
    and "\<forall>x\<in>set (concat ess). \<forall>y\<in>set (concat ess). x = y \<or> different_rank x y"
  shows "same_events contents (upsert_all ops cd order ess s) (upsert_all ops cd order ess' s)"
proof -
  have acc': "\<forall>es\<in>set ess'. accept owner es" using assms(5,6) by (metis mset_eq_setD)
  have ok: "complete_ok owner L" using assms(3,4) by (simp add: complete_ok_def stores_def)
  have sub: "set (concat (map batch_winners ess)) \<subseteq> set (concat ess)" using winner_in_batch by fastforce
  have "\<forall>x\<in>set (concat ess). event_ok owner x" using assms(5) by (auto simp: accept_def)
  then have fits: "\<forall>x\<in>set (concat (map batch_winners ess)). event_ok owner x" using sub by blast
  have "fold log_upsert (concat (map batch_winners ess)) L = fold log_upsert (concat (map batch_winners ess')) L"
  proof (rule event_merge.fold_absorb_perm [OF mset_concat_perm [OF assms(6)] ok])
    show "\<forall>x\<in>set (concat (map batch_winners ess)). event_ok owner x" by (rule fits)
    show "\<forall>x\<in>set (concat (map batch_winners ess)). \<forall>y\<in>set (concat (map batch_winners ess)). x = y \<or> different_rank x y"
      using sub assms(7) by blast
  qed
  then have same: "fold log_batch ess' L = fold log_batch ess L" by (simp only: fold_log_batch)
  from stores_unique [OF assms(1) upsert_all_stores [OF assms(1,2,3,5)] upsert_all_stores [OF assms(1,2,3) acc', unfolded same]]
  show ?thesis .
qed

section \<open>Deleting and pruning\<close>

text \<open>Deleting a device removes each of its rows, index entries and dedup pointers, the rows whose
  pointer had been pruned included, and keeps every other device's.\<close>

theorem delete_device_leaves_nothing:
  assumes "fjall_env ops contents cd" "stores contents cd owner s L" "nul \<notin> set dev"
  shows "\<exists>s' L'. delete_device_events ops cd dev s = (Inr (), s') \<and> stores contents cd owner s' L' \<and>
    (\<forall>i t. rows L' (i, t) = (if id_device i = dev then None else rows L (i, t))) \<and>
    (\<forall>i. pointers L' i = (if id_device i = dev then None else pointers L i))"
proof -
  obtain s' where "delete_device_events ops cd dev s = (Inr (), s')" "stores contents cd owner s' (log_delete_device dev L)"
    using fjall_env.delete_device_events_holds [OF assms(1,2,3)] by blast
  then show ?thesis by (intro exI [of _ s'] exI [of _ "log_delete_device dev L"]) (simp add: log_delete_device_def)
qed

theorem prune_keeps_rows:
  assumes "fjall_env ops contents cd" "stores contents cd owner s L" "nul \<notin> set dev"
  shows "\<exists>s' L'. cleanup_old_dedup ops dev cutoff s = (Inr (), s') \<and> stores contents cd owner s' L' \<and> rows L' = rows L \<and>
    (\<forall>i t. pointers L' i = Some t \<longleftrightarrow> pointers L i = Some t \<and> \<not> (id_device i = dev \<and> t < cutoff))"
proof -
  obtain s' where "cleanup_old_dedup ops dev cutoff s = (Inr (), s')" "stores contents cd owner s' (log_prune dev cutoff L)"
    using fjall_env.cleanup_old_dedup_holds [OF assms(1,2,3)] by blast
  then show ?thesis
    by (intro exI [of _ s'] exI [of _ "log_prune dev cutoff L"]) (auto simp: log_prune_def split: option.split)
qed

section \<open>Reading events\<close>

definition filter_ok :: "user_filter \<Rightarrow> bool" where
  "filter_ok f = (case f of Single u \<Rightarrow> nul \<notin> set u | Multiple us \<Rightarrow> \<forall>u\<in>set us. nul \<notin> set u | All \<Rightarrow> True)"


section \<open>At a concrete store\<close>

definition sample_event :: "string \<Rightarrow> int \<Rightarrow> server_event" where
  "sample_event msg t = \<lparr>device_id = ''d'', user_id = ''u'', msg_id = msg, ts_ms = t, provider = ''p'', model = ''m'',
     project = [], session = [], input_tokens = 1, output_tokens = 2, cache_creation_input_tokens = 0,
     cache_read_input_tokens = 0, usage_total = 3\<rparr>"

definition sample_owner :: "string \<Rightarrow> string" where "sample_owner d = ''u''"

lemma sample_ok: "in_i64 t \<Longrightarrow> event_ok sample_owner (sample_event msg t)"
  by (simp add: event_ok_def sample_event_def sample_owner_def ident_of_def ident_ok_def nul_def char_of_def)

lemma sample_times: "in_i64 1" "in_i64 2" "in_i64 0"
  by (simp_all add: in_i64_def i64_min_def i64_max_def)

lemma id_order: "any_order (\<lambda>xs. xs)"
  by (simp add: any_order_def)

lemmas sample_facts = plain_env id_order empty_stores sample_ok sample_times

lemma empty_log_complete: "log_complete empty_log" "current empty_log i = None" "log_nonneg empty_log"
  by (simp_all add: log_complete_def empty_log_def current_def log_nonneg_def)


theorem upsert_events_resend_witness:
  "let es = [sample_event ''a'' 1, sample_event ''b'' 2];
       s1 = snd (upsert_events mem_kv plain_codec (\<lambda>xs. xs) es []);
       s2 = snd (upsert_events mem_kv plain_codec (\<lambda>xs. xs) es s1)
   in same_events mem_contents s1 s2"
proof -
  let ?up = "upsert_events mem_kv plain_codec (\<lambda>xs. xs) [sample_event ''a'' 1, sample_event ''b'' 2]"
  have acc: "accept sample_owner [sample_event ''a'' 1, sample_event ''b'' 2]"
    by (simp add: accept_def sample_ok sample_times)
  from upsert_events_resend [OF plain_env id_order empty_stores empty_log_complete(1) acc,
      of "fst (?up [])" "snd (?up [])" "fst (?up (snd (?up [])))" "snd (?up (snd (?up [])))"]
  show ?thesis by (simp add: Let_def)
qed

theorem upsert_events_any_order_witness:
  "same_events mem_contents
     (upsert_all mem_kv plain_codec (\<lambda>xs. xs) [[sample_event ''a'' 1], [sample_event ''a'' 2]] [])
     (upsert_all mem_kv plain_codec (\<lambda>xs. xs) [[sample_event ''a'' 2], [sample_event ''a'' 1]] [])"
  by (rule upsert_events_any_order [OF plain_env id_order empty_stores [of plain_codec sample_owner] empty_log_complete(1)])
    (simp_all add: accept_def sample_ok sample_times different_rank_def add_mset_commute, simp add: sample_event_def)

definition sample_log :: event_log where "sample_log = log_upsert (sample_event ''a'' 1) empty_log"

lemma sample_stored:
  "\<exists>s. stores mem_contents plain_codec sample_owner s sample_log"
proof -
  have acc: "accept sample_owner [sample_event ''a'' 1]" by (simp add: accept_def sample_ok sample_times)
  have "log_batch [sample_event ''a'' 1] empty_log = sample_log"
    by (simp add: log_batch_def batch_winners_def sample_log_def hm_get_def hm_insert_def)
  with upsert_stores [OF plain_env id_order empty_stores acc] show ?thesis by auto
qed

theorem delete_device_leaves_nothing_witness:
  "\<exists>s s' L'. stores mem_contents plain_codec sample_owner s sample_log \<and>
    delete_device_events mem_kv plain_codec ''d'' s = (Inr (), s') \<and> stores mem_contents plain_codec sample_owner s' L' \<and>
    rows L' (Ident ''d'' ''p'' ''a'', 1) = None \<and> pointers L' (Ident ''d'' ''p'' ''a'') = None"
proof -
  obtain s where s: "stores mem_contents plain_codec sample_owner s sample_log" using sample_stored by blast
  have "nul \<notin> set ''d''" by (simp add: nul_def char_of_def)
  from delete_device_leaves_nothing [OF plain_env s this] obtain s' L' where
    "delete_device_events mem_kv plain_codec ''d'' s = (Inr (), s')" "stores mem_contents plain_codec sample_owner s' L'"
    "\<forall>i t. rows L' (i, t) = (if id_device i = ''d'' then None else rows sample_log (i, t))"
    "\<forall>i. pointers L' i = (if id_device i = ''d'' then None else pointers sample_log i)" by blast
  with s show ?thesis by (intro exI [of _ s] exI [of _ s'] exI [of _ L']) simp
qed

theorem prune_keeps_rows_witness:
  "\<exists>s s' L'. stores mem_contents plain_codec sample_owner s sample_log \<and>
    cleanup_old_dedup mem_kv ''d'' 2 s = (Inr (), s') \<and> stores mem_contents plain_codec sample_owner s' L' \<and>
    rows L' = rows sample_log \<and> pointers L' (Ident ''d'' ''p'' ''a'') \<noteq> Some 1"
proof -
  obtain s where s: "stores mem_contents plain_codec sample_owner s sample_log" using sample_stored by blast
  have "nul \<notin> set ''d''" by (simp add: nul_def char_of_def)
  from prune_keeps_rows [OF plain_env s this, of 2] obtain s' L' where
    "cleanup_old_dedup mem_kv ''d'' 2 s = (Inr (), s')" "stores mem_contents plain_codec sample_owner s' L'"
    "rows L' = rows sample_log"
    "\<forall>i t. pointers L' i = Some t \<longleftrightarrow> pointers sample_log i = Some t \<and> \<not> (id_device i = ''d'' \<and> t < 2)" by blast
  with s show ?thesis by (intro exI [of _ s] exI [of _ s'] exI [of _ L']) simp
qed


end
