(* ===== verification/Window_Store.thy ===== *)
theory Window_Store
  imports Event_Store
begin

text \<open>
  The windows keyspace of the embedded store: \<open>upsert_windows\<close> merges each uploaded row into the row
  stored under its key, \<open>cleanup_old_windows\<close> removes the rows that ended before a cutoff, in bounded
  batches until a pass finds none, \<open>delete_user_windows\<close> removes a user's.
\<close>

section \<open>Upserting\<close>

text \<open>The bytes one uploaded row leaves, and whether the row was skipped.\<close>

definition absorb_row :: "codec \<Rightarrow> string option \<Rightarrow> wire_window \<Rightarrow> string" where
  "absorb_row cd old w =
     (case old of
        None \<Rightarrow> encode_window cd w
      | Some bytes \<Rightarrow>
          (case decode_window_versioned cd bytes of
             Valid prev \<Rightarrow> if merge_wire_windows prev w = prev then bytes else encode_window cd (merge_wire_windows prev w)
           | Future_Version \<Rightarrow> bytes
           | Corrupt \<Rightarrow> encode_window cd w))"

definition skips_row :: "codec \<Rightarrow> string option \<Rightarrow> bool" where
  "skips_row cd old = (case old of None \<Rightarrow> False | Some bytes \<Rightarrow> decode_window_versioned cd bytes = Future_Version)"

definition absorb_rows :: "codec \<Rightarrow> (wire_window \<Rightarrow> string) \<Rightarrow> wire_window list \<Rightarrow> (string \<rightharpoonup> string) \<Rightarrow> (string \<rightharpoonup> string)" where
  "absorb_rows cd key ws m = fold (\<lambda>w m. m(key w \<mapsto> absorb_row cd (m (key w)) w)) ws m"

fun count_skips :: "codec \<Rightarrow> (wire_window \<Rightarrow> string) \<Rightarrow> wire_window list \<Rightarrow> (string \<rightharpoonup> string) \<Rightarrow> nat" where
  "count_skips cd key [] m = 0"
| "count_skips cd key (w # ws) m =
     (if skips_row cd (m (key w)) then 1 else 0) + count_skips cd key ws (m(key w \<mapsto> absorb_row cd (m (key w)) w))"

context fjall_env begin

lemma upsert_windows_loop_absorbs:
  "\<exists>s'. upsert_windows_loop ops cd user prov ws n s =
      (Inr (n + count_skips cd (window_row_key user prov) ws (cmap s Windows)), s') \<and>
    cmap s' Windows = absorb_rows cd (window_row_key user prov) ws (cmap s Windows) \<and>
    (\<forall>ks. ks \<noteq> Windows \<longrightarrow> cmap s' ks = cmap s ks)"
proof (induction ws arbitrary: n s)
  case (Cons w ws)
  let ?k = "window_row_key user prov w"
  let ?m = "cmap s Windows"
  have put: "\<exists>s1. kv_commit ops s [Put Windows ?k v] = Inr s1 \<and> cmap s1 Windows = ?m(?k \<mapsto> v) \<and>
      (\<forall>ks. ks \<noteq> Windows \<longrightarrow> cmap s1 ks = cmap s ks)" for v
    using commit_cmap [of s "[Put Windows ?k v]"] by auto
  have same: "?m(?k \<mapsto> v) = ?m" if "?m ?k = Some v" for v
    using that by (simp add: map_upd_triv)
  consider (store) v where "absorb_row cd (?m ?k) w = v" "\<not> skips_row cd (?m ?k)"
      "upsert_windows_loop ops cd user prov (w # ws) n s =
        (case kv_commit ops s [Put Windows ?k v] of Inl e \<Rightarrow> (Inl e, s) | Inr s' \<Rightarrow> upsert_windows_loop ops cd user prov ws n s')"
    | (keep) v where "?m ?k = Some v" "absorb_row cd (?m ?k) w = v" "\<not> skips_row cd (?m ?k)"
      "upsert_windows_loop ops cd user prov (w # ws) n s = upsert_windows_loop ops cd user prov ws n s"
    | (skip) v where "?m ?k = Some v" "absorb_row cd (?m ?k) w = v" "skips_row cd (?m ?k)"
      "upsert_windows_loop ops cd user prov (w # ws) n s = upsert_windows_loop ops cd user prov ws (n + 1) s"
  proof (cases "?m ?k")
    case None
    then show ?thesis by (intro that(1)) (simp_all add: get_cmap absorb_row_def skips_row_def)
  next
    case (Some b)
    show ?thesis
    proof (cases "decode_window_versioned cd b")
      case (Valid prev)
      show ?thesis
      proof (cases "merge_wire_windows prev w = prev")
        case True
        with Some Valid show ?thesis by (intro that(2)) (simp_all add: get_cmap absorb_row_def skips_row_def Let_def)
      next
        case False
        with Some Valid show ?thesis by (intro that(1)) (simp_all add: get_cmap absorb_row_def skips_row_def Let_def)
      qed
    next
      case Future_Version
      with Some show ?thesis by (intro that(3)) (simp_all add: get_cmap absorb_row_def skips_row_def Let_def)
    next
      case Corrupt
      with Some show ?thesis by (intro that(1)) (simp_all add: get_cmap absorb_row_def skips_row_def Let_def)
    qed
  qed
  then show ?case
  proof cases
    case store
    obtain s1 where s1: "kv_commit ops s [Put Windows ?k v] = Inr s1" "cmap s1 Windows = ?m(?k \<mapsto> v)"
      "\<forall>ks. ks \<noteq> Windows \<longrightarrow> cmap s1 ks = cmap s ks" using put by blast
    from Cons.IH [of n s1, unfolded s1(2)] s1(1,3) store show ?thesis by (simp add: absorb_rows_def del: upsert_windows_loop.simps fun_upd_apply)
  next
    case keep
    from Cons.IH [of n s] keep same [OF keep(1)] show ?thesis by (simp add: absorb_rows_def del: upsert_windows_loop.simps)
  next
    case skip
    from Cons.IH [of "n + 1" s] skip same [OF skip(1)] show ?thesis by (simp add: absorb_rows_def del: upsert_windows_loop.simps)
  qed
qed (simp add: absorb_rows_def)

end

text \<open>With one row per key, as a pre-merged batch has, each key is decided by its row alone.\<close>

lemma absorb_rows_distinct:
  assumes "distinct (map key ws)"
  shows "absorb_rows cd key ws m k = (case find (\<lambda>w. key w = k) ws of Some w \<Rightarrow> Some (absorb_row cd (m k) w) | None \<Rightarrow> m k)"
  using assms
proof (induction ws arbitrary: m)
  case (Cons w ws)
  have "find (\<lambda>v. key v = key w) ws = None" using Cons.prems by (simp add: find_None_iff) (metis image_eqI)
  with Cons show ?case by (auto simp: absorb_rows_def split: option.split)
qed (simp add: absorb_rows_def)

lemma count_skips_distinct:
  assumes "distinct (map key ws)"
  shows "count_skips cd key ws m = length (filter (\<lambda>w. skips_row cd (m (key w))) ws)"
  using assms
proof (induction ws arbitrary: m)
  case (Cons w ws)
  have "filter (\<lambda>v. skips_row cd ((m(key w \<mapsto> x)) (key v))) ws = filter (\<lambda>v. skips_row cd (m (key v))) ws" for x
    using Cons.prems by (intro filter_cong) (auto simp: image_iff)
  with Cons show ?case by simp
qed simp

section \<open>Cleaning up\<close>

definition stale_key :: "int \<Rightarrow> string \<Rightarrow> bool" where
  "stale_key cutoff k \<longleftrightarrow> (case key_anchor k of Some a \<Rightarrow> a < cutoff | None \<Rightarrow> False)"

lemma collect_stale_take:
  "length acc < CLEANUP_BATCH \<Longrightarrow>
   collect_stale cutoff (map Inr kvs) acc =
     Inr (acc @ take (CLEANUP_BATCH - length acc) (filter (stale_key cutoff) (map fst kvs)))"
proof (induction kvs arbitrary: acc)
  case (Cons kv kvs)
  obtain k v where kv: "kv = (k, v)" by fastforce
  show ?case
  proof (cases "stale_key cutoff k")
    case True
    then obtain a where a: "key_anchor k = Some a" "a < cutoff" by (auto simp: stale_key_def split: option.splits)
    show ?thesis
    proof (cases "CLEANUP_BATCH \<le> Suc (length acc)")
      case True
      with Cons.prems have "CLEANUP_BATCH - length acc = Suc 0" by simp
      with True a \<open>stale_key cutoff k\<close> show ?thesis by (simp add: kv Let_def)
    next
      case False
      then have "CLEANUP_BATCH - length acc = Suc (CLEANUP_BATCH - Suc (length acc))" by simp
      with False a \<open>stale_key cutoff k\<close> Cons.IH [of "acc @ [k]"] show ?thesis by (simp add: kv Let_def)
    qed
  next
    case False
    then have "collect_stale cutoff (map Inr (kv # kvs)) acc = collect_stale cutoff (map Inr kvs) acc"
      by (auto simp: kv stale_key_def split: option.splits)
    with False Cons show ?thesis by (simp add: kv)
  qed
qed simp

context fjall_env begin

lemma remove_keys_removes:
  "\<exists>s'. remove_keys ops ks s = (Inr (), s') \<and>
    cmap s' Windows = (\<lambda>k. if k \<in> set ks then None else cmap s Windows k) \<and>
    (\<forall>x. x \<noteq> Windows \<longrightarrow> cmap s' x = cmap s x)"
proof (induction ks arbitrary: s)
  case (Cons k ks)
  obtain s1 where s1: "kv_commit ops s [Del Windows k] = Inr s1" "\<forall>x. cmap s1 x = apply_writes x [Del Windows k] (cmap s x)"
    using commit_cmap by blast
  from Cons.IH [of s1] obtain s' where "remove_keys ops ks s1 = (Inr (), s')"
    "cmap s' Windows = (\<lambda>k. if k \<in> set ks then None else cmap s1 Windows k)" "\<forall>x. x \<noteq> Windows \<longrightarrow> cmap s' x = cmap s1 x"
    by blast
  with s1 show ?case by (intro exI [of _ s']) (auto simp: fun_eq_iff)
qed simp

lemma contents_fst: "set (map fst (contents s ks)) = dom (cmap s ks)"
  by (force simp: dom_def image_iff simp flip: contents_cmap)

lemma finite_keys: "finite (dom (cmap s ks))"
  unfolding contents_fst [symmetric] by simp

lemma cleanup_loop_exact:
  "\<exists>s'. cleanup_windows_loop ops cutoff removed s =
      Some (Inr (removed + card {k \<in> dom (cmap s Windows). stale_key cutoff k}), s') \<and>
    cmap s' Windows = (\<lambda>k. if stale_key cutoff k then None else cmap s Windows k) \<and>
    (\<forall>x. x \<noteq> Windows \<longrightarrow> cmap s' x = cmap s x)"
proof (induction "card {k \<in> dom (cmap s Windows). stale_key cutoff k}" arbitrary: s removed rule: less_induct)
  case less
  let ?S = "{k \<in> dom (cmap s Windows). stale_key cutoff k}"
  let ?keys = "filter (stale_key cutoff) (map fst (contents s Windows))"
  have fin: "finite ?S" using finite_keys by simp
  have set: "set ?keys = ?S" using contents_fst [of s Windows] by auto
  have "distinct ?keys" using sorted_map_distinct [OF contents_sorted] by simp
  let ?stale = "take CLEANUP_BATCH ?keys"
  have "0 < CLEANUP_BATCH" by (simp add: CLEANUP_BATCH_def)
  then have coll: "collect_stale cutoff (kv_range ops s Windows []) [] = Inr ?stale"
    using collect_stale_take [of "[]"] by (simp add: range_all)
  have sub: "set ?stale \<subseteq> ?S" unfolding set [symmetric] by (rule set_take_subset)
  have len: "length ?stale = card (set ?stale)" using \<open>distinct ?keys\<close> by (simp add: distinct_card)
  show ?case
  proof (cases "?stale = []")
    case True
    then have "?S = {}" using set \<open>0 < CLEANUP_BATCH\<close> by (simp add: take_eq_Nil)
    then have "cmap s Windows = (\<lambda>k. if stale_key cutoff k then None else cmap s Windows k)" by (auto simp: fun_eq_iff)
    moreover have "card ?S = 0" using \<open>?S = {}\<close> by (simp only: card.empty)
    ultimately show ?thesis
      by (subst cleanup_windows_loop.simps) (simp add: coll True del: take_eq_Nil card_eq_0_iff)
  next
    case False
    obtain s1 where s1: "remove_keys ops ?stale s = (Inr (), s1)"
      "cmap s1 Windows = (\<lambda>k. if k \<in> set ?stale then None else cmap s Windows k)"
      "\<forall>x. x \<noteq> Windows \<longrightarrow> cmap s1 x = cmap s x" using remove_keys_removes by blast
    have S1: "{k \<in> dom (cmap s1 Windows). stale_key cutoff k} = ?S - set ?stale"
      by (auto simp: s1(2) split: if_splits)
    have "card (?S - set ?stale) = card ?S - card (set ?stale)" using fin sub by (simp add: card_Diff_subset finite_subset)
    moreover have "card (set ?stale) \<le> card ?S" using fin sub by (rule card_mono)
    moreover have "0 < card (set ?stale)" using False by (simp only: len [symmetric] length_greater_0_conv not_False_eq_True)
    ultimately have smaller: "card {k \<in> dom (cmap s1 Windows). stale_key cutoff k} < card ?S"
      and total: "length ?stale + card {k \<in> dom (cmap s1 Windows). stale_key cutoff k} = card ?S"
      unfolding S1 len by linarith+
    obtain s' where s': "cleanup_windows_loop ops cutoff (removed + length ?stale) s1 =
        Some (Inr (removed + length ?stale + card {k \<in> dom (cmap s1 Windows). stale_key cutoff k}), s')"
      "cmap s' Windows = (\<lambda>k. if stale_key cutoff k then None else cmap s1 Windows k)"
      "\<forall>x. x \<noteq> Windows \<longrightarrow> cmap s' x = cmap s1 x" using less [OF smaller] by blast
    have "cleanup_windows_loop ops cutoff removed s = Some (Inr (removed + card ?S), s')"
      using s'(1) total by (subst cleanup_windows_loop.simps) (simp add: coll s1(1) False add.assoc del: take_eq_Nil)
    moreover have "cmap s' Windows = (\<lambda>k. if stale_key cutoff k then None else cmap s Windows k)"
      using sub by (auto simp: s'(2) s1(2) fun_eq_iff)
    ultimately show ?thesis using s'(3) s1(3) by auto
  qed
qed

lemma all_keys_map: "all_keys (map Inr kvs) = Inr (map fst kvs)"
  by (induction kvs) auto

lemma delete_user_windows_exact:
  "\<exists>s'. delete_user_windows ops user s = (Inr (), s') \<and>
    cmap s' Windows = (\<lambda>k. if prefix (user @ [nul]) k then None else cmap s Windows k) \<and>
    (\<forall>x. x \<noteq> Windows \<longrightarrow> cmap s' x = cmap s x)"
proof -
  let ?ks = "map fst (filter (\<lambda>(k, v). prefix (user @ [nul]) k) (contents s Windows))"
  have "set ?ks = {k \<in> dom (cmap s Windows). prefix (user @ [nul]) k}"
    using contents_cmap by (force simp: image_iff)
  moreover obtain s' where "remove_keys ops ?ks s = (Inr (), s')"
    "cmap s' Windows = (\<lambda>k. if k \<in> set ?ks then None else cmap s Windows k)" "\<forall>x. x \<noteq> Windows \<longrightarrow> cmap s' x = cmap s x"
    using remove_keys_removes by blast
  ultimately show ?thesis
    by (intro exI [of _ s']) (auto simp: delete_user_windows_def prefix_law all_keys_map fun_eq_iff)
qed

end

section \<open>What the windows keyspace guarantees\<close>

lemma map_of_filter_key: "map_of (filter (\<lambda>(k, v). \<not> P k) kvs) k = (if P k then None else map_of kvs k)"
  by (induction kvs) auto

lemma merge_self: "active_ms w \<le> active_cap (window_minutes w) \<Longrightarrow> merge_wire_windows w w = w"
  by (rule wire_window_eqI) (simp_all add: merge_time_to_100_def join_first_seen_def)

lemma window_key_anchor: "in_i64 (window_end_ms w) \<Longrightarrow> key_anchor (window_row_key user prov w) = Some (window_end_ms w)"
proof -
  obtain p where p: "window_row_key user prov w = p @ be64 (window_end_ms w)"
    by (rule that [of "user @ nul # prov @ nul # limit_id w @ nul # account w @ nul # [char_of (window_kind w)]"])
      (simp add: window_row_key_def)
  assume "in_i64 (window_end_ms w)"
  then show ?thesis by (simp add: key_anchor_def p)
qed

lemma window_key_user:
  assumes "nul \<notin> set user" "nul \<notin> set user'"
  shows "prefix (user @ [nul]) (window_row_key user' prov w) \<longleftrightarrow> user' = user"
  using assms by (auto simp: prefix_def window_row_key_def append_sep_inject)

context fjall_env begin

lemma decode_encode_window: "decode_window_versioned cd (encode_window cd w) = Valid w"
  by (simp add: decode_window_versioned_def encode_window_def WINDOW_VALUE_VERSION_def window_codec)

lemma absorb_row_twice:
  assumes "active_ms w \<le> active_cap (window_minutes w)"
  shows "absorb_row cd (Some (absorb_row cd old w)) w = absorb_row cd old w"
    "skips_row cd (Some (absorb_row cd old w)) = skips_row cd old"
  using assms
  by (auto simp: absorb_row_def skips_row_def decode_encode_window merge_self merge_idem
      split: option.splits window_decode.splits)

lemma same_other: "\<forall>x. x \<noteq> Windows \<longrightarrow> cmap s' x = cmap s x \<Longrightarrow> x \<noteq> Windows \<Longrightarrow> contents s' x = contents s x"
  using same_contents by blast

lemma filtered_contents:
  assumes "cmap s' Windows = (\<lambda>k. if P k then None else cmap s Windows k)"
  shows "contents s' Windows = filter (\<lambda>(k, v). \<not> P k) (contents s Windows)"
proof (rule sorted_map_unique)
  note at = map_of_filter_key [of P "contents s Windows"]
  from assms show "map_of (contents s' Windows) = map_of (filter (\<lambda>(k, v). \<not> P k) (contents s Windows))"
    by (simp add: at cmap_def [abs_def] fun_eq_iff)
qed (intro sorted_map_filter contents_sorted)+

end

lemma env_kv: "fjall_env ops contents cd \<Longrightarrow> ordered_kv ops contents"
  by (simp add: fjall_env_def)

lemma upsert_windows_run:
  assumes "fjall_env ops contents cd"
  shows "\<exists>s'. upsert_windows ops cd user prov ws s =
      (Inr (count_skips cd (window_row_key user prov) ws (map_of (contents s Windows))), s') \<and>
    map_of (contents s' Windows) = absorb_rows cd (window_row_key user prov) ws (map_of (contents s Windows)) \<and>
    (\<forall>ks. ks \<noteq> Windows \<longrightarrow> contents s' ks = contents s ks)"
proof (cases "ws = []")
  case False
  obtain s' where "upsert_windows_loop ops cd user prov ws 0 s =
      (Inr (0 + count_skips cd (window_row_key user prov) ws (ordered_kv.cmap contents s Windows)), s')"
    "ordered_kv.cmap contents s' Windows = absorb_rows cd (window_row_key user prov) ws (ordered_kv.cmap contents s Windows)"
    "\<forall>x. x \<noteq> Windows \<longrightarrow> ordered_kv.cmap contents s' x = ordered_kv.cmap contents s x"
    using fjall_env.upsert_windows_loop_absorbs [OF assms, of user prov ws 0 s] by blast
  moreover from this(3) have "\<forall>ks. ks \<noteq> Windows \<longrightarrow> contents s' ks = contents s ks"
    using fjall_env.same_other [OF assms] by blast
  ultimately show ?thesis
    using False by (simp add: upsert_windows_def ordered_kv.cmap_def [OF env_kv [OF assms]])
qed (simp add: upsert_windows_def absorb_rows_def)

text \<open>C32: Storing a pre-merged windows batch merges each row into the stored one (or keeps a row of a
  future value version, and counts it), reports exactly the rows skipped, and touches nothing
  else.\<close>

theorem upsert_windows_merges:
  assumes "fjall_env ops contents cd" "distinct (map (window_row_key user prov) ws)"
    and "upsert_windows ops cd user prov ws s = (r, s')"
  shows "r = Inr (length (filter (\<lambda>w. skips_row cd (map_of (contents s Windows) (window_row_key user prov w))) ws)) \<and>
    (\<forall>k. map_of (contents s' Windows) k =
       (case find (\<lambda>w. window_row_key user prov w = k) ws of
          Some w \<Rightarrow> Some (absorb_row cd (map_of (contents s Windows) k) w) | None \<Rightarrow> map_of (contents s Windows) k)) \<and>
    (\<forall>ks. ks \<noteq> Windows \<longrightarrow> contents s' ks = contents s ks)"
  using upsert_windows_run [OF assms(1), of user prov ws s] assms(3)
  by (auto simp: absorb_rows_distinct [OF assms(2)] count_skips_distinct [OF assms(2)])

theorem upsert_windows_resend:
  assumes "fjall_env ops contents cd" "distinct (map (window_row_key user prov) ws)"
    and "\<forall>w\<in>set ws. active_ms w \<le> active_cap (window_minutes w)"
    and "upsert_windows ops cd user prov ws s = (r, s1)" "upsert_windows ops cd user prov ws s1 = (r', s2)"
  shows "r' = r \<and> contents s2 = contents s1"
proof -
  let ?key = "window_row_key user prov"
  let ?m = "map_of (contents s Windows)"
  have one: "r = Inr (count_skips cd ?key ws ?m)" "map_of (contents s1 Windows) = absorb_rows cd ?key ws ?m"
    using upsert_windows_run [OF assms(1), of user prov ws s] assms(4) by auto
  have two: "r' = Inr (count_skips cd ?key ws (map_of (contents s1 Windows)))"
    "map_of (contents s2 Windows) = absorb_rows cd ?key ws (map_of (contents s1 Windows))"
    "\<forall>ks. ks \<noteq> Windows \<longrightarrow> contents s2 ks = contents s1 ks"
    using upsert_windows_run [OF assms(1), of user prov ws s1] assms(5) by auto
  have at: "absorb_rows cd ?key ws ?m (?key w) = Some (absorb_row cd (?m (?key w)) w)" if "w \<in> set ws" for w
  proof -
    have "find (\<lambda>v. ?key v = ?key w) ws = Some w"
      using that assms(2) by (induction ws) (auto simp: image_iff)
    then show ?thesis by (simp add: absorb_rows_distinct [OF assms(2)])
  qed
  have twice: "absorb_row cd (absorb_rows cd ?key ws ?m (?key w)) w = absorb_row cd (?m (?key w)) w"
    "skips_row cd (absorb_rows cd ?key ws ?m (?key w)) = skips_row cd (?m (?key w))" if "w \<in> set ws" for w
    using at [OF that] fjall_env.absorb_row_twice [OF assms(1)] assms(3) that by simp_all
  have "absorb_rows cd ?key ws (absorb_rows cd ?key ws ?m) k = absorb_rows cd ?key ws ?m k" for k
    unfolding absorb_rows_distinct [OF assms(2), of cd "absorb_rows cd ?key ws ?m"]
  proof (cases "find (\<lambda>w. ?key w = k) ws")
    case (Some w)
    then have "w \<in> set ws" "?key w = k" by (auto simp: find_Some_iff)
    with at twice(1) Some show "(case find (\<lambda>w. ?key w = k) ws of Some w \<Rightarrow> Some (absorb_row cd (absorb_rows cd ?key ws ?m k) w)
        | None \<Rightarrow> absorb_rows cd ?key ws ?m k) = absorb_rows cd ?key ws ?m k" by fastforce
  qed simp
  then have "map_of (contents s2 Windows) = map_of (contents s1 Windows)" by (simp add: one(2) two(2) fun_eq_iff)
  then have "contents s2 Windows = contents s1 Windows"
    using ordered_kv.contents_sorted [OF env_kv [OF assms(1)]] sorted_map_unique by blast
  then have "contents s2 = contents s1" using two(3) by (metis ext)
  moreover have "r' = r"
    using twice(2) by (auto simp: one(1) two(1) count_skips_distinct [OF assms(2)] one(2) intro!: arg_cong [where f = length] filter_cong)
  ultimately show ?thesis by simp
qed

text \<open>C33: cleanup_old_windows returns: it removes exactly the rows whose window ended before the
  cutoff, counts them, and touches nothing else.\<close>

theorem cleanup_old_windows_terminates:
  assumes "fjall_env ops contents cd"
  shows "\<exists>s'. cleanup_old_windows ops cutoff s =
      Some (Inr (length (filter (\<lambda>(k, v). stale_key cutoff k) (contents s Windows))), s') \<and>
    contents s' Windows = filter (\<lambda>(k, v). \<not> stale_key cutoff k) (contents s Windows) \<and>
    (\<forall>ks. ks \<noteq> Windows \<longrightarrow> contents s' ks = contents s ks)"
proof -
  obtain s' where s': "cleanup_windows_loop ops cutoff 0 s =
      Some (Inr (0 + card {k \<in> dom (ordered_kv.cmap contents s Windows). stale_key cutoff k}), s')"
    "ordered_kv.cmap contents s' Windows = (\<lambda>k. if stale_key cutoff k then None else ordered_kv.cmap contents s Windows k)"
    "\<forall>x. x \<noteq> Windows \<longrightarrow> ordered_kv.cmap contents s' x = ordered_kv.cmap contents s x"
    using fjall_env.cleanup_loop_exact [OF assms] by blast
  let ?keys = "filter (stale_key cutoff) (map fst (contents s Windows))"
  have "set ?keys = {k \<in> dom (ordered_kv.cmap contents s Windows). stale_key cutoff k}"
    using fjall_env.contents_fst [OF assms, of s Windows] by auto
  moreover have "distinct ?keys"
    using sorted_map_distinct [OF ordered_kv.contents_sorted [OF env_kv [OF assms]]] by simp
  moreover have "length ?keys = length (filter (\<lambda>(k, v). stale_key cutoff k) (contents s Windows))"
    by (induction "contents s Windows") (auto simp: filter_map comp_def split_beta)
  ultimately have "card {k \<in> dom (ordered_kv.cmap contents s Windows). stale_key cutoff k} =
      length (filter (\<lambda>(k, v). stale_key cutoff k) (contents s Windows))"
    by (metis distinct_card)
  with s' show ?thesis
    using fjall_env.filtered_contents [OF assms s'(2)] fjall_env.same_other [OF assms s'(3)]
    by (simp add: cleanup_old_windows_def)
qed

subsection \<open>At a concrete store\<close>

definition sample_window :: "int \<Rightarrow> wire_window" where
  "sample_window t = \<lparr>window_kind = 0, limit_id = ''l'', account = ''a'', window_end_ms = t, raw_resets_at_ms = t,
     window_minutes = 300, peak_pct_x100 = 10, last_pct_x100 = 5, observed_ts_ms = 1, first_seen_ms = 1,
     finalized = False, maxed_out = False, limit_reached_kind = 0, time_to_100_ms = -1, active_ms = 0,
     last_sample_gap_ms = 0, sampled_active_fraction = 0, n_samples = 1, plan = ''p''\<rparr>"

lemma sample_keys: "distinct (map (window_row_key ''u'' ''p'') [sample_window 1, sample_window 2])"
  by (simp add: window_row_key_def sample_window_def be64_inject in_i64_def i64_min_def i64_max_def)

theorem upsert_windows_merges_witness:
  "let (r, s') = upsert_windows mem_kv plain_codec ''u'' ''p'' [sample_window 1, sample_window 2] []
   in r = Inr 0 \<and> map_of (mem_contents s' Windows) (window_row_key ''u'' ''p'' (sample_window 1)) =
     Some (encode_window plain_codec (sample_window 1))"
proof -
  obtain r s' where run: "upsert_windows mem_kv plain_codec ''u'' ''p'' [sample_window 1, sample_window 2] [] = (r, s')"
    by fastforce
  from upsert_windows_merges [OF plain_env sample_keys run] show ?thesis
    by (simp add: run mem_contents_def skips_row_def absorb_row_def)
qed

theorem upsert_windows_resend_witness:
  "let ws = [sample_window 1, sample_window 2]; (r, s1) = upsert_windows mem_kv plain_codec ''u'' ''p'' ws [];
       (r', s2) = upsert_windows mem_kv plain_codec ''u'' ''p'' ws s1
   in r' = r \<and> mem_contents s2 = mem_contents s1"
proof -
  let ?up = "upsert_windows mem_kv plain_codec ''u'' ''p'' [sample_window 1, sample_window 2]"
  obtain r s1 where one: "?up [] = (r, s1)" by fastforce
  obtain r' s2 where two: "?up s1 = (r', s2)" by fastforce
  have "\<forall>w\<in>set [sample_window 1, sample_window 2]. active_ms w \<le> active_cap (window_minutes w)"
    by (simp add: sample_window_def)
  from upsert_windows_resend [OF plain_env sample_keys this one two] show ?thesis by (simp add: one two)
qed

theorem cleanup_old_windows_terminates_witness:
  "\<exists>s'. cleanup_old_windows mem_kv 5 [] = Some (Inr 0, s') \<and> mem_contents s' Windows = []"
  using cleanup_old_windows_terminates [OF plain_env, of 5 "[]"] by (auto simp: mem_contents_def)

end
