(* ===== verification/Access.thy ===== *)
theory Access
  imports Sqlite Plain
begin

text \<open>
  Who may do what: the token manager (\<open>src/src/auth/jwt.rs\<close>) and the shared part of the HTTP server
  (\<open>src/src/server/http.rs\<close>): errors, validation helpers, the client address, the active-status cache,
  \<open>authenticate\<close> and \<open>require_admin\<close>, and the dynamic settings.

  The \<open>jsonwebtoken\<close> crate is a parameter: \<open>jwt_encode\<close> signs claims with a key, \<open>jwt_decode\<close> checks
  signature and expiry at a time (leeway 0). \<open>Utc::now().timestamp()\<close> is an \<open>int\<close> of seconds, an
  \<open>Instant\<close> a \<open>nat\<close> of nanoseconds, both arguments. A \<open>HeaderMap\<close> is its list of entries.
\<close>

section \<open>Errors\<close>

record app_error =
  status :: nat
  message :: string

definition err_internal :: "string \<Rightarrow> app_error" where
  "err_internal e = \<lparr>status = 500, message = ''internal server error''\<rparr>"

definition err_bad_gateway :: "string \<Rightarrow> app_error" where
  "err_bad_gateway e = \<lparr>status = 502, message = ''metrics backend unavailable''\<rparr>"

definition err_unauthorized :: "string \<Rightarrow> app_error" where
  "err_unauthorized msg = \<lparr>status = 401, message = msg\<rparr>"

definition err_forbidden :: "string \<Rightarrow> app_error" where
  "err_forbidden msg = \<lparr>status = 403, message = msg\<rparr>"

definition err_not_found :: "string \<Rightarrow> app_error" where
  "err_not_found msg = \<lparr>status = 404, message = msg\<rparr>"

definition err_conflict :: "string \<Rightarrow> app_error" where
  "err_conflict msg = \<lparr>status = 409, message = msg\<rparr>"

definition err_unprocessable :: "string \<Rightarrow> app_error" where
  "err_unprocessable msg = \<lparr>status = 422, message = msg\<rparr>"

definition err_locked_out :: "nat \<Rightarrow> app_error" where
  "err_locked_out retry_after =
     \<lparr>status = 429, message = ''too many attempts, retry after '' @ dec retry_after @ ''s''\<rparr>"

type_synonym 'a reply = "app_error + 'a"

definition or_internal :: "'a result \<Rightarrow> 'a reply" where
  "or_internal r = (case r of Inl e \<Rightarrow> Inl (err_internal e) | Inr x \<Rightarrow> Inr x)"

section \<open>Validation helpers\<close>

text \<open>\<open>char::is_alphanumeric\<close> beyond ASCII is the Unicode tables' answer, \<open>uni_alnum\<close>.\<close>

definition is_alphanumeric :: "(string \<Rightarrow> bool) \<Rightarrow> string \<Rightarrow> bool" where
  "is_alphanumeric uni_alnum ch =
     (case ch of [c] \<Rightarrow> if byte c < 128 then ascii_alnum c else uni_alnum ch | _ \<Rightarrow> uni_alnum ch)"

definition validate_username :: "(string \<Rightarrow> bool) \<Rightarrow> string \<Rightarrow> unit reply" where
  "validate_username uni_alnum username =
     (if length username < 3 \<or> length username > 32
      then Inl (err_unprocessable ''username must be 3-32 characters'')
      else if \<not> (\<forall>ch\<in>set (utf8_chars username).
                 is_alphanumeric uni_alnum ch \<or> ch = ''_'' \<or> ch = ''-'' \<or> ch = ''.'')
      then Inl (err_unprocessable ''username may only contain letters, digits, _, -, .'')
      else Inr ())"

definition truncate_device_name :: "string \<Rightarrow> string" where
  "truncate_device_name name =
     (if length name \<le> 64 then name else concat (take 64 (utf8_chars name)))"

section \<open>Headers\<close>

type_synonym headers = "(string \<times> string) list"

text \<open>\<open>HeaderValue::to_str\<close> accepts visible ASCII, space and tab.\<close>

definition header_str :: "headers \<Rightarrow> string \<Rightarrow> string option" where
  "header_str hs name =
     (case map_of hs name of
        None \<Rightarrow> None
      | Some v \<Rightarrow> if \<forall>c\<in>set v. (32 \<le> byte c \<and> byte c < 127) \<or> byte c = 9 then Some v else None)"

definition ascii_blank :: "char \<Rightarrow> bool" where
  "ascii_blank c \<longleftrightarrow> byte c = 32 \<or> (9 \<le> byte c \<and> byte c \<le> 13)"

definition trim :: "string \<Rightarrow> string" where
  "trim s = rev (dropWhile ascii_blank (rev (dropWhile ascii_blank s)))"

definition last_segment :: "char \<Rightarrow> string \<Rightarrow> string" where
  "last_segment sep s = rev (takeWhile (\<lambda>c. c \<noteq> sep) (rev s))"

definition extract_client_ip :: "headers \<Rightarrow> string \<Rightarrow> bool \<Rightarrow> string" where
  "extract_client_ip hs addr trust_proxy =
     (if trust_proxy
      then (case header_str hs ''x-forwarded-for'' of
              Some s \<Rightarrow> trim (last_segment (CHR '','') s)
            | None \<Rightarrow> addr)
      else addr)"

section \<open>Tokens\<close>

record claims =
  cl_sub :: string
  cl_jti :: string
  cl_typ :: string
  cl_exp :: int
  cl_iat :: int
  cl_iss :: "string option"
  cl_did :: "string option"

record jwt_crate =
  jwt_encode :: "string \<Rightarrow> claims \<Rightarrow> string result"
  jwt_decode :: "int \<Rightarrow> string \<Rightarrow> string \<Rightarrow> claims result"

record jwt_manager =
  jwt_secret :: string
  access_ttl_secs :: nat
  refresh_ttl_secs :: nat
  issuer :: string

definition iss_claim :: "jwt_manager \<Rightarrow> string option" where
  "iss_claim m = (if issuer m = [] then None else Some (issuer m))"

text \<open>\<open>now + ttl as i64\<close>: the cast and, in release builds, the addition wrap.\<close>

definition expiry :: "int \<Rightarrow> nat \<Rightarrow> int" where
  "expiry now ttl = wrap_i64 (now + wrap_i64 (int ttl))"

definition issue_access_token :: "jwt_crate \<Rightarrow> jwt_manager \<Rightarrow> int \<Rightarrow> string \<Rightarrow> string \<Rightarrow> string result" where
  "issue_access_token jc m now uuid user =
     (case jwt_encode jc (jwt_secret m) \<lparr>cl_sub = user, cl_jti = uuid, cl_typ = ''access'',
             cl_exp = expiry now (access_ttl_secs m), cl_iat = now, cl_iss = iss_claim m, cl_did = None\<rparr> of
        Inl _ \<Rightarrow> Inl ''failed to issue access token''
      | Inr t \<Rightarrow> Inr t)"

definition refresh_claims :: "jwt_manager \<Rightarrow> int \<Rightarrow> string \<Rightarrow> string \<Rightarrow> string option \<Rightarrow> claims" where
  "refresh_claims m now uuid user dev =
     \<lparr>cl_sub = user, cl_jti = uuid, cl_typ = ''refresh'', cl_exp = expiry now (refresh_ttl_secs m),
      cl_iat = now, cl_iss = iss_claim m, cl_did = dev\<rparr>"

definition issue_refresh_token ::
  "jwt_crate \<Rightarrow> jwt_manager \<Rightarrow> int \<Rightarrow> string \<Rightarrow> string \<Rightarrow> string option \<Rightarrow> (string \<times> claims) result" where
  "issue_refresh_token jc m now uuid user dev =
     (let c = refresh_claims m now uuid user dev
      in (case jwt_encode jc (jwt_secret m) c of
            Inl _ \<Rightarrow> Inl ''failed to issue refresh token''
          | Inr t \<Rightarrow> Inr (t, c)))"

definition verify :: "jwt_crate \<Rightarrow> jwt_manager \<Rightarrow> int \<Rightarrow> string \<Rightarrow> claims result" where
  "verify jc m now token =
     (case jwt_decode jc now (jwt_secret m) token of Inl e \<Rightarrow> Inl (''invalid token: '' @ e) | Inr c \<Rightarrow> Inr c)"

definition verify_access :: "jwt_crate \<Rightarrow> jwt_manager \<Rightarrow> int \<Rightarrow> string \<Rightarrow> claims result" where
  "verify_access jc m now token =
     (case verify jc m now token of
        Inl e \<Rightarrow> Inl e
      | Inr c \<Rightarrow> if cl_typ c \<noteq> ''access'' then Inl (''expected access token, got '' @ cl_typ c) else Inr c)"

definition verify_refresh :: "jwt_crate \<Rightarrow> jwt_manager \<Rightarrow> int \<Rightarrow> string \<Rightarrow> claims result" where
  "verify_refresh jc m now token =
     (case verify jc m now token of
        Inl e \<Rightarrow> Inl e
      | Inr c \<Rightarrow> if cl_typ c \<noteq> ''refresh'' then Inl (''expected refresh token, got '' @ cl_typ c) else Inr c)"

text \<open>The two \<open>Uuid::new_v4()\<close> are the ids of the new access and refresh token.\<close>

definition rotate_tokens ::
  "jwt_crate \<Rightarrow> jwt_manager \<Rightarrow> int \<Rightarrow> string \<Rightarrow> string \<Rightarrow> string \<Rightarrow> string option \<Rightarrow> sqlite_db \<Rightarrow> (string \<times> string) db_result" where
  "rotate_tokens jc m now uuid uuid' old_token dev db =
     (case verify_refresh jc m now old_token of
        Inl e \<Rightarrow> (Inl e, db)
      | Inr c \<Rightarrow>
          (case issue_access_token jc m now uuid (cl_sub c) of
             Inl e \<Rightarrow> (Inl e, db)
           | Inr access \<Rightarrow>
               (case issue_refresh_token jc m now uuid' (cl_sub c) dev of
                  Inl e \<Rightarrow> (Inl e, db)
                | Inr (refresh, c') \<Rightarrow>
                    (case rotate_refresh_token now (cl_jti c) (cl_jti c') (cl_sub c') dev (cl_exp c') db of
                       (Inl e, db') \<Rightarrow> (Inl e, db')
                     | (Inr _, db') \<Rightarrow> (Inr (access, refresh), db')))))"

definition store_issued_token :: "int \<Rightarrow> claims \<Rightarrow> sqlite_db \<Rightarrow> unit db_result" where
  "store_issued_token now c db = store_refresh_token now (cl_jti c) (cl_sub c) (cl_did c) (cl_exp c) db"

section \<open>The active-status cache\<close>

record active_cache =
  ac_map :: "(string, bool \<times> nat) hashmap"
  ac_generation :: nat

definition new_cache :: active_cache where
  "new_cache = \<lparr>ac_map = [], ac_generation = 0\<rparr>"

definition ACTIVE_CACHE_TTL :: nat where "ACTIVE_CACHE_TTL = 60000000000"

definition get_fresh :: "nat \<Rightarrow> string \<Rightarrow> active_cache \<Rightarrow> bool option" where
  "get_fresh now user c =
     (case hm_get (ac_map c) user of
        Some (active, at) \<Rightarrow> if now - at < ACTIVE_CACHE_TTL then Some active else None
      | None \<Rightarrow> None)"

definition insert_if_current :: "nat \<Rightarrow> string \<Rightarrow> bool \<Rightarrow> nat \<Rightarrow> active_cache \<Rightarrow> active_cache" where
  "insert_if_current now user active gen_at_read c =
     (let m = hm_retain (\<lambda>_ (_, at). now - at < ACTIVE_CACHE_TTL) (ac_map c)
      in if ac_generation c = gen_at_read
         then c\<lparr>ac_map := hm_insert user (active, now) m\<rparr> else c\<lparr>ac_map := m\<rparr>)"

definition evict :: "string \<Rightarrow> active_cache \<Rightarrow> active_cache" where
  "evict user c =
     \<lparr>ac_map = hm_remove user (ac_map c), ac_generation = (ac_generation c + 1) mod 18446744073709551616\<rparr>"

definition is_user_active_cached :: "nat \<Rightarrow> string \<Rightarrow> sqlite_db \<Rightarrow> active_cache \<Rightarrow> bool result \<times> active_cache" where
  "is_user_active_cached now user db c =
     (case get_fresh now user c of
        Some active \<Rightarrow> (Inr active, c)
      | None \<Rightarrow>
          (let gen_at_read = ac_generation c
           in (case get_user_by_id user db of
                 Inl e \<Rightarrow> (Inl e, c)
               | Inr u \<Rightarrow>
                   (let active = (case u of Some r \<Rightarrow> u_active r | None \<Rightarrow> False)
                    in (Inr active, insert_if_current now user active gen_at_read c)))))"

section \<open>Requests\<close>

record clock =
  unix_secs :: int
  instant :: nat

definition extract_jwt :: "jwt_crate \<Rightarrow> jwt_manager \<Rightarrow> clock \<Rightarrow> headers \<Rightarrow> claims reply" where
  "extract_jwt jc m t hs =
     (case header_str hs ''authorization'' of
        None \<Rightarrow> Inl (err_unauthorized ''missing Authorization header'')
      | Some auth \<Rightarrow>
          if \<not> prefix ''Bearer '' auth then Inl (err_unauthorized ''expected Bearer token'')
          else (case verify_access jc m (unix_secs t) (drop 7 auth) of
                  Inl _ \<Rightarrow> Inl (err_unauthorized ''invalid or expired token'')
                | Inr c \<Rightarrow> Inr c))"

definition ensure_user_active :: "clock \<Rightarrow> string \<Rightarrow> sqlite_db \<Rightarrow> active_cache \<Rightarrow> unit reply \<times> active_cache" where
  "ensure_user_active t user db c =
     (case is_user_active_cached (instant t) user db c of
        (Inl e, c') \<Rightarrow> (Inl (err_internal e), c')
      | (Inr active, c') \<Rightarrow> (if active then Inr () else Inl (err_unauthorized ''account deactivated''), c'))"

definition authenticate ::
  "jwt_crate \<Rightarrow> jwt_manager \<Rightarrow> clock \<Rightarrow> headers \<Rightarrow> sqlite_db \<Rightarrow> active_cache \<Rightarrow> claims reply \<times> active_cache" where
  "authenticate jc m t hs db c =
     (case extract_jwt jc m t hs of
        Inl e \<Rightarrow> (Inl e, c)
      | Inr cl \<Rightarrow>
          (case ensure_user_active t (cl_sub cl) db c of
             (Inl e, c') \<Rightarrow> (Inl e, c')
           | (Inr _, c') \<Rightarrow> (Inr cl, c')))"

definition require_admin ::
  "jwt_crate \<Rightarrow> jwt_manager \<Rightarrow> clock \<Rightarrow> headers \<Rightarrow> sqlite_db \<Rightarrow> active_cache \<Rightarrow> string reply \<times> active_cache" where
  "require_admin jc m t hs db c =
     (case authenticate jc m t hs db c of
        (Inl e, c') \<Rightarrow> (Inl e, c')
      | (Inr cl, c') \<Rightarrow>
          (case or_internal (user_is_admin (cl_sub cl) db) of
             Inl e \<Rightarrow> (Inl e, c')
           | Inr is_admin \<Rightarrow>
               (if is_admin then Inr (cl_sub cl) else Inl (err_forbidden ''admin role required''), c')))"

section \<open>Dynamic settings\<close>

record dynamic_settings =
  config_registration_mode :: string
  config_oidc_issuer :: string
  config_oidc_client_id :: string
  config_oidc_client_secret :: string
  config_oidc_redirect_uri :: string
  config_max_query_scope :: string

definition setting_or :: "string \<Rightarrow> string \<Rightarrow> sqlite_db \<Rightarrow> string" where
  "setting_or key fallback db = (case get_server_setting key db of Inr (Some v) \<Rightarrow> v | _ \<Rightarrow> fallback)"

definition registration_mode :: "dynamic_settings \<Rightarrow> sqlite_db \<Rightarrow> string" where
  "registration_mode ds db = setting_or ''registration_mode'' (config_registration_mode ds) db"

definition oidc_issuer :: "dynamic_settings \<Rightarrow> sqlite_db \<Rightarrow> string" where
  "oidc_issuer ds db = setting_or ''oidc_issuer'' (config_oidc_issuer ds) db"

definition oidc_client_id :: "dynamic_settings \<Rightarrow> sqlite_db \<Rightarrow> string" where
  "oidc_client_id ds db = setting_or ''oidc_client_id'' (config_oidc_client_id ds) db"

definition oidc_client_secret :: "dynamic_settings \<Rightarrow> sqlite_db \<Rightarrow> string" where
  "oidc_client_secret ds db = setting_or ''oidc_client_secret'' (config_oidc_client_secret ds) db"

definition oidc_redirect_uri :: "dynamic_settings \<Rightarrow> sqlite_db \<Rightarrow> string" where
  "oidc_redirect_uri ds db = setting_or ''oidc_redirect_uri'' (config_oidc_redirect_uri ds) db"

definition max_query_scope :: "dynamic_settings \<Rightarrow> sqlite_db \<Rightarrow> string" where
  "max_query_scope ds db = setting_or ''max_query_scope'' (config_max_query_scope ds) db"

end
