(* ===== verification/Access_Safety.thy ===== *)
theory Access_Safety
  imports Access Guarantees
begin

text \<open>
  What the access layer of theory \<open>Access\<close> guarantees: a refresh token is never taken for an access
  token and rotates once, and the active-status cache never outlives a deactivation, whatever the
  interleaving of requests with it.
\<close>

section \<open>Tokens\<close>

locale token_crate =
  fixes jc :: jwt_crate
  assumes encode_total: "\<exists>tok. jwt_encode jc k c = Inr tok"
    and decode_fresh: "jwt_encode jc k c = Inr tok \<Longrightarrow> now < cl_exp c \<Longrightarrow> jwt_decode jc now k tok = Inr c"
    and decode_expired: "jwt_decode jc now k tok = Inr c \<Longrightarrow> now \<le> cl_exp c"
    and decode_stable: "jwt_decode jc now k tok = Inr c \<Longrightarrow> jwt_decode jc later k tok = Inr c' \<Longrightarrow> c' = c"
begin

lemma verify_issued:
  assumes "issue_access_token jc m now uuid user = Inr tok" "later < expiry now (access_ttl_secs m)"
  shows "\<exists>c. verify_access jc m later tok = Inr c \<and> cl_sub c = user \<and> cl_jti c = uuid"
    "\<exists>e. verify_refresh jc m later tok = Inl e"
  using assms decode_fresh [of "jwt_secret m" _ tok later]
  by (auto simp: issue_access_token_def verify_access_def verify_refresh_def verify_def split: sum.splits)

lemma verify_refresh_issued:
  assumes "issue_refresh_token jc m now uuid user dev = Inr (tok, c)" "later < expiry now (refresh_ttl_secs m)"
  shows "verify_refresh jc m later tok = Inr c" "\<exists>e. verify_access jc m later tok = Inl e"
  using assms decode_fresh [of "jwt_secret m" c tok later]
  by (auto simp: issue_refresh_token_def refresh_claims_def verify_access_def verify_refresh_def verify_def Let_def split: sum.splits)

lemma verify_same:
  assumes "verify_refresh jc m now tok = Inr c" "verify_refresh jc m later tok = Inr c'"
  shows "c' = c"
  using assms decode_stable by (auto simp: verify_refresh_def verify_def split: sum.splits if_splits)

lemma rotate_spends:
  assumes "rotate_tokens jc m now uuid uuid' tok dev db = (Inr pair, db')"
  shows "\<exists>c. verify_refresh jc m now tok = Inr c \<and>
    rotate_refresh_token now (cl_jti c) uuid' (cl_sub c) dev (expiry now (refresh_ttl_secs m)) db = (Inr (), db')"
  using assms
  by (auto simp: rotate_tokens_def issue_refresh_token_def refresh_claims_def Let_def split: sum.splits prod.splits)

end

text \<open>A plain instance: the token is the key and the claims in clear.\<close>

definition plain_option :: "string option \<Rightarrow> string" where
  "plain_option x = (case x of None \<Rightarrow> put_nat 0 | Some s \<Rightarrow> put_nat 1 @ put_str s)"

definition plain_get_option :: "string \<Rightarrow> string option \<times> string" where
  "plain_get_option s = (let (n, r) = get_nat s in if n = 0 then (None, r) else (let (x, r) = get_str r in (Some x, r)))"

definition plain_token :: "string \<Rightarrow> claims \<Rightarrow> string" where
  "plain_token k c = put_str k @ put_str (cl_sub c) @ put_str (cl_jti c) @ put_str (cl_typ c) @ put_int (cl_exp c) @
     put_int (cl_iat c) @ plain_option (cl_iss c) @ plain_option (cl_did c) @ put_nat 0"

definition plain_untoken :: "string \<Rightarrow> string \<times> claims" where
  "plain_untoken s =
     (let (k, s) = get_str s; (sub, s) = get_str s; (jti, s) = get_str s; (typ, s) = get_str s; (ex, s) = get_int s;
          (iat, s) = get_int s; (iss, s) = plain_get_option s; (did, s) = plain_get_option s
      in (k, \<lparr>cl_sub = sub, cl_jti = jti, cl_typ = typ, cl_exp = ex, cl_iat = iat, cl_iss = iss, cl_did = did\<rparr>))"

lemma plain_get_option [simp]: "plain_get_option (plain_option x @ r) = (x, r)"
  by (simp add: plain_get_option_def plain_option_def split: option.split)

lemma plain_untoken [simp]: "plain_untoken (plain_token k c) = (k, c)"
  by (simp add: plain_untoken_def plain_token_def)

definition plain_jwt :: jwt_crate where
  "plain_jwt = \<lparr>jwt_encode = (\<lambda>k c. Inr (plain_token k c)),
     jwt_decode = (\<lambda>now k tok. let (k', c) = plain_untoken tok
        in if k' \<noteq> k then Inl ''InvalidSignature'' else if cl_exp c < now then Inl ''ExpiredSignature'' else Inr c)\<rparr>"

interpretation plain_tokens: token_crate plain_jwt
  by unfold_locales (auto simp: plain_jwt_def Let_def split: prod.splits if_splits)

lemma plain_crate: "token_crate plain_jwt"
  by (rule plain_tokens.token_crate_axioms)

text \<open>C38: An access token is never accepted as a refresh token nor a refresh token as an access token,
  and each is accepted as what it is until it expires.\<close>

theorem token_types_are_separate:
  assumes "token_crate jc" "issue_access_token jc m now uuid user = Inr access"
    and "issue_refresh_token jc m now uuid' user dev = Inr (refresh, c)"
    and "later < expiry now (access_ttl_secs m)" "later < expiry now (refresh_ttl_secs m)"
  shows "(\<exists>a. verify_access jc m later access = Inr a \<and> cl_sub a = user \<and> cl_jti a = uuid) \<and>
    (\<exists>e. verify_refresh jc m later access = Inl e) \<and>
    verify_refresh jc m later refresh = Inr c \<and> (\<exists>e. verify_access jc m later refresh = Inl e)"
  using token_crate.verify_issued [OF assms(1,2,4)] token_crate.verify_refresh_issued [OF assms(1,3,5)] by blast

text \<open>C27: A refresh token rotates once: after a rotation that returned a new pair, rotating the same
  token again is refused and changes nothing, whatever the repository does in between short of
  issuing the same id again.\<close>

theorem token_rotates_once:
  assumes "token_crate jc" "rotate_tokens jc m now a b tok dev db = (Inr pair, db')"
    and "verify_refresh jc m now tok = Inr c" "\<forall>(t, op)\<in>set ops. \<not> issues_token (cl_jti c) op"
  shows "\<exists>e. rotate_tokens jc m later a' b' tok dev' (db_run ops db') = (Inl e, db_run ops db')"
proof -
  have "rotate_refresh_token now (cl_jti c) b (cl_sub c) dev (expiry now (refresh_ttl_secs m)) db = (Inr (), db')"
    using token_crate.rotate_spends [OF assms(1,2)] assms(3) by auto
  then have "token_dead (cl_jti c) db'" by (rule rotated_dead)
  then have dead: "token_dead (cl_jti c) (db_run ops db')" using assms(4) by (rule run_stays_dead)
  show ?thesis
  proof (cases "verify_refresh jc m later tok")
    case (Inr c')
    then have "c' = c" using token_crate.verify_same [OF assms(1,3)] by blast
    with Inr show ?thesis by (simp add: rotate_tokens_def dead_token_answer(2) [OF dead] split: sum.split prod.split)
  qed (simp add: rotate_tokens_def)
qed


section \<open>The active-status cache under interleaving\<close>

text \<open>Requests read the status in three steps that other requests and an admin's update can come
  between: capture the generation, read the database, cache the answer. An admin writes the
  database, then evicts; \<open>pending\<close> holds the accounts written and not yet evicted. Fewer than
  \<open>2 ^ 64\<close> evictions happen, so the counter does not come round.\<close>

record cache_world =
  db_active :: "string \<Rightarrow> bool"
  pending :: "string set"
  cache :: active_cache
  readers :: "nat \<rightharpoonup> string \<times> nat \<times> bool option"

inductive cache_step :: "cache_world \<Rightarrow> cache_world \<Rightarrow> bool" where
  Capture: "readers w r = None \<Longrightarrow> cache_step w (w\<lparr>readers := (readers w)(r \<mapsto> (u, ac_generation (cache w), None))\<rparr>)"
| Read: "readers w r = Some (u, g, None) \<Longrightarrow> cache_step w (w\<lparr>readers := (readers w)(r \<mapsto> (u, g, Some (db_active w u)))\<rparr>)"
| Store: "readers w r = Some (u, g, Some b) \<Longrightarrow>
    cache_step w (w\<lparr>cache := insert_if_current now u b g (cache w), readers := (readers w)(r := None)\<rparr>)"
| Fail: "cache_step w (w\<lparr>readers := (readers w)(r := None)\<rparr>)"
| Write: "cache_step w (w\<lparr>db_active := (db_active w)(u := b), pending := insert u (pending w)\<rparr>)"
| Evict: "ac_generation (cache w) + 1 < 18446744073709551616 \<Longrightarrow>
    cache_step w (w\<lparr>cache := evict u (cache w), pending := pending w - {u}\<rparr>)"

inductive cache_reachable :: "cache_world \<Rightarrow> bool" where
  Start: "cache_reachable \<lparr>db_active = f, pending = {}, cache = new_cache, readers = Map.empty\<rparr>"
| Step: "cache_reachable w \<Longrightarrow> cache_step w w' \<Longrightarrow> cache_reachable w'"

inductive_cases cache_stepE: "cache_step w w'"

definition no_stale :: "string \<Rightarrow> active_cache \<Rightarrow> bool" where
  "no_stale u c \<longleftrightarrow> (\<forall>at. hm_get (ac_map c) u \<noteq> Some (True, at))"

lemma insert_if_current_sel [simp]:
  "ac_generation (insert_if_current now u b g c) = ac_generation c"
  "hm_wf (ac_map c) \<Longrightarrow> hm_wf (ac_map (insert_if_current now u b g c))"
  by (simp_all add: insert_if_current_def Let_def hm_simps)

lemma no_stale_insert:
  assumes "hm_wf (ac_map c)" "no_stale v c" "u = v \<Longrightarrow> b \<Longrightarrow> g \<noteq> ac_generation c"
  shows "no_stale v (insert_if_current now u b g c)"
proof -
  have "hm_get (hm_retain (\<lambda>_ (_, at). now - at < ACTIVE_CACHE_TTL) (ac_map c)) v \<noteq> Some (True, at)" for at
    using assms(1,2) by (auto simp: no_stale_def hm_simps split: option.split)
  with assms(3) show ?thesis by (auto simp: no_stale_def insert_if_current_def Let_def hm_simps)
qed

lemma evict_sel:
  "hm_wf (ac_map c) \<Longrightarrow> hm_wf (ac_map (evict u c))"
  "no_stale u (evict u c)" "no_stale v c \<Longrightarrow> no_stale v (evict u c)"
  "ac_generation c + 1 < 18446744073709551616 \<Longrightarrow> ac_generation (evict u c) = ac_generation c + 1"
  by (simp_all add: no_stale_def evict_def hm_simps)

definition stale_free :: "cache_world \<Rightarrow> bool" where
  "stale_free w \<longleftrightarrow> hm_wf (ac_map (cache w)) \<and>
     (\<forall>r u g b. readers w r = Some (u, g, b) \<longrightarrow> g \<le> ac_generation (cache w)) \<and>
     (\<forall>u. \<not> db_active w u \<longrightarrow> u \<notin> pending w \<longrightarrow> no_stale u (cache w)) \<and>
     (\<forall>u r g. \<not> db_active w u \<longrightarrow> u \<notin> pending w \<longrightarrow> readers w r = Some (u, g, Some True) \<longrightarrow> g \<noteq> ac_generation (cache w))"

lemma stale_free_step: "cache_step w w' \<Longrightarrow> stale_free w \<Longrightarrow> stale_free w'"
proof (induction rule: cache_step.induct)
  case (Store w r u g b now)
  then have "no_stale v (insert_if_current now u b g (cache w))" if "\<not> db_active w v" "v \<notin> pending w" for v
    using that by (intro no_stale_insert) (auto simp: stale_free_def)
  with Store show ?case by (auto simp: stale_free_def)
next
  case (Evict w u)
  then have "g < ac_generation (evict u (cache w))" if "readers w r = Some (v, g, b)" for r v g b
    using that by (fastforce simp: stale_free_def evict_sel less_Suc_eq_le)
  with Evict show ?case by (fastforce simp: stale_free_def evict_sel)
qed (auto simp: stale_free_def split: if_splits)

lemma stale_free_reachable: "cache_reachable w \<Longrightarrow> stale_free w"
proof (induction rule: cache_reachable.induct)
  case (Start f)
  show ?case by (simp add: stale_free_def new_cache_def no_stale_def)
next
  case (Step w w')
  from Step(2,3) show ?case using stale_free_step by blast
qed

lemma no_stale_answer:
  assumes "no_stale u c" "get_user_by_id u db = Inr r" "case r of Some row \<Rightarrow> \<not> u_active row | None \<Rightarrow> True"
  shows "fst (is_user_active_cached now u db c) = Inr False"
proof (cases "get_fresh now u c")
  case None
  with assms(2,3) show ?thesis by (simp add: is_user_active_cached_def Let_def split: option.splits)
next
  case (Some b)
  with assms(1) have "\<not> b" by (auto simp: no_stale_def get_fresh_def split: option.splits prod.splits if_splits)
  with Some show ?thesis by (simp add: is_user_active_cached_def)
qed

text \<open>Once an account is deactivated and its cache entry evicted, no request sees it as active, however
  reads, stores and evictions of other requests interleave.\<close>

theorem deactivation_takes_effect:
  assumes "cache_reachable w" "\<not> db_active w u" "u \<notin> pending w"
    and "get_user_by_id u db = Inr r" "case r of Some row \<Rightarrow> u_active row = db_active w u | None \<Rightarrow> True"
  shows "fst (is_user_active_cached now u db (cache w)) = Inr False"
proof (rule no_stale_answer [OF _ assms(4)])
  show "no_stale u (cache w)" using stale_free_reachable [OF assms(1)] assms(2,3) by (simp add: stale_free_def)
qed (use assms(2,5) in \<open>auto split: option.splits\<close>)

section \<open>At concrete states\<close>

definition demo_manager :: jwt_manager where
  "demo_manager = \<lparr>jwt_secret = ''s'', access_ttl_secs = 900, refresh_ttl_secs = 86400, issuer = []\<rparr>"

lemma demo_expiry: "expiry 0 900 = 900" "expiry 0 86400 = 86400"
  by (simp_all add: expiry_def wrap_i64_def)

theorem token_types_are_separate_witness:
  "\<exists>access refresh c. issue_access_token plain_jwt demo_manager 0 ''i'' ''u'' = Inr access \<and>
    issue_refresh_token plain_jwt demo_manager 0 ''j'' ''u'' None = Inr (refresh, c) \<and>
    (\<exists>e. verify_refresh plain_jwt demo_manager 5 access = Inl e) \<and>
    verify_refresh plain_jwt demo_manager 5 refresh = Inr c \<and> (\<exists>e. verify_access plain_jwt demo_manager 5 refresh = Inl e)"
proof -
  obtain access where a: "issue_access_token plain_jwt demo_manager 0 ''i'' ''u'' = Inr access"
    by (simp add: issue_access_token_def plain_jwt_def)
  obtain refresh c where r: "issue_refresh_token plain_jwt demo_manager 0 ''j'' ''u'' None = Inr (refresh, c)"
    by (simp add: issue_refresh_token_def plain_jwt_def Let_def)
  have "5 < expiry 0 (access_ttl_secs demo_manager)" "5 < expiry 0 (refresh_ttl_secs demo_manager)"
    by (simp_all add: demo_manager_def demo_expiry)
  from token_types_are_separate [OF plain_crate a r this] a r show ?thesis by blast
qed

definition demo_token_db :: sqlite_db where
  "demo_token_db = token_db\<lparr>refresh_tokens := [\<lparr>t_jti = ''j'', t_user_id = ''u'', t_device_id = None,
     t_expires_at = 86400, t_revoked = False, t_created_at = 0\<rparr>]\<rparr>"

theorem token_rotates_once_witness:
  "\<exists>tok pair db' e. rotate_tokens plain_jwt demo_manager 1 ''a'' ''b'' tok None demo_token_db = (Inr pair, db') \<and>
    rotate_tokens plain_jwt demo_manager 2 ''x'' ''y'' tok None (db_run [(2, Cleanup_Tokens)] db') = (Inl e, db_run [(2, Cleanup_Tokens)] db')"
proof -
  let ?c = "refresh_claims demo_manager 0 ''j'' ''u'' None"
  let ?tok = "plain_token ''s'' ?c"
  have v: "verify_refresh plain_jwt demo_manager 1 ?tok = Inr ?c"
    by (simp add: verify_refresh_def verify_def plain_jwt_def demo_manager_def refresh_claims_def demo_expiry)
  obtain db1 where step: "rotate_refresh_token 1 ''j'' ''b'' ''u'' None 86401 demo_token_db = (Inr (), db1)"
    by (simp add: demo_token_db_def token_db_def one_user_db_def rotate_refresh_token_def insert_token_def insert_row_def
        token_clash_def update_rows_def has_user_def exists_row_def with_context_def Let_def)
  have "expiry 1 86400 = 86401" by (simp add: expiry_def wrap_i64_def)
  then obtain pair db' where rot: "rotate_tokens plain_jwt demo_manager 1 ''a'' ''b'' ?tok None demo_token_db = (Inr pair, db')"
    unfolding rotate_tokens_def v using step
    by (simp add: issue_access_token_def issue_refresh_token_def refresh_claims_def plain_jwt_def Let_def demo_manager_def)
  have "\<forall>(t, op)\<in>set [(2, Cleanup_Tokens)]. \<not> issues_token (cl_jti ?c) op" by simp
  from token_rotates_once [OF plain_crate rot v this, of 2 "''x''" "''y''" None] rot show ?thesis by blast
qed

theorem deactivation_takes_effect_witness:
  "\<exists>w. cache_reachable w \<and> readers w 0 = Some (''u'', 0, Some True) \<and>
    fst (is_user_active_cached 7 ''u'' empty_db (insert_if_current 6 ''u'' True 0 (cache w))) = Inr False"
proof -
  let ?w0 = "\<lparr>db_active = (\<lambda>_. True), pending = {}, cache = new_cache, readers = Map.empty\<rparr>"
  let ?w1 = "?w0\<lparr>readers := (readers ?w0)(0 \<mapsto> (''u'', ac_generation (cache ?w0), None))\<rparr>"
  let ?w2 = "?w1\<lparr>readers := (readers ?w1)(0 \<mapsto> (''u'', 0, Some (db_active ?w1 ''u'')))\<rparr>"
  let ?w3 = "?w2\<lparr>db_active := (db_active ?w2)(''u'' := False), pending := insert ''u'' (pending ?w2)\<rparr>"
  let ?w4 = "?w3\<lparr>cache := evict ''u'' (cache ?w3), pending := pending ?w3 - {''u''}\<rparr>"
  let ?w5 = "?w4\<lparr>cache := insert_if_current 6 ''u'' True 0 (cache ?w4), readers := (readers ?w4)(0 := None)\<rparr>"
  have 0: "cache_reachable ?w0" by (rule Start)
  have 1: "cache_reachable ?w1" by (rule cache_reachable.Step [OF 0 Capture]) simp
  have 2: "cache_reachable ?w2" by (rule cache_reachable.Step [OF 1 Read]) (simp add: new_cache_def)
  have 3: "cache_reachable ?w3" by (rule cache_reachable.Step [OF 2 Write])
  have 4: "cache_reachable ?w4" by (rule cache_reachable.Step [OF 3 Evict]) (simp add: new_cache_def)
  have 5: "cache_reachable ?w5" by (rule cache_reachable.Step [OF 4 Store]) simp
  have "fst (is_user_active_cached 7 ''u'' empty_db (cache ?w5)) = Inr False"
    by (rule deactivation_takes_effect [OF 5, of "''u''" empty_db None 7]) (simp_all add: get_user_by_id_def empty_db_def)
  with 4 show ?thesis by (intro exI [of _ ?w4]) simp
qed

end
