(* ===== verification/Event_Api.thy ===== *)
theory Event_Api
  imports Window_Store
begin

text \<open>
  The interface the sync handler and the HTTP handlers use: the \<open>EventStore\<close> trait
  (\<open>src/src/events/mod.rs\<close>) as a record of operations on a state \<open>'e\<close>, and what \<open>FjallEventStore\<close>
  puts into it. The locale \<open>event_contract\<close> is the contract the trait's comments promise, stated on
  the event log; it is shown of the embedded store over any key-value store that keeps its laws.
\<close>

record 'e event_store =
  es_upsert_events :: "server_event list \<Rightarrow> 'e \<Rightarrow> unit result \<times> 'e"
  es_query_events :: "int \<Rightarrow> int \<Rightarrow> user_filter \<Rightarrow> nat \<Rightarrow> 'e \<Rightarrow> server_event list result"
  es_delete_device_events :: "string \<Rightarrow> 'e \<Rightarrow> unit result \<times> 'e"
  es_cleanup_old_dedup :: "string \<Rightarrow> int \<Rightarrow> 'e \<Rightarrow> unit result \<times> 'e"
  es_upsert_windows :: "string \<Rightarrow> string \<Rightarrow> wire_window list \<Rightarrow> 'e \<Rightarrow> nat result \<times> 'e"
  es_query_user_windows :: "string \<Rightarrow> int \<Rightarrow> 'e \<Rightarrow> (string \<times> wire_window) list result"
  es_delete_user_windows :: "string \<Rightarrow> 'e \<Rightarrow> unit result \<times> 'e"
  es_cleanup_old_windows :: "int \<Rightarrow> 'e \<Rightarrow> (nat result \<times> 'e) option"

definition fjall_events ::
  "'s kv_ops \<Rightarrow> codec \<Rightarrow> (server_event list \<Rightarrow> server_event list) \<Rightarrow> 's event_store" where
  "fjall_events ops cd order = \<lparr>
     es_upsert_events = upsert_events ops cd order,
     es_query_events = query_events ops cd,
     es_delete_device_events = delete_device_events ops cd,
     es_cleanup_old_dedup = cleanup_old_dedup ops,
     es_upsert_windows = upsert_windows ops cd,
     es_query_user_windows = query_user_windows ops cd,
     es_delete_user_windows = delete_user_windows ops,
     es_cleanup_old_windows = cleanup_old_windows ops\<rparr>"

section \<open>The contract\<close>

text \<open>\<open>holds s L\<close>: the state \<open>s\<close> stores the log \<open>L\<close>. The four event operations act on the log as
  specified and do not fail; the windows operations leave the log alone.\<close>

locale event_contract =
  fixes es :: "'e event_store" and holds :: "'e \<Rightarrow> event_log \<Rightarrow> bool" and owner :: "string \<Rightarrow> string"
  assumes upsert_law: "holds s L \<Longrightarrow> accept owner evs \<Longrightarrow>
      \<exists>s'. es_upsert_events es evs s = (Inr (), s') \<and> holds s' (log_batch evs L)"
    and delete_law: "holds s L \<Longrightarrow> nul \<notin> set dev \<Longrightarrow>
      \<exists>s'. es_delete_device_events es dev s = (Inr (), s') \<and> holds s' (log_delete_device dev L)"
    and prune_law: "holds s L \<Longrightarrow> nul \<notin> set dev \<Longrightarrow>
      \<exists>s'. es_cleanup_old_dedup es dev cutoff s = (Inr (), s') \<and> holds s' (log_prune dev cutoff L)"
    and windows_law: "holds s L \<Longrightarrow> holds (snd (es_upsert_windows es user prov ws s)) L"
    and log_law: "holds s L \<Longrightarrow> log_ok owner L"

locale fjall_service = fjall_env ops contents cd
  for ops :: "'s kv_ops" and contents :: "'s \<Rightarrow> keyspace \<Rightarrow> (string \<times> string) list" and cd :: codec +
  fixes order :: "server_event list \<Rightarrow> server_event list" and owner :: "string \<Rightarrow> string"
  assumes any_order: "any_order order"

sublocale fjall_service \<subseteq> service: event_contract "fjall_events ops cd order" "stores contents cd owner" owner
proof unfold_locales
  fix s L evs
  assume "stores contents cd owner s L" "accept owner evs"
  then show "\<exists>s'. es_upsert_events (fjall_events ops cd order) evs s = (Inr (), s') \<and>
      stores contents cd owner s' (log_batch evs L)"
    using upsert_stores [OF fjall_env_axioms any_order] by (simp add: fjall_events_def)
next
  fix s L user prov ws
  assume "stores contents cd owner s L"
  moreover have "\<forall>ks. ks \<noteq> Windows \<longrightarrow> contents (snd (upsert_windows ops cd user prov ws s)) ks = contents s ks"
    using upsert_windows_run [OF fjall_env_axioms, of user prov ws s] by auto
  ultimately show "stores contents cd owner (snd (es_upsert_windows (fjall_events ops cd order) user prov ws s)) L"
    by (simp add: fjall_events_def stores_def represents_def)
qed (use delete_device_events_holds cleanup_old_dedup_holds in \<open>auto simp: fjall_events_def stores_def\<close>)

context fjall_service
begin

lemma contract: "event_contract (fjall_events ops cd order) (stores contents cd owner) owner"
  by (rule service.event_contract_axioms)

end

interpretation plain_service: fjall_service mem_kv mem_contents plain_codec "\<lambda>es. es" "\<lambda>_. ''u''"
  by unfold_locales (simp add: any_order_def)

lemma fjall_contract:
  assumes "fjall_env ops contents cd" "any_order order"
  shows "event_contract (fjall_events ops cd order) (stores contents cd owner) owner"
proof -
  have "fjall_service ops contents cd order" using assms by (simp add: fjall_service_def fjall_service_axioms_def)
  then show ?thesis by (rule fjall_service.contract)
qed

end
