(* ===== verification/Sync.thy ===== *)
theory Sync
  imports Event_Api Access Limits Windows Frames
begin

text \<open>
  A sync connection (\<open>src/src/sync/handler.rs\<close>): the handshake, the main loop's answer to each
  message, and the storage of a batch of events.

  A connection reads the outcomes of \<open>read_frame\<close> in order, each with the clock at that moment, and
  every message is handled in one step. The payload formats (\<open>bincode\<close> and the structs of the protocol crate),
  \<open>zstd\<close>, \<open>uuid\<close> and the crate's constants are the parameter \<open>sync_crates\<close>; so is \<open>str\<close>'s debug
  rendering, which a refused provider name is shown with. The reply messages are those of the
  protocol with their fields. The write semaphore delays a batch and is never closed.
\<close>

section \<open>Messages\<close>

datatype msg_type =
    Auth | Auth_Ok | Auth_Err | Get_Last_Ts | Last_Ts | Sync_Batch | Sync_Batch_Zstd | Sync_Windows
  | Sync_Ack | Sync_Err | Ping | Pong | Other_Msg nat

record auth_payload =
  au_jwt :: string
  au_device_name :: string
  au_device_key :: string
  au_provider :: string
  au_schema_version :: nat
  au_protocol_version :: nat

record stored_event =
  model_id :: nat
  session_id :: nat
  project_name_id :: nat
  tokens :: "nat list"

record sync_item =
  si_ts_ms :: int
  si_message_id :: string
  si_event :: stored_event
  si_usage_total :: nat

record sync_batch =
  sb_items :: "sync_item list"
  sb_dict :: "(nat, string) hashmap"
  sb_token_columns :: "string list"
  sb_provider :: string

record sync_windows =
  sw_schema :: nat
  sw_provider :: string
  sw_items :: "wire_window list"

record sync_crates =
  de_auth :: "string \<Rightarrow> auth_payload option"
  de_get_last_ts :: "string \<Rightarrow> string option"
  de_batch :: "string \<Rightarrow> sync_batch option"
  de_windows :: "string \<Rightarrow> sync_windows option"
  unzstd :: "nat \<Rightarrow> string \<Rightarrow> string option"
  uuid_ok :: "string \<Rightarrow> bool"
  debug_str :: "string \<Rightarrow> string"
  sort_windows :: "wire_window list \<Rightarrow> wire_window list"
  PROTOCOL_VERSION :: nat
  SCHEMA_VERSION :: nat
  WINDOWS_SCHEMA_VERSION :: nat

datatype answer =
    A_Auth_Err string bool
  | A_Auth_Ok string
  | A_Last_Ts int
  | A_Sync_Ack int
  | A_Sync_Err string
  | A_Pong

text \<open>What \<open>timeout(d, read_frame(...))\<close> gives: nothing in time, the frame layer's result, or another
  input error.\<close>

datatype incoming = Timed_Out | Frame_Read "io_error + msg_type \<times> string" | Read_Failed

section \<open>State\<close>

record moment = clock +
  wall_ms :: int

record 'e server =
  sv_db :: sqlite_db
  sv_events :: 'e
  sv_cache :: active_cache
  sv_rate :: "(string, nat) hashmap"

record session =
  sn_user :: string
  sn_provider :: string
  sn_device :: string

text \<open>\<open>Finished\<close> is the handler's \<open>Ok(())\<close>, \<open>Failed\<close> its \<open>Err\<close>; both close the connection.\<close>

datatype conn = Handshake | Serving session | Finished | Failed

type_synonym 'e outcome = "answer list \<times> conn \<times> 'e server"

definition MAX_DECOMPRESSED_SIZE :: nat where "MAX_DECOMPRESSED_SIZE = 64 * 1024 * 1024"
definition MAX_BATCH_SIZE :: nat where "MAX_BATCH_SIZE = 50000"
definition AUTH_MAX_PAYLOAD :: nat where "AUTH_MAX_PAYLOAD = 64 * 1024"
definition MAX_WINDOWS_PAYLOAD :: nat where "MAX_WINDOWS_PAYLOAD = 1024 * 1024"

definition user_active :: "'t clock_scheme \<Rightarrow> string \<Rightarrow> 'e server \<Rightarrow> bool result \<times> 'e server" where
  "user_active t user sv =
     (case is_user_active_cached (instant t) user (sv_db sv) (sv_cache sv) of (r, c) \<Rightarrow> (r, sv\<lparr>sv_cache := c\<rparr>))"

section \<open>Devices\<close>

definition find_or_create_device :: "int \<Rightarrow> string \<Rightarrow> string \<Rightarrow> string \<Rightarrow> sqlite_db \<Rightarrow> string db_result" where
  "find_or_create_device now user name key db =
     (case find_device_by_key_and_user key user db of
        Inl e \<Rightarrow> (Inl e, db)
      | Inr (Some i) \<Rightarrow>
          (case update_device_seen now i name db of (Inl e, db') \<Rightarrow> (Inl e, db') | (Inr _, db') \<Rightarrow> (Inr i, db'))
      | Inr None \<Rightarrow>
          (case create_device now key user name key db of (Inl e, db') \<Rightarrow> (Inl e, db') | (Inr _, db') \<Rightarrow> (Inr key, db')))"

section \<open>Batches of events\<close>

definition dict_model :: "(nat, string) hashmap \<Rightarrow> nat \<Rightarrow> string" where
  "dict_model d i = (case hm_get d i of Some s \<Rightarrow> s | None \<Rightarrow> [])"

definition dict_name :: "(nat, string) hashmap \<Rightarrow> nat \<Rightarrow> string" where
  "dict_name d i = (case hm_get d i of Some s \<Rightarrow> if s \<noteq> [] then s else [] | None \<Rightarrow> [])"

definition bare_msg_id :: "string \<Rightarrow> string" where
  "bare_msg_id s = takeWhile (\<lambda>c. c \<noteq> CHR '':'') s"

definition set_token :: "string \<Rightarrow> nat \<Rightarrow> server_event \<Rightarrow> server_event" where
  "set_token col n se =
     (if col = ''input'' then se\<lparr>input_tokens := n\<rparr>
      else if col = ''output'' then se\<lparr>output_tokens := n\<rparr>
      else if col = ''cache_create'' then se\<lparr>cache_creation_input_tokens := n\<rparr>
      else if col = ''cache_read'' then se\<lparr>cache_read_input_tokens := n\<rparr>
      else if col = ''cached_input'' then se\<lparr>cache_read_input_tokens := n\<rparr>
      else if col = ''reasoning_output'' then se\<lparr>cache_creation_input_tokens := n\<rparr>
      else se)"

fun set_tokens :: "string list \<Rightarrow> nat list \<Rightarrow> server_event \<Rightarrow> server_event" where
  "set_tokens (col # cols) (n # ns) se = set_tokens cols ns (set_token col n se)"
| "set_tokens cols ns se = se"

definition server_event_of :: "sync_batch \<Rightarrow> string \<Rightarrow> string \<Rightarrow> string \<Rightarrow> sync_item \<Rightarrow> server_event" where
  "server_event_of b user dev prov it =
     (set_tokens (sb_token_columns b) (tokens (si_event it))
        \<lparr>device_id = dev, user_id = user, msg_id = bare_msg_id (si_message_id it), ts_ms = si_ts_ms it,
         provider = prov, model = dict_model (sb_dict b) (model_id (si_event it)),
         project = dict_name (sb_dict b) (project_name_id (si_event it)),
         session = dict_name (sb_dict b) (session_id (si_event it)),
         input_tokens = 0, output_tokens = 0, cache_creation_input_tokens = 0,
         cache_read_input_tokens = 0, usage_total = 0\<rparr>)\<lparr>usage_total := si_usage_total it\<rparr>"

text \<open>\<open>iter().max().unwrap_or(0)\<close>.\<close>

definition max_or_0 :: "int list \<Rightarrow> int" where
  "max_or_0 ts = (case ts of [] \<Rightarrow> 0 | t # ts \<Rightarrow> foldl max t ts)"

definition handle_sync_batch ::
  "'e event_store \<Rightarrow> int \<Rightarrow> int \<Rightarrow> sync_batch \<Rightarrow> string \<Rightarrow> string \<Rightarrow> string \<Rightarrow> 'e server \<Rightarrow> int result \<times> 'e server" where
  "handle_sync_batch es retention now b user dev prov sv =
     (if sb_items b = [] then (get_last_ts dev prov (sv_db sv), sv)
      else if length (sb_items b) > MAX_BATCH_SIZE
      then (Inl (''batch too large: '' @ dec (length (sb_items b)) @ '' items (max '' @ dec MAX_BATCH_SIZE @ '')''), sv)
      else
        (case es_upsert_events es (map (server_event_of b user dev prov) (sb_items b)) (sv_events sv) of
           (Inl e, ev) \<Rightarrow> (Inl e, sv\<lparr>sv_events := ev\<rparr>)
         | (Inr _, ev) \<Rightarrow>
             (let max_ts = max_or_0 (map si_ts_ms (sb_items b))
              in (case advance_cursor now dev prov max_ts (sv_db sv) of
                    (Inl e, db) \<Rightarrow> (Inl e, sv\<lparr>sv_events := ev, sv_db := db\<rparr>)
                  | (Inr _, db) \<Rightarrow>
                      (let cutoff_ms = wrap_i64 (max_ts - wrap_i64 (retention * 1000));
                           ev' = (if cutoff_ms > 0 then snd (es_cleanup_old_dedup es dev cutoff_ms ev) else ev)
                       in (Inr max_ts, sv\<lparr>sv_events := ev', sv_db := db\<rparr>))))))"

section \<open>The handshake\<close>

definition refuse :: "string \<Rightarrow> bool \<Rightarrow> 'e server \<Rightarrow> 'e outcome" where
  "refuse reason reset sv = ([A_Auth_Err reason reset], Finished, sv)"

text \<open>From the registered device on: the schema guard, the cursor row and the acceptance.\<close>

definition open_session ::
  "'e event_store \<Rightarrow> sync_crates \<Rightarrow> int \<Rightarrow> auth_payload \<Rightarrow> string \<Rightarrow> string \<Rightarrow> 'e server \<Rightarrow> 'e outcome" where
  "open_session es cr now a user dev sv =
     (if au_schema_version a \<noteq> SCHEMA_VERSION cr
      then (let ev = snd (es_delete_device_events es dev (sv_events sv));
                db = snd (reset_cursor now dev (au_provider a) (sv_db sv))
            in refuse (''schema version mismatch: client='' @ dec (au_schema_version a) @ '', server='' @ dec (SCHEMA_VERSION cr))
                 True (sv\<lparr>sv_events := ev, sv_db := db\<rparr>))
      else (case ensure_cursor now dev (au_provider a) (sv_db sv) of
              (Inl _, db) \<Rightarrow> ([], Failed, sv\<lparr>sv_db := db\<rparr>)
            | (Inr _, db) \<Rightarrow>
                ([A_Auth_Ok dev], Serving \<lparr>sn_user = user, sn_provider = au_provider a, sn_device = dev\<rparr>, sv\<lparr>sv_db := db\<rparr>)))"

definition authorize ::
  "'e event_store \<Rightarrow> sync_crates \<Rightarrow> jwt_crate \<Rightarrow> jwt_manager \<Rightarrow> 't clock_scheme \<Rightarrow> auth_payload \<Rightarrow> 'e server \<Rightarrow> 'e outcome" where
  "authorize es cr jc m t a sv =
     (if au_protocol_version a \<noteq> PROTOCOL_VERSION cr
      then refuse (''unsupported protocol version: client='' @ dec (au_protocol_version a) @ '', server='' @
             dec (PROTOCOL_VERSION cr)) False sv
      else
        (case verify_access jc m (unix_secs t) (au_jwt a) of
           Inl e \<Rightarrow> refuse (''JWT invalid: '' @ e) False sv
         | Inr cl \<Rightarrow>
             (case user_active t (cl_sub cl) sv of
                (Inl e, sv) \<Rightarrow> refuse (''active check failed: '' @ e) False sv
              | (Inr False, sv) \<Rightarrow> refuse ''account deactivated'' False sv
              | (Inr True, sv) \<Rightarrow>
                  if \<not> uuid_ok cr (au_device_key a) then refuse ''invalid device_key: expected UUID format'' False sv
                  else
                    (case find_or_create_device (unix_secs t) (cl_sub cl) (truncate_device_name (au_device_name a))
                            (au_device_key a) (sv_db sv) of
                       (Inl _, db) \<Rightarrow> ([], Failed, sv\<lparr>sv_db := db\<rparr>)
                     | (Inr dev, db) \<Rightarrow> open_session es cr (unix_secs t) a (cl_sub cl) dev (sv\<lparr>sv_db := db\<rparr>)))))"

definition handshake ::
  "'e event_store \<Rightarrow> sync_crates \<Rightarrow> jwt_crate \<Rightarrow> jwt_manager \<Rightarrow> 't clock_scheme \<Rightarrow> incoming \<Rightarrow> 'e server \<Rightarrow> 'e outcome" where
  "handshake es cr jc m t inc sv =
     (case inc of
        Timed_Out \<Rightarrow> ([], Finished, sv)
      | Frame_Read (Inr (Auth, payload)) \<Rightarrow>
          (case de_auth cr payload of None \<Rightarrow> ([], Failed, sv) | Some a \<Rightarrow> authorize es cr jc m t a sv)
      | _ \<Rightarrow> ([], Failed, sv))"

section \<open>The main loop\<close>

definition batch_bytes :: "sync_crates \<Rightarrow> bool \<Rightarrow> string \<Rightarrow> string option" where
  "batch_bytes cr zstd payload =
     (if zstd
      then (case unzstd cr (MAX_DECOMPRESSED_SIZE + 1) payload of
              None \<Rightarrow> None
            | Some buf \<Rightarrow> if length buf > MAX_DECOMPRESSED_SIZE then None else Some buf)
      else Some payload)"

definition on_sync_batch ::
  "'e event_store \<Rightarrow> sync_crates \<Rightarrow> int \<Rightarrow> 't clock_scheme \<Rightarrow> session \<Rightarrow> bool \<Rightarrow> string \<Rightarrow> 'e server \<Rightarrow> 'e outcome" where
  "on_sync_batch es cr retention t sn zstd payload sv =
     (case user_active t (sn_user sn) sv of
        (Inr False, sv) \<Rightarrow> ([A_Sync_Err ''account deactivated''], Finished, sv)
      | (Inl _, sv) \<Rightarrow> ([], Finished, sv)
      | (Inr True, sv) \<Rightarrow>
          (case Option.bind (batch_bytes cr zstd payload) (de_batch cr) of
             None \<Rightarrow> ([], Failed, sv)
           | Some b \<Rightarrow>
               (case ensure_cursor (unix_secs t) (sn_device sn) (sb_provider b) (sv_db sv) of
                  (Inl _, db) \<Rightarrow> ([], Failed, sv\<lparr>sv_db := db\<rparr>)
                | (Inr _, db) \<Rightarrow>
                    (case handle_sync_batch es retention (unix_secs t) b (sn_user sn) (sn_device sn) (sb_provider b)
                            (sv\<lparr>sv_db := db\<rparr>) of
                       (Inr last_ts, sv) \<Rightarrow> ([A_Sync_Ack last_ts], Serving sn, sv)
                     | (Inl e, sv) \<Rightarrow> ([A_Sync_Err e], Serving sn, sv)))))"

definition provider_ok :: "string \<Rightarrow> bool" where
  "provider_ok p \<longleftrightarrow> p \<noteq> [] \<and> length p \<le> 32 \<and> (\<forall>c\<in>set p. ascii_lower c \<or> c = CHR ''_'')"

text \<open>From the accepted upload on: sanitize, pre-merge, store, and answer.\<close>

definition store_windows ::
  "'e event_store \<Rightarrow> sync_crates \<Rightarrow> int \<Rightarrow> session \<Rightarrow> sync_windows \<Rightarrow> 'e server \<Rightarrow> 'e outcome" where
  "store_windows es cr now_ms sn win sv =
     (let before = length (sw_items win);
          clean = sanitize_window_batch (sw_items win) now_ms;
          its = premerge_windows (sort_windows cr) (items clean)
      in (case es_upsert_windows es (sn_user sn) (sw_provider win) its (sv_events sv) of
            (r, ev) \<Rightarrow>
              (let sv = sv\<lparr>sv_events := ev\<rparr>;
                   dropped = transient_rejects clean + (case r of Inr skipped \<Rightarrow> skipped | Inl _ \<Rightarrow> 0)
               in (case r of
                     Inr _ \<Rightarrow>
                       if dropped = 0 then ([A_Sync_Ack (max_or_0 (map observed_ts_ms its))], Serving sn, sv)
                       else ([A_Sync_Err (dec dropped @ '' of '' @ dec before @ '' window items rejected'')], Serving sn, sv)
                   | Inl e \<Rightarrow> ([A_Sync_Err e], Serving sn, sv)))))"

definition on_sync_windows ::
  "'e event_store \<Rightarrow> sync_crates \<Rightarrow> 't moment_scheme \<Rightarrow> session \<Rightarrow> string \<Rightarrow> 'e server \<Rightarrow> 'e outcome" where
  "on_sync_windows es cr t sn payload sv =
     (case user_active t (sn_user sn) sv of
        (Inr False, sv) \<Rightarrow> ([A_Sync_Err ''account deactivated''], Finished, sv)
      | (Inl _, sv) \<Rightarrow> ([], Finished, sv)
      | (Inr True, sv) \<Rightarrow>
          if length payload > MAX_WINDOWS_PAYLOAD
          then ([A_Sync_Err (''windows payload too large: '' @ dec (length payload) @ '' bytes (max '' @
                   dec MAX_WINDOWS_PAYLOAD @ '')'')], Serving sn, sv)
          else
            (case de_windows cr payload of
               None \<Rightarrow> ([], Failed, sv)
             | Some win \<Rightarrow>
                 if sw_schema win \<noteq> WINDOWS_SCHEMA_VERSION cr
                 then ([A_Sync_Err (''unsupported windows_schema '' @ dec (sw_schema win) @ '' (server supports '' @
                          dec (WINDOWS_SCHEMA_VERSION cr) @ '')'')], Serving sn, sv)
                 else if \<not> provider_ok (sw_provider win)
                 then ([A_Sync_Err (''invalid provider name: '' @ debug_str cr (sw_provider win))], Serving sn, sv)
                 else
                   (case windows_allow (instant t) (sn_user sn) (sw_provider win) (sn_device sn) (sv_rate sv) of
                      (False, rate) \<Rightarrow> ([A_Sync_Err ''windows sync throttled''], Serving sn, sv\<lparr>sv_rate := rate\<rparr>)
                    | (True, rate) \<Rightarrow> store_windows es cr (wall_ms t) sn win (sv\<lparr>sv_rate := rate\<rparr>))))"

definition on_get_last_ts :: "sync_crates \<Rightarrow> session \<Rightarrow> string \<Rightarrow> 'e server \<Rightarrow> 'e outcome" where
  "on_get_last_ts cr sn payload sv =
     (case de_get_last_ts cr payload of
        None \<Rightarrow> ([], Failed, sv)
      | Some prov \<Rightarrow>
          (case get_last_ts (sn_device sn) prov (sv_db sv) of
             Inl _ \<Rightarrow> ([], Failed, sv)
           | Inr ts \<Rightarrow> ([A_Last_Ts ts], Serving sn, sv)))"

fun on_message ::
  "'e event_store \<Rightarrow> sync_crates \<Rightarrow> int \<Rightarrow> 't moment_scheme \<Rightarrow> session \<Rightarrow> msg_type \<Rightarrow> string \<Rightarrow> 'e server \<Rightarrow> 'e outcome" where
  "on_message es cr retention t sn Get_Last_Ts payload sv = on_get_last_ts cr sn payload sv"
| "on_message es cr retention t sn Sync_Batch payload sv = on_sync_batch es cr retention t sn False payload sv"
| "on_message es cr retention t sn Sync_Batch_Zstd payload sv = on_sync_batch es cr retention t sn True payload sv"
| "on_message es cr retention t sn Sync_Windows payload sv = on_sync_windows es cr t sn payload sv"
| "on_message es cr retention t sn Ping payload sv = ([A_Pong], Serving sn, sv)"
| "on_message es cr retention t sn other payload sv = ([], Serving sn, sv)"

text \<open>Unexpected end of input and invalid frames end the loop; any other input error is returned.\<close>

definition main_loop_step ::
  "'e event_store \<Rightarrow> sync_crates \<Rightarrow> int \<Rightarrow> 't moment_scheme \<Rightarrow> session \<Rightarrow> incoming \<Rightarrow> 'e server \<Rightarrow> 'e outcome" where
  "main_loop_step es cr retention t sn inc sv =
     (case inc of
        Timed_Out \<Rightarrow> ([], Finished, sv)
      | Frame_Read (Inr (mt, payload)) \<Rightarrow> on_message es cr retention t sn mt payload sv
      | Frame_Read (Inl Unexpected_Eof) \<Rightarrow> ([], Finished, sv)
      | Frame_Read (Inl (Unknown_Msg_Type _)) \<Rightarrow> ([], Finished, sv)
      | Frame_Read (Inl (Payload_Too_Large _ _)) \<Rightarrow> ([], Finished, sv)
      | Read_Failed \<Rightarrow> ([], Failed, sv))"

definition conn_step ::
  "'e event_store \<Rightarrow> sync_crates \<Rightarrow> jwt_crate \<Rightarrow> jwt_manager \<Rightarrow> int \<Rightarrow> 't moment_scheme \<Rightarrow> incoming \<Rightarrow> conn \<Rightarrow> 'e server \<Rightarrow>
   'e outcome" where
  "conn_step es cr jc m retention t inc c sv =
     (case c of
        Handshake \<Rightarrow> handshake es cr jc m t inc sv
      | Serving sn \<Rightarrow> main_loop_step es cr retention t sn inc sv
      | Finished \<Rightarrow> ([], Finished, sv)
      | Failed \<Rightarrow> ([], Failed, sv))"

fun handle_connection ::
  "'e event_store \<Rightarrow> sync_crates \<Rightarrow> jwt_crate \<Rightarrow> jwt_manager \<Rightarrow> int \<Rightarrow> ('t moment_scheme \<times> incoming) list \<Rightarrow> conn \<Rightarrow>
   'e server \<Rightarrow> 'e outcome" where
  "handle_connection es cr jc m retention [] c sv = ([], c, sv)"
| "handle_connection es cr jc m retention ((t, inc) # ins) c sv =
     (let (out, c, sv) = conn_step es cr jc m retention t inc c sv;
          (out', c, sv) = handle_connection es cr jc m retention ins c sv
      in (out @ out', c, sv))"

section \<open>From bytes\<close>

text \<open>The same connection reading its bytes: the small cap before authentication, the crate's cap after.
  The moments are those at which a frame is read; a connection that closed reads no more.\<close>

definition next_incoming :: "(nat \<Rightarrow> msg_type option) \<Rightarrow> nat \<Rightarrow> conn \<Rightarrow> string \<Rightarrow> incoming \<times> string" where
  "next_incoming from_u32 max_size c s =
     (case (if c = Handshake then read_frame_limited from_u32 max_size AUTH_MAX_PAYLOAD s
            else read_frame from_u32 max_size s) of
        (r, rest, held) \<Rightarrow> (Frame_Read r, rest))"

fun serve_bytes ::
  "'e event_store \<Rightarrow> sync_crates \<Rightarrow> jwt_crate \<Rightarrow> jwt_manager \<Rightarrow> int \<Rightarrow> (nat \<Rightarrow> msg_type option) \<Rightarrow> nat \<Rightarrow>
   't moment_scheme list \<Rightarrow> string \<Rightarrow> conn \<Rightarrow> 'e server \<Rightarrow> 'e outcome" where
  "serve_bytes es cr jc m retention from_u32 max_size [] s c sv = ([], c, sv)"
| "serve_bytes es cr jc m retention from_u32 max_size (t # ts) s c sv =
     (let (inc, s) = next_incoming from_u32 max_size c s;
          (out, c, sv) = conn_step es cr jc m retention t inc c sv;
          (out', c, sv) = serve_bytes es cr jc m retention from_u32 max_size ts s c sv
      in (out @ out', c, sv))"

end
