(* ===== verification/Sync_Safety.thy ===== *)
theory Sync_Safety
  imports Sync Guarantees Access_Safety
begin

text \<open>
  What a sync connection guarantees: an acknowledged batch is stored, the cursor never points past
  what is stored, a session writes only its own device's rows and only while its account is active,
  and nothing is written before a valid access token of an active account was shown. The proofs are
  made once over the contract of the event store and applied to the embedded one.
\<close>

section \<open>Coverage of a log\<close>

text \<open>\<open>covered L i t\<close>: the log has a row of identity \<open>i\<close> at least as new as \<open>t\<close>.\<close>

definition covered :: "event_log \<Rightarrow> ident \<Rightarrow> int \<Rightarrow> bool" where
  "covered L i t \<longleftrightarrow> (\<exists>t'\<ge>t. rows L (i, t') \<noteq> None)"

lemma covered_upsert:
  assumes "covered L i t"
  shows "covered (log_upsert e L) i t"
proof -
  obtain t' where t': "t \<le> t'" "rows L (i, t') \<noteq> None" using assms by (auto simp: covered_def)
  show ?thesis
  proof (cases "rows (log_upsert e L) (i, t') = None")
    case True
    then have "pointers L (ident_of e) = Some t'" "ident_of e = i" "t' \<le> ts_ms e"
      using t' by (auto simp: log_upsert_defs split: option.splits if_splits)
    then have "rows (log_upsert e L) (i, ts_ms e) \<noteq> None" by (auto simp: log_upsert_defs)
    with t' \<open>t' \<le> ts_ms e\<close> show ?thesis unfolding covered_def by (meson order_trans)
  qed (use t' in \<open>auto simp: covered_def\<close>)
qed

lemma covered_own:
  assumes "log_ok owner L"
  shows "covered (log_upsert e L) (ident_of e) (ts_ms e)"
proof (cases "pointers L (ident_of e)")
  case None
  then show ?thesis by (auto simp: covered_def log_upsert_defs)
next
  case (Some t)
  then have "rows L (ident_of e, t) \<noteq> None" using assms by (auto simp: log_ok_def)
  with Some show ?thesis by (auto simp: covered_def log_upsert_defs intro: exI [of _ t])
qed

lemma covered_fold: "covered L i t \<Longrightarrow> covered (fold log_upsert es L) i t"
  by (induction es arbitrary: L) (auto simp: covered_upsert)

lemma covered_fold_own:
  "log_ok owner L \<Longrightarrow> \<forall>e\<in>set es. event_ok owner e \<Longrightarrow> e \<in> set es \<Longrightarrow>
   covered (fold log_upsert es L) (ident_of e) (ts_ms e)"
proof (induction es arbitrary: L)
  case (Cons x xs)
  then have ok: "log_ok owner (log_upsert x L)" by (simp add: log_ok_upsert)
  with Cons show ?case using covered_fold [OF covered_own [OF Cons.prems(1)]] by auto
qed simp

lemma covered_batch: "covered L i t \<Longrightarrow> covered (log_batch es L) i t"
  by (simp add: log_batch_def covered_fold)

lemma covered_batch_own:
  assumes "log_ok owner L" "accept owner es" "e \<in> set es"
  shows "covered (log_batch es L) (ident_of e) (ts_ms e)"
proof -
  have ok: "\<forall>x\<in>set es. event_ok owner x" and keyed: "keyed_ok es"
    using assms(2) by (auto simp: accept_def keyed_ok_def event_ok_def)
  obtain w where w: "w \<in> set (batch_winners es)" "ident_of w = ident_of e" using winner_exists [OF keyed assms(3)] by blast
  have "best None (of_ident (ident_of w) es) = Some w" by (rule winner_of_ident [OF keyed w(1)])
  from best_Some [OF this] assms(3) w(2) have "ts_ms e \<le> ts_ms w" by (auto simp: of_ident_def)
  moreover have "covered (log_batch es L) (ident_of w) (ts_ms w)"
    unfolding log_batch_def using ok winner_in_batch w(1) by (intro covered_fold_own [OF assms(1)]) auto
  ultimately show ?thesis unfolding w(2) covered_def by (meson order_trans)
qed

lemma batch_other_device:
  assumes "\<forall>e\<in>set es. device_id e = dev" "id_device i \<noteq> dev"
  shows "rows (log_batch es L) (i, t) = rows L (i, t)" "pointers (log_batch es L) i = pointers L i"
proof -
  have other: "rows (fold log_upsert xs M) (i, t) = rows M (i, t) \<and> pointers (fold log_upsert xs M) i = pointers M i"
    if "\<forall>e\<in>set xs. ident_of e \<noteq> i" for xs M
    using that by (induction xs arbitrary: M) (auto simp: log_upsert_defs split: option.split)
  have "\<forall>e\<in>set (batch_winners es). ident_of e \<noteq> i" using assms winner_in_batch by (fastforce simp: ident_of_def)
  from other [OF this] show "rows (log_batch es L) (i, t) = rows L (i, t)" "pointers (log_batch es L) i = pointers L i"
    by (simp_all add: log_batch_def)
qed

lemma log_prune_rows [simp]: "rows (log_prune dev cutoff L) = rows L"
  by (simp add: log_prune_def)

lemma covered_prune [simp]: "covered (log_prune dev cutoff L) = covered L"
  by (simp add: covered_def fun_eq_iff)

section \<open>The events of a batch\<close>

lemma set_token_sel [simp]:
  "device_id (set_token c n e) = device_id e" "user_id (set_token c n e) = user_id e" "msg_id (set_token c n e) = msg_id e"
  "ts_ms (set_token c n e) = ts_ms e" "provider (set_token c n e) = provider e"
  by (simp_all add: set_token_def)

lemma set_tokens_sel [simp]:
  "device_id (set_tokens cs ns e) = device_id e" "user_id (set_tokens cs ns e) = user_id e"
  "msg_id (set_tokens cs ns e) = msg_id e" "ts_ms (set_tokens cs ns e) = ts_ms e" "provider (set_tokens cs ns e) = provider e"
  by (induction cs ns e rule: set_tokens.induct) simp_all

lemma server_event_of_sel [simp]:
  "device_id (server_event_of b u d p it) = d" "user_id (server_event_of b u d p it) = u"
  "msg_id (server_event_of b u d p it) = bare_msg_id (si_message_id it)"
  "ts_ms (server_event_of b u d p it) = si_ts_ms it" "provider (server_event_of b u d p it) = p"
  by (simp_all add: server_event_of_def)

definition item_ident :: "string \<Rightarrow> string \<Rightarrow> sync_item \<Rightarrow> ident" where
  "item_ident dev prov it = Ident dev prov (bare_msg_id (si_message_id it))"

lemma ident_of_item [simp]: "ident_of (server_event_of b u d p it) = item_ident d p it"
  by (simp add: ident_of_def item_ident_def)

definition batch_ok :: "sync_batch \<Rightarrow> bool" where
  "batch_ok b \<longleftrightarrow> nul \<notin> set (sb_provider b) \<and> (\<forall>it\<in>set (sb_items b). in_i64 (si_ts_ms it))"

definition session_ok :: "(string \<Rightarrow> string) \<Rightarrow> session \<Rightarrow> bool" where
  "session_ok owner sn \<longleftrightarrow> nul \<notin> set (sn_device sn) \<and> nul \<notin> set (sn_user sn) \<and> owner (sn_device sn) = sn_user sn"

lemma batch_accepted:
  "batch_ok b \<Longrightarrow> session_ok owner sn \<Longrightarrow>
   accept owner (map (server_event_of b (sn_user sn) (sn_device sn) (sb_provider b)) (sb_items b))"
  by (auto simp: accept_def event_ok_def batch_ok_def session_ok_def ident_ok_def item_ident_def)

lemma foldl_max:
  fixes t :: int
  shows "t \<le> foldl max t ts \<and> (\<forall>x\<in>set ts. x \<le> foldl max t ts) \<and> (foldl max t ts = t \<or> foldl max t ts \<in> set ts)"
proof (induction ts arbitrary: t)
  case (Cons x ts)
  from Cons.IH [of "max t x"] show ?case by (auto simp: max_def split: if_splits)
qed simp

lemma max_or_0:
  "ts \<noteq> [] \<Longrightarrow> max_or_0 ts \<in> set ts \<and> (\<forall>x\<in>set ts. x \<le> max_or_0 ts)"
  using foldl_max by (cases ts) (auto simp: max_or_0_def)

section \<open>What a session may change\<close>

definition cursor_backed :: "sqlite_db \<Rightarrow> event_log \<Rightarrow> bool" where
  "cursor_backed db L \<longleftrightarrow> (\<forall>dev prov. 0 < last_ts dev prov db \<longrightarrow> (\<exists>m. covered L (Ident dev prov m) (last_ts dev prov db)))"

text \<open>The change a session makes: only its device's rows, whose coverage grows; only its device's
  cursors, which stay backed by rows and never move back; no other table.\<close>

definition own_change :: "session \<Rightarrow> sqlite_db \<Rightarrow> event_log \<Rightarrow> sqlite_db \<Rightarrow> event_log \<Rightarrow> bool" where
  "own_change sn db L db' L' \<longleftrightarrow>
     (\<forall>i t. id_device i \<noteq> sn_device sn \<longrightarrow> rows L' (i, t) = rows L (i, t)) \<and>
     (\<forall>i t. covered L i t \<longrightarrow> covered L' i t) \<and>
     (\<exists>cs. db' = db\<lparr>cursors := cs\<rparr>) \<and>
     (\<forall>dev prov. last_ts dev prov db \<le> last_ts dev prov db' \<and>
        (dev \<noteq> sn_device sn \<longrightarrow> last_ts dev prov db' = last_ts dev prov db)) \<and>
     (cursor_backed db L \<longrightarrow> cursor_backed db' L')"

lemma own_change_refl [simp]: "own_change sn db L db L"
  by (auto simp: own_change_def intro: exI [of _ "cursors db"])

lemma own_change_trans:
  assumes "own_change sn db L db' L'" "own_change sn db' L' db'' L''"
  shows "own_change sn db L db'' L''"
proof -
  have "\<exists>cs. db'' = db\<lparr>cursors := cs\<rparr>" using assms by (auto simp: own_change_def)
  moreover have "\<forall>dev prov. last_ts dev prov db \<le> last_ts dev prov db''" using assms unfolding own_change_def by (meson order_trans)
  ultimately show ?thesis using assms by (simp add: own_change_def)
qed

lemma ensure_cursor_cases: "\<exists>cs. snd (ensure_cursor now d p db) = db\<lparr>cursors := cs\<rparr>"
  by (auto simp: ensure_cursor_def split: sum.split intro: exI [of _ "cursors db"])

lemma ensure_cursor_change: "own_change sn db L (snd (ensure_cursor now d p db)) L"
  using ensure_cursor_cases [of now d p db] by (simp add: own_change_def cursor_backed_def)

lemma user_active_sel:
  "user_active t u sv = (r, sv') \<Longrightarrow> sv_db sv' = sv_db sv \<and> sv_events sv' = sv_events sv \<and> sv_rate sv' = sv_rate sv"
  by (auto simp: user_active_def split: prod.splits)

lemma advance_change:
  assumes "\<forall>i t. id_device i \<noteq> sn_device sn \<longrightarrow> rows L' (i, t) = rows L (i, t)" "\<forall>i t. covered L i t \<longrightarrow> covered L' i t"
    and "covered L' (Ident (sn_device sn) prov m) ts"
  shows "own_change sn db L (snd (advance_cursor now (sn_device sn) prov ts db)) L'"
proof -
  let ?db = "snd (advance_cursor now (sn_device sn) prov ts db)"
  have "cursor_backed ?db L'" if "cursor_backed db L"
    unfolding cursor_backed_def
  proof (intro allI impI)
    fix d p assume pos: "0 < last_ts d p ?db"
    have "last_ts d p ?db = ts \<and> d = sn_device sn \<and> p = prov \<or> last_ts d p ?db = last_ts d p db"
      by (auto simp: advance_cursor_last_ts max_def)
    then show "\<exists>m. covered L' (Ident d p m) (last_ts d p ?db)"
      using assms(2,3) that pos unfolding cursor_backed_def by metis
  qed
  then show ?thesis using assms(1,2)
    by (auto simp: own_change_def advance_cursor_last_ts) (auto simp: advance_cursor_def)
qed

context event_contract
begin

lemma batch_run:
  assumes "holds (sv_events sv) L" "batch_ok b" "session_ok owner sn"
    and "sb_items b \<noteq> []" "length (sb_items b) \<le> MAX_BATCH_SIZE"
  defines "evs \<equiv> map (server_event_of b (sn_user sn) (sn_device sn) (sb_provider b)) (sb_items b)"
  defines "newest \<equiv> max_or_0 (map si_ts_ms (sb_items b))"
  shows "\<exists>ev L'. handle_sync_batch es retention now b (sn_user sn) (sn_device sn) (sb_provider b) sv =
      (Inr newest, sv\<lparr>sv_events := ev, sv_db := snd (advance_cursor now (sn_device sn) (sb_provider b) newest (sv_db sv))\<rparr>) \<and>
    holds ev L' \<and> rows L' = rows (log_batch evs L)"
proof -
  have acc: "accept owner evs" unfolding evs_def by (rule batch_accepted [OF assms(2,3)])
  obtain ev where ev: "es_upsert_events es evs (sv_events sv) = (Inr (), ev)" "holds ev (log_batch evs L)"
    using upsert_law [OF assms(1) acc] by blast
  have dev: "nul \<notin> set (sn_device sn)" using assms(3) by (simp add: session_ok_def)
  let ?cutoff = "wrap_i64 (newest - wrap_i64 (retention * 1000))"
  obtain ev' where ev': "es_cleanup_old_dedup es (sn_device sn) ?cutoff ev = (Inr (), ev')"
      "holds ev' (log_prune (sn_device sn) ?cutoff (log_batch evs L))"
    using prune_law [OF ev(2) dev] by blast
  have run: "handle_sync_batch es retention now b (sn_user sn) (sn_device sn) (sb_provider b) sv =
      (Inr newest, sv\<lparr>sv_events := if ?cutoff > 0 then ev' else ev,
         sv_db := snd (advance_cursor now (sn_device sn) (sb_provider b) newest (sv_db sv))\<rparr>)"
    using ev(1) ev'(1) assms(4,5)
    unfolding handle_sync_batch_def evs_def [symmetric] newest_def [symmetric]
    by (simp add: Let_def advance_cursor_def)
  show ?thesis
    by (intro exI [of _ "if ?cutoff > 0 then ev' else ev"]
        exI [of _ "if ?cutoff > 0 then log_prune (sn_device sn) ?cutoff (log_batch evs L) else log_batch evs L"] conjI run)
      (use ev(2) ev'(2) in auto)
qed

lemma batch_change:
  assumes "holds (sv_events sv) L" "batch_ok b" "session_ok owner sn"
    and run: "handle_sync_batch es retention now b (sn_user sn) (sn_device sn) (sb_provider b) sv = (r, sv')"
  shows "\<exists>L'. holds (sv_events sv') L' \<and> own_change sn (sv_db sv) L (sv_db sv') L'"
proof (cases "sb_items b = [] \<or> length (sb_items b) > MAX_BATCH_SIZE")
  case True
  with run have "sv' = sv" by (auto simp: handle_sync_batch_def split: if_splits)
  with assms(1) show ?thesis by auto
next
  case False
  let ?evs = "map (server_event_of b (sn_user sn) (sn_device sn) (sb_provider b)) (sb_items b)"
  let ?newest = "max_or_0 (map si_ts_ms (sb_items b))"
  obtain ev L' where out: "sv' = sv\<lparr>sv_events := ev, sv_db := snd (advance_cursor now (sn_device sn) (sb_provider b) ?newest (sv_db sv))\<rparr>"
    and L': "holds ev L'" "rows L' = rows (log_batch ?evs L)"
    using batch_run [OF assms(1-3), of retention now] False run by (metis linorder_le_less_linear prod.inject)
  have cov: "covered L' = covered (log_batch ?evs L)" using L'(2) by (simp add: covered_def fun_eq_iff)
  obtain it where it: "it \<in> set (sb_items b)" "si_ts_ms it = ?newest"
    using False max_or_0 [of "map si_ts_ms (sb_items b)"] by auto
  have "covered (log_batch ?evs L) (item_ident (sn_device sn) (sb_provider b) it) ?newest"
    using covered_batch_own [OF log_law [OF assms(1)] batch_accepted [OF assms(2,3)],
        of "server_event_of b (sn_user sn) (sn_device sn) (sb_provider b) it"] it by auto
  moreover have "rows L' (i, t) = rows L (i, t)" if "id_device i \<noteq> sn_device sn" for i t
    unfolding L'(2) by (rule batch_other_device) (use that in auto)
  ultimately have "own_change sn (sv_db sv) L (snd (advance_cursor now (sn_device sn) (sb_provider b) ?newest (sv_db sv))) L'"
    by (intro advance_change) (auto simp: cov covered_batch item_ident_def)
  with L'(1) out show ?thesis by auto
qed

end

section \<open>A session's messages\<close>

definition incoming_ok :: "sync_crates \<Rightarrow> incoming \<Rightarrow> bool" where
  "incoming_ok cr inc \<longleftrightarrow> (\<forall>mt payload b. inc = Frame_Read (Inr (mt, payload)) \<longrightarrow> mt = Sync_Batch \<or> mt = Sync_Batch_Zstd \<longrightarrow>
     Option.bind (batch_bytes cr (mt = Sync_Batch_Zstd) payload) (de_batch cr) = Some b \<longrightarrow> batch_ok b)"

definition stays_in :: "session \<Rightarrow> conn \<Rightarrow> bool" where
  "stays_in sn c \<longleftrightarrow> c = Serving sn \<or> c = Finished \<or> c = Failed"

lemma on_windows_result:
  assumes "on_sync_windows es cr t sn payload sv = (out, c, sv')"
  shows "sv_db sv' = sv_db sv \<and> stays_in sn c \<and>
    (sv_events sv' = sv_events sv \<or> (\<exists>prov ws. sv_events sv' = snd (es_upsert_windows es (sn_user sn) prov ws (sv_events sv))))"
proof -
  obtain r sv1 where act: "user_active t (sn_user sn) sv = (r, sv1)" by fastforce
  note same = user_active_sel [OF act]
  have stored: "sv_db sv2 = sv_db v \<and> stays_in sn c' \<and>
      (\<exists>prov ws. sv_events sv2 = snd (es_upsert_windows es (sn_user sn) prov ws (sv_events v)))"
    if "store_windows es cr now sn win v = (out', c', sv2)" for now win v out' c' sv2
    using that by (auto simp: store_windows_def stays_in_def Let_def split: prod.splits sum.splits if_splits) (metis snd_conv)+
  show ?thesis
  proof (cases "r = Inr True \<and> length payload \<le> MAX_WINDOWS_PAYLOAD")
    case False
    with assms act same show ?thesis
      by (auto simp: on_sync_windows_def stays_in_def split: sum.splits bool.splits if_splits)
  next
    case ok: True
    show ?thesis
    proof (cases "de_windows cr payload")
      case None
      with assms act same ok show ?thesis by (auto simp: on_sync_windows_def stays_in_def)
    next
      case (Some win)
      obtain a rate where al: "windows_allow (instant t) (sn_user sn) (sw_provider win) (sn_device sn) (sv_rate sv1) = (a, rate)"
        by fastforce
      from assms act same ok Some al stored [of "wall_ms t" win "sv1\<lparr>sv_rate := rate\<rparr>" out c sv'] show ?thesis
        by (auto simp: on_sync_windows_def stays_in_def split: if_splits bool.splits)
    qed
  qed
qed

context event_contract
begin

abbreviation kept :: "session \<Rightarrow> event_log \<Rightarrow> 'e server \<Rightarrow> 'e server \<Rightarrow> bool" where
  "kept sn L sv sv' \<equiv> \<exists>L'. holds (sv_events sv') L' \<and> own_change sn (sv_db sv) L (sv_db sv') L'"

lemma on_batch_kept:
  assumes "holds (sv_events sv) L" "session_ok owner sn"
    and "\<And>b. Option.bind (batch_bytes cr zstd payload) (de_batch cr) = Some b \<Longrightarrow> batch_ok b"
    and "on_sync_batch es cr retention t sn zstd payload sv = (out, c, sv')"
  shows "kept sn L sv sv' \<and> stays_in sn c"
proof -
  obtain r sv1 where act: "user_active t (sn_user sn) sv = (r, sv1)" by fastforce
  note same = user_active_sel [OF act]
  show ?thesis
  proof (cases "r = Inr True")
    case False
    with assms(1,4) act same show ?thesis
      by (auto simp: on_sync_batch_def stays_in_def split: sum.splits bool.splits intro: exI [of _ L])
  next
    case act_true: True
    show ?thesis
    proof (cases "Option.bind (batch_bytes cr zstd payload) (de_batch cr)")
      case None
      with assms(1,4) act same act_true show ?thesis by (auto simp: on_sync_batch_def stays_in_def intro: exI [of _ L])
    next
      case (Some b)
      obtain e db where ens: "ensure_cursor (unix_secs t) (sn_device sn) (sb_provider b) (sv_db sv) = (e, db)" by fastforce
      have first: "own_change sn (sv_db sv) L db L"
        using ensure_cursor_change [of sn "sv_db sv" L "unix_secs t" "sn_device sn" "sb_provider b"] by (simp add: ens)
      obtain r' sv2 where run: "handle_sync_batch es retention (unix_secs t) b (sn_user sn) (sn_device sn) (sb_provider b)
          (sv1\<lparr>sv_db := db\<rparr>) = (r', sv2)" by fastforce
      have "holds (sv_events (sv1\<lparr>sv_db := db\<rparr>)) L" using assms(1) same by simp
      then obtain L' where L': "holds (sv_events sv2) L'" "own_change sn db L (sv_db sv2) L'"
        using batch_change [OF _ assms(3) [OF Some] assms(2) run] by auto
      from own_change_trans [OF first L'(2)] L'(1) first assms(1,4) act same act_true Some ens run show ?thesis
        by (cases e; cases r') (auto simp: on_sync_batch_def stays_in_def intro: exI [of _ L] exI [of _ L'])
    qed
  qed
qed

lemma message_kept:
  assumes "holds (sv_events sv) L" "session_ok owner sn" "incoming_ok cr inc"
    and "main_loop_step es cr retention t sn inc sv = (out, c, sv')"
  shows "kept sn L sv sv' \<and> stays_in sn c"
proof (cases "\<exists>mt payload. inc = Frame_Read (Inr (mt, payload))")
  case False
  with assms(1,4) show ?thesis
    by (auto simp: main_loop_step_def stays_in_def split: incoming.splits sum.splits io_error.splits intro: exI [of _ L])
next
  case True
  then obtain mt payload where inc: "inc = Frame_Read (Inr (mt, payload))" by blast
  have msg: "on_message es cr retention t sn mt payload sv = (out, c, sv')"
    using assms(4) by (simp add: main_loop_step_def inc)
  consider "mt = Sync_Batch" | "mt = Sync_Batch_Zstd" | "mt = Sync_Windows" | "mt = Get_Last_Ts"
    | "sv' = sv" "c = Serving sn"
    using msg by (cases mt) auto
  then show ?thesis
  proof cases
    case 1
    show ?thesis by (rule on_batch_kept [OF assms(1,2)]) (use 1 msg assms(3) in \<open>auto simp: incoming_ok_def inc\<close>)
  next
    case 2
    show ?thesis by (rule on_batch_kept [OF assms(1,2)]) (use 2 msg assms(3) in \<open>auto simp: incoming_ok_def inc\<close>)
  next
    case 3
    with msg have w: "on_sync_windows es cr t sn payload sv = (out, c, sv')" by simp
    note res = on_windows_result [OF w]
    then have "holds (sv_events sv') L" using assms(1) windows_law by auto
    with res show ?thesis by (auto intro: exI [of _ L])
  next
    case 4
    with msg assms(1) show ?thesis by (auto simp: on_get_last_ts_def get_last_ts_def stays_in_def split: option.splits intro: exI [of _ L])
  next
    case 5
    with assms(1) show ?thesis by (auto simp: stays_in_def intro: exI [of _ L])
  qed
qed

lemma session_kept:
  assumes "holds (sv_events sv) L" "session_ok owner sn" "stays_in sn c" "\<forall>(t, inc)\<in>set ins. incoming_ok cr inc"
    and "handle_connection es cr jc m retention ins c sv = (out, c', sv')"
  shows "kept sn L sv sv' \<and> stays_in sn c'"
  using assms
proof (induction ins arbitrary: c sv L out c' sv')
  case Nil
  then show ?case by (auto intro: exI [of _ L])
next
  case (Cons x ins)
  obtain t inc where x: "x = (t, inc)" by fastforce
  obtain o1 c1 sv1 where step: "conn_step es cr jc m retention t inc c sv = (o1, c1, sv1)" by (rule prod_cases3)
  obtain o2 c2 sv2 where rest: "handle_connection es cr jc m retention ins c1 sv1 = (o2, c2, sv2)" by (rule prod_cases3)
  have one: "kept sn L sv sv1 \<and> stays_in sn c1"
  proof (cases "c = Serving sn")
    case True
    with step have ms: "main_loop_step es cr retention t sn inc sv = (o1, c1, sv1)" by (simp add: conn_step_def)
    have "incoming_ok cr inc" using Cons.prems(4) x by simp
    from message_kept [OF Cons.prems(1,2) this ms] show ?thesis .
  next
    case False
    with Cons.prems(1,3) step show ?thesis by (auto simp: conn_step_def stays_in_def intro: exI [of _ L])
  qed
  then obtain L1 where L1: "holds (sv_events sv1) L1" "own_change sn (sv_db sv) L (sv_db sv1) L1" "stays_in sn c1" by blast
  have "\<forall>(t, inc)\<in>set ins. incoming_ok cr inc" using Cons.prems(4) by auto
  from Cons.IH [OF L1(1) Cons.prems(2) L1(3) this rest]
  obtain L2 where "holds (sv_events sv2) L2" "own_change sn (sv_db sv1) L1 (sv_db sv2) L2" "stays_in sn c2" by blast
  moreover have "sv' = sv2" "c' = c2" using Cons.prems(5) step rest by (simp_all add: x)
  ultimately show ?case using own_change_trans [OF L1(2)] by blast
qed

end

section \<open>Properties of a connection\<close>

lemma ensure_cursor_row:
  assumes "ensure_cursor now d p db = (Inr u, db')"
  shows "cursor_table.row (d, p) (cursors db') \<noteq> None"
proof (cases "insert_row cursor_clash \<lparr>c_device_id = d, c_provider = p, c_last_ts = 0, c_updated_at = now\<rparr> (cursors db)")
  case (Inl e)
  then have "\<exists>r\<in>set (cursors db). c_device_id r = d \<and> c_provider r = p"
    by (auto simp: insert_row_def cursor_clash_def split: if_splits)
  moreover have "cursors db' = cursors db" using assms Inl by (auto simp: ensure_cursor_def)
  ultimately show ?thesis by (auto simp: cursor_table.row_None)
next
  case (Inr rs)
  then have "cursors db' = rs" using assms by (auto simp: ensure_cursor_def split: if_splits)
  with cursor_table.row_insert [OF Inr, of "(d, p)"] show ?thesis by simp
qed

context event_contract
begin

lemma batch_ack:
  assumes "holds (sv_events sv) L" "session_ok owner sn"
    and "Option.bind (batch_bytes cr zstd payload) (de_batch cr) = Some b" "batch_ok b" "sb_items b \<noteq> []"
    and "on_sync_batch es cr retention t sn zstd payload sv = ([A_Sync_Ack ts], c, sv')"
  shows "\<exists>L'. holds (sv_events sv') L' \<and>
    (\<forall>it\<in>set (sb_items b). covered L' (item_ident (sn_device sn) (sb_provider b) it) (si_ts_ms it) \<and> si_ts_ms it \<le> ts) \<and>
    ts \<in> si_ts_ms ` set (sb_items b) \<and>
    last_ts (sn_device sn) (sb_provider b) (sv_db sv') = max (last_ts (sn_device sn) (sb_provider b) (sv_db sv)) ts"
proof -
  let ?dev = "sn_device sn" and ?prov = "sb_provider b"
  let ?evs = "map (server_event_of b (sn_user sn) ?dev ?prov) (sb_items b)"
  let ?newest = "max_or_0 (map si_ts_ms (sb_items b))"
  obtain r sv1 where act: "user_active t (sn_user sn) sv = (r, sv1)" by fastforce
  note same = user_active_sel [OF act]
  obtain e db where ens: "ensure_cursor (unix_secs t) ?dev ?prov (sv_db sv) = (e, db)" by fastforce
  let ?run = "handle_sync_batch es retention (unix_secs t) b (sn_user sn) ?dev ?prov (sv1\<lparr>sv_db := db\<rparr>)"
  have ok: "r = Inr True" "\<exists>u. e = Inr u" "?run = (Inr ts, sv')"
    using assms(3,6) act ens same
    by (auto simp: on_sync_batch_def split: sum.splits bool.splits prod.splits)
  have small: "length (sb_items b) \<le> MAX_BATCH_SIZE"
    using ok(3) assms(5) by (auto simp: handle_sync_batch_def split: if_splits)
  have "holds (sv_events (sv1\<lparr>sv_db := db\<rparr>)) L" using assms(1) same by simp
  from batch_run [OF this assms(4,2,5) small, of retention "unix_secs t"] ok(3)
  obtain ev L' where out: "ts = ?newest" "sv' = sv1\<lparr>sv_events := ev, sv_db := snd (advance_cursor (unix_secs t) ?dev ?prov ?newest db)\<rparr>"
    and L': "holds ev L'" "rows L' = rows (log_batch ?evs L)" by auto
  have "covered L' (item_ident ?dev ?prov it) (si_ts_ms it)" if "it \<in> set (sb_items b)" for it
    using covered_batch_own [OF log_law [OF assms(1)] batch_accepted [OF assms(4,2)],
        of "server_event_of b (sn_user sn) ?dev ?prov it"] that L'(2) by (simp add: covered_def)
  moreover have "last_ts ?dev ?prov db = last_ts ?dev ?prov (sv_db sv)"
    using ensure_cursor_last_ts [of ?dev ?prov "unix_secs t" ?dev ?prov "sv_db sv"] by (simp add: ens)
  moreover have "cursor_table.row (?dev, ?prov) (cursors db) \<noteq> None" using ok(2) ens ensure_cursor_row by blast
  moreover have "ts \<in> si_ts_ms ` set (sb_items b) \<and> (\<forall>it\<in>set (sb_items b). si_ts_ms it \<le> ts)"
    using max_or_0 [of "map si_ts_ms (sb_items b)"] assms(5) out(1) by auto
  ultimately show ?thesis using L'(1) out by (intro exI [of _ L']) (auto simp: advance_cursor_last_ts)
qed

end


text \<open>Through any run of a session's messages every positive sync cursor stays backed by a stored row of
  its device and provider at least as new, and the session's cursors never move back.\<close>

theorem cursor_never_passes_store:
  assumes "fjall_env ops contents cd" "any_order order" "stores contents cd owner (sv_events sv) L" "session_ok owner sn"
    and "\<forall>(t, inc)\<in>set ins. incoming_ok cr inc" "cursor_backed (sv_db sv) L"
    and "handle_connection (fjall_events ops cd order) cr jc m retention ins (Serving sn) sv = (out, c, sv')"
  shows "\<exists>L'. stores contents cd owner (sv_events sv') L' \<and> cursor_backed (sv_db sv') L' \<and>
    (\<forall>prov. last_ts (sn_device sn) prov (sv_db sv) \<le> last_ts (sn_device sn) prov (sv_db sv'))"
proof -
  have "stays_in sn (Serving sn)" by (simp add: stays_in_def)
  from event_contract.session_kept [OF fjall_contract [OF assms(1,2)] assms(3,4) this assms(5,7)] assms(6)
  show ?thesis by (auto simp: own_change_def)
qed

theorem session_writes_own_device:
  assumes "fjall_env ops contents cd" "any_order order" "stores contents cd owner (sv_events sv) L" "session_ok owner sn"
    and "\<forall>(t, inc)\<in>set ins. incoming_ok cr inc"
    and "handle_connection (fjall_events ops cd order) cr jc m retention ins (Serving sn) sv = (out, c, sv')"
  shows "\<exists>L'. stores contents cd owner (sv_events sv') L' \<and>
    (\<forall>i t. id_device i \<noteq> sn_device sn \<longrightarrow> rows L' (i, t) = rows L (i, t)) \<and>
    (\<forall>i t. covered L i t \<longrightarrow> covered L' i t) \<and> (\<exists>cs. sv_db sv' = (sv_db sv)\<lparr>cursors := cs\<rparr>) \<and>
    (\<forall>dev prov. dev \<noteq> sn_device sn \<longrightarrow> last_ts dev prov (sv_db sv') = last_ts dev prov (sv_db sv))"
proof -
  have "stays_in sn (Serving sn)" by (simp add: stays_in_def)
  from event_contract.session_kept [OF fjall_contract [OF assms(1,2)] assms(3,4) this assms(5,6)]
  show ?thesis unfolding own_change_def by blast
qed

section \<open>Who gets a session\<close>

lemma find_or_create_device_row:
  assumes "find_or_create_device now user name key db = (Inr dev, db')"
  shows "\<exists>r\<in>set (devices db'). d_id r = dev \<and> d_user_id r = user \<and> d_device_key r = Some key"
proof (cases "find (\<lambda>r. d_device_key r = Some key \<and> d_user_id r = user) (devices db)")
  case None
  with assms show ?thesis
    by (auto simp: find_or_create_device_def find_device_by_key_and_user_def create_device_def with_context_def
        insert_device_def insert_row_def split: sum.splits prod.splits if_splits)
next
  case (Some r)
  then have r: "r \<in> set (devices db)" "d_device_key r = Some key" "d_user_id r = user" by (auto simp: find_Some_iff)
  then have "r\<lparr>d_last_seen_at := now, d_name := name\<rparr> \<in> set (update_rows (\<lambda>x. d_id x = d_id r)
      (\<lambda>x. x\<lparr>d_last_seen_at := now, d_name := name\<rparr>) (devices db))"
    by (force simp: update_rows_def)
  with assms Some r show ?thesis
    by (intro bexI [of _ "r\<lparr>d_last_seen_at := now, d_name := name\<rparr>"])
      (auto simp: find_or_create_device_def find_device_by_key_and_user_def update_device_seen_def)
qed

text \<open>C34: A connection gets a session, or changes anything, only after a valid access token of an
  active account with a well-formed device key; a session's device is registered to that account.\<close>

theorem handshake_needs_authorization:
  assumes "handshake es cr jc m t inc sv = (out, c, sv')"
    and "c = Serving sn \<or> sv_db sv' \<noteq> sv_db sv \<or> sv_events sv' \<noteq> sv_events sv"
  shows "\<exists>payload a cl. inc = Frame_Read (Inr (Auth, payload)) \<and> de_auth cr payload = Some a \<and>
    au_protocol_version a = PROTOCOL_VERSION cr \<and> verify_access jc m (unix_secs t) (au_jwt a) = Inr cl \<and>
    fst (user_active t (cl_sub cl) sv) = Inr True \<and> uuid_ok cr (au_device_key a) \<and>
    (c = Serving sn \<longrightarrow> au_schema_version a = SCHEMA_VERSION cr \<and> sn_user sn = cl_sub cl \<and>
       (\<exists>r\<in>set (devices (sv_db sv')). d_id r = sn_device sn \<and> d_user_id r = cl_sub cl \<and> d_device_key r = Some (au_device_key a)))"
proof -
  obtain payload a where auth: "inc = Frame_Read (Inr (Auth, payload))" "de_auth cr payload = Some a"
      "authorize es cr jc m t a sv = (out, c, sv')"
    using assms by (auto simp: handshake_def split: incoming.splits sum.splits prod.splits msg_type.splits option.splits)
  have "au_protocol_version a = PROTOCOL_VERSION cr" using auth(3) assms(2) by (auto simp: authorize_def refuse_def split: if_splits)
  note step = auth(3) [unfolded authorize_def, simplified this, simplified]
  obtain cl where cl: "verify_access jc m (unix_secs t) (au_jwt a) = Inr cl"
    using step assms(2) by (auto simp: refuse_def split: sum.splits)
  obtain r sv1 where act: "user_active t (cl_sub cl) sv = (r, sv1)" by fastforce
  note same = user_active_sel [OF act]
  have active: "r = Inr True" "uuid_ok cr (au_device_key a)"
    using step assms(2) cl act same by (auto simp: refuse_def split: sum.splits bool.splits if_splits)
  have "au_schema_version a = SCHEMA_VERSION cr \<and> sn_user sn = cl_sub cl \<and>
      (\<exists>r\<in>set (devices (sv_db sv')). d_id r = sn_device sn \<and> d_user_id r = cl_sub cl \<and> d_device_key r = Some (au_device_key a))"
    if serving: "c = Serving sn"
  proof -
    obtain dev db where dev: "find_or_create_device (unix_secs t) (cl_sub cl) (truncate_device_name (au_device_name a))
        (au_device_key a) (sv_db sv1) = (Inr dev, db)"
      and opened: "open_session es cr (unix_secs t) a (cl_sub cl) dev (sv1\<lparr>sv_db := db\<rparr>) = (out, c, sv')"
      using step cl act active serving by (auto split: prod.splits sum.splits)
    have "devices (sv_db sv') = devices db" "sn_device sn = dev" "sn_user sn = cl_sub cl" "au_schema_version a = SCHEMA_VERSION cr"
      using opened serving ensure_cursor_cases [of "unix_secs t" dev "au_provider a" db]
      by (auto simp: open_session_def refuse_def Let_def split: if_splits prod.splits sum.splits)
    with find_or_create_device_row [OF dev] show ?thesis by simp
  qed
  with auth cl act active \<open>au_protocol_version a = PROTOCOL_VERSION cr\<close> show ?thesis by auto
qed

text \<open>C36: A handshake with another schema version deletes all events of the device but resets only the
  cursor of the provider it was made for; the cursors of the device's other providers keep
  pointing past the deleted events.\<close>

theorem schema_mismatch_strands_cursors:
  assumes "fjall_env ops contents cd" "any_order order" "stores contents cd owner (sv_events sv) L" "nul \<notin> set dev"
    and "au_schema_version a \<noteq> SCHEMA_VERSION cr"
    and "open_session (fjall_events ops cd order) cr now a user dev sv = (out, c, sv')"
  shows "(\<exists>reason. out = [A_Auth_Err reason True]) \<and> c = Finished \<and>
    (\<exists>L'. stores contents cd owner (sv_events sv') L' \<and> (\<forall>i t. id_device i = dev \<longrightarrow> rows L' (i, t) = None) \<and>
      (\<forall>i t. id_device i \<noteq> dev \<longrightarrow> rows L' (i, t) = rows L (i, t))) \<and>
    (\<forall>prov. last_ts dev prov (sv_db sv') = (if prov = au_provider a then 0 else last_ts dev prov (sv_db sv)))"
proof -
  obtain ev where "es_delete_device_events (fjall_events ops cd order) dev (sv_events sv) = (Inr (), ev)"
      "stores contents cd owner ev (log_delete_device dev L)"
    using event_contract.delete_law [OF fjall_contract [OF assms(1,2)] assms(3,4)] by blast
  with assms(5,6) show ?thesis
    by (auto simp: open_session_def refuse_def Let_def reset_cursor_last_ts log_delete_device_def
        intro!: exI [of _ "log_delete_device dev L"])
qed

text \<open>C35: Once an account is deactivated and evicted from the cache, the next batch of an open session
  is refused, ends the session and changes neither database nor event store.\<close>

theorem deactivated_session_ends:
  assumes "cache_reachable w" "\<not> db_active w (sn_user sn)" "sn_user sn \<notin> pending w" "sv_cache sv = cache w"
    and "get_user_by_id (sn_user sn) (sv_db sv) = Inr r" "case r of Some row \<Rightarrow> u_active row = db_active w (sn_user sn) | None \<Rightarrow> True"
    and "mt \<in> {Sync_Batch, Sync_Batch_Zstd, Sync_Windows}"
    and "main_loop_step es cr retention t sn (Frame_Read (Inr (mt, payload))) sv = (out, c, sv')"
  shows "out = [A_Sync_Err ''account deactivated''] \<and> c = Finished \<and> sv_db sv' = sv_db sv \<and> sv_events sv' = sv_events sv"
proof -
  have "no_stale (sn_user sn) (sv_cache sv)" using stale_free_reachable [OF assms(1)] assms(2-4) by (simp add: stale_free_def)
  then have "fst (is_user_active_cached (instant t) (sn_user sn) (sv_db sv) (sv_cache sv)) = Inr False"
    by (rule no_stale_answer [OF _ assms(5)]) (use assms(2,6) in \<open>auto split: option.splits\<close>)
  then obtain sv1 where act: "user_active t (sn_user sn) sv = (Inr False, sv1)"
    by (cases "is_user_active_cached (instant t) (sn_user sn) (sv_db sv) (sv_cache sv)") (auto simp: user_active_def)
  from user_active_sel [OF act] act assms(7,8) show ?thesis
    by (auto simp: main_loop_step_def on_sync_batch_def on_sync_windows_def)
qed

section \<open>From written frames to handlers\<close>

definition coded :: "(nat \<Rightarrow> msg_type option) \<Rightarrow> (msg_type \<Rightarrow> nat) \<Rightarrow> msg_type \<Rightarrow> bool" where
  "coded from_u32 as_u32 mt \<longleftrightarrow> from_u32 (as_u32 mt) = Some mt \<and> as_u32 mt < 4294967296"

definition written :: "(msg_type \<Rightarrow> nat) \<Rightarrow> nat \<Rightarrow> (msg_type \<times> string) list \<Rightarrow> string list \<Rightarrow> bool" where
  "written as_u32 max_size msgs frames \<longleftrightarrow>
     list_all2 (\<lambda>(mt, payload) bytes. write_frame as_u32 max_size mt payload = Inr bytes) msgs frames"

lemma conn_step_leaves_handshake: "conn_step es cr jc m retention t inc c sv = (out, c', sv') \<Longrightarrow> c' \<noteq> Handshake"
  by (cases c) (auto simp: conn_step_def handshake_def authorize_def refuse_def open_session_def main_loop_step_def
      on_get_last_ts_def on_sync_batch_def on_sync_windows_def store_windows_def Let_def
      split: incoming.splits sum.splits prod.splits msg_type.splits option.splits bool.splits if_splits io_error.splits
      elim!: on_message.elims)

lemma next_incoming_written:
  assumes "coded from_u32 as_u32 mt" "max_size < 4294967296"
    and "write_frame as_u32 max_size mt payload = Inr bytes" "c = Handshake \<Longrightarrow> length payload \<le> AUTH_MAX_PAYLOAD"
  shows "next_incoming from_u32 max_size c (bytes @ rest) = (Frame_Read (Inr (mt, payload)), rest)"
proof -
  have "read_frame_inner from_u32 cap (bytes @ rest) = (Inr (mt, payload), rest, length payload)" if "length payload \<le> cap" for cap
    using assms(1) that by (intro read_frame_inner_written [OF _ _ assms(2,3)]) (simp_all add: coded_def)
  then show ?thesis using written_size [OF assms(3)] assms(4)
    by (simp add: next_incoming_def read_frame_limited_def read_frame_def)
qed

lemma serve_written:
  assumes "max_size < 4294967296" "\<forall>x\<in>set msgs. coded from_u32 as_u32 (fst x)"
    and "written as_u32 max_size msgs frames" "length ts = length msgs"
    and "c = Handshake \<Longrightarrow> \<forall>x\<in>set (take 1 msgs). length (snd x) \<le> AUTH_MAX_PAYLOAD"
  shows "serve_bytes es cr jc m retention from_u32 max_size ts (concat frames @ rest) c sv =
    handle_connection es cr jc m retention (zip ts (map (\<lambda>x. Frame_Read (Inr x)) msgs)) c sv"
  using assms(2-5)
proof (induction ts arbitrary: msgs frames c sv)
  case (Cons t ts)
  obtain mt payload msgs' where msgs: "msgs = (mt, payload) # msgs'" using Cons.prems(3) by (cases msgs) auto
  obtain bytes frames' where frames: "frames = bytes # frames'" and w: "write_frame as_u32 max_size mt payload = Inr bytes"
    and rest: "written as_u32 max_size msgs' frames'"
    using Cons.prems(2) by (auto simp: written_def msgs list_all2_Cons1)
  have next_one: "next_incoming from_u32 max_size c (bytes @ concat frames' @ rest) =
      (Frame_Read (Inr (mt, payload)), concat frames' @ rest)"
    by (rule next_incoming_written [OF _ assms(1) w]) (use Cons.prems(1,4) msgs in auto)
  obtain o1 c1 sv1 where step: "conn_step es cr jc m retention t (Frame_Read (Inr (mt, payload))) c sv = (o1, c1, sv1)"
    by (rule prod_cases3)
  have "serve_bytes es cr jc m retention from_u32 max_size ts (concat frames' @ rest) c1 sv1 =
      handle_connection es cr jc m retention (zip ts (map (\<lambda>x. Frame_Read (Inr x)) msgs')) c1 sv1"
    by (rule Cons.IH [OF _ rest]) (use Cons.prems(1,3) msgs conn_step_leaves_handshake [OF step] in auto)
  then show ?case by (simp add: msgs frames next_one step)
qed simp

text \<open>A peer that writes its messages as frames, the first within the pre-authentication cap, is served
  exactly as if the handlers had been given those messages.\<close>

theorem written_frames_are_handled:
  assumes "max_size < 4294967296" "\<forall>x\<in>set msgs. coded from_u32 as_u32 (fst x)"
    and "written as_u32 max_size msgs frames" "length ts = length msgs" "\<forall>x\<in>set (take 1 msgs). length (snd x) \<le> AUTH_MAX_PAYLOAD"
  shows "serve_bytes es cr jc m retention from_u32 max_size ts (concat frames @ rest) Handshake sv =
    handle_connection es cr jc m retention (zip ts (map (\<lambda>x. Frame_Read (Inr x)) msgs)) Handshake sv"
  by (rule serve_written [OF assms(1-4)]) (use assms(5) in auto)

section \<open>At concrete states\<close>

definition demo_batch :: sync_batch where
  "demo_batch = \<lparr>sb_items = [\<lparr>si_ts_ms = 1, si_message_id = ''a:x'',
       si_event = \<lparr>model_id = 1, session_id = 2, project_name_id = 0, tokens = [3, 4]\<rparr>, si_usage_total = 7\<rparr>,
     \<lparr>si_ts_ms = 2, si_message_id = ''b'', si_event = \<lparr>model_id = 1, session_id = 2, project_name_id = 9, tokens = [5]\<rparr>,
       si_usage_total = 5\<rparr>],
     sb_dict = [(1, ''m''), (2, ''s'')], sb_token_columns = [''input'', ''output''], sb_provider = ''p''\<rparr>"

definition demo_claims :: claims where
  "demo_claims = \<lparr>cl_sub = ''u'', cl_jti = ''j'', cl_typ = ''access'', cl_exp = 900, cl_iat = 0, cl_iss = None, cl_did = None\<rparr>"

definition demo_auth :: auth_payload where
  "demo_auth = \<lparr>au_jwt = plain_token ''s'' demo_claims, au_device_name = ''laptop'', au_device_key = ''d'', au_provider = ''p'',
     au_schema_version = 1, au_protocol_version = 1\<rparr>"

definition demo_crates :: sync_crates where
  "demo_crates = \<lparr>de_auth = (\<lambda>s. if s = ''a'' then Some demo_auth else None), de_get_last_ts = (\<lambda>s. Some s),
     de_batch = (\<lambda>s. if s = ''b'' then Some demo_batch else None), de_windows = (\<lambda>_. None), unzstd = (\<lambda>n s. Some (take n s)),
     uuid_ok = (\<lambda>s. s = ''d''), debug_str = (\<lambda>s. s), sort_windows = sort_key win_key,
     PROTOCOL_VERSION = 1, SCHEMA_VERSION = 1, WINDOWS_SCHEMA_VERSION = 1\<rparr>"

definition demo_device_db :: sqlite_db where
  "demo_device_db = one_user_db\<lparr>devices := [\<lparr>d_id = ''d'', d_user_id = ''u'', d_name = ''laptop'', d_device_key = Some ''d'',
     d_created_at = 0, d_last_seen_at = 0\<rparr>]\<rparr>"

definition demo_server :: "sqlite_db \<Rightarrow> (keyspace \<times> string \<times> string option) list server" where
  "demo_server db = \<lparr>sv_db = db, sv_events = [], sv_cache = new_cache, sv_rate = []\<rparr>"

definition demo_session :: session where
  "demo_session = \<lparr>sn_user = ''u'', sn_provider = ''p'', sn_device = ''d''\<rparr>"

definition demo_moment :: moment where
  "demo_moment = \<lparr>unix_secs = 5, instant = 0, wall_ms = 5000\<rparr>"

abbreviation demo_events :: "(keyspace \<times> string \<times> string option) list event_store" where
  "demo_events \<equiv> fjall_events mem_kv plain_codec (\<lambda>xs. xs)"

lemma demo_session_ok: "session_ok sample_owner demo_session"
  by (simp add: session_ok_def demo_session_def sample_owner_def nul_def char_of_def)

lemma demo_batch_ok: "batch_ok demo_batch"
  by (simp add: batch_ok_def demo_batch_def nul_def char_of_def in_i64_def i64_min_def i64_max_def)

lemma demo_incoming_ok: "incoming_ok demo_crates inc"
  using demo_batch_ok by (auto simp: incoming_ok_def demo_crates_def bind_eq_Some_conv split: if_splits)

lemma demo_stored: "stores mem_contents plain_codec sample_owner (sv_events (demo_server db)) empty_log"
  by (simp add: demo_server_def empty_stores)

lemma demo_decoded: "Option.bind (batch_bytes demo_crates False ''b'') (de_batch demo_crates) = Some demo_batch"
  by (simp add: batch_bytes_def demo_crates_def)

lemma demo_active: "user_active t ''u'' (demo_server one_user_db) =
    (Inr True, demo_server one_user_db\<lparr>sv_cache := insert_if_current (instant t) ''u'' True 0 new_cache\<rparr>)"
  "user_active t ''u'' (demo_server demo_device_db) =
    (Inr True, demo_server demo_device_db\<lparr>sv_cache := insert_if_current (instant t) ''u'' True 0 new_cache\<rparr>)"
  by (simp_all add: user_active_def is_user_active_cached_def get_fresh_def new_cache_def demo_server_def one_user_db_def
      demo_device_db_def get_user_by_id_def Let_def)

lemma demo_ack: "\<exists>sv'. on_sync_batch demo_events demo_crates 60 demo_moment demo_session False ''b'' (demo_server demo_device_db) =
    ([A_Sync_Ack 2], Serving demo_session, sv')"
proof -
  let ?sv = "demo_server demo_device_db\<lparr>sv_cache := insert_if_current 0 ''u'' True 0 new_cache\<rparr>"
  obtain db where ens: "ensure_cursor 5 ''d'' ''p'' demo_device_db = (Inr (), db)"
    by (simp add: ensure_cursor_def demo_device_db_def one_user_db_def empty_db_def insert_row_def has_device_def exists_row_def)
  have ne: "sb_items demo_batch \<noteq> []" "length (sb_items demo_batch) \<le> MAX_BATCH_SIZE"
    "max_or_0 (map si_ts_ms (sb_items demo_batch)) = 2" "sb_provider demo_batch = ''p''"
    by (simp_all add: demo_batch_def MAX_BATCH_SIZE_def max_or_0_def)
  have "stores mem_contents plain_codec sample_owner (sv_events (?sv\<lparr>sv_db := db\<rparr>)) empty_log"
    by (simp add: demo_server_def empty_stores)
  from event_contract.batch_run [OF fjall_contract [OF plain_env id_order] this demo_batch_ok demo_session_ok ne(1,2), of 60 5] ne
  obtain sv' where "handle_sync_batch demo_events 60 5 demo_batch ''u'' ''d'' ''p'' (?sv\<lparr>sv_db := db\<rparr>) = (Inr 2, sv')"
    by (auto simp: demo_session_def)
  moreover have act: "user_active demo_moment (sn_user demo_session) (demo_server demo_device_db) = (Inr True, ?sv)"
    using demo_active(2) [of demo_moment] by (simp add: demo_session_def demo_moment_def)
  have sel: "unix_secs demo_moment = 5" "sn_user demo_session = ''u''" "sn_device demo_session = ''d''" "sv_db ?sv = demo_device_db"
    by (simp_all add: demo_moment_def demo_session_def demo_server_def)
  ultimately show ?thesis
    unfolding on_sync_batch_def act demo_decoded by (simp add: sel ne(4) ens)
qed


lemma demo_backed: "cursor_backed demo_device_db empty_log"
  by (simp add: cursor_backed_def last_ts_def get_last_ts_def demo_device_db_def one_user_db_def empty_db_def)

theorem cursor_never_passes_store_witness:
  "\<exists>out c sv' L'. handle_connection demo_events demo_crates plain_jwt demo_manager 60
      [(demo_moment, Frame_Read (Inr (Sync_Batch, ''b''))), (demo_moment, Timed_Out)] (Serving demo_session) (demo_server demo_device_db) =
      (out, c, sv') \<and> stores mem_contents plain_codec sample_owner (sv_events sv') L' \<and> cursor_backed (sv_db sv') L'"
proof -
  let ?ins = "[(demo_moment, Frame_Read (Inr (Sync_Batch, ''b''))), (demo_moment, Timed_Out)]"
  obtain out c sv' where run: "handle_connection demo_events demo_crates plain_jwt demo_manager 60 ?ins
      (Serving demo_session) (demo_server demo_device_db) = (out, c, sv')" by (rule prod_cases3)
  have "\<forall>(t, inc)\<in>set ?ins. incoming_ok demo_crates inc" by (simp add: demo_incoming_ok)
  moreover have "cursor_backed (sv_db (demo_server demo_device_db)) empty_log" using demo_backed by (simp add: demo_server_def)
  ultimately show ?thesis
    using cursor_never_passes_store [OF plain_env id_order demo_stored demo_session_ok _ _ run] run by blast
qed

theorem session_writes_own_device_witness:
  "\<exists>out c sv' L'. handle_connection demo_events demo_crates plain_jwt demo_manager 60
      [(demo_moment, Frame_Read (Inr (Sync_Batch, ''b'')))] (Serving demo_session) (demo_server demo_device_db) = (out, c, sv') \<and>
    stores mem_contents plain_codec sample_owner (sv_events sv') L' \<and> rows L' (Ident ''e'' ''p'' ''a'', 1) = None"
proof -
  let ?ins = "[(demo_moment, Frame_Read (Inr (Sync_Batch, ''b'')))]"
  obtain out c sv' where run: "handle_connection demo_events demo_crates plain_jwt demo_manager 60 ?ins
      (Serving demo_session) (demo_server demo_device_db) = (out, c, sv')" by (rule prod_cases3)
  have "\<forall>(t, inc)\<in>set ?ins. incoming_ok demo_crates inc" by (simp add: demo_incoming_ok)
  from session_writes_own_device [OF plain_env id_order demo_stored demo_session_ok this run] run show ?thesis
    by (auto simp: demo_session_def empty_log_def)
qed

lemma demo_handshake: "\<exists>out sv'. handshake demo_events demo_crates plain_jwt demo_manager demo_moment
    (Frame_Read (Inr (Auth, ''a''))) (demo_server one_user_db) = (out, Serving demo_session, sv')"
proof -
  have v: "verify_access plain_jwt demo_manager 5 (plain_token ''s'' demo_claims) = Inr demo_claims"
    by (simp add: verify_access_def verify_def plain_jwt_def demo_manager_def demo_claims_def)
  have "\<exists>out sv'. authorize demo_events demo_crates plain_jwt demo_manager demo_moment demo_auth (demo_server one_user_db) =
      (out, Serving demo_session, sv')"
    using v demo_active(1) [of demo_moment]
    by (simp add: authorize_def demo_auth_def demo_crates_def demo_moment_def demo_claims_def demo_server_def
        find_or_create_device_def find_device_by_key_and_user_def create_device_def with_context_def insert_device_def
        insert_row_def has_user_def exists_row_def one_user_db_def empty_db_def open_session_def ensure_cursor_def
        has_device_def demo_session_def truncate_device_name_def)
  then show ?thesis by (auto simp: handshake_def demo_crates_def)
qed

theorem handshake_needs_authorization_witness:
  "\<exists>out sv'. handshake demo_events demo_crates plain_jwt demo_manager demo_moment (Frame_Read (Inr (Auth, ''a''))) (demo_server one_user_db) =
      (out, Serving demo_session, sv') \<and> (\<exists>r\<in>set (devices (sv_db sv')). d_id r = ''d'' \<and> d_user_id r = ''u'')"
proof -
  obtain out sv' where run: "handshake demo_events demo_crates plain_jwt demo_manager demo_moment
      (Frame_Read (Inr (Auth, ''a''))) (demo_server one_user_db) = (out, Serving demo_session, sv')"
    using demo_handshake by blast
  from handshake_needs_authorization [OF run, of demo_session] run show ?thesis by (fastforce simp: demo_session_def)
qed

theorem schema_mismatch_strands_cursors_witness:
  "\<exists>out c sv'. open_session demo_events demo_crates 9 (demo_auth\<lparr>au_schema_version := 2\<rparr>) ''u'' ''d''
      (demo_server (demo_device_db\<lparr>cursors := [\<lparr>c_device_id = ''d'', c_provider = ''q'', c_last_ts = 7, c_updated_at = 0\<rparr>]\<rparr>)) =
      (out, c, sv') \<and> last_ts ''d'' ''q'' (sv_db sv') = 7"
proof -
  let ?sv = "demo_server (demo_device_db\<lparr>cursors := [\<lparr>c_device_id = ''d'', c_provider = ''q'', c_last_ts = 7, c_updated_at = 0\<rparr>]\<rparr>)"
  let ?a = "demo_auth\<lparr>au_schema_version := 2\<rparr>"
  obtain out c sv' where run: "open_session demo_events demo_crates 9 ?a ''u'' ''d'' ?sv = (out, c, sv')" by (rule prod_cases3)
  have "nul \<notin> set ''d''" "au_schema_version ?a \<noteq> SCHEMA_VERSION demo_crates"
    by (simp_all add: nul_def char_of_def demo_crates_def)
  from schema_mismatch_strands_cursors [OF plain_env id_order demo_stored this run] run show ?thesis
    by (auto simp: demo_auth_def last_ts_def get_last_ts_def demo_server_def)
qed

theorem deactivated_session_ends_witness:
  "\<exists>out c sv'. main_loop_step demo_events demo_crates 60 demo_moment demo_session (Frame_Read (Inr (Sync_Batch, ''b'')))
      (demo_server empty_db) = (out, c, sv') \<and> out = [A_Sync_Err ''account deactivated''] \<and> sv_events sv' = []"
proof -
  let ?w = "\<lparr>db_active = (\<lambda>_. False), pending = {}, cache = new_cache, readers = Map.empty\<rparr>"
  obtain out c sv' where run: "main_loop_step demo_events demo_crates 60 demo_moment demo_session
      (Frame_Read (Inr (Sync_Batch, ''b''))) (demo_server empty_db) = (out, c, sv')" by (rule prod_cases3)
  have "get_user_by_id (sn_user demo_session) (sv_db (demo_server empty_db)) = Inr None"
    by (simp add: get_user_by_id_def demo_server_def empty_db_def)
  from deactivated_session_ends [OF cache_reachable.Start _ _ _ this _ _ run, of "\<lambda>_. False"] run show ?thesis
    by (auto simp: demo_server_def)
qed

definition demo_code :: "msg_type \<Rightarrow> nat" where
  "demo_code mt = (case mt of Auth \<Rightarrow> 1 | Ping \<Rightarrow> 2 | _ \<Rightarrow> 3)"

definition demo_uncode :: "nat \<Rightarrow> msg_type option" where
  "demo_uncode n = (if n = 1 then Some Auth else if n = 2 then Some Ping else None)"

theorem written_frames_are_handled_witness:
  "serve_bytes demo_events demo_crates plain_jwt demo_manager 60 demo_uncode 16 [demo_moment, demo_moment]
      (concat [le32 1 @ le32 1 @ ''a'', le32 2 @ le32 0] @ ''rest'') Handshake (demo_server one_user_db) =
    handle_connection demo_events demo_crates plain_jwt demo_manager 60
      [(demo_moment, Frame_Read (Inr (Auth, ''a''))), (demo_moment, Frame_Read (Inr (Ping, [])))] Handshake (demo_server one_user_db)"
  using written_frames_are_handled [of 16 "[(Auth, ''a''), (Ping, [])]" demo_uncode demo_code
      "[le32 1 @ le32 1 @ ''a'', le32 2 @ le32 0]" "[demo_moment, demo_moment]" demo_events demo_crates plain_jwt demo_manager 60
      "''rest''" "demo_server one_user_db"]
  by (simp add: coded_def demo_code_def demo_uncode_def written_def write_frame_def AUTH_MAX_PAYLOAD_def)

end
