(* ===== verification/Query.thy ===== *)
theory Query
  imports Plain
begin

text \<open>
  The virtual query language (\<open>src/src/server/handlers/metrics.rs\<close>): \<open>parse_toki_virtual_query\<close> with its
  cursor, and \<open>parse_duration_secs\<close>.

  A cursor is the text still to be read; marking a position is keeping that text, rewinding is going
  back to it. Errors are the texts the caller sees. Whitespace beyond ASCII, which \<open>trim\<close> removes,
  is the Unicode tables' answer \<open>uni\<close>.
\<close>

section \<open>Text\<close>

definition blank_char :: "(string \<Rightarrow> bool) \<Rightarrow> string \<Rightarrow> bool" where
  "blank_char uni ch =
     (case ch of [c] \<Rightarrow> if byte c < 128 then byte c = 32 \<or> (9 \<le> byte c \<and> byte c \<le> 13) else uni ch | _ \<Rightarrow> uni ch)"

definition str_trim :: "(string \<Rightarrow> bool) \<Rightarrow> string \<Rightarrow> string" where
  "str_trim uni s = concat (rev (dropWhile (blank_char uni) (rev (dropWhile (blank_char uni) (utf8_chars s)))))"

text \<open>\<open>str::parse::<i64>()\<close>: an optional sign, digits, in range.\<close>

definition digits_value :: "string \<Rightarrow> int" where
  "digits_value s = foldl (\<lambda>n c. 10 * n + (int (byte c) - 48)) 0 s"

definition parse_digits :: "string \<Rightarrow> int option" where
  "parse_digits s = (if s \<noteq> [] \<and> list_all ascii_digit s then Some (digits_value s) else None)"

definition parse_i64 :: "string \<Rightarrow> int option" where
  "parse_i64 s =
     (case (case s of
              [] \<Rightarrow> None
            | c # r \<Rightarrow> if c = CHR ''-'' then map_option uminus (parse_digits r)
                       else if c = CHR ''+'' then parse_digits r else parse_digits s) of
        None \<Rightarrow> None
      | Some n \<Rightarrow> if in_i64 n then Some n else None)"

section \<open>Durations\<close>

definition unit_secs :: "char \<Rightarrow> int option" where
  "unit_secs c =
     (if c = CHR ''d'' then Some 86400 else if c = CHR ''h'' then Some 3600 else if c = CHR ''m'' then Some 60
      else if c = CHR ''s'' then Some 1 else if c = CHR ''w'' then Some 604800 else if c = CHR ''y'' then Some 31536000
      else None)"

definition checked :: "int \<Rightarrow> int option" where
  "checked x = (if in_i64 x then Some x else None)"

text \<open>The loop over the compound form; a byte of a non-ASCII character is refused where the character is.\<close>

fun duration_loop :: "string \<Rightarrow> int \<Rightarrow> string \<Rightarrow> bool \<Rightarrow> int option" where
  "duration_loop [] acc num_buf saw_unit =
     (if num_buf \<noteq> [] \<or> \<not> saw_unit \<or> acc \<le> 0 then None else Some acc)"
| "duration_loop (c # cs) acc num_buf saw_unit =
     (if ascii_digit c then duration_loop cs acc (num_buf @ [c]) saw_unit
      else if num_buf = [] then None
      else (case parse_i64 num_buf of
              None \<Rightarrow> None
            | Some n \<Rightarrow>
                (case unit_secs c of
                   None \<Rightarrow> None
                 | Some u \<Rightarrow>
                     (case Option.bind (checked (n * u)) (\<lambda>v. checked (acc + v)) of
                        None \<Rightarrow> None
                      | Some acc \<Rightarrow> duration_loop cs acc [] True))))"

definition positive :: "int \<Rightarrow> int option" where
  "positive n = (if n > 0 then Some n else None)"

definition parse_duration :: "string \<Rightarrow> int option" where
  "parse_duration s =
     (case parse_i64 s of
        Some n \<Rightarrow> positive n
      | None \<Rightarrow>
          if s \<noteq> [] \<and> last s = CHR ''s'' \<and> butlast s \<noteq> [] \<and> list_all ascii_digit (butlast s)
          then Option.bind (parse_i64 (butlast s)) positive
          else duration_loop s 0 [] False)"

definition parse_duration_secs :: "string \<Rightarrow> int result" where
  "parse_duration_secs s =
     (case parse_duration s of None \<Rightarrow> Inl (''invalid duration: '' @ [CHR 0x27] @ s @ [CHR 0x27]) | Some n \<Rightarrow> Inr n)"

section \<open>The cursor\<close>

definition ascii_whitespace :: "char \<Rightarrow> bool" where
  "ascii_whitespace c \<longleftrightarrow> byte c \<in> {32, 9, 10, 12, 13}"

definition ident_char :: "char \<Rightarrow> bool" where
  "ident_char c \<longleftrightarrow> ascii_alnum c \<or> c = CHR ''_''"

definition skip_ws :: "string \<Rightarrow> string" where
  "skip_ws s = dropWhile ascii_whitespace s"

definition peek :: "string \<Rightarrow> char option" where
  "peek s = (case s of [] \<Rightarrow> None | c # _ \<Rightarrow> Some c)"

definition eat :: "char \<Rightarrow> string \<Rightarrow> bool \<times> string" where
  "eat b s = (let s = skip_ws s in if peek s = Some b then (True, tl s) else (False, s))"

definition ident :: "string \<Rightarrow> string option \<times> string" where
  "ident s =
     (let s = skip_ws s; w = takeWhile ident_char s
      in (if w = [] then None else Some w, dropWhile ident_char s))"

definition at_end :: "string \<Rightarrow> bool" where
  "at_end s = (skip_ws s = [])"

definition ellipsis :: string where "ellipsis = map char_of [226, 128, 166 :: nat]"

definition tail_text :: "(string \<Rightarrow> bool) \<Rightarrow> string \<Rightarrow> string" where
  "tail_text uni s =
     (let chars = utf8_chars (str_trim uni s)
      in if length chars > 40 then concat (take 40 chars) @ ellipsis else concat chars)"

definition quote :: "string \<Rightarrow> string" where
  "quote s = CHR 0x60 # s @ [CHR 0x60]"

fun quoted_loop :: "string \<Rightarrow> string \<Rightarrow> (string \<times> string) result" where
  "quoted_loop value [] = Inl ''unterminated quoted label value''"
| "quoted_loop value (c # s) =
     (if c = CHR 0x22 then Inr (value, s)
      else if c = CHR 0x5C then Inl ''escape sequences in label values are not supported''
      else quoted_loop (value @ [c]) s)"

definition quoted :: "(string \<Rightarrow> bool) \<Rightarrow> string \<Rightarrow> (string \<times> string) result" where
  "quoted uni s =
     (let s = skip_ws s
      in if peek s \<noteq> Some (CHR 0x22) then Inl (''expected a quoted label value, found '' @ quote (tail_text uni s))
         else quoted_loop [] (tl s))"

lemma eat_length: "eat b s = (x, r) \<Longrightarrow> length r \<le> length s" "eat b s = (True, r) \<Longrightarrow> length r < length s"
proof -
  have skip: "length (skip_ws s) \<le> length s" by (simp add: skip_ws_def length_dropWhile_le)
  show "eat b s = (x, r) \<Longrightarrow> length r \<le> length s"
    using skip by (auto simp: eat_def Let_def split: if_splits)
  show "eat b s = (True, r) \<Longrightarrow> length r < length s"
    using skip by (cases "skip_ws s") (auto simp: eat_def Let_def peek_def split: if_splits)
qed

lemma ident_length: "ident s = (x, r) \<Longrightarrow> length r \<le> length s" "ident s = (Some w, r) \<Longrightarrow> length r < length s"
proof -
  have skip: "length (skip_ws s) \<le> length s" by (simp add: skip_ws_def length_dropWhile_le)
  have split: "length (takeWhile ident_char (skip_ws s)) + length (dropWhile ident_char (skip_ws s)) = length (skip_ws s)"
    by (metis length_append takeWhile_dropWhile_id)
  show "ident s = (x, r) \<Longrightarrow> length r \<le> length s"
    using skip split by (auto simp: ident_def Let_def split: if_splits)
  assume "ident s = (Some w, r)"
  then have r: "r = dropWhile ident_char (skip_ws s)" and "length (takeWhile ident_char (skip_ws s)) \<noteq> 0"
    by (auto simp: ident_def Let_def split: if_splits)
  with skip split show "length r < length s" unfolding r by linarith
qed

lemma quoted_loop_length: "quoted_loop v s = Inr (w, r) \<Longrightarrow> length r < length s"
  by (induction v s rule: quoted_loop.induct) (auto split: if_splits)

lemma quoted_length: "quoted uni s = Inr (w, r) \<Longrightarrow> length r < length s"
proof -
  assume q: "quoted uni s = Inr (w, r)"
  have "length (skip_ws s) \<le> length s" by (simp add: skip_ws_def length_dropWhile_le)
  moreover have "length r < length (tl (skip_ws s))"
    using q by (auto simp: quoted_def Let_def split: if_splits dest: quoted_loop_length)
  ultimately show ?thesis by simp
qed

function by_labels_loop :: "(string \<Rightarrow> bool) \<Rightarrow> string list \<Rightarrow> string \<Rightarrow> (string list \<times> string) result" where
  "by_labels_loop uni labels s =
     (case eat (CHR '')'') s of
        (True, s) \<Rightarrow> Inr (labels, s)
      | (False, s) \<Rightarrow>
          (case ident s of
             (None, s) \<Rightarrow> Inl (''expected a label name in '' @ quote ''by (...)'' @ '', found '' @ quote (tail_text uni s))
           | (Some label, s) \<Rightarrow>
               (case eat (CHR '','') s of
                  (True, s) \<Rightarrow> by_labels_loop uni (labels @ [label]) s
                | (False, s) \<Rightarrow>
                    (case eat (CHR '')'') s of
                       (True, s) \<Rightarrow> Inr (labels @ [label], s)
                     | (False, s) \<Rightarrow> Inl (''expected '' @ quote '','' @ '' or '' @ quote '')'' @ '' in '' @ quote ''by (...)'' @
                          '', found '' @ quote (tail_text uni s))))))"
  by pat_completeness auto
termination
  by (relation "measure (\<lambda>(_, _, s). length s)") (auto dest!: eat_length(1) [OF sym] ident_length(2) [OF sym])

declare by_labels_loop.simps [simp del]

definition by_labels :: "(string \<Rightarrow> bool) \<Rightarrow> string \<Rightarrow> (string list \<times> string) result" where
  "by_labels uni s =
     (case eat (CHR ''('') s of
        (False, _) \<Rightarrow> Inl (quote ''by'' @ '' must be followed by '' @ quote ''(...)'')
      | (True, s) \<Rightarrow>
          (case by_labels_loop uni [] s of
             Inl e \<Rightarrow> Inl e
           | Inr (labels, s) \<Rightarrow>
               if labels = [] then Inl (quote ''by ()'' @ '' needs at least one label'') else Inr (labels, s)))"

section \<open>The query\<close>

record parsed_query =
  is_cost :: bool
  is_events :: bool
  raw_events :: bool
  group_by :: string
  pq_provider :: "string option"

text \<open>\<open>sum (...)\<close> or \<open>sum by (...) (...)\<close>: the labels, if the wrapper is there, and the text inside it.\<close>

definition parse_wrapper :: "(string \<Rightarrow> bool) \<Rightarrow> string \<Rightarrow> (string list option \<times> string) result" where
  "parse_wrapper uni mark =
     (case ident mark of
        (None, s) \<Rightarrow> Inr (None, s)
      | (Some i, s) \<Rightarrow>
          (let s = skip_ws s;
               found = (\<lambda>labels s.
                 if i \<noteq> ''sum''
                 then Inl (quote (i @ ''(...)'') @ '' is not supported by the sync backend; the only aggregation it computes is '' @
                        quote ''sum'')
                 else (case eat (CHR ''('') s of
                         (False, s) \<Rightarrow> Inl (quote ''sum'' @ '' must be followed by a parenthesised expression, found '' @
                            quote (tail_text uni s))
                       | (True, s) \<Rightarrow> Inr (Some labels, s)))
           in if peek s = Some (CHR ''('') \<and> i \<noteq> ''increase'' then found [] s
              else
                (case ident s of
                   (Some w, s1) \<Rightarrow>
                     if w = ''by''
                     then (case by_labels uni s1 of
                             Inl e \<Rightarrow> Inl e
                           | Inr (labels, s2) \<Rightarrow>
                               if peek (skip_ws s2) = Some (CHR ''('') then found labels (skip_ws s2) else Inr (None, mark))
                     else Inr (None, mark)
                 | (None, _) \<Rightarrow> Inr (None, mark))))"

definition parse_increase :: "string \<Rightarrow> (bool \<times> string) result" where
  "parse_increase mark =
     (case ident mark of
        (None, s) \<Rightarrow> Inr (False, s)
      | (Some i, s) \<Rightarrow>
          (let s = skip_ws s
           in if peek s = Some (CHR ''('')
              then if i \<noteq> ''increase''
                   then Inl (''function '' @ quote i @ '' is not supported by the sync backend; it only understands '' @
                          quote ''increase'')
                   else Inr (True, tl s)
              else Inr (False, mark)))"

definition parse_metric :: "(string \<Rightarrow> bool) \<Rightarrow> string \<Rightarrow> ((bool \<times> bool) \<times> string) result" where
  "parse_metric uni s =
     (case ident s of
        (None, s) \<Rightarrow> Inl (''expected a metric name, found '' @ quote (tail_text uni s))
      | (Some m, s) \<Rightarrow>
          if m = ''usage'' \<or> m = ''toki_tokens_total'' then Inr ((False, False), s)
          else if m = ''cost'' then Inr ((True, False), s)
          else if m = ''events'' then Inr ((False, True), s)
          else if m = ''windows''
          then Inl (''metric '' @ quote ''windows'' @ '' is only available on the sync backend as the bare query '' @ quote ''windows'')
          else if m = ''sessions'' \<or> m = ''projects''
          then Inl (''metric '' @ quote m @ '' is only available from the local daemon, not the sync backend'')
          else Inl (''unknown metric '' @ quote m @ ''; the sync backend understands '' @ quote ''usage'' @ '', '' @ quote ''cost'' @
                 '' and '' @ quote ''events''))"

definition matcher_op :: "string \<Rightarrow> string option" where
  "matcher_op s =
     (case s of
        [] \<Rightarrow> None
      | c # r \<Rightarrow>
          if c = CHR ''='' \<and> peek r = Some (CHR 0x7E) then Some [CHR ''='', CHR 0x7E]
          else if c = CHR ''!'' \<and> peek r = Some (CHR 0x7E) then Some [CHR ''!'', CHR 0x7E]
          else if c = CHR ''!'' \<and> peek r = Some (CHR ''='') then Some ''!=''
          else if c = CHR ''='' then Some ''='' else None)"

text \<open>One matcher: the key, the operator and the value, then the checks in the order of the source.\<close>

definition parse_matcher :: "(string \<Rightarrow> bool) \<Rightarrow> string option \<Rightarrow> string \<Rightarrow> (string \<times> string) result" where
  "parse_matcher uni prov s =
     (case ident s of
        (None, s) \<Rightarrow> Inl (''expected a label name in '' @ quote ''{...}'' @ '', found '' @ quote (tail_text uni s))
      | (Some key, s) \<Rightarrow>
          (let s = skip_ws s
           in (case matcher_op s of
                 None \<Rightarrow> Inl (''expected a label matcher after '' @ quote key @ '', found '' @ quote (tail_text uni s))
               | Some op \<Rightarrow>
                   if op \<noteq> ''='' then Inl (''label matcher '' @ quote op @ '' is not supported by the sync backend; only '' @
                       quote ''='' @ '' is'')
                   else (case quoted uni (drop (length op) s) of
                           Inl e \<Rightarrow> Inl e
                         | Inr (v, s) \<Rightarrow>
                             if key \<noteq> ''provider''
                             then Inl (''filter on '' @ quote key @ '' is not supported by the sync backend; it can only filter on '' @
                                    quote ''provider'')
                             else if v = [] then Inl (quote ''provider'' @ '' filter must not be empty'')
                             else if prov \<noteq> None \<and> prov \<noteq> Some v then Inl (''conflicting '' @ quote ''provider'' @ '' filters'')
                             else Inr (v, s)))))"

lemma parse_matcher_length: "parse_matcher uni prov s = Inr (v, r) \<Longrightarrow> length r < length s"
proof -
  assume p: "parse_matcher uni prov s = Inr (v, r)"
  obtain x s1 where i: "ident s = (x, s1)" by fastforce
  then have "length s1 \<le> length s" by (rule ident_length(1))
  moreover have "length (skip_ws s1) \<le> length s1" by (simp add: skip_ws_def length_dropWhile_le)
  moreover have "\<exists>n. quoted uni (drop n (skip_ws s1)) = Inr (v, r)"
    using p i by (auto simp: parse_matcher_def Let_def split: option.splits if_splits sum.splits prod.splits)
  ultimately show ?thesis by (auto dest!: quoted_length)
qed

function filters_loop :: "(string \<Rightarrow> bool) \<Rightarrow> string option \<Rightarrow> string \<Rightarrow> (string option \<times> string) result" where
  "filters_loop uni prov s =
     (case eat (CHR ''}'') s of
        (True, s) \<Rightarrow> Inr (prov, s)
      | (False, s) \<Rightarrow>
          (case parse_matcher uni prov s of
             Inl e \<Rightarrow> Inl e
           | Inr (v, s) \<Rightarrow>
               (case eat (CHR '','') s of
                  (True, s) \<Rightarrow> filters_loop uni (Some v) s
                | (False, s) \<Rightarrow>
                    (case eat (CHR ''}'') s of
                       (True, s) \<Rightarrow> Inr (Some v, s)
                     | (False, s) \<Rightarrow> Inl (''expected '' @ quote '','' @ '' or '' @ quote ''}'' @ '' in '' @ quote ''{...}'' @
                          '', found '' @ quote (tail_text uni s))))))"
  by pat_completeness auto
termination
  by (relation "measure (\<lambda>(_, _, s). length s)") (auto dest!: eat_length(1) [OF sym] parse_matcher_length)

declare filters_loop.simps [simp del]

definition parse_filters :: "(string \<Rightarrow> bool) \<Rightarrow> string \<Rightarrow> (string option \<times> string) result" where
  "parse_filters uni s =
     (case eat (CHR ''{'') s of (True, s) \<Rightarrow> filters_loop uni None s | (False, s) \<Rightarrow> Inr (None, s))"

definition parse_bucket :: "(string \<Rightarrow> bool) \<Rightarrow> string \<Rightarrow> (bool \<times> string) result" where
  "parse_bucket uni s =
     (case eat (CHR ''['') s of
        (False, s) \<Rightarrow> Inr (False, s)
      | (True, s) \<Rightarrow>
          (let raw = str_trim uni (takeWhile (\<lambda>c. c \<noteq> CHR '']'') s)
           in (case eat (CHR '']'') (dropWhile (\<lambda>c. c \<noteq> CHR '']'') s) of
                 (False, _) \<Rightarrow> Inl (''unterminated '' @ quote ''['' @ '' range selector'')
               | (True, s) \<Rightarrow>
                   if is_ok (parse_duration_secs raw) then Inr (True, s)
                   else Inl (''invalid range '' @ quote (''['' @ raw @ '']'')))))"

definition refuse_offset :: "string \<Rightarrow> string result" where
  "refuse_offset mark =
     (case ident mark of
        (Some i, _) \<Rightarrow> if i = ''offset'' then Inl (quote ''offset'' @ '' is not supported by the sync backend'') else Inr mark
      | (None, s) \<Rightarrow> Inr s)"

fun close_parens :: "(string \<Rightarrow> bool) \<Rightarrow> nat \<Rightarrow> string \<Rightarrow> string result" where
  "close_parens uni 0 s = Inr s"
| "close_parens uni (Suc n) s =
     (case eat (CHR '')'') s of
        (True, s) \<Rightarrow> close_parens uni n s
      | (False, s) \<Rightarrow> Inl (''unbalanced parentheses; expected '' @ quote '')'' @ '', found '' @ quote (tail_text uni s)))"

definition parse_trailing_by :: "(string \<Rightarrow> bool) \<Rightarrow> string list \<Rightarrow> string \<Rightarrow> (string list \<times> string) result" where
  "parse_trailing_by uni labels mark =
     (case ident mark of
        (None, s) \<Rightarrow> Inr (labels, s)
      | (Some i, s) \<Rightarrow>
          if i = ''by''
          then if labels \<noteq> [] then Inl (''duplicate '' @ quote ''by (...)'' @ '' clause'') else by_labels uni s
          else Inr (labels, mark))"

fun join_labels :: "string list \<Rightarrow> string" where
  "join_labels [] = []"
| "join_labels [l] = l"
| "join_labels (l # ls) = l @ '', '' @ join_labels ls"

fun select_label :: "string list \<Rightarrow> string option \<Rightarrow> string list \<Rightarrow> string option result" where
  "select_label all selected [] = Inr selected"
| "select_label all selected (l # ls) =
     (if l = ''type'' then select_label all selected ls
      else if l = ''model'' \<or> l = ''project'' \<or> l = ''device_id''
      then if selected \<noteq> None \<and> selected \<noteq> Some l
           then Inl (''the sync backend can group by only one label, got '' @ quote (join_labels all))
           else select_label all (Some l) ls
      else Inl (''group-by label '' @ quote l @ '' is not supported by the sync backend; use '' @ quote ''model'' @ '', '' @
             quote ''project'' @ '' or '' @ quote ''device_id''))"

text \<open>From the label matchers to the closing parentheses: the provider, whether there is a range, and the
  rest; then the grouping, which must end the text.\<close>

definition parse_selector :: "(string \<Rightarrow> bool) \<Rightarrow> nat \<Rightarrow> string \<Rightarrow> ((string option \<times> bool) \<times> string) result" where
  "parse_selector uni open_parens s =
     res_bind (parse_filters uni s) (\<lambda>(prov, s).
     res_bind (parse_bucket uni s) (\<lambda>(bucket, s).
     res_bind (refuse_offset s) (\<lambda>s.
     res_bind (close_parens uni open_parens s) (\<lambda>s. Inr ((prov, bucket), s)))))"

definition parse_grouping :: "(string \<Rightarrow> bool) \<Rightarrow> string list \<Rightarrow> string \<Rightarrow> (string list \<times> string option) result" where
  "parse_grouping uni outer s =
     res_bind (parse_trailing_by uni outer s) (\<lambda>(labels, s).
     if \<not> at_end s then Inl (''unexpected trailing input '' @ quote (tail_text uni (skip_ws s)))
     else res_bind (select_label labels None labels) (\<lambda>selected. Inr (labels, selected)))"

definition parse_toki_virtual_query :: "(string \<Rightarrow> bool) \<Rightarrow> string \<Rightarrow> parsed_query result" where
  "parse_toki_virtual_query uni q =
     (if at_end q then Inl ''the query is empty''
      else
        res_bind (parse_wrapper uni q) (\<lambda>(wrapper, s).
        res_bind (parse_increase s) (\<lambda>(increase, s).
        res_bind (parse_metric uni s) (\<lambda>((cost, events), s).
        res_bind (parse_selector uni (of_bool (wrapper \<noteq> None) + of_bool increase) s) (\<lambda>((prov, bucket), s).
        res_bind (parse_grouping uni (case wrapper of Some ls \<Rightarrow> ls | None \<Rightarrow> []) s) (\<lambda>(labels, selected).
        Inr \<lparr>is_cost = cost, is_events = events,
          raw_events = (events \<and> \<not> (wrapper \<noteq> None \<or> increase) \<and> \<not> bucket \<and> labels = []),
          group_by = (case selected of Some l \<Rightarrow> l | None \<Rightarrow> ''model''), pq_provider = prov\<rparr>))))))"

end
