(* ===== verification/Query_Language.thy ===== *)
theory Query_Language
  imports Query
begin

text \<open>
  The query language as its documented grammar: an abstract syntax \<open>query\<close>, its rendering with any
  whitespace \<open>w\<close> between the tokens, and its meaning. The parser reads every rendering of a query
  the server can answer back as that query's meaning.
\<close>

datatype metric = Usage | Tokens_Total | Cost | Event_Count

record query =
  q_sum :: "string list option"
  q_increase :: bool
  q_metric :: metric
  q_provider :: "string option"
  q_range :: "string option"
  q_by :: "string list"

definition metric_name :: "metric \<Rightarrow> string" where
  "metric_name m = (case m of Usage \<Rightarrow> ''usage'' | Tokens_Total \<Rightarrow> ''toki_tokens_total'' | Cost \<Rightarrow> ''cost'' | Event_Count \<Rightarrow> ''events'')"

fun render_labels :: "string \<Rightarrow> string list \<Rightarrow> string" where
  "render_labels w [] = []"
| "render_labels w [l] = w @ l"
| "render_labels w (l # ls) = w @ l @ w @ '','' @ render_labels w ls"

definition render_by :: "string \<Rightarrow> string list \<Rightarrow> string" where
  "render_by w ls = w @ ''by'' @ w @ ''('' @ render_labels w ls @ w @ '')''"

definition render_filter :: "string \<Rightarrow> string option \<Rightarrow> string" where
  "render_filter w p =
     (case p of None \<Rightarrow> [] | Some v \<Rightarrow> w @ ''{'' @ w @ ''provider'' @ w @ ''='' @ w @ [CHR 0x22] @ v @ [CHR 0x22] @ w @ ''}'')"

definition render_range :: "string \<Rightarrow> string option \<Rightarrow> string" where
  "render_range w r = (case r of None \<Rightarrow> [] | Some d \<Rightarrow> w @ ''['' @ d @ '']'')"

definition render_closing :: "string \<Rightarrow> bool \<Rightarrow> string" where
  "render_closing w b = (if b then w @ '')'' else [])"

definition render_trailing :: "string \<Rightarrow> string list \<Rightarrow> string" where
  "render_trailing w ls = (if ls = [] then [] else '' '' @ render_by w ls)"

definition render_rest :: "string \<Rightarrow> query \<Rightarrow> string" where
  "render_rest w q = render_filter w (q_provider q) @ render_range w (q_range q) @ render_closing w (q_increase q) @
     render_closing w (q_sum q \<noteq> None) @ render_trailing w (q_by q) @ w"

definition render_metric :: "string \<Rightarrow> query \<Rightarrow> string" where
  "render_metric w q = w @ metric_name (q_metric q) @ render_rest w q"

definition render_inner :: "string \<Rightarrow> query \<Rightarrow> string" where
  "render_inner w q = (if q_increase q then w @ ''increase'' @ w @ ''('' else []) @ render_metric w q"

definition render :: "string \<Rightarrow> query \<Rightarrow> string" where
  "render w q =
     (case q_sum q of
        None \<Rightarrow> []
      | Some ls \<Rightarrow> w @ ''sum'' @ (if ls = [] then [] else '' '' @ render_by w ls) @ w @ ''('') @ render_inner w q"

definition q_labels :: "query \<Rightarrow> string list" where
  "q_labels q = (if q_by q = [] then (case q_sum q of Some ls \<Rightarrow> ls | None \<Rightarrow> []) else q_by q)"

definition meaning :: "query \<Rightarrow> parsed_query" where
  "meaning q = \<lparr>is_cost = (q_metric q = Cost), is_events = (q_metric q = Event_Count),
     raw_events = (q_metric q = Event_Count \<and> q_sum q = None \<and> \<not> q_increase q \<and> q_range q = None \<and> q_by q = []),
     group_by = (case filter (\<lambda>l. l \<noteq> ''type'') (q_labels q) of [] \<Rightarrow> ''model'' | l # _ \<Rightarrow> l),
     pq_provider = q_provider q\<rparr>"

text \<open>What the server can answer: one grouping label beside \<open>type\<close>, a non-empty provider without
  quotes and escapes, a positive range, one \<open>by\<close> clause.\<close>

definition label_set :: "string set" where "label_set = {''model'', ''project'', ''device_id'', ''type''}"

definition answerable :: "(string \<Rightarrow> bool) \<Rightarrow> query \<Rightarrow> bool" where
  "answerable uni q \<longleftrightarrow>
     set (q_labels q) \<subseteq> label_set \<and> (case q_sum q of Some ls \<Rightarrow> set ls \<subseteq> label_set \<and> (ls = [] \<or> q_by q = []) | None \<Rightarrow> True) \<and>
     length (remdups (filter (\<lambda>l. l \<noteq> ''type'') (q_labels q))) \<le> 1 \<and>
     (case q_provider q of Some v \<Rightarrow> v \<noteq> [] \<and> CHR 0x22 \<notin> set v \<and> CHR 0x5C \<notin> set v | None \<Rightarrow> True) \<and>
     (case q_range q of Some d \<Rightarrow> CHR '']'' \<notin> set d \<and> is_ok (parse_duration_secs (str_trim uni d)) | None \<Rightarrow> True)"

section \<open>Tokens\<close>

named_theorems lexing \<open>the cursor on rendered text\<close>

definition ws :: "string \<Rightarrow> bool" where "ws w \<longleftrightarrow> list_all ascii_whitespace w"

text \<open>\<open>stops s\<close>: no identifier continues into \<open>s\<close>.\<close>

definition stops :: "string \<Rightarrow> bool" where "stops s \<longleftrightarrow> (case s of [] \<Rightarrow> True | c # _ \<Rightarrow> \<not> ident_char c)"

definition word :: "string \<Rightarrow> bool" where "word s \<longleftrightarrow> s \<noteq> [] \<and> list_all ident_char s"

lemma ident_not_blank: "ident_char c \<Longrightarrow> \<not> ascii_whitespace c"
  by (auto simp: ident_char_def ascii_alnum_def ascii_digit_def ascii_lower_def ascii_upper_def ascii_whitespace_def byte_def)

lemma blank_not_ident: "ascii_whitespace c \<Longrightarrow> \<not> ident_char c"
  using ident_not_blank by blast

lemma skip_ws_append [lexing]: "ws w \<Longrightarrow> skip_ws (w @ s) = skip_ws s"
  by (auto simp: skip_ws_def ws_def list_all_iff)

lemma skip_ws_word [lexing]: "word v \<Longrightarrow> skip_ws (v @ s) = v @ s"
  by (cases v) (auto simp: word_def skip_ws_def ident_not_blank)

lemma skip_ws_char [lexing]: "\<not> ascii_whitespace c \<Longrightarrow> skip_ws (c # s) = c # s"
  by (simp add: skip_ws_def)

lemma skip_ws_blank [lexing]: "skip_ws (CHR '' '' # s) = skip_ws s" "skip_ws [] = []"
  by (simp_all add: skip_ws_def ascii_whitespace_def byte_def)

lemma skip_ws_only [lexing]: "ws w \<Longrightarrow> skip_ws w = []"
  using skip_ws_append [of w "[]"] by (simp add: skip_ws_blank)

lemma eat_ws [lexing]: "ws w \<Longrightarrow> eat b (w @ s) = eat b s"
  by (simp add: eat_def skip_ws_append)

lemma eat_char [lexing]: "\<not> ascii_whitespace c \<Longrightarrow> eat b (c # s) = (if b = c then (True, s) else (False, c # s))"
  by (simp add: eat_def skip_ws_char peek_def)

lemma eat_end [lexing]: "eat b [] = (False, [])"
  by (simp add: eat_def skip_ws_def peek_def)

lemma eat_blank [lexing]: "eat b (CHR '' '' # s) = eat b s"
  by (simp add: eat_def skip_ws_blank)

lemma ident_ws [lexing]: "ws w \<Longrightarrow> ident (w @ s) = ident s"
  by (simp add: ident_def skip_ws_append)

lemma ident_blank [lexing]: "ident (CHR '' '' # s) = ident s"
  by (simp add: ident_def skip_ws_blank)

lemma takeWhile_word: "word v \<Longrightarrow> stops s \<Longrightarrow> takeWhile ident_char (v @ s) = v \<and> dropWhile ident_char (v @ s) = s"
proof -
  assume "word v" "stops s"
  moreover have "takeWhile ident_char s = [] \<and> dropWhile ident_char s = s"
    using \<open>stops s\<close> by (cases s) (auto simp: stops_def)
  ultimately show ?thesis by (simp add: word_def list_all_iff takeWhile_append dropWhile_append)
qed

lemma ident_word [lexing]: "word v \<Longrightarrow> stops s \<Longrightarrow> ident (v @ s) = (Some v, s)"
  using takeWhile_word by (simp add: ident_def skip_ws_word word_def)

lemma ident_other [lexing]: "\<not> ident_char c \<Longrightarrow> \<not> ascii_whitespace c \<Longrightarrow> ident (c # s) = (None, c # s)"
  by (simp add: ident_def skip_ws_char)

lemma ident_end [lexing]: "ident [] = (None, [])"
  by (simp add: ident_def skip_ws_def)

lemma only_ws [lexing]: "ws w \<Longrightarrow> ident w = (None, [])" "ws w \<Longrightarrow> eat b w = (False, [])" "ws w \<Longrightarrow> stops w"
  using ident_ws [of w "[]"] eat_ws [of w b "[]"] by (cases w; auto simp: ident_end eat_end stops_def ws_def blank_not_ident)+

lemma stops_simps [lexing]: "stops []" "stops (c # s) \<longleftrightarrow> \<not> ident_char c"
  by (simp_all add: stops_def)

lemma stops_ws [lexing]: "ws w \<Longrightarrow> stops s \<Longrightarrow> stops (w @ s)"
  by (cases w) (auto simp: ws_def stops_def blank_not_ident)

lemma peek_Cons [lexing]: "peek (c # s) = Some c" "peek [] = None"
  by (simp_all add: peek_def)

lemma punctuation [lexing]:
  "\<not> ascii_whitespace (CHR ''('')" "\<not> ascii_whitespace (CHR '')'')" "\<not> ascii_whitespace (CHR ''{'')"
  "\<not> ascii_whitespace (CHR ''}'')" "\<not> ascii_whitespace (CHR ''['')" "\<not> ascii_whitespace (CHR '']'')"
  "\<not> ascii_whitespace (CHR '','')" "\<not> ascii_whitespace (CHR ''='')" "\<not> ascii_whitespace (CHR 0x22)"
  "\<not> ident_char (CHR ''('')" "\<not> ident_char (CHR '')'')" "\<not> ident_char (CHR ''{'')" "\<not> ident_char (CHR ''}'')"
  "\<not> ident_char (CHR ''['')" "\<not> ident_char (CHR '']'')" "\<not> ident_char (CHR '','')" "\<not> ident_char (CHR ''='')"
  "\<not> ident_char (CHR 0x22)" "\<not> ident_char (CHR '' '')"
  by (simp_all add: ascii_whitespace_def ident_char_def ascii_alnum_def ascii_digit_def ascii_lower_def ascii_upper_def byte_def)

lemma words [lexing]:
  "word ''sum''" "word ''increase''" "word ''by''" "word ''provider''" "word (metric_name m)"
  "l \<in> label_set \<Longrightarrow> word l"
  by (auto simp: word_def metric_name_def label_set_def ident_char_def ascii_alnum_def ascii_digit_def
      ascii_lower_def ascii_upper_def byte_def split: metric.split)

lemma letters [lexing]:
  "\<not> ascii_whitespace (CHR ''s'')" "\<not> ascii_whitespace (CHR ''i'')" "\<not> ascii_whitespace (CHR ''b'')" "\<not> ascii_whitespace (CHR ''p'')"
  by (simp_all add: ascii_whitespace_def byte_def)

lemma keyword_idents [lexing]:
  "stops s \<Longrightarrow> ident (CHR ''s'' # CHR ''u'' # CHR ''m'' # s) = (Some ''sum'', s)"
  "stops s \<Longrightarrow> ident (CHR ''b'' # CHR ''y'' # s) = (Some ''by'', s)"
  "stops s \<Longrightarrow> ident (CHR ''i'' # CHR ''n'' # CHR ''c'' # CHR ''r'' # CHR ''e'' # CHR ''a'' # CHR ''s'' # CHR ''e'' # s) = (Some ''increase'', s)"
  "stops s \<Longrightarrow> ident (CHR ''p'' # CHR ''r'' # CHR ''o'' # CHR ''v'' # CHR ''i'' # CHR ''d'' # CHR ''e'' # CHR ''r'' # s) = (Some ''provider'', s)"
  using ident_word [OF words(1)] ident_word [OF words(3)] ident_word [OF words(2)] ident_word [OF words(4)] by simp_all

lemma eat_word [lexing]: "word v \<Longrightarrow> \<not> ident_char b \<Longrightarrow> eat b (v @ s) = (False, v @ s)"
  by (cases v) (auto simp: word_def eat_def skip_ws_char ident_not_blank peek_def Let_def)

text \<open>Texts that differ in leading whitespace only.\<close>

definition eqv :: "string \<Rightarrow> string \<Rightarrow> bool" where "eqv s t \<longleftrightarrow> skip_ws s = skip_ws t"

lemma eqv_refl [simp]: "eqv s s" by (simp add: eqv_def)

lemma skip_ws_idem [simp]: "skip_ws (skip_ws s) = skip_ws s"
  by (simp add: skip_ws_def)

lemma eqv_skip [simp]: "eqv (skip_ws s) t \<longleftrightarrow> eqv s t"
  by (simp add: eqv_def)

lemma eqv_cong:
  assumes "eqv s t"
  shows "eat b s = eat b t" "ident s = ident t" "at_end s = at_end t" "peek (skip_ws s) = peek (skip_ws t)"
  using assms by (simp_all add: eqv_def eat_def ident_def at_end_def)

section \<open>Each stage on its rendering\<close>

lemma by_labels_loop_rendered:
  "ws w \<Longrightarrow> ls \<noteq> [] \<Longrightarrow> set ls \<subseteq> label_set \<Longrightarrow>
    by_labels_loop uni acc (render_labels w ls @ w @ CHR '')'' # s) = Inr (acc @ ls, s)"
proof (induction w ls arbitrary: acc rule: render_labels.induct)
  case (2 w l)
  then show ?case by (subst by_labels_loop.simps) (simp add: lexing)
next
  case (3 w l l' ls)
  then show ?case by (subst by_labels_loop.simps) (simp add: lexing)
qed simp

lemma by_labels_rendered:
  assumes "ws w" "ls \<noteq> []" "set ls \<subseteq> label_set"
  shows "by_labels uni (w @ CHR ''('' # render_labels w ls @ w @ CHR '')'' # s) = Inr (ls, s)"
  using by_labels_loop_rendered [OF assms, of uni "[]"] assms by (simp add: by_labels_def lexing)

lemma quoted_loop_rendered:
  "CHR 0x22 \<notin> set v \<Longrightarrow> CHR 0x5C \<notin> set v \<Longrightarrow> quoted_loop acc (v @ CHR 0x22 # s) = Inr (acc @ v, s)"
  by (induction v arbitrary: acc) auto

lemma filter_rendered:
  assumes "ws w" "case p of Some v \<Rightarrow> v \<noteq> [] \<and> CHR 0x22 \<notin> set v \<and> CHR 0x5C \<notin> set v | None \<Rightarrow> True"
    and "p = None \<Longrightarrow> peek (skip_ws s) \<noteq> Some (CHR ''{'')"
  shows "\<exists>s'. parse_filters uni (render_filter w p @ s) = Inr (p, s') \<and> eqv s' s"
proof (cases p)
  case None
  then show ?thesis using assms(3) by (simp add: parse_filters_def render_filter_def eat_def Let_def)
next
  case (Some v)
  have q: "quoted uni (w @ CHR 0x22 # v @ CHR 0x22 # t) = Inr (v, t)" for t
    using assms(1,2) Some quoted_loop_rendered [of v "[]"] by (simp add: quoted_def Let_def lexing)
  have "matcher_op (CHR ''='' # w @ CHR 0x22 # t) = Some ''=''" for t
    using assms(1) by (cases w) (auto simp: matcher_op_def peek_def ws_def ascii_whitespace_def byte_def)
  then have "parse_matcher uni None (''provider'' @ w @ CHR ''='' # w @ CHR 0x22 # v @ CHR 0x22 # t) = Inr (v, t)" for t
    using assms(1,2) Some q by (simp add: parse_matcher_def Let_def lexing)
  note m = this [simplified]
  have "filters_loop uni None (w @ ''provider'' @ w @ CHR ''='' # w @ CHR 0x22 # v @ CHR 0x22 # w @ CHR ''}'' # s) = Inr (p, s)"
    using assms(1) Some m by (subst filters_loop.simps) (simp add: lexing)
  then show ?thesis using assms(1) Some by (simp add: parse_filters_def render_filter_def lexing)
qed

lemma range_rendered:
  assumes "ws w" "case r of Some d \<Rightarrow> CHR '']'' \<notin> set d \<and> is_ok (parse_duration_secs (str_trim uni d)) | None \<Rightarrow> True"
    and "r = None \<Longrightarrow> peek (skip_ws s) \<noteq> Some (CHR ''['')" "eqv s0 (render_range w r @ s)"
  shows "\<exists>s'. parse_bucket uni s0 = Inr (r \<noteq> None, s') \<and> eqv s' s"
proof (cases r)
  case None
  with assms(4) have same: "eqv s0 s" by (simp add: render_range_def)
  show ?thesis using None assms(3) same eqv_cong(4) [OF same] by (simp add: parse_bucket_def eat_def Let_def)
next
  case (Some d)
  have "takeWhile (\<lambda>c. c \<noteq> CHR '']'') (d @ CHR '']'' # s) = d" "dropWhile (\<lambda>c. c \<noteq> CHR '']'') (d @ CHR '']'' # s) = CHR '']'' # s"
    using assms(2) Some by (auto simp: takeWhile_append dropWhile_append)
  then show ?thesis using assms(1,2) Some
    by (simp add: parse_bucket_def render_range_def eqv_cong(1) [OF assms(4)] lexing)
qed

definition closings :: "string \<Rightarrow> query \<Rightarrow> string" where
  "closings w q = render_closing w (q_increase q) @ render_closing w (q_sum q \<noteq> None) @ render_trailing w (q_by q) @ w"

lemma head_of_trailing:
  assumes "ws w"
  shows "skip_ws (render_trailing w ls @ w) = [] \<and> ls = [] \<or>
    (\<exists>s. skip_ws (render_trailing w ls @ w) = CHR ''b'' # CHR ''y'' # w @ CHR ''('' # s)"
  using assms by (auto simp: render_trailing_def render_by_def lexing)

lemma head_of_closings:
  assumes "ws w"
  shows "skip_ws (closings w q) = [] \<or> (\<exists>s. skip_ws (closings w q) = CHR '')'' # s) \<or>
    (\<exists>s. skip_ws (closings w q) = CHR ''b'' # CHR ''y'' # w @ CHR ''('' # s)"
  using head_of_trailing [OF assms] assms by (auto simp: closings_def render_closing_def lexing)

lemma offset_rendered:
  assumes "ws w" "eqv s0 (closings w q)"
  shows "\<exists>s'. refuse_offset s0 = Inr s' \<and> eqv s' (closings w q)"
proof -
  have i: "ident s0 = ident (skip_ws (closings w q))" using eqv_cong(2) [OF assms(2)] by (simp add: ident_def)
  from head_of_closings [OF assms(1), of q] show ?thesis
  proof (elim disjE exE)
    assume "skip_ws (closings w q) = []"
    then show ?thesis using i by (auto simp: refuse_offset_def lexing eqv_def)
  next
    fix s assume h: "skip_ws (closings w q) = CHR '')'' # s"
    then show ?thesis using i by (auto simp: refuse_offset_def lexing eqv_def)
  next
    fix s assume "skip_ws (closings w q) = CHR ''b'' # CHR ''y'' # w @ CHR ''('' # s"
    then show ?thesis using i assms by (auto simp: refuse_offset_def lexing)
  qed
qed

lemma closing_rendered:
  assumes "ws w" "eqv s0 (render_closing w b @ s)"
  shows "\<exists>s'. close_parens uni (of_bool b + n) s0 = close_parens uni n s' \<and> eqv s' s"
  using assms(2) eqv_cong(1) [OF assms(2)] assms(1) by (cases b) (auto simp: render_closing_def lexing)

lemma closings_rendered:
  assumes "ws w" "eqv s0 (closings w q)"
  shows "\<exists>s'. close_parens uni (of_bool (q_sum q \<noteq> None) + of_bool (q_increase q)) s0 = Inr s' \<and> eqv s' (render_trailing w (q_by q) @ w)"
proof -
  obtain s1 where s1: "close_parens uni (of_bool (q_increase q) + of_bool (q_sum q \<noteq> None)) s0 = close_parens uni (of_bool (q_sum q \<noteq> None)) s1"
      "eqv s1 (render_closing w (q_sum q \<noteq> None) @ render_trailing w (q_by q) @ w)"
    using closing_rendered [OF assms(1), of s0 "q_increase q"] assms(2) unfolding closings_def by blast
  from closing_rendered [OF assms(1) s1(2), of uni 0] s1(1) show ?thesis by (auto simp: add.commute)
qed

lemma trailing_rendered:
  assumes "ws w" "eqv s0 (render_trailing w ls @ w)" "set ls \<subseteq> label_set" "ls = [] \<or> outer = []"
  shows "\<exists>s'. parse_trailing_by uni outer s0 = Inr (if ls = [] then outer else ls, s') \<and> at_end s'"
proof (cases "ls = []")
  case True
  then show ?thesis using assms by (simp add: parse_trailing_by_def render_trailing_def eqv_cong(2) [OF assms(2)] at_end_def lexing)
next
  case False
  then show ?thesis using assms by_labels_rendered [OF assms(1) False assms(3), of uni w]
    by (simp add: parse_trailing_by_def render_trailing_def render_by_def eqv_cong(2) [OF assms(2)] at_end_def lexing)
qed

lemma rest_head:
  assumes "ws w"
  shows "skip_ws (render_rest w q) = [] \<or>
    (\<exists>c s. skip_ws (render_rest w q) = c # s \<and> c \<in> {CHR ''{'', CHR ''['', CHR '')''}) \<or>
    (q_by q \<noteq> [] \<and> skip_ws (render_rest w q) = CHR ''b'' # CHR ''y'' # w @ CHR ''('' # render_labels w (q_by q) @ w @ CHR '')'' # w)"
  using assms
  by (auto simp: render_rest_def render_filter_def render_range_def render_closing_def render_trailing_def render_by_def lexing
      split: option.split)

lemma rest_stops:
  assumes "ws w"
  shows "stops (render_rest w q)"
  using assms
  by (auto simp: render_rest_def render_filter_def render_range_def render_closing_def render_trailing_def render_by_def lexing
      split: option.split)

lemma rest_no_paren: "ws w \<Longrightarrow> peek (skip_ws (render_rest w q)) \<noteq> Some (CHR ''('')"
  using rest_head [of w q] by (auto simp: peek_def)

lemma metric_names:
  "metric_name m \<noteq> ''increase''" "metric_name m \<noteq> ''sum''" "metric_name m \<noteq> ''by''"
  by (auto simp: metric_name_def split: metric.split)

lemma ident_metric:
  assumes "ws w"
  shows "ident (render_metric w q) = (Some (metric_name (q_metric q)), render_rest w q)"
  using assms rest_stops [OF assms, of q] by (simp add: render_metric_def ident_ws ident_word words(5))

lemma metric_rendered:
  assumes "ws w"
  shows "parse_metric uni (render_metric w q) = Inr ((q_metric q = Cost, q_metric q = Event_Count), render_rest w q)"
  using ident_metric [OF assms, of q] by (cases "q_metric q") (simp_all add: parse_metric_def metric_name_def)

lemma increase_rendered:
  assumes "ws w"
  shows "parse_increase (render_inner w q) = Inr (q_increase q, render_metric w q)"
proof (cases "q_increase q")
  case True
  then show ?thesis using assms by (simp add: parse_increase_def render_inner_def lexing)
next
  case False
  then show ?thesis using ident_metric [OF assms, of q] rest_no_paren [OF assms, of q] by (simp add: parse_increase_def render_inner_def)
qed

lemma wrapper_rendered:
  assumes "ws w" "case q_sum q of Some ls \<Rightarrow> set ls \<subseteq> label_set | None \<Rightarrow> True" "set (q_by q) \<subseteq> label_set"
  shows "parse_wrapper uni (render w q) = Inr (q_sum q, render_inner w q)"
proof (cases "q_sum q")
  case (Some ls)
  show ?thesis
  proof (cases "ls = []")
    case True
    with Some assms(1) show ?thesis by (simp add: parse_wrapper_def render_def lexing)
  next
    case False
    with Some assms by_labels_rendered [OF assms(1) False, of uni "w @ CHR ''('' # render_inner w q"] show ?thesis
      by (simp add: parse_wrapper_def render_def render_by_def lexing)
  qed
next
  case None
  show ?thesis
  proof (cases "q_increase q")
    case True
    with None assms(1) show ?thesis by (simp add: parse_wrapper_def render_def render_inner_def lexing)
  next
    case False
    note i = ident_metric [OF assms(1), of q]
    from rest_head [OF assms(1), of q] show ?thesis
    proof (elim disjE exE conjE)
      assume "q_by q \<noteq> []"
        and h: "skip_ws (render_rest w q) = CHR ''b'' # CHR ''y'' # w @ CHR ''('' # render_labels w (q_by q) @ w @ CHR '')'' # w"
      with None False i assms by_labels_rendered [OF assms(1), of "q_by q" uni w] show ?thesis
        by (simp add: parse_wrapper_def render_def render_inner_def lexing)
    qed (use None False i in \<open>auto simp: parse_wrapper_def render_def render_inner_def lexing\<close>)
  qed
qed

lemma select_rendered:
  "set ls \<subseteq> label_set \<Longrightarrow> \<forall>l\<in>set ls. l = ''type'' \<or> l = x \<Longrightarrow> sel = None \<or> sel = Some x \<Longrightarrow>
   select_label all sel ls = Inr (if filter (\<lambda>l. l \<noteq> ''type'') ls = [] then sel else Some x)"
proof (induction ls arbitrary: sel)
  case (Cons l ls)
  have ih: "select_label all s ls = Inr (if filter (\<lambda>l. l \<noteq> ''type'') ls = [] then s else Some x)" if "s = None \<or> s = Some x" for s
    by (rule Cons.IH) (use Cons.prems that in simp_all)
  show ?case
  proof (cases "l = ''type''")
    case False
    then have "l = x" "l = ''model'' \<or> l = ''project'' \<or> l = ''device_id''" using Cons.prems by (auto simp: label_set_def)
    with Cons.prems(3) False ih [of "Some x"] show ?thesis by auto
  qed (use ih [OF Cons.prems(3)] in simp)
qed simp

lemma all_hd: "length (remdups xs) \<le> 1 \<Longrightarrow> y \<in> set xs \<Longrightarrow> y = hd xs"
  unfolding length_remdups_card_conv by (cases xs) (auto simp: card_le_Suc0_iff_eq simp del: card_insert_disjoint)


section \<open>What an accepted query can ask\<close>

lemma select_label_result:
  "select_label all sel ls = Inr r \<Longrightarrow> (case sel of Some l \<Rightarrow> l \<in> {''model'', ''project'', ''device_id''} | None \<Rightarrow> True) \<Longrightarrow>
   (case r of Some l \<Rightarrow> l \<in> {''model'', ''project'', ''device_id''} | None \<Rightarrow> True)"
  by (induction all sel ls rule: select_label.induct) (auto split: if_splits option.splits)

lemma filters_loop_provider:
  "filters_loop uni p s = Inr (r, s') \<Longrightarrow> p \<noteq> Some [] \<Longrightarrow> r \<noteq> Some []"
proof (induction uni p s rule: filters_loop.induct)
  case (1 uni prov s)
  have nonempty: "v \<noteq> []" if "parse_matcher uni prov t = Inr (v, t')" for t v t'
    using that by (auto simp: parse_matcher_def Let_def split: option.splits if_splits sum.splits prod.splits)
  obtain e1 s1 where e1: "eat (CHR ''}'') s = (e1, s1)" by fastforce
  show ?case
  proof (cases e1)
    case True
    with 1(2,3) e1 show ?thesis by (simp add: filters_loop.simps [of uni prov s])
  next
    case False
    then obtain v s2 where v: "parse_matcher uni prov s1 = Inr (v, s2)"
      using 1(2) e1 by (auto simp: filters_loop.simps [of uni prov s] split: sum.splits)
    obtain e2 s3 where e2: "eat (CHR '','') s2 = (e2, s3)" by fastforce
    show ?thesis
    proof (cases e2)
      case True
      with 1(2) e1 False v e2 have "filters_loop uni (Some v) s3 = Inr (r, s')" by (simp add: filters_loop.simps [of uni prov s])
      from 1(1) [OF e1 [symmetric] _ v refl e2 [symmetric] _ this] nonempty [OF v] \<open>\<not> e1\<close> True show ?thesis by simp
    next
      case False
      with 1(2) e1 \<open>\<not> e1\<close> v e2 nonempty [OF v] show ?thesis
        by (auto simp: filters_loop.simps [of uni prov s] split: prod.splits bool.splits)
    qed
  qed
qed

lemma accepted_parts:
  assumes "parse_toki_virtual_query uni text = Inr r"
  shows "\<exists>s c e s' p s'' ls sel. parse_metric uni s = Inr ((c, e), s') \<and> parse_filters uni s' = Inr (p, s'') \<and>
    select_label ls None ls = Inr sel \<and> is_cost r = c \<and> is_events r = e \<and> pq_provider r = p \<and>
    group_by r = (case sel of Some l \<Rightarrow> l | None \<Rightarrow> ''model'') \<and> (raw_events r \<longrightarrow> e \<and> ls = [])"
proof -
  obtain w inc s c e s' p bk s'' ls sel where parts: "parse_metric uni s = Inr ((c, e), s')"
      "parse_selector uni (of_bool (w \<noteq> None) + of_bool inc) s' = Inr ((p, bk), s'')"
      "parse_grouping uni (case w of Some ls \<Rightarrow> ls | None \<Rightarrow> []) s'' = Inr (ls, sel)"
    and r: "r = \<lparr>is_cost = c, is_events = e, raw_events = (e \<and> \<not> (w \<noteq> None \<or> inc) \<and> \<not> bk \<and> ls = []),
      group_by = (case sel of Some l \<Rightarrow> l | None \<Rightarrow> ''model''), pq_provider = p\<rparr>"
    using assms unfolding parse_toki_virtual_query_def res_bind_def by (auto split: sum.splits prod.splits if_splits)
  obtain s1 where "parse_filters uni s' = Inr (p, s1)"
    using parts(2) unfolding parse_selector_def res_bind_def by (auto split: sum.splits prod.splits)
  moreover have "select_label ls None ls = Inr sel"
    using parts(3) unfolding parse_grouping_def res_bind_def by (auto split: sum.splits prod.splits if_splits)
  ultimately show ?thesis using parts(1) r by (intro exI conjI) auto
qed

theorem accepted_query_is_answerable:
  assumes "parse_toki_virtual_query uni text = Inr r"
  shows "group_by r \<in> {''model'', ''project'', ''device_id''} \<and> pq_provider r \<noteq> Some [] \<and> \<not> (is_cost r \<and> is_events r) \<and>
    (raw_events r \<longrightarrow> is_events r \<and> group_by r = ''model'')"
proof -
  have metric: "\<not> (c \<and> e)" if "parse_metric uni s = Inr ((c, e), s')" for s s' c e
    using that by (auto simp: parse_metric_def split: option.splits if_splits prod.splits)
  have prov: "p \<noteq> Some []" if "parse_filters uni s = Inr (p, s')" for s s' p
    using that filters_loop_provider [of uni None] by (auto simp: parse_filters_def split: prod.splits bool.splits)
  obtain s c e s' p s'' ls sel where parts: "parse_metric uni s = Inr ((c, e), s')" "parse_filters uni s' = Inr (p, s'')"
      "select_label ls None ls = Inr sel" "is_cost r = c" "is_events r = e" "pq_provider r = p"
      "group_by r = (case sel of Some l \<Rightarrow> l | None \<Rightarrow> ''model'')" "raw_events r \<longrightarrow> e \<and> ls = []"
    using accepted_parts [OF assms] by blast
  have "case sel of Some l \<Rightarrow> l \<in> {''model'', ''project'', ''device_id''} | None \<Rightarrow> True"
    using select_label_result [OF parts(3)] by simp
  with metric [OF parts(1)] prov [OF parts(2)] parts(3-8) show ?thesis by (auto split: option.splits)
qed

lemma duration_positive:
  assumes "parse_duration_secs s = Inr n"
  shows "0 < n \<and> in_i64 n"
proof -
  have i64: "in_i64 n" if "parse_i64 v = Some n" for v n
    using that by (auto simp: parse_i64_def split: option.splits if_splits)
  have loop: "0 < n \<and> in_i64 n" if "duration_loop s acc buf saw = Some n" "in_i64 acc" for s acc buf saw n
    using that
    by (induction s acc buf saw rule: duration_loop.induct)
      (auto split: if_splits option.splits simp: checked_def bind_eq_Some_conv)
  from assms show ?thesis
    by (auto simp: parse_duration_secs_def parse_duration_def positive_def bind_eq_Some_conv in_i64_def i64_min_def i64_max_def
        split: option.splits if_splits dest!: i64 loop)
qed

section \<open>At a concrete query\<close>

definition demo_query :: query where
  "demo_query = \<lparr>q_sum = Some [''project''], q_increase = True, q_metric = Usage, q_provider = Some ''codex'',
     q_range = Some ''1h30m'', q_by = []\<rparr>"

lemma demo_answerable: "answerable (\<lambda>_. False) demo_query"
  by code_simp


theorem accepted_query_is_answerable_witness:
  "\<exists>r. parse_toki_virtual_query (\<lambda>_. False) ''cost'' = Inr r \<and> group_by r \<in> {''model'', ''project'', ''device_id''}"
proof -
  have "parse_toki_virtual_query (\<lambda>_. False) ''cost'' =
      Inr \<lparr>is_cost = True, is_events = False, raw_events = False, group_by = ''model'', pq_provider = None\<rparr>"
    by code_simp
  from accepted_query_is_answerable [OF this] this show ?thesis by blast
qed

end
