(* ===== verification/Http.thy ===== *)
theory Http
  imports Sync Query Limits
begin

text \<open>
  What the HTTP handlers share (\<open>AppState\<close> of \<open>src/src/server/http.rs\<close>): replies, the state behind the
  handlers, and the steps handlers are made of. A handler is one atomic step on the state; the
  interleaving of its awaits with other requests is not modelled.

  JSON texts are trees: \<open>serde_json\<close> reads and prints them. A float is of a type \<open>'f\<close>. The fresh ids
  of a request (\<open>Uuid::new_v4\<close>; \<open>rq_bytes\<close> where its bytes are used), the salts of \<open>bcrypt\<close> and the clock are arguments. Status 0 is the
  end of a handler that panics, for which the server sends no reply.
\<close>

section \<open>Replies\<close>

datatype 'f json =
    J_Null
  | J_Bool bool
  | J_Int int
  | J_Float 'f
  | J_Str string
  | J_Arr "'f json list"
  | J_Obj "(string \<times> 'f json) list"

record 'f response =
  rs_status :: nat
  rs_headers :: headers
  rs_body :: "'f json option"

definition ok_json :: "'f json \<Rightarrow> 'f response" where
  "ok_json j = \<lparr>rs_status = 200, rs_headers = [], rs_body = Some j\<rparr>"

definition with_status :: "nat \<Rightarrow> 'f json \<Rightarrow> 'f response" where
  "with_status st j = \<lparr>rs_status = st, rs_headers = [], rs_body = Some j\<rparr>"

definition no_content :: "'f response" where
  "no_content = \<lparr>rs_status = 204, rs_headers = [], rs_body = None\<rparr>"

definition into_response :: "'f response reply \<Rightarrow> 'f response" where
  "into_response r = (case r of
     Inl e \<Rightarrow> with_status (status e) (J_Obj [(''error'', J_Str (message e))])
   | Inr rs \<Rightarrow> rs)"

definition j_opt :: "('a \<Rightarrow> 'f json) \<Rightarrow> 'a option \<Rightarrow> 'f json" where
  "j_opt f x = (case x of None \<Rightarrow> J_Null | Some y \<Rightarrow> f y)"

definition err_bad_request :: "string \<Rightarrow> app_error" where
  "err_bad_request msg = \<lparr>status = 400, message = msg\<rparr>"

definition err_gone :: "string \<Rightarrow> app_error" where
  "err_gone msg = \<lparr>status = 410, message = msg\<rparr>"

definition panicked :: app_error where
  "panicked = \<lparr>status = 0, message = ''panic''\<rparr>"

section \<open>State\<close>

text \<open>The database, the event store and the active cache are the ones the sync server uses.\<close>

record oidc_discovery =
  authorization_endpoint :: string
  token_endpoint :: string
  userinfo_endpoint :: string
  od_issuer :: string
  jwks_uri :: string

record 'e app =
  ap_server :: "'e server"
  ap_brute :: brute_guard
  ap_monitor_rate :: "(string, nat \<times> nat) hashmap"
  ap_poll :: "(string, nat) hashmap"
  ap_oidc_states :: "(string, string \<times> string \<times> nat) hashmap"
  ap_oidc_cache :: "(oidc_discovery \<times> nat) option"

record site =
  st_jwt_crate :: jwt_crate
  st_jwt :: jwt_manager
  st_brute :: brute_cfg
  st_settings :: dynamic_settings
  st_access_ttl :: nat
  st_trust_proxy :: bool
  st_external_url :: string
  st_storage_backend :: string
  st_version :: string
  bcrypt_hash :: "string \<Rightarrow> string \<Rightarrow> string result"
  bcrypt_verify :: "string \<Rightarrow> string \<Rightarrow> bool result"
  uni_alnum :: "string \<Rightarrow> bool"
  uni_blank :: "string \<Rightarrow> bool"
  uni_upper :: "string \<Rightarrow> string"
  uni_lower :: "string \<Rightarrow> string"
  url_encode :: "string \<Rightarrow> string"
  parse_uuid :: "string \<Rightarrow> bool"

text \<open>One request: its time, headers and peer address, the ids and the salt it draws.\<close>

record request = clock +
  rq_headers :: headers
  rq_addr :: string
  rq_ids :: "nat \<Rightarrow> string"
  rq_bytes :: "nat list"
  rq_salt :: string

section \<open>Steps\<close>

type_synonym ('e, 'a) handler = "'e app \<Rightarrow> 'a reply \<times> 'e app"

definition h_ok :: "'a \<Rightarrow> ('e, 'a) handler" where
  "h_ok x s = (Inr x, s)"

definition h_fail :: "app_error \<Rightarrow> ('e, 'a) handler" where
  "h_fail e s = (Inl e, s)"

definition h_bind :: "('e, 'a) handler \<Rightarrow> ('a \<Rightarrow> ('e, 'b) handler) \<Rightarrow> ('e, 'b) handler" where
  "h_bind m f s = (case m s of (Inl e, s') \<Rightarrow> (Inl e, s') | (Inr x, s') \<Rightarrow> f x s')"

definition h_get :: "('e app \<Rightarrow> 'a) \<Rightarrow> ('e, 'a) handler" where
  "h_get f s = (Inr (f s), s)"

definition h_reply :: "'a reply \<Rightarrow> ('e, 'a) handler" where
  "h_reply r s = (r, s)"

text \<open>\<open>h_unless\<close>: an early return with an error.\<close>

definition h_unless :: "bool \<Rightarrow> app_error \<Rightarrow> ('e, unit) handler" where
  "h_unless c e = (if c then h_ok () else h_fail e)"

definition ap_db :: "'e app \<Rightarrow> sqlite_db" where
  "ap_db s = sv_db (ap_server s)"

definition set_db :: "sqlite_db \<Rightarrow> 'e app \<Rightarrow> 'e app" where
  "set_db db s = s\<lparr>ap_server := (ap_server s)\<lparr>sv_db := db\<rparr>\<rparr>"

text \<open>A query or statement of the repository, its error answered by \<open>err\<close>, or dropped.\<close>

definition db_read :: "(sqlite_db \<Rightarrow> 'a result) \<Rightarrow> ('e, 'a) handler" where
  "db_read q s = (or_internal (q (ap_db s)), s)"

definition db_write :: "(string \<Rightarrow> app_error) \<Rightarrow> (sqlite_db \<Rightarrow> 'a db_result) \<Rightarrow> ('e, 'a) handler" where
  "db_write err f s =
     (case f (ap_db s) of (Inl e, db) \<Rightarrow> (Inl (err e), set_db db s) | (Inr x, db) \<Rightarrow> (Inr x, set_db db s))"

definition db_try :: "(sqlite_db \<Rightarrow> 'a db_result) \<Rightarrow> ('e, unit) handler" where
  "db_try f s = (Inr (), set_db (snd (f (ap_db s))) s)"

definition db_attempt :: "(sqlite_db \<Rightarrow> 'a db_result) \<Rightarrow> ('e, 'a result) handler" where
  "db_attempt f s = (Inr (fst (f (ap_db s))), set_db (snd (f (ap_db s))) s)"

definition events_try :: "('e \<Rightarrow> unit result \<times> 'e) \<Rightarrow> ('e, unit) handler" where
  "events_try f s = (Inr (), s\<lparr>ap_server := (ap_server s)\<lparr>sv_events := snd (f (sv_events (ap_server s)))\<rparr>\<rparr>)"

text \<open>\<open>for x in xs\<close> over a step.\<close>

fun h_each :: "('x \<Rightarrow> ('e, unit) handler) \<Rightarrow> 'x list \<Rightarrow> ('e, unit) handler" where
  "h_each f [] = h_ok ()"
| "h_each f (x # xs) = h_bind (f x) (\<lambda>_. h_each f xs)"

definition evict_active :: "string \<Rightarrow> ('e, unit) handler" where
  "evict_active user s =
     (Inr (), s\<lparr>ap_server := (ap_server s)\<lparr>sv_cache := evict user (sv_cache (ap_server s))\<rparr>\<rparr>)"

definition locked_by :: "nat + unit \<Rightarrow> unit reply" where
  "locked_by r = (case r of Inl retry \<Rightarrow> Inl (err_locked_out retry) | Inr _ \<Rightarrow> Inr ())"

definition brute_guarded :: "site \<Rightarrow> request \<Rightarrow> string \<Rightarrow> string \<Rightarrow> ('e, unit) handler" where
  "brute_guarded st rq ip name s =
     (case brute_check (st_brute st) (instant rq) ip name (ap_brute s) of (r, g) \<Rightarrow> (locked_by r, s\<lparr>ap_brute := g\<rparr>))"

definition brute_failed :: "site \<Rightarrow> request \<Rightarrow> string \<Rightarrow> string \<Rightarrow> ('e, unit) handler" where
  "brute_failed st rq ip name s =
     (Inr (), s\<lparr>ap_brute := snd (brute_record_failure (st_brute st) (instant rq) ip name (ap_brute s))\<rparr>)"

definition brute_passed :: "string \<Rightarrow> string \<Rightarrow> ('e, unit) handler" where
  "brute_passed ip name s = (Inr (), s\<lparr>ap_brute := brute_record_success ip name (ap_brute s)\<rparr>)"

section \<open>Who asks\<close>

definition authenticated :: "site \<Rightarrow> request \<Rightarrow> ('e, claims) handler" where
  "authenticated st rq s =
     (case authenticate (st_jwt_crate st) (st_jwt st) (clock.truncate rq) (rq_headers rq) (ap_db s) (sv_cache (ap_server s)) of
        (r, c) \<Rightarrow> (r, s\<lparr>ap_server := (ap_server s)\<lparr>sv_cache := c\<rparr>\<rparr>))"

definition as_admin :: "site \<Rightarrow> request \<Rightarrow> ('e, string) handler" where
  "as_admin st rq s =
     (case require_admin (st_jwt_crate st) (st_jwt st) (clock.truncate rq) (rq_headers rq) (ap_db s) (sv_cache (ap_server s)) of
        (r, c) \<Rightarrow> (r, s\<lparr>ap_server := (ap_server s)\<lparr>sv_cache := c\<rparr>\<rparr>))"

definition client_ip :: "site \<Rightarrow> request \<Rightarrow> string" where
  "client_ip st rq = extract_client_ip (rq_headers rq) (rq_addr rq) (st_trust_proxy st)"

definition hash_password :: "site \<Rightarrow> request \<Rightarrow> string \<Rightarrow> ('e, string) handler" where
  "hash_password st rq pw = h_reply (or_internal (bcrypt_hash st (rq_salt rq) pw))"

definition password_ok :: "string \<Rightarrow> bool" where
  "password_ok pw \<longleftrightarrow> 8 \<le> length pw \<and> length pw \<le> 128"

end
