(* ===== verification/Monitor.thy ===== *)
theory Monitor
  imports Http
begin

text \<open>
  The monitor settings routes (\<open>src/src/server/handlers/monitor.rs\<close>): limits, key validation and the
  five handlers under \<open>/me/monitor\<close>. The body limit of the write route is the router's and is not
  part of the handler.
\<close>

definition MAX_VALUE_BYTES :: nat where "MAX_VALUE_BYTES = 256 * 1024"
definition MAX_KEY_LEN :: nat where "MAX_KEY_LEN = 128"
definition MAX_ENTRIES :: int where "MAX_ENTRIES = 512"
definition MAX_TOTAL_BYTES :: int where "MAX_TOTAL_BYTES = 8 * 1024 * 1024"

definition quota :: monitor_quota where
  "quota = \<lparr>q_max_entries = MAX_ENTRIES, q_max_total_bytes = MAX_TOTAL_BYTES\<rparr>"

definition too_many_writes :: "nat \<Rightarrow> 'f response" where
  "too_many_writes retry_after =
     \<lparr>rs_status = 429, rs_headers = [(''retry-after'', dec retry_after)],
      rs_body = Some (J_Obj [
        (''error'', J_Str (''too many monitor setting writes, retry after '' @ dec retry_after @ ''s'')),
        (''retry_after'', J_Int (int retry_after))])\<rparr>"

definition key_char :: "char \<Rightarrow> bool" where
  "key_char c \<longleftrightarrow> ascii_alnum c \<or> c \<in> {CHR ''.'', CHR ''_'', CHR ''-'', CHR '':''}"

definition validate_key :: "string \<Rightarrow> unit reply" where
  "validate_key key =
     (if key = [] \<or> length key > MAX_KEY_LEN
      then Inl (err_unprocessable (''key must be 1-'' @ dec MAX_KEY_LEN @ '' characters''))
      else if \<not> list_all key_char key
      then Inl (err_unprocessable ''key may only contain letters, digits, and . _ - :'')
      else Inr ())"

section \<open>Reading\<close>

definition index_entry :: "monitor_setting_meta \<Rightarrow> 'f json" where
  "index_entry m = J_Obj [(''key'', J_Str (mm_key m)), (''version'', J_Int (mm_version m)),
     (''updated_at'', J_Int (mm_updated_at m)), (''size_bytes'', J_Int (mm_size_bytes m))]"

definition setting_entry :: "monitor_setting \<Rightarrow> 'f json" where
  "setting_entry e = J_Obj [(''key'', J_Str (ms_key e)), (''value'', J_Str (ms_value e)),
     (''version'', J_Int (ms_version e)), (''updated_at'', J_Int (ms_updated_at e))]"

definition me_monitor_index :: "site \<Rightarrow> request \<Rightarrow> ('e, 'f response) handler" where
  "me_monitor_index st rq =
     h_bind (authenticated st rq) (\<lambda>claims.
     h_bind (db_read (list_monitor_setting_index (cl_sub claims))) (\<lambda>rows.
     h_bind (db_read (monitor_settings_usage (cl_sub claims))) (\<lambda>usage.
     h_ok (ok_json (J_Obj [
       (''delete_cas'', J_Bool True),
       (''entries'', J_Arr (map index_entry rows)),
       (''quota'', J_Obj [
          (''max_entries'', J_Int MAX_ENTRIES),
          (''max_value_bytes'', J_Int (int MAX_VALUE_BYTES)),
          (''max_total_bytes'', J_Int MAX_TOTAL_BYTES),
          (''used_entries'', J_Int (mu_entries usage)),
          (''used_bytes'', J_Int (mu_total_bytes usage))])])))))"

definition me_monitor_list :: "site \<Rightarrow> request \<Rightarrow> ('e, 'f response) handler" where
  "me_monitor_list st rq =
     h_bind (authenticated st rq) (\<lambda>claims.
     h_bind (db_read (list_monitor_settings (cl_sub claims))) (\<lambda>rows.
     h_ok (ok_json (J_Obj [(''entries'', J_Arr (map setting_entry rows))]))))"

definition me_monitor_get :: "site \<Rightarrow> request \<Rightarrow> string \<Rightarrow> ('e, 'f response) handler" where
  "me_monitor_get st rq key =
     h_bind (authenticated st rq) (\<lambda>claims.
     h_bind (h_reply (validate_key key)) (\<lambda>_.
     h_bind (db_read (get_monitor_setting (cl_sub claims) key)) (\<lambda>found.
     (case found of
        None \<Rightarrow> h_fail (err_not_found ''monitor setting not found'')
      | Some e \<Rightarrow> h_ok (ok_json (setting_entry e))))))"

section \<open>Writing\<close>

definition monitor_slot :: "request \<Rightarrow> string \<Rightarrow> ('e, nat option) handler" where
  "monitor_slot rq user s =
     (case monitor_allow (instant rq) user (ap_monitor_rate s) of
        (Inl retry_after, m) \<Rightarrow> (Inr (Some retry_after), s\<lparr>ap_monitor_rate := m\<rparr>)
      | (Inr _, m) \<Rightarrow> (Inr None, s\<lparr>ap_monitor_rate := m\<rparr>))"

definition version_conflict :: "string \<Rightarrow> int option \<Rightarrow> int option \<Rightarrow> 'f response" where
  "version_conflict key current_version current_updated_at =
     with_status 409 (J_Obj [
       (''error'', J_Str ''version conflict: the stored entry moved since if_version was read''),
       (''key'', J_Str key),
       (''current_version'', j_opt J_Int current_version),
       (''current_updated_at'', j_opt J_Int current_updated_at)])"

definition put_response :: "string \<Rightarrow> monitor_write_outcome \<Rightarrow> 'f response" where
  "put_response key oc = (case oc of
     Written version updated_at previous_version \<Rightarrow>
       ok_json (J_Obj [
         (''key'', J_Str key), (''version'', J_Int version), (''updated_at'', J_Int updated_at),
         (''previous_version'', j_opt J_Int previous_version),
         (''created'', J_Bool (previous_version = None))])
   | Write_Version_Mismatch cv cu \<Rightarrow> version_conflict key cv cu
   | Quota_Exceeded what used limit \<Rightarrow>
       with_status 507 (J_Obj [
         (''error'', J_Str (''monitor settings quota exceeded: '' @ what @ '' would reach '' @ dec_int used
            @ '', limit is '' @ dec_int limit)),
         (''quota'', J_Str what), (''used'', J_Int used), (''limit'', J_Int limit)]))"

record put_setting_request =
  ps_value :: string
  ps_if_version :: "int option"

definition me_monitor_put :: "site \<Rightarrow> request \<Rightarrow> string \<Rightarrow> put_setting_request \<Rightarrow> ('e, 'f response) handler" where
  "me_monitor_put st rq key body =
     h_bind (authenticated st rq) (\<lambda>claims.
     h_bind (h_reply (validate_key key)) (\<lambda>_.
     h_bind (h_unless (length (ps_value body) \<le> MAX_VALUE_BYTES)
               \<lparr>status = 413, message = ''value is '' @ dec (length (ps_value body)) @ '' bytes, limit is '' @ dec MAX_VALUE_BYTES\<rparr>) (\<lambda>_.
     h_bind (monitor_slot rq (cl_sub claims)) (\<lambda>full.
     (case full of
        Some retry_after \<Rightarrow> h_ok (too_many_writes retry_after)
      | None \<Rightarrow>
          h_bind (db_write err_internal (upsert_monitor_setting (unix_secs rq) (cl_sub claims) key (ps_value body)
                    (ps_if_version body) quota)) (\<lambda>oc.
          h_ok (put_response key oc)))))))"

definition delete_response :: "string \<Rightarrow> monitor_delete_outcome \<Rightarrow> 'f response reply" where
  "delete_response key oc = (case oc of
     Deleted \<Rightarrow> Inr no_content
   | Not_Found \<Rightarrow> Inl (err_not_found ''monitor setting not found'')
   | Delete_Version_Mismatch cv cu \<Rightarrow> Inr (version_conflict key (Some cv) (Some cu)))"

definition me_monitor_delete :: "site \<Rightarrow> request \<Rightarrow> string \<Rightarrow> int option \<Rightarrow> ('e, 'f response) handler" where
  "me_monitor_delete st rq key if_version =
     h_bind (authenticated st rq) (\<lambda>claims.
     h_bind (h_reply (validate_key key)) (\<lambda>_.
     h_bind (monitor_slot rq (cl_sub claims)) (\<lambda>full.
     (case full of
        Some retry_after \<Rightarrow> h_ok (too_many_writes retry_after)
      | None \<Rightarrow>
          h_bind (db_write err_internal (delete_monitor_setting (cl_sub claims) key if_version)) (\<lambda>oc.
          h_reply (delete_response key oc))))))"

end
