(* ===== verification/Admin.thy ===== *)
theory Admin
  imports Http Event_Api
begin

text \<open>
  The administration routes (\<open>src/src/server/handlers/admin.rs\<close> and \<open>teams.rs\<close>) and the self-service
  routes (\<open>me.rs\<close>). The request bodies are the handlers' arguments; \<open>rq_ids\<close> are the ids of a request
  in the order it draws them.
\<close>

definition bad_password :: app_error where
  "bad_password = err_unprocessable ''password must be 8-128 characters''"

text \<open>The callers of \<open>create_user\<close> and the like look for a text in the error to answer 409.\<close>

definition unique_as :: "string \<Rightarrow> string \<Rightarrow> app_error" where
  "unique_as msg e = (if contains e ''UNIQUE'' then err_conflict msg else err_internal e)"

section \<open>Users\<close>

definition admin_list_users :: "site \<Rightarrow> request \<Rightarrow> ('e, 'f response) handler" where
  "admin_list_users st rq =
     h_bind (as_admin st rq) (\<lambda>_.
     h_bind (db_read list_users) (\<lambda>rows.
     h_ok (ok_json (J_Obj [(''users'', J_Arr (map (\<lambda>u. J_Obj [
       (''id'', J_Str (us_id u)), (''username'', J_Str (us_username u)), (''role'', J_Str (us_role u)),
       (''created_at'', J_Int (us_created_at u)), (''active'', J_Bool (us_active u))]) rows))]))))"

record create_user_request =
  cu_username :: string
  cu_password :: string
  cu_role :: "string option"

definition admin_create_user :: "site \<Rightarrow> request \<Rightarrow> create_user_request \<Rightarrow> ('e, 'f response) handler" where
  "admin_create_user st rq body =
     h_bind (as_admin st rq) (\<lambda>_.
     h_bind (h_reply (validate_username (uni_alnum st) (cu_username body))) (\<lambda>_.
     h_bind (h_unless (password_ok (cu_password body)) bad_password) (\<lambda>_.
     h_bind (hash_password st rq (cu_password body)) (\<lambda>hash.
     (let i = rq_ids rq 0; role = (case cu_role body of Some r \<Rightarrow> r | None \<Rightarrow> ''user'')
      in h_bind (h_unless (role = ''user'' \<or> role = ''admin'') (err_unprocessable (''role must be 'user' or 'admin'' @ [CHR 0x27]))) (\<lambda>_.
         h_bind (db_write (unique_as ''username already exists'')
           (create_user (unix_secs rq) \<lparr>nu_id = i, nu_username = cu_username body, nu_password_hash = hash, nu_role = role\<rparr>)) (\<lambda>_.
         h_ok (with_status 201 (J_Obj [(''id'', J_Str i), (''username'', J_Str (cu_username body)), (''role'', J_Str role)])))))))))"

definition purge_user_events :: "'e event_store \<Rightarrow> string list \<Rightarrow> ('e, unit) handler" where
  "purge_user_events es = h_each (\<lambda>dev. events_try (es_delete_device_events es dev))"

text \<open>\<open>if let Ok(Some(user)) = ...\<close>: the built-in account is kept.\<close>

definition protect_builtin :: "string \<Rightarrow> ('e, unit) handler" where
  "protect_builtin user s =
     (case get_user_by_id user (ap_db s) of
        Inr (Some u) \<Rightarrow>
          if u_username u = ''admin''
          then h_fail (err_forbidden ''the built-in admin account cannot be deleted, only deactivated'') s
          else h_ok () s
      | _ \<Rightarrow> h_ok () s)"

definition admin_delete_user :: "'e event_store \<Rightarrow> site \<Rightarrow> request \<Rightarrow> string \<Rightarrow> ('e, 'f response) handler" where
  "admin_delete_user es st rq user =
     h_bind (as_admin st rq) (\<lambda>_.
     h_bind (protect_builtin user) (\<lambda>_.
     h_bind (db_read (get_user_device_ids user)) (\<lambda>device_ids.
     h_bind (db_try (set_user_active (unix_secs rq) user False)) (\<lambda>_.
     h_bind (evict_active user) (\<lambda>_.
     h_bind (purge_user_events es device_ids) (\<lambda>_.
     h_bind (events_try (es_delete_user_windows es user)) (\<lambda>_.
     h_bind (db_write err_internal (delete_user user)) (\<lambda>deleted.
     h_bind (h_unless deleted (err_not_found ''user not found'')) (\<lambda>_.
     h_bind (events_try (es_delete_user_windows es user)) (\<lambda>_.
     h_bind (purge_user_events es device_ids) (\<lambda>_.
     h_ok no_content)))))))))))"

definition require_user :: "string \<Rightarrow> ('e, user_row) handler" where
  "require_user user =
     h_bind (db_read (get_user_by_id user)) (\<lambda>found.
     (case found of None \<Rightarrow> h_fail (err_not_found ''user not found'') | Some u \<Rightarrow> h_ok u))"

text \<open>The new hash, and the end of the sessions opened with the old password.\<close>

definition replace_password :: "site \<Rightarrow> request \<Rightarrow> string \<Rightarrow> string \<Rightarrow> ('e, 'f response) handler" where
  "replace_password st rq user pw =
     h_bind (h_unless (password_ok pw) bad_password) (\<lambda>_.
     h_bind (hash_password st rq pw) (\<lambda>hash.
     h_bind (db_write err_internal (update_password (unix_secs rq) user hash)) (\<lambda>_.
     h_bind (db_write err_internal (revoke_user_refresh_tokens user)) (\<lambda>_.
     h_ok no_content))))"

definition admin_change_user_password :: "site \<Rightarrow> request \<Rightarrow> string \<Rightarrow> string \<Rightarrow> ('e, 'f response) handler" where
  "admin_change_user_password st rq user pw =
     h_bind (as_admin st rq) (\<lambda>_.
     h_bind (require_user user) (\<lambda>_.
     replace_password st rq user pw))"

definition admin_change_user_role :: "site \<Rightarrow> request \<Rightarrow> string \<Rightarrow> string \<Rightarrow> ('e, 'f response) handler" where
  "admin_change_user_role st rq user role =
     h_bind (as_admin st rq) (\<lambda>_.
     h_bind (h_unless (role = ''user'' \<or> role = ''admin'') (err_unprocessable (''role must be 'user' or 'admin'' @ [CHR 0x27]))) (\<lambda>_.
     h_bind (db_write err_internal (update_user_role (unix_secs rq) user role)) (\<lambda>updated.
     h_bind (h_unless updated (err_not_found ''user not found'')) (\<lambda>_.
     h_ok no_content))))"

text \<open>The other active administrators are counted only for the built-in account.\<close>

definition keep_an_admin :: "bool \<Rightarrow> user_row \<Rightarrow> ('e, unit) handler" where
  "keep_an_admin active u =
     (if \<not> active \<and> u_username u = ''admin''
      then h_bind (db_read (count_active_admins_except ''admin'')) (\<lambda>other_admins.
           h_unless (other_admins \<noteq> 0) (err_unprocessable ''cannot deactivate admin: no other admin accounts''))
      else h_ok ())"

definition admin_set_user_active :: "site \<Rightarrow> request \<Rightarrow> string \<Rightarrow> bool \<Rightarrow> ('e, 'f response) handler" where
  "admin_set_user_active st rq user active =
     h_bind (as_admin st rq) (\<lambda>admin_id.
     h_bind (h_unless (\<not> (\<not> active \<and> user = admin_id)) (err_unprocessable ''cannot deactivate your own account'')) (\<lambda>_.
     h_bind (require_user user) (\<lambda>u.
     h_bind (keep_an_admin active u) (\<lambda>_.
     h_bind (db_write err_internal (set_user_active (unix_secs rq) user active)) (\<lambda>updated.
     h_bind (h_unless updated (err_not_found ''user not found'')) (\<lambda>_.
     h_bind (evict_active user) (\<lambda>_.
     h_bind (if \<not> active then db_write err_internal (revoke_user_refresh_tokens user) else h_ok ()) (\<lambda>_.
     h_ok no_content))))))))"

section \<open>Devices and registrations\<close>

definition admin_list_devices :: "site \<Rightarrow> request \<Rightarrow> ('e, 'f response) handler" where
  "admin_list_devices st rq =
     h_bind (as_admin st rq) (\<lambda>_.
     h_bind (db_read list_all_devices) (\<lambda>rows.
     h_ok (ok_json (J_Obj [(''devices'', J_Arr (map (\<lambda>d. J_Obj [
       (''id'', J_Str (da_id d)), (''name'', J_Str (da_name d)), (''username'', J_Str (da_username d)),
       (''last_seen_at'', J_Int (da_last_seen_at d))]) rows))]))))"

definition admin_delete_device :: "'e event_store \<Rightarrow> site \<Rightarrow> request \<Rightarrow> string \<Rightarrow> ('e, 'f response) handler" where
  "admin_delete_device es st rq dev =
     h_bind (as_admin st rq) (\<lambda>_.
     h_bind (events_try (es_delete_device_events es dev)) (\<lambda>_.
     h_bind (db_write err_internal (delete_device dev)) (\<lambda>deleted.
     h_bind (h_unless deleted (err_not_found ''device not found'')) (\<lambda>_.
     h_bind (events_try (es_delete_device_events es dev)) (\<lambda>_.
     h_ok no_content)))))"

definition admin_list_pending :: "site \<Rightarrow> request \<Rightarrow> ('e, 'f response) handler" where
  "admin_list_pending st rq =
     h_bind (as_admin st rq) (\<lambda>_.
     h_bind (db_read list_pending_registrations) (\<lambda>rows.
     h_ok (ok_json (J_Obj [(''pending'', J_Arr (map (\<lambda>p. J_Obj [
       (''id'', J_Str (pr_id p)), (''username'', J_Str (pr_username p)), (''requested_at'', J_Int (pr_requested_at p))]) rows))]))))"

definition admin_approve_pending :: "site \<Rightarrow> request \<Rightarrow> string \<Rightarrow> ('e, 'f response) handler" where
  "admin_approve_pending st rq i =
     h_bind (as_admin st rq) (\<lambda>_.
     h_bind (db_write (unique_as ''username already exists'') (approve_registration (unix_secs rq) (rq_ids rq 0) i)) (\<lambda>approved.
     h_bind (h_unless approved (err_not_found ''pending registration not found'')) (\<lambda>_.
     h_ok no_content)))"

definition admin_reject_pending :: "site \<Rightarrow> request \<Rightarrow> string \<Rightarrow> ('e, 'f response) handler" where
  "admin_reject_pending st rq i =
     h_bind (as_admin st rq) (\<lambda>_.
     h_bind (db_write err_internal (reject_registration i)) (\<lambda>rejected.
     h_bind (h_unless rejected (err_not_found ''pending registration not found'')) (\<lambda>_.
     h_ok no_content)))"

section \<open>Settings\<close>

definition or_null :: "string \<Rightarrow> 'f json" where
  "or_null x = (if x = [] then J_Null else J_Str x)"

definition admin_server_info :: "site \<Rightarrow> request \<Rightarrow> ('e, 'f response) handler" where
  "admin_server_info st rq =
     h_bind (as_admin st rq) (\<lambda>_.
     h_bind (h_get ap_db) (\<lambda>db.
     (let ds = st_settings st; iss = oidc_issuer ds db
      in h_ok (ok_json (J_Obj [
           (''registration_mode'', J_Str (registration_mode ds db)),
           (''oidc_enabled'', J_Bool (iss \<noteq> [])),
           (''oidc_issuer'', or_null iss),
           (''oidc_client_id'', or_null (oidc_client_id ds db)),
           (''oidc_redirect_uri'', or_null (oidc_redirect_uri ds db)),
           (''storage_backend'', J_Str (st_storage_backend st)),
           (''version'', J_Str (st_version st))])))))"

definition admin_list_settings :: "site \<Rightarrow> request \<Rightarrow> ('e, 'f response) handler" where
  "admin_list_settings st rq =
     h_bind (as_admin st rq) (\<lambda>_.
     h_bind (h_get ap_db) (\<lambda>db.
     (let ds = st_settings st
      in h_ok (ok_json (J_Obj [
           (''registration_mode'', J_Str (registration_mode ds db)),
           (''oidc_issuer'', J_Str (oidc_issuer ds db)),
           (''oidc_client_id'', J_Str (oidc_client_id ds db)),
           (''oidc_client_secret'', J_Str (oidc_client_secret ds db)),
           (''oidc_redirect_uri'', J_Str (oidc_redirect_uri ds db)),
           (''max_query_scope'', J_Str (max_query_scope ds db))])))))"

definition ALLOWED_SETTINGS :: "string list" where
  "ALLOWED_SETTINGS = [''registration_mode'', ''oidc_issuer'', ''oidc_client_id'', ''oidc_client_secret'',
     ''oidc_redirect_uri'', ''max_query_scope'']"

definition forget_discovery :: "string \<Rightarrow> ('e, unit) handler" where
  "forget_discovery key s = (Inr (), if prefix ''oidc_'' key then s\<lparr>ap_oidc_cache := None\<rparr> else s)"

definition admin_update_setting :: "site \<Rightarrow> request \<Rightarrow> string \<Rightarrow> string \<Rightarrow> ('e, 'f response) handler" where
  "admin_update_setting st rq key val =
     h_bind (as_admin st rq) (\<lambda>_.
     h_bind (h_unless (key \<in> set ALLOWED_SETTINGS) (err_unprocessable (''unknown setting: '' @ key))) (\<lambda>_.
     h_bind (h_unless (\<not> (key = ''registration_mode'' \<and> val \<notin> {''open'', ''approval'', ''closed''}))
               (err_unprocessable (''registration_mode must be 'open', 'approval', or 'closed'' @ [CHR 0x27]))) (\<lambda>_.
     h_bind (h_unless (\<not> (key = ''max_query_scope'' \<and> val \<notin> {''self'', ''team'', ''all''}))
               (err_unprocessable (''max_query_scope must be 'self', 'team', or 'all'' @ [CHR 0x27]))) (\<lambda>_.
     h_bind (db_write err_internal (set_server_setting (unix_secs rq) key val)) (\<lambda>_.
     h_bind (forget_discovery key) (\<lambda>_.
     h_ok no_content))))))"

section \<open>Teams\<close>

definition admin_create_team :: "site \<Rightarrow> request \<Rightarrow> string \<Rightarrow> ('e, 'f response) handler" where
  "admin_create_team st rq raw =
     h_bind (as_admin st rq) (\<lambda>_.
     (let name = str_trim (uni_blank st) raw; i = rq_ids rq 0
      in h_bind (h_unless (name \<noteq> []) (err_unprocessable ''team name must not be empty'')) (\<lambda>_.
         h_bind (db_write (unique_as ''team name already exists'') (create_team (unix_secs rq) i name)) (\<lambda>_.
         h_ok (with_status 201 (J_Obj [(''id'', J_Str i), (''name'', J_Str name)]))))))"

definition admin_list_teams :: "site \<Rightarrow> request \<Rightarrow> ('e, 'f response) handler" where
  "admin_list_teams st rq =
     h_bind (as_admin st rq) (\<lambda>_.
     h_bind (db_read list_teams_with_member_count) (\<lambda>rows.
     h_ok (ok_json (J_Obj [(''teams'', J_Arr (map (\<lambda>t. J_Obj [
       (''id'', J_Str (tc_id t)), (''name'', J_Str (tc_name t)), (''member_count'', J_Int (int (tc_member_count t))),
       (''created_at'', J_Int (tc_created_at t))]) rows))]))))"

definition admin_delete_team :: "site \<Rightarrow> request \<Rightarrow> string \<Rightarrow> ('e, 'f response) handler" where
  "admin_delete_team st rq team =
     h_bind (as_admin st rq) (\<lambda>_.
     h_bind (db_write err_internal (delete_team team)) (\<lambda>deleted.
     h_bind (h_unless deleted (err_not_found ''team not found'')) (\<lambda>_.
     h_ok no_content)))"

definition require_team :: "string \<Rightarrow> ('e, unit) handler" where
  "require_team team =
     h_bind (db_read (get_team team)) (\<lambda>found. h_unless (found \<noteq> None) (err_not_found ''team not found''))"

definition member_exists_as :: "string \<Rightarrow> app_error" where
  "member_exists_as e =
     (if contains e ''UNIQUE'' \<or> contains e ''PRIMARY'' then err_conflict ''user is already a team member''
      else err_internal e)"

definition admin_add_team_member :: "site \<Rightarrow> request \<Rightarrow> string \<Rightarrow> string \<Rightarrow> string option \<Rightarrow> ('e, 'f response) handler" where
  "admin_add_team_member st rq team user role_opt =
     h_bind (as_admin st rq) (\<lambda>_.
     h_bind (require_team team) (\<lambda>_.
     h_bind (require_user user) (\<lambda>_.
     (let role = (case role_opt of Some r \<Rightarrow> r | None \<Rightarrow> ''member'')
      in h_bind (h_unless (role \<in> {''owner'', ''admin'', ''member''})
                  (err_unprocessable (''role must be 'owner', 'admin', or 'member'' @ [CHR 0x27]))) (\<lambda>_.
         h_bind (db_write member_exists_as (add_team_member (unix_secs rq) team user role)) (\<lambda>_.
         h_ok (with_status 201 (J_Obj [(''team_id'', J_Str team), (''user_id'', J_Str user), (''role'', J_Str role)]))))))))"

definition admin_remove_team_member :: "site \<Rightarrow> request \<Rightarrow> string \<Rightarrow> string \<Rightarrow> ('e, 'f response) handler" where
  "admin_remove_team_member st rq team user =
     h_bind (as_admin st rq) (\<lambda>_.
     h_bind (db_write err_internal (remove_team_member team user)) (\<lambda>removed.
     h_bind (h_unless removed (err_not_found ''team member not found'')) (\<lambda>_.
     h_ok no_content)))"

definition admin_list_team_members :: "site \<Rightarrow> request \<Rightarrow> string \<Rightarrow> ('e, 'f response) handler" where
  "admin_list_team_members st rq team =
     h_bind (as_admin st rq) (\<lambda>_.
     h_bind (require_team team) (\<lambda>_.
     h_bind (db_read (list_team_members team)) (\<lambda>rows.
     h_ok (ok_json (J_Obj [(''members'', J_Arr (map (\<lambda>m. J_Obj [
       (''user_id'', J_Str (ts_user_id m)), (''username'', J_Str (ts_username m)), (''role'', J_Str (ts_role m)),
       (''joined_at'', J_Int (ts_joined_at m))]) rows))])))))"

section \<open>Self-service\<close>

definition me_teams :: "site \<Rightarrow> request \<Rightarrow> ('e, 'f response) handler" where
  "me_teams st rq =
     h_bind (authenticated st rq) (\<lambda>claims.
     h_bind (db_read (list_user_teams (cl_sub claims))) (\<lambda>rows.
     h_ok (ok_json (J_Obj [(''teams'', J_Arr (map (\<lambda>t. J_Obj [
       (''team_id'', J_Str (tm_team_id t)), (''team_name'', J_Str (tm_team_name t)), (''role'', J_Str (tm_role t))]) rows))]))))"

definition me_devices :: "site \<Rightarrow> request \<Rightarrow> ('e, 'f response) handler" where
  "me_devices st rq =
     h_bind (authenticated st rq) (\<lambda>claims.
     h_bind (db_read (list_user_devices (cl_sub claims))) (\<lambda>rows.
     h_ok (ok_json (J_Obj [(''devices'', J_Arr (map (\<lambda>d. J_Obj [
       (''id'', J_Str (ds_id d)), (''name'', J_Str (ds_name d)), (''device_key'', J_Str (ds_device_key d)),
       (''last_seen_at'', J_Int (ds_last_seen_at d))]) rows))]))))"

text \<open>\<open>char::is_control\<close>: the C0 and C1 controls and DEL.\<close>

definition is_control :: "string \<Rightarrow> bool" where
  "is_control ch = (case ch of
     [c] \<Rightarrow> byte c < 32 \<or> byte c = 127
   | [c, d] \<Rightarrow> byte c = 194 \<and> 128 \<le> byte d \<and> byte d < 160
   | _ \<Rightarrow> False)"

definition me_rename_device :: "site \<Rightarrow> request \<Rightarrow> string \<Rightarrow> string \<Rightarrow> ('e, 'f response) handler" where
  "me_rename_device st rq dev raw =
     h_bind (authenticated st rq) (\<lambda>claims.
     (let name = str_trim (uni_blank st) raw
      in h_bind (h_unless (name \<noteq> [] \<and> length name \<le> 64) (err_unprocessable ''device name must be 1-64 characters'')) (\<lambda>_.
         h_bind (h_unless (\<not> list_ex is_control (utf8_chars name))
                   (err_unprocessable ''device name must not contain control characters'')) (\<lambda>_.
         h_bind (db_write err_internal (rename_device dev (cl_sub claims) name)) (\<lambda>renamed.
         h_bind (h_unless renamed (err_not_found ''device not found'')) (\<lambda>_.
         h_ok no_content))))))"

definition me_delete_device :: "'e event_store \<Rightarrow> site \<Rightarrow> request \<Rightarrow> string \<Rightarrow> ('e, 'f response) handler" where
  "me_delete_device es st rq dev =
     h_bind (authenticated st rq) (\<lambda>claims.
     h_bind (db_read (device_belongs_to_user dev (cl_sub claims))) (\<lambda>belongs.
     h_bind (h_unless belongs (err_not_found ''device not found'')) (\<lambda>_.
     h_bind (events_try (es_delete_device_events es dev)) (\<lambda>_.
     h_bind (db_write err_internal (delete_user_device dev (cl_sub claims))) (\<lambda>_.
     h_bind (events_try (es_delete_device_events es dev)) (\<lambda>_.
     h_ok no_content))))))"

definition me_change_password :: "site \<Rightarrow> request \<Rightarrow> string \<Rightarrow> string \<Rightarrow> ('e, 'f response) handler" where
  "me_change_password st rq current_pw new_pw =
     h_bind (authenticated st rq) (\<lambda>claims.
     h_bind (require_user (cl_sub claims)) (\<lambda>u.
     h_bind (h_reply (or_internal (bcrypt_verify st current_pw (u_password_hash u)))) (\<lambda>valid.
     h_bind (h_unless valid (err_unauthorized ''current password incorrect'')) (\<lambda>_.
     replace_password st rq (cl_sub claims) new_pw))))"

end
