(* ===== verification/Auth_Api.thy ===== *)
theory Auth_Api
  imports Http
begin

text \<open>
  The authentication routes (\<open>src/src/server/handlers/auth.rs\<close>): passwords, registration, refresh
  tokens and the device authorization grant. \<open>rq_ids\<close> are the request's fresh ids in the order drawn.
\<close>

section \<open>Public information\<close>

definition health :: "('e, 'f response) handler" where
  "health s = (case health_check (ap_db s) of
     Inl e \<Rightarrow> (Inl \<lparr>status = 503, message = ''database unhealthy: '' @ e\<rparr>, s)
   | Inr _ \<Rightarrow> (Inr (ok_json (J_Obj [(''status'', J_Str ''ok'')])), s))"

definition auth_method :: "site \<Rightarrow> ('e, 'f response) handler" where
  "auth_method st =
     h_bind (h_get ap_db) (\<lambda>db.
     if oidc_issuer (st_settings st) db \<noteq> []
     then h_ok (ok_json (J_Obj [(''method'', J_Str ''oidc''),
            (''auth_url'', J_Str (''/auth/oidc/authorize?redirect_uri='' @ url_encode st (oidc_redirect_uri (st_settings st) db)))]))
     else h_ok (ok_json (J_Obj [(''method'', J_Str ''password'')])))"

definition auth_info :: "site \<Rightarrow> ('e, 'f response) handler" where
  "auth_info st =
     h_bind (h_get ap_db) (\<lambda>db.
     h_ok (ok_json (J_Obj [(''registration_mode'', J_Str (registration_mode (st_settings st) db)),
       (''oidc_enabled'', J_Bool (oidc_issuer (st_settings st) db \<noteq> []))])))"

section \<open>Tokens\<close>

text \<open>An access token, and a refresh token that is stored.\<close>

definition issue_pair :: "site \<Rightarrow> request \<Rightarrow> nat \<Rightarrow> string \<Rightarrow> string option \<Rightarrow> ('e, (string \<times> string) \<times> claims) handler" where
  "issue_pair st rq k user dev =
     h_bind (h_reply (or_internal (issue_access_token (st_jwt_crate st) (st_jwt st) (unix_secs rq) (rq_ids rq k) user))) (\<lambda>access.
     h_bind (h_reply (or_internal (issue_refresh_token (st_jwt_crate st) (st_jwt st) (unix_secs rq) (rq_ids rq (k + 1)) user dev))) (\<lambda>(refresh, c).
     h_bind (db_write err_internal (store_issued_token (unix_secs rq) c)) (\<lambda>_.
     h_ok ((access, refresh), c))))"

definition token_response :: "site \<Rightarrow> string \<times> string \<Rightarrow> 'f response" where
  "token_response st p = ok_json (J_Obj [
     (''access_token'', J_Str (fst p)), (''refresh_token'', J_Str (snd p)),
     (''token_type'', J_Str ''Bearer''), (''expires_in'', J_Int (int (st_access_ttl st)))])"

record login_request =
  li_username :: string
  li_password :: string
  li_device_id :: "string option"

definition invalid_credentials :: app_error where
  "invalid_credentials = err_unauthorized ''invalid credentials''"

definition login :: "site \<Rightarrow> request \<Rightarrow> login_request \<Rightarrow> ('e, 'f response) handler" where
  "login st rq body =
     (let ip = client_ip st rq; name = li_username body
      in h_bind (brute_guarded st rq ip name) (\<lambda>_.
         h_bind (db_read (get_user_by_username name)) (\<lambda>found.
         (case found of
            None \<Rightarrow> h_bind (brute_failed st rq ip name) (\<lambda>_. h_fail invalid_credentials)
          | Some u \<Rightarrow>
              h_bind (h_unless (u_active u) (err_unauthorized ''account deactivated'')) (\<lambda>_.
              h_bind (h_unless (u_password_hash u \<noteq> []) (err_unauthorized ''this account uses OIDC login'')) (\<lambda>_.
              h_bind (h_reply (or_internal (bcrypt_verify st (li_password body) (u_password_hash u)))) (\<lambda>valid.
              if \<not> valid then h_bind (brute_failed st rq ip name) (\<lambda>_. h_fail invalid_credentials)
              else
                h_bind (brute_passed ip name) (\<lambda>_.
                h_bind (issue_pair st rq 0 (u_id u) (li_device_id body)) (\<lambda>(pair, _).
                h_ok (token_response st pair))))))))))"

definition token_refresh :: "site \<Rightarrow> request \<Rightarrow> string \<Rightarrow> string option \<Rightarrow> ('e, 'f response) handler" where
  "token_refresh st rq old dev =
     (let ip = client_ip st rq
      in h_bind (brute_guarded st rq ip ''__refresh__'') (\<lambda>_.
         h_bind (db_attempt (rotate_tokens (st_jwt_crate st) (st_jwt st) (unix_secs rq) (rq_ids rq 0) (rq_ids rq 1) old dev)) (\<lambda>r.
         (case r of
            Inr pair \<Rightarrow> h_bind (brute_passed ip ''__refresh__'') (\<lambda>_. h_ok (token_response st pair))
          | Inl _ \<Rightarrow> h_bind (brute_failed st rq ip ''__refresh__'') (\<lambda>_.
                     h_fail (err_unauthorized ''invalid or expired refresh token''))))))"

section \<open>Registration\<close>

text \<open>A duplicate counts as a failed attempt of the address.\<close>

definition register_outcome ::
  "site \<Rightarrow> request \<Rightarrow> string \<Rightarrow> string \<Rightarrow> 'f response \<Rightarrow> unit result \<Rightarrow> ('e, 'f response) handler" where
  "register_outcome st rq ip duplicate done r =
     (case r of
        Inl e \<Rightarrow>
          if contains e ''UNIQUE''
          then h_bind (brute_failed st rq ip ''__register__'') (\<lambda>_. h_fail (err_conflict duplicate))
          else h_fail (err_internal e)
      | Inr _ \<Rightarrow> h_bind (brute_passed ip ''__register__'') (\<lambda>_. h_ok done))"

definition register :: "site \<Rightarrow> request \<Rightarrow> string \<Rightarrow> string \<Rightarrow> ('e, 'f response) handler" where
  "register st rq username pw =
     (let ip = client_ip st rq; i = rq_ids rq 0
      in h_bind (brute_guarded st rq ip ''__register__'') (\<lambda>_.
         h_bind (h_get (\<lambda>s. registration_mode (st_settings st) (ap_db s))) (\<lambda>mode.
         h_bind (h_unless (mode \<in> {''open'', ''approval''}) (err_forbidden ''registration is disabled'')) (\<lambda>_.
         h_bind (h_reply (validate_username (uni_alnum st) username)) (\<lambda>_.
         h_bind (h_unless (password_ok pw) (err_unprocessable ''password must be 8-128 characters'')) (\<lambda>_.
         h_bind (hash_password st rq pw) (\<lambda>hash.
         if mode = ''approval''
         then h_bind (db_attempt (create_pending_registration (unix_secs rq) i username hash))
                (register_outcome st rq ip ''username already exists or pending''
                  (with_status 202 (J_Obj [(''message'', J_Str ''registration pending admin approval'')])))
         else h_bind (db_attempt (create_user (unix_secs rq)
                  \<lparr>nu_id = i, nu_username = username, nu_password_hash = hash, nu_role = ''user''\<rparr>))
                (register_outcome st rq ip ''username already exists''
                  (with_status 201 (J_Obj [(''id'', J_Str i), (''username'', J_Str username)]))))))))))"

section \<open>Device authorization\<close>

definition USER_CODE_CHARS :: string where
  "USER_CODE_CHARS = ''ABCDEFGHJKMNPQRSTUVWXYZ23456789''"

definition user_code_char :: "nat \<Rightarrow> char" where
  "user_code_char b = USER_CODE_CHARS ! (b mod length USER_CODE_CHARS)"

definition generate_user_code :: "nat list \<Rightarrow> string" where
  "generate_user_code bytes =
     concat (map (\<lambda>i. (if i = 4 then ''-'' else []) @ [user_code_char (bytes ! i)]) [0..<8])"

definition device_code_request :: "site \<Rightarrow> request \<Rightarrow> ('e, 'f response) handler" where
  "device_code_request st rq =
     (let ip = client_ip st rq; device_code = rq_ids rq 0; user_code = generate_user_code (rq_bytes rq)
      in h_bind (brute_guarded st rq ip ''__device_code__'') (\<lambda>_.
         h_bind (brute_passed ip ''__device_code__'') (\<lambda>_.
         h_bind (db_write err_internal (create_device_code device_code user_code (unix_secs rq + 300))) (\<lambda>_.
         h_ok (ok_json (J_Obj [
           (''device_code'', J_Str device_code), (''user_code'', J_Str user_code),
           (''verification_url'', J_Str (if st_external_url st = [] then ''/login'' else st_external_url st @ ''/login/device'')),
           (''expires_in'', J_Int 300), (''interval'', J_Int 5)]))))))"

definition poll_error :: "string \<Rightarrow> 'f response" where
  "poll_error e = with_status 400 (J_Obj [(''error'', J_Str e)])"

text \<open>The poll rate: \<open>True\<close> asks the client to slow down.\<close>

definition poll_slot :: "request \<Rightarrow> string \<Rightarrow> ('e, bool) handler" where
  "poll_slot rq device_code s =
     (let tracker = hm_retain (\<lambda>_ at. instant rq - at < 900 * sec) (ap_poll s)
      in (case hm_get tracker device_code of
            Some prev \<Rightarrow>
              if instant rq - prev < 5 * sec then (Inr True, s\<lparr>ap_poll := tracker\<rparr>)
              else (Inr False, s\<lparr>ap_poll := hm_insert device_code (instant rq) tracker\<rparr>)
          | None \<Rightarrow> (Inr False, s\<lparr>ap_poll := hm_insert device_code (instant rq) tracker\<rparr>)))"

definition poll_done :: "string \<Rightarrow> ('e, unit) handler" where
  "poll_done device_code s = (Inr (), s\<lparr>ap_poll := hm_remove device_code (ap_poll s)\<rparr>)"

text \<open>The device of the token exchange; a failure to register it is only logged.\<close>

definition register_device :: "site \<Rightarrow> request \<Rightarrow> string \<Rightarrow> string option \<Rightarrow> string option \<Rightarrow> ('e, unit) handler" where
  "register_device st rq user key_opt name_opt s =
     (case key_opt of
        None \<Rightarrow> (Inr (), s)
      | Some key \<Rightarrow>
          if key \<noteq> [] \<and> user \<noteq> [] \<and> parse_uuid st key
             \<and> find_device_by_key_and_user key user (ap_db s) = Inr None
          then db_try (create_device (unix_secs rq) key user
                 (truncate_device_name (case name_opt of Some n \<Rightarrow> n | None \<Rightarrow> ''unknown'')) key) s
          else (Inr (), s))"

definition or_empty :: "string option \<Rightarrow> string" where
  "or_empty x = (case x of Some v \<Rightarrow> v | None \<Rightarrow> [])"

record poll_request =
  dp_device_code :: string
  dp_device_key :: "string option"
  dp_device_name :: "string option"

definition device_token_poll :: "site \<Rightarrow> request \<Rightarrow> poll_request \<Rightarrow> ('e, 'f response) handler" where
  "device_token_poll st rq body =
     (let code = dp_device_code body
      in h_bind (poll_slot rq code) (\<lambda>slow.
         if slow then h_ok (with_status 400 (J_Obj [(''error'', J_Str ''slow_down''), (''interval'', J_Int 10)]))
         else
           h_bind (db_read (get_device_code code)) (\<lambda>found.
           (case found of
              None \<Rightarrow> h_ok (poll_error ''expired_token'')
            | Some dc \<Rightarrow>
                if unix_secs rq > k_expires_at dc
                then h_bind (db_try (delete_device_code code)) (\<lambda>_. h_fail (err_gone ''expired_token''))
                else if k_approved_by dc = None then h_ok (poll_error ''authorization_pending'')
                else
                  h_bind (db_try (delete_device_code code)) (\<lambda>_.
                  h_bind (poll_done code) (\<lambda>_.
                  h_bind (register_device st rq (or_empty (k_approved_by dc)) (dp_device_key body) (dp_device_name body)) (\<lambda>_.
                  h_ok (token_response st (or_empty (k_access_token dc), or_empty (k_refresh_token dc))))))))))"

text \<open>\<open>&user_code[..4]\<close> panics when byte 4 is inside a character.\<close>

definition normalize_user_code :: "site \<Rightarrow> string \<Rightarrow> string option" where
  "normalize_user_code st raw =
     (let code = filter (\<lambda>c. c \<noteq> CHR '' '') (uni_upper st raw)
      in if length code = 8 \<and> CHR ''-'' \<notin> set code
         then (if continuation (code ! 4) then None else Some (take 4 code @ ''-'' @ drop 4 code))
         else Some code)"

definition device_approve :: "site \<Rightarrow> request \<Rightarrow> string \<Rightarrow> ('e, 'f response) handler" where
  "device_approve st rq raw =
     h_bind (authenticated st rq) (\<lambda>claims.
     (let user = cl_sub claims
      in h_bind (brute_guarded st rq user ''__device_approve__'') (\<lambda>_.
         (case normalize_user_code st raw of
            None \<Rightarrow> h_fail panicked
          | Some user_code \<Rightarrow>
              h_bind (db_read (get_device_code_by_user_code user_code)) (\<lambda>found.
              (case found of
                 None \<Rightarrow> h_bind (brute_failed st rq user ''__device_approve__'') (\<lambda>_.
                           h_fail (err_not_found ''invalid or expired code''))
               | Some dc \<Rightarrow>
                   if unix_secs rq > k_expires_at dc
                   then h_bind (db_try (delete_device_code (k_device_code dc))) (\<lambda>_. h_fail (err_gone ''code expired''))
                   else
                     h_bind (h_unless (k_approved_by dc = None) (err_conflict ''code already approved'')) (\<lambda>_.
                     h_bind (issue_pair st rq 0 user None) (\<lambda>((access, refresh), c).
                     h_bind (db_write err_internal (approve_device_code user_code user access refresh)) (\<lambda>approved.
                     if \<not> approved
                     then h_bind (db_try (revoke_refresh_token (cl_jti c))) (\<lambda>_.
                            h_fail (err_conflict ''code already approved or expired''))
                     else
                       h_bind (brute_passed user ''__device_approve__'') (\<lambda>_.
                       h_ok (ok_json (J_Obj [(''status'', J_Str ''approved'')]))))))))))))"

end
