(* ===== verification/Oidc.thy ===== *)
theory Oidc
  imports Auth_Api
begin

text \<open>
  OpenID Connect: \<open>src/src/auth/oidc.rs\<close>, the discovery cache of \<open>src/src/server/http.rs\<close> and the two
  routes of \<open>src/src/server/handlers/auth.rs\<close>. The provider is reached through \<open>reqwest\<close>, tokens are
  checked by \<open>jsonwebtoken\<close>, texts read by \<open>serde_json\<close> and \<open>base64\<close>: the record \<open>provider\<close> holds what
  they answer. A call that fails is \<open>Inl\<close>; texts that only reach the log are
  shortened.
\<close>

section \<open>What comes from outside\<close>

record jwk_key =
  kty :: string
  kid :: "string option"
  jk_n :: "string option"
  jk_e :: "string option"

record oidc_tokens =
  ot_access_token :: string
  ot_id_token :: string

record user_info =
  ui_sub :: string
  ui_email :: "string option"
  ui_name :: "string option"

record id_claims = user_info +
  ic_nonce :: "string option"

datatype rsa_alg = RS256 | RS384 | RS512

text \<open>\<open>net_get url bearer\<close> and \<open>net_post url form\<close> give status and body. \<open>jwt_header\<close> gives key id and
  algorithm (\<open>None\<close> another one); \<open>jwt_rsa alg n e issuer audience now token\<close> checks the signature,
  issuer, audience and expiry.\<close>

record provider =
  net_get :: "string \<Rightarrow> string option \<Rightarrow> (nat \<times> string) result"
  net_post :: "string \<Rightarrow> (string \<times> string) list \<Rightarrow> (nat \<times> string) result"
  de_discovery :: "string \<Rightarrow> oidc_discovery option"
  de_jwks :: "string \<Rightarrow> jwk_key list option"
  de_tokens :: "string \<Rightarrow> oidc_tokens option"
  de_userinfo :: "string \<Rightarrow> user_info option"
  jwt_header :: "string \<Rightarrow> (string option \<times> rsa_alg option) option"
  rsa_key_ok :: "string \<Rightarrow> string \<Rightarrow> bool"
  jwt_rsa :: "rsa_alg \<Rightarrow> string \<Rightarrow> string \<Rightarrow> string \<Rightarrow> string \<Rightarrow> int \<Rightarrow> string \<Rightarrow> id_claims option"
  b64_url :: "string \<Rightarrow> string option"
  de_json :: "string \<Rightarrow> unit json option"
  de_id_claims :: "string \<Rightarrow> user_info option"

section \<open>State tokens\<close>

definition state_insert ::
  "nat \<Rightarrow> nat \<Rightarrow> string \<Rightarrow> string \<Rightarrow> string \<Rightarrow> (string, string \<times> string \<times> nat) hashmap \<Rightarrow> (string, string \<times> string \<times> nat) hashmap" where
  "state_insert ttl now st redirect nonce m =
     hm_insert st (redirect, nonce, now) (hm_retain (\<lambda>_ (_, _, created). now - created < ttl) m)"

definition state_validate ::
  "nat \<Rightarrow> nat \<Rightarrow> string \<Rightarrow> (string, string \<times> string \<times> nat) hashmap \<Rightarrow> (string \<times> string) option \<times> (string, string \<times> string \<times> nat) hashmap" where
  "state_validate ttl now st m =
     (case hm_get m st of
        Some (redirect, nonce, created) \<Rightarrow>
          (if now - created < ttl then Some (redirect, nonce) else None, hm_remove st m)
      | None \<Rightarrow> (None, hm_remove st m))"

section \<open>The provider\<close>

definition success_status :: "nat \<Rightarrow> bool" where
  "success_status st \<longleftrightarrow> 200 \<le> st \<and> st < 300"

text \<open>A reply of success whose body parses.\<close>

definition fetched :: "string \<Rightarrow> (nat \<times> string) result \<Rightarrow> (string \<Rightarrow> 'a option) \<Rightarrow> 'a result" where
  "fetched what r parse =
     (case r of
        Inl _ \<Rightarrow> Inl (what @ '' request failed'')
      | Inr (st, body) \<Rightarrow>
          if \<not> success_status st then Inl (what @ '' returned status '' @ dec st)
          else (case parse body of None \<Rightarrow> Inl (''failed to parse '' @ what) | Some x \<Rightarrow> Inr x))"

definition trim_end_slashes :: "string \<Rightarrow> string" where
  "trim_end_slashes s = rev (dropWhile (\<lambda>c. c = CHR ''/'') (rev s))"

definition discover :: "provider \<Rightarrow> string \<Rightarrow> oidc_discovery result" where
  "discover p iss =
     fetched ''OIDC discovery'' (net_get p (trim_end_slashes iss @ ''/.well-known/openid-configuration'') None) (de_discovery p)"

definition fetch_jwks :: "provider \<Rightarrow> string \<Rightarrow> jwk_key list result" where
  "fetch_jwks p uri = fetched ''JWKS'' (net_get p uri None) (de_jwks p)"

definition fetch_userinfo :: "provider \<Rightarrow> string \<Rightarrow> string \<Rightarrow> user_info result" where
  "fetch_userinfo p access endpoint = fetched ''userinfo'' (net_get p endpoint (Some access)) (de_userinfo p)"

definition build_auth_url :: "site \<Rightarrow> oidc_discovery \<Rightarrow> string \<Rightarrow> string \<Rightarrow> string \<Rightarrow> string \<Rightarrow> string" where
  "build_auth_url st d client_id redirect_uri state nonce =
     authorization_endpoint d @ ''?response_type=code&client_id='' @ url_encode st client_id
       @ ''&redirect_uri='' @ url_encode st redirect_uri
       @ ''&scope='' @ url_encode st ''openid email profile''
       @ ''&state='' @ url_encode st state @ ''&nonce='' @ url_encode st nonce"

definition exchange_code :: "provider \<Rightarrow> oidc_discovery \<Rightarrow> string \<Rightarrow> string \<Rightarrow> string \<Rightarrow> string \<Rightarrow> oidc_tokens result" where
  "exchange_code p d client_id client_secret redirect_uri code =
     fetched ''OIDC token exchange''
       (net_post p (token_endpoint d)
         [(''grant_type'', ''authorization_code''), (''code'', code), (''redirect_uri'', redirect_uri),
          (''client_id'', client_id), (''client_secret'', client_secret)])
       (de_tokens p)"

section \<open>The id token\<close>

fun split_on :: "char \<Rightarrow> string \<Rightarrow> string list" where
  "split_on sep [] = [[]]"
| "split_on sep (c # cs) =
     (if c = sep then [] # split_on sep cs
      else (case split_on sep cs of p # ps \<Rightarrow> (c # p) # ps | [] \<Rightarrow> [[c]]))"

definition decode_url_safe :: "provider \<Rightarrow> string \<Rightarrow> string result" where
  "decode_url_safe p s =
     (case b64_url p s of
        Some b \<Rightarrow> Inr b
      | None \<Rightarrow>
          (case b64_url p (s @ replicate ((4 - length s mod 4) mod 4) (CHR ''='')) of
             Some b \<Rightarrow> Inr b
           | None \<Rightarrow> Inl ''base64 URL-safe decode failed''))"

definition json_get :: "string \<Rightarrow> 'f json \<Rightarrow> 'f json option" where
  "json_get k j = (case j of J_Obj fs \<Rightarrow> map_of fs k | _ \<Rightarrow> None)"

definition json_str :: "'f json \<Rightarrow> string option" where
  "json_str j = (case j of J_Str s \<Rightarrow> Some s | _ \<Rightarrow> None)"

definition json_i64 :: "'f json \<Rightarrow> int option" where
  "json_i64 j = (case j of J_Int i \<Rightarrow> if i64_min \<le> i \<and> i \<le> i64_max then Some i else None | _ \<Rightarrow> None)"

definition audience_ok :: "string \<Rightarrow> 'f json \<Rightarrow> bool" where
  "audience_ok client_id aud = (case aud of
     J_Str s \<Rightarrow> s = client_id
   | J_Arr xs \<Rightarrow> list_ex (\<lambda>v. json_str v = Some client_id) xs
   | _ \<Rightarrow> False)"

text \<open>The payload of a token of three parts; \<open>Inr None\<close> for another structure.\<close>

definition token_payload :: "provider \<Rightarrow> string \<Rightarrow> string option result" where
  "token_payload p token =
     (case split_on (CHR ''.'') token of
        [h, body, sig] \<Rightarrow> (case decode_url_safe p body of Inl e \<Rightarrow> Inl e | Inr b \<Rightarrow> Inr (Some b))
      | _ \<Rightarrow> Inr None)"

definition token_json :: "provider \<Rightarrow> string \<Rightarrow> unit json option result" where
  "token_json p token =
     (case token_payload p token of
        Inl e \<Rightarrow> Inl e
      | Inr None \<Rightarrow> Inr None
      | Inr (Some b) \<Rightarrow> (case de_json p b of None \<Rightarrow> Inl ''failed to parse id_token claims'' | Some j \<Rightarrow> Inr (Some j)))"

definition validate_id_token_claims :: "provider \<Rightarrow> int \<Rightarrow> string \<Rightarrow> string \<Rightarrow> string \<Rightarrow> unit result" where
  "validate_id_token_claims p now token issuer_url client_id =
     (case token_json p token of
        Inl e \<Rightarrow> Inl e
      | Inr None \<Rightarrow> Inr ()
      | Inr (Some j) \<Rightarrow>
          if (case Option.bind (json_get ''iss'' j) json_str of Some iss \<Rightarrow> iss \<noteq> issuer_url | None \<Rightarrow> False)
          then Inl ''id_token issuer mismatch''
          else if (case json_get ''aud'' j of Some aud \<Rightarrow> \<not> audience_ok client_id aud | None \<Rightarrow> False)
          then Inl ''id_token audience does not contain client_id''
          else if (case Option.bind (json_get ''exp'' j) json_i64 of Some ex \<Rightarrow> ex < now | None \<Rightarrow> False)
          then Inl ''id_token expired''
          else Inr ())"

definition validate_id_token_nonce :: "provider \<Rightarrow> string \<Rightarrow> string \<Rightarrow> unit result" where
  "validate_id_token_nonce p token expected =
     (case token_json p token of
        Inl e \<Rightarrow> Inl e
      | Inr None \<Rightarrow> Inr ()
      | Inr (Some j) \<Rightarrow>
          if (case Option.bind (json_get ''nonce'' j) json_str of Some n \<Rightarrow> n \<noteq> expected | None \<Rightarrow> False)
          then Inl ''nonce mismatch'' else Inr ())"

definition parse_id_token_claims :: "provider \<Rightarrow> string \<Rightarrow> user_info result" where
  "parse_id_token_claims p token =
     (case token_payload p token of
        Inl e \<Rightarrow> Inl e
      | Inr None \<Rightarrow> Inl ''invalid id_token format''
      | Inr (Some b) \<Rightarrow> (case de_id_claims p b of None \<Rightarrow> Inl ''failed to parse id_token claims'' | Some i \<Rightarrow> Inr i))"

text \<open>The key of the token's header, and its check.\<close>

definition usable_key :: "string \<Rightarrow> jwk_key list \<Rightarrow> (string \<times> string) result" where
  "usable_key k ks =
     (case find (\<lambda>j. kid j = Some k) ks of
        None \<Rightarrow> Inl (''no matching key found in JWKS for kid='' @ k)
      | Some j \<Rightarrow>
          if kty j \<noteq> ''RSA'' then Inl (''unsupported key type: '' @ kty j @ '' (only RSA supported)'')
          else (case jk_n j of
                  None \<Rightarrow> Inl ''JWKS key missing 'n' component''
                | Some n \<Rightarrow> (case jk_e j of None \<Rightarrow> Inl ''JWKS key missing 'e' component'' | Some e \<Rightarrow> Inr (n, e))))"

definition check_nonce :: "string option \<Rightarrow> string option \<Rightarrow> unit result" where
  "check_nonce expected_nonce token_nonce =
     (case expected_nonce of
        None \<Rightarrow> Inr ()
      | Some expected \<Rightarrow>
          (case token_nonce of
             Some n \<Rightarrow> if n = expected then Inr () else Inl (''nonce mismatch: expected '' @ expected @ '', got '' @ n)
           | None \<Rightarrow> Inl ''id_token missing nonce claim''))"

definition verify_id_token_with_jwks ::
  "provider \<Rightarrow> int \<Rightarrow> string \<Rightarrow> string \<Rightarrow> string \<Rightarrow> string \<Rightarrow> string option \<Rightarrow> user_info result" where
  "verify_id_token_with_jwks p now token uri issuer_url client_id expected_nonce =
     (case jwt_header p token of
        None \<Rightarrow> Inl ''failed to decode id_token JWT header''
      | Some (None, _) \<Rightarrow> Inl ''id_token JWT header missing kid''
      | Some (Some k, alg) \<Rightarrow>
          res_bind (fetch_jwks p uri) (\<lambda>ks.
          res_bind (usable_key k ks) (\<lambda>(n, e).
          if \<not> rsa_key_ok p n e then Inl ''failed to build RSA decoding key from JWKS components''
          else (case alg of
            None \<Rightarrow> Inl ''unsupported JWT algorithm''
          | Some a \<Rightarrow>
              (case jwt_rsa p a n e issuer_url client_id now token of
                 None \<Rightarrow> Inl ''id_token signature or claim validation failed''
               | Some c \<Rightarrow> res_bind (check_nonce expected_nonce (ic_nonce c)) (\<lambda>_. Inr (user_info.truncate c)))))))"

definition userinfo_fallback :: "provider \<Rightarrow> oidc_tokens \<Rightarrow> oidc_discovery \<Rightarrow> user_info result" where
  "userinfo_fallback p tk d =
     (if userinfo_endpoint d \<noteq> [] then fetch_userinfo p (ot_access_token tk) (userinfo_endpoint d)
      else Inl ''no id_token and no userinfo endpoint available'')"

definition extract_user_info ::
  "provider \<Rightarrow> int \<Rightarrow> oidc_tokens \<Rightarrow> oidc_discovery \<Rightarrow> string \<Rightarrow> string \<Rightarrow> string option \<Rightarrow> user_info result" where
  "extract_user_info p now tk d issuer_url client_id expected_nonce =
     (if ot_id_token tk = [] then userinfo_fallback p tk d
      else if jwks_uri d \<noteq> [] then
        (case verify_id_token_with_jwks p now (ot_id_token tk) (jwks_uri d) issuer_url client_id expected_nonce of
           Inr info \<Rightarrow> Inr info
         | Inl _ \<Rightarrow> userinfo_fallback p tk d)
      else
        (case parse_id_token_claims p (ot_id_token tk) of
           Inl _ \<Rightarrow> userinfo_fallback p tk d
         | Inr info \<Rightarrow>
             res_bind (validate_id_token_claims p now (ot_id_token tk) issuer_url client_id) (\<lambda>_.
             res_bind (case expected_nonce of None \<Rightarrow> Inr () | Some ex \<Rightarrow> validate_id_token_nonce p (ot_id_token tk) ex) (\<lambda>_.
             Inr info))))"

section \<open>The routes\<close>

definition DISCOVERY_TTL :: nat where "DISCOVERY_TTL = 3600 * sec"

definition get_oidc_discovery :: "provider \<Rightarrow> site \<Rightarrow> request \<Rightarrow> ('e, oidc_discovery) handler" where
  "get_oidc_discovery p st rq s =
     (case ap_oidc_cache s of
        Some (d, at) \<Rightarrow>
          if instant rq - at < DISCOVERY_TTL then (Inr d, s)
          else (case discover p (oidc_issuer (st_settings st) (ap_db s)) of
                  Inl e \<Rightarrow> (Inl (err_internal e), s)
                | Inr d \<Rightarrow> (Inr d, s\<lparr>ap_oidc_cache := Some (d, instant rq)\<rparr>))
      | None \<Rightarrow>
          (case discover p (oidc_issuer (st_settings st) (ap_db s)) of
             Inl e \<Rightarrow> (Inl (err_internal e), s)
           | Inr d \<Rightarrow> (Inr d, s\<lparr>ap_oidc_cache := Some (d, instant rq)\<rparr>)))"

definition redirect_temporary :: "string \<Rightarrow> 'f response" where
  "redirect_temporary url = \<lparr>rs_status = 307, rs_headers = [(''location'', url)], rs_body = None\<rparr>"

definition remember_state :: "nat \<Rightarrow> request \<Rightarrow> string \<Rightarrow> string \<Rightarrow> string \<Rightarrow> ('e, unit) handler" where
  "remember_state ttl rq csrf redirect nonce s =
     (Inr (), s\<lparr>ap_oidc_states := state_insert ttl (instant rq) csrf redirect nonce (ap_oidc_states s)\<rparr>)"

definition oidc_authorize :: "provider \<Rightarrow> nat \<Rightarrow> site \<Rightarrow> request \<Rightarrow> string \<Rightarrow> ('e, 'f response) handler" where
  "oidc_authorize p ttl st rq redirect =
     h_bind (h_get (\<lambda>s. oidc_issuer (st_settings st) (ap_db s))) (\<lambda>iss.
     h_bind (h_unless (iss \<noteq> []) (err_not_found ''OIDC not configured'')) (\<lambda>_.
     h_bind (get_oidc_discovery p st rq) (\<lambda>d.
     (let csrf = rq_ids rq 0; nonce = rq_ids rq 1
      in h_bind (remember_state ttl rq csrf redirect nonce) (\<lambda>_.
         h_bind (h_get ap_db) (\<lambda>db.
         h_ok (redirect_temporary (build_auth_url st d (oidc_client_id (st_settings st) db)
                 (oidc_redirect_uri (st_settings st) db) csrf nonce))))))))"

definition consume_state :: "nat \<Rightarrow> request \<Rightarrow> string \<Rightarrow> ('e, string \<times> string) handler" where
  "consume_state ttl rq csrf s =
     (case state_validate ttl (instant rq) csrf (ap_oidc_states s) of
        (None, m) \<Rightarrow> (Inl (err_bad_request ''invalid or expired state parameter''), s\<lparr>ap_oidc_states := m\<rparr>)
      | (Some x, m) \<Rightarrow> (Inr x, s\<lparr>ap_oidc_states := m\<rparr>))"

text \<open>\<open>&sub[..8.min(sub.len())]\<close>.\<close>

definition oidc_username :: "user_info \<Rightarrow> string option" where
  "oidc_username info =
     (case ui_email info of
        Some e \<Rightarrow> Some e
      | None \<Rightarrow>
          (case ui_name info of
             Some n \<Rightarrow> Some n
           | None \<Rightarrow>
               if length (ui_sub info) > 8 \<and> continuation (ui_sub info ! 8) then None
               else Some (''oidc_'' @ take 8 (ui_sub info))))"

text \<open>The account of the subject, created when there is none.\<close>

definition oidc_account :: "request \<Rightarrow> string \<Rightarrow> user_info \<Rightarrow> ('e, string) handler" where
  "oidc_account rq iss info =
     h_bind (db_read (find_user_by_oidc iss (ui_sub info))) (\<lambda>found.
     (case found of
        Some u \<Rightarrow> h_bind (h_unless (u_active u) (err_unauthorized ''account deactivated'')) (\<lambda>_. h_ok (u_id u))
      | None \<Rightarrow>
          (case oidc_username info of
             None \<Rightarrow> h_fail panicked
           | Some username \<Rightarrow>
               h_bind (db_attempt (create_oidc_user (unix_secs rq) \<lparr>no_id = rq_ids rq 0, no_username = username,
                         no_role = ''user'', no_oidc_sub = ui_sub info, no_oidc_issuer = iss\<rparr>)) (\<lambda>r.
               (case r of
                  Inr _ \<Rightarrow> h_ok (rq_ids rq 0)
                | Inl e \<Rightarrow>
                    if contains e ''UNIQUE''
                    then h_bind (db_read (find_user_by_oidc iss (ui_sub info))) (\<lambda>again.
                         (case again of
                            None \<Rightarrow> h_fail (err_internal ''OIDC user creation conflict but user not found on retry'')
                          | Some u \<Rightarrow> h_bind (h_unless (u_active u) (err_unauthorized ''account deactivated'')) (\<lambda>_. h_ok (u_id u))))
                    else h_fail (err_internal e))))))"

definition is_local_redirect :: "string \<Rightarrow> bool" where
  "is_local_redirect url \<longleftrightarrow> prefix ''http://127.0.0.1'' url \<or> prefix ''http://localhost'' url"

definition callback_response :: "site \<Rightarrow> string \<Rightarrow> string \<times> string \<Rightarrow> 'f response reply" where
  "callback_response st client_redirect pair =
     (let access = url_encode st (fst pair); refresh = url_encode st (snd pair); ttl = dec (st_access_ttl st)
      in if client_redirect \<noteq> []
         then if is_local_redirect client_redirect
              then Inr (redirect_temporary (client_redirect @ ''?access_token='' @ access @ ''&refresh_token='' @ refresh
                         @ ''&token_type=Bearer&expires_in='' @ ttl))
              else Inl (err_bad_request ''OIDC CLI redirect must be localhost (http://127.0.0.1 or http://localhost)'')
         else Inr (redirect_temporary (''/admin#access_token='' @ access @ ''&refresh_token='' @ refresh @ ''&expires_in='' @ ttl)))"

record callback_query =
  cq_code :: string
  cq_state :: string
  cq_error :: "string option"

definition oidc_callback :: "provider \<Rightarrow> nat \<Rightarrow> site \<Rightarrow> request \<Rightarrow> callback_query \<Rightarrow> ('e, 'f response) handler" where
  "oidc_callback p ttl st rq q =
     h_bind (h_get (\<lambda>s. oidc_issuer (st_settings st) (ap_db s))) (\<lambda>iss.
     h_bind (h_unless (iss \<noteq> []) (err_not_found ''OIDC not configured'')) (\<lambda>_.
     h_bind (case cq_error q of Some e \<Rightarrow> h_fail (err_bad_request (''OIDC error: '' @ e)) | None \<Rightarrow> h_ok ()) (\<lambda>_.
     h_bind (consume_state ttl rq (cq_state q)) (\<lambda>(client_redirect, nonce).
     h_bind (get_oidc_discovery p st rq) (\<lambda>d.
     h_bind (h_get ap_db) (\<lambda>db.
     (let client_id = oidc_client_id (st_settings st) db
      in h_bind (h_reply (or_internal (exchange_code p d client_id (oidc_client_secret (st_settings st) db)
                   (oidc_redirect_uri (st_settings st) db) (cq_code q)))) (\<lambda>tk.
         h_bind (h_reply (or_internal (extract_user_info p (unix_secs rq) tk d iss client_id
                   (if nonce = [] then None else Some nonce)))) (\<lambda>info.
         h_bind (oidc_account rq iss info) (\<lambda>user.
         h_bind (issue_pair st rq 1 user None) (\<lambda>(pair, _).
         h_reply (callback_response st client_redirect pair))))))))))))"

end
