(* ===== verification/Pricing.thy ===== *)
theory Pricing
  imports Access
begin

text \<open>
  Prices (\<open>src/src/pricing.rs\<close>): the cost of an event, the table with its \<open>-fast\<close> fallback, the
  LiteLLM list and the cached download.

  A float is of a type \<open>'f\<close> with the operations of the record \<open>floats\<close>; \<open>f_nat\<close> is the cast of an
  integer and the literals \<open>0.0\<close>, \<open>2.0\<close> and \<open>100.0\<close>. Reading the file and JSON, and the request, are
  arguments.
\<close>

record 'f floats =
  f_nat :: "nat \<Rightarrow> 'f"
  f_add :: "'f \<Rightarrow> 'f \<Rightarrow> 'f"
  f_mul :: "'f \<Rightarrow> 'f \<Rightarrow> 'f"
  f_div :: "'f \<Rightarrow> 'f \<Rightarrow> 'f"
  f_positive :: "'f \<Rightarrow> bool"
  f_finite :: "'f \<Rightarrow> bool"

section \<open>The cost of tokens\<close>

record 'f model_pricing =
  input_cost_per_token :: 'f
  output_cost_per_token :: 'f
  cache_creation_input_token_cost :: "'f option"
  cache_read_input_token_cost :: "'f option"

definition or_else :: "'a option \<Rightarrow> 'a \<Rightarrow> 'a" where
  "or_else x d = (case x of Some v \<Rightarrow> v | None \<Rightarrow> d)"

definition cache_read_rate :: "'f model_pricing \<Rightarrow> 'f" where
  "cache_read_rate p = or_else (cache_read_input_token_cost p) (input_cost_per_token p)"

definition cost :: "'f floats \<Rightarrow> 'f model_pricing \<Rightarrow> nat \<Rightarrow> nat \<Rightarrow> nat \<Rightarrow> nat \<Rightarrow> 'f" where
  "cost fl p input output cache_create cache_read =
     f_add fl (f_add fl (f_add fl
       (f_mul fl (f_nat fl input) (input_cost_per_token p))
       (f_mul fl (f_nat fl output) (output_cost_per_token p)))
       (f_mul fl (f_nat fl cache_create) (or_else (cache_creation_input_token_cost p) (f_nat fl 0))))
       (f_mul fl (f_nat fl cache_read) (cache_read_rate p))"

definition scaled :: "'f floats \<Rightarrow> 'f model_pricing \<Rightarrow> 'f \<Rightarrow> 'f model_pricing" where
  "scaled fl p m =
     \<lparr>input_cost_per_token = f_mul fl (input_cost_per_token p) m,
      output_cost_per_token = f_mul fl (output_cost_per_token p) m,
      cache_creation_input_token_cost = map_option (\<lambda>c. f_mul fl c m) (cache_creation_input_token_cost p),
      cache_read_input_token_cost = map_option (\<lambda>c. f_mul fl c m) (cache_read_input_token_cost p)\<rparr>"

definition FAST_MULTIPLIER :: "(string \<times> nat) list" where
  "FAST_MULTIPLIER = [(''claude-opus-5'', 2), (''claude-opus-4-8'', 2)]"

definition fast_multiplier :: "string \<Rightarrow> nat option" where
  "fast_multiplier base = map_of FAST_MULTIPLIER base"

section \<open>The table\<close>

type_synonym 'f pricing_table = "(string, 'f model_pricing) hashmap"

definition strip_suffix :: "string \<Rightarrow> string \<Rightarrow> string option" where
  "strip_suffix suf s = (if suffix suf s then Some (take (length s - length suf) s) else None)"

definition price_of :: "'f floats \<Rightarrow> 'f pricing_table \<Rightarrow> string \<Rightarrow> 'f model_pricing option" where
  "price_of fl t model =
     (case hm_get t model of
        Some p \<Rightarrow> Some p
      | None \<Rightarrow>
          Option.bind (strip_suffix ''-fast'' model) (\<lambda>base.
          Option.bind (fast_multiplier base) (\<lambda>m.
          map_option (\<lambda>p. scaled fl p (f_nat fl m)) (hm_get t base))))"

section \<open>The LiteLLM list\<close>

record 'f litellm_entry =
  litellm_provider :: "string option"
  le_input :: "'f option"
  le_output :: "'f option"
  le_cache_creation :: "'f option"
  le_cache_read :: "'f option"

definition SUPPORTED_LITELLM_PROVIDERS :: "string list" where
  "SUPPORTED_LITELLM_PROVIDERS = [''anthropic'', ''openai'', ''gemini'']"

text \<open>The row an entry of the list gives, if any: the last segment of its key, and its prices.\<close>

definition litellm_row :: "'f floats \<Rightarrow> string \<times> 'f litellm_entry \<Rightarrow> (string \<times> 'f model_pricing) option" where
  "litellm_row fl ke = (case ke of (key, e) \<Rightarrow>
     (case (le_input e, le_output e) of
        (Some i, Some out) \<Rightarrow>
          if \<not> (f_positive fl i \<or> f_positive fl out) then None
          else (case litellm_provider e of
             None \<Rightarrow> None
           | Some prov \<Rightarrow>
               if prov \<notin> set SUPPORTED_LITELLM_PROVIDERS then None
               else
                 (let name = (if CHR ''/'' \<in> set key then last_segment (CHR ''/'') key else key)
                  in if name = [] then None
                     else Some (name, \<lparr>input_cost_per_token = i, output_cost_per_token = out,
                            cache_creation_input_token_cost = le_cache_creation e,
                            cache_read_input_token_cost = le_cache_read e\<rparr>)))
      | _ \<Rightarrow> None))"

definition insert_if_absent :: "'k \<Rightarrow> 'v \<Rightarrow> ('k, 'v) hashmap \<Rightarrow> ('k, 'v) hashmap" where
  "insert_if_absent k v m = (case hm_get m k of Some _ \<Rightarrow> m | None \<Rightarrow> hm_insert k v m)"

text \<open>\<open>raw\<close> lists the entries of the parsed map in the order it iterates, which is arbitrary.\<close>

fun collect_prices :: "'f floats \<Rightarrow> (string \<times> 'f litellm_entry) list \<Rightarrow> 'f pricing_table \<Rightarrow> 'f pricing_table" where
  "collect_prices fl [] t = t"
| "collect_prices fl (ke # raw) t =
     collect_prices fl raw (case litellm_row fl ke of None \<Rightarrow> t | Some (name, p) \<Rightarrow> insert_if_absent name p t)"

definition parse_litellm_json :: "'f floats \<Rightarrow> (string \<Rightarrow> (string \<times> 'f litellm_entry) list option) \<Rightarrow> string \<Rightarrow> 'f pricing_table" where
  "parse_litellm_json fl de text =
     (case de text of None \<Rightarrow> [] | Some raw \<Rightarrow> collect_prices fl raw [])"

section \<open>The download\<close>

definition PRICING_CACHE_VERSION :: nat where "PRICING_CACHE_VERSION = 5"

record 'f pricing_cache =
  pc_etag :: "string option"
  pc_version :: nat
  pc_prices :: "'f pricing_table"

text \<open>What the request gives: a reply with its tag and its body (\<open>None\<close>: not readable), the status 304
  as an error, or another failure.\<close>

datatype fetch_reply = Fetched nat "string option" "string option" | Fetch_Not_Modified | Fetch_Failed

definition fallback :: "'f pricing_cache option \<Rightarrow> 'f pricing_table" where
  "fallback cached = (case cached of Some c \<Rightarrow> pc_prices c | None \<Rightarrow> [])"

definition cached_etag :: "'f pricing_cache option \<Rightarrow> bool \<Rightarrow> string option" where
  "cached_etag cached cache_age_ok =
     (case cached of
        Some c \<Rightarrow> if pc_version c = PRICING_CACHE_VERSION \<and> cache_age_ok then pc_etag c else None
      | None \<Rightarrow> None)"

text \<open>The table in use and the cache file written, if any.\<close>

definition fetch_pricing ::
  "'f floats \<Rightarrow> (string \<Rightarrow> (string \<times> 'f litellm_entry) list option) \<Rightarrow> (string option \<Rightarrow> fetch_reply) \<Rightarrow>
    'f pricing_cache option \<Rightarrow> bool \<Rightarrow> 'f pricing_table \<times> 'f pricing_cache option" where
  "fetch_pricing fl de call cached cache_age_ok =
     (case call (cached_etag cached cache_age_ok) of
        Fetched st etag body \<Rightarrow>
          if st = 304 then (fallback cached, None)
          else (case body of
             None \<Rightarrow> (fallback cached, None)
           | Some text \<Rightarrow>
               (let prices = parse_litellm_json fl de text
                in if prices = [] then (fallback cached, None)
                   else (prices, Some \<lparr>pc_etag = etag, pc_version = PRICING_CACHE_VERSION, pc_prices = prices\<rparr>)))
      | Fetch_Not_Modified \<Rightarrow> (fallback cached, None)
      | Fetch_Failed \<Rightarrow> (fallback cached, None))"

end
