(* ===== verification/Metrics.thy ===== *)
theory Metrics
  imports Http Event_Api Pricing "HOL-Library.Product_Lexorder"
begin

text \<open>
  Query execution (\<open>src/src/server/handlers/metrics.rs\<close>): the scope of a query, its time range, the
  buckets, the aggregation and the raw listing, and the handler \<open>toki_query\<close>.

  Time zones and calendars are those of \<open>chrono\<close> and \<open>chrono_tz\<close>, the record \<open>chrono\<close>: days are
  numbered from 1970-01-01, local times are seconds from its midnight. A \<open>BTreeMap\<close> is the list of its
  entries, sorted where it is read in order. The price cache of a query is not modelled: it holds
  answers of a function of the model name.
\<close>

section \<open>What comes from outside\<close>

datatype local_time = No_Time | One_Time int | Two_Times int int

record 'z chrono =
  parse_tz :: "string \<Rightarrow> 'z option"
  local_day :: "'z \<Rightarrow> int \<Rightarrow> int option"
  from_local :: "'z \<Rightarrow> int \<Rightarrow> local_time"
  fmt_ms :: "'z option \<Rightarrow> int \<Rightarrow> string option"
  fmt_secs :: "'z option \<Rightarrow> int \<Rightarrow> string option"
  parse_date :: "string \<Rightarrow> int option"
  parse_datetime :: "string \<Rightarrow> int option"

text \<open>Integer division of the machine: towards zero.\<close>

definition quot :: "int \<Rightarrow> int \<Rightarrow> int" where
  "quot a b = (if a < 0 then - ((- a) div b) else a div b)"

definition day_secs :: int where "day_secs = 86400"

section \<open>Scope\<close>

datatype scope = Self_Scope | Team_Scope string | All_Scope | Invalid_Scope

definition parse_scope :: "string \<Rightarrow> scope" where
  "parse_scope s =
     (if s = ''self'' then Self_Scope
      else if s = ''all'' then All_Scope
      else if prefix ''team:'' s then (if drop 5 s = [] then Invalid_Scope else Team_Scope (drop 5 s))
      else Invalid_Scope)"

definition resolve_user_filter :: "site \<Rightarrow> string \<Rightarrow> string \<Rightarrow> ('e, user_filter) handler" where
  "resolve_user_filter st user requested =
     h_bind (h_get (\<lambda>s. max_query_scope (st_settings st) (ap_db s))) (\<lambda>max_scope.
     h_bind (db_read (user_is_admin user)) (\<lambda>is_admin.
     (case parse_scope requested of
        Self_Scope \<Rightarrow> h_ok (Single user)
      | Team_Scope team \<Rightarrow>
          h_bind (h_unless (\<not> (\<not> is_admin \<and> max_scope = ''self'')) (err_forbidden ''team scope not enabled'')) (\<lambda>_.
          h_bind (if is_admin then h_ok ()
                  else h_bind (db_read (get_team_member_role team user)) (\<lambda>role.
                       h_unless (role \<noteq> None) (err_forbidden ''not a member of this team''))) (\<lambda>_.
          h_bind (db_read (list_team_members team)) (\<lambda>ms.
          h_ok (Multiple (map ts_user_id ms)))))
      | All_Scope \<Rightarrow>
          h_bind (h_unless (\<not> (\<not> is_admin \<and> max_scope \<noteq> ''all'')) (err_forbidden ''global scope not enabled'')) (\<lambda>_.
          h_ok All)
      | Invalid_Scope \<Rightarrow> h_fail (err_bad_request ''invalid scope''))))"

section \<open>Times\<close>

definition parse_timezone :: "'z chrono \<Rightarrow> string option \<Rightarrow> 'z option reply" where
  "parse_timezone ch value =
     (case value of
        None \<Rightarrow> Inr None
      | Some name \<Rightarrow>
          (case parse_tz ch name of
             None \<Rightarrow> Inl (err_bad_request (''invalid timezone: '' @ [CHR 0x27] @ name @ [CHR 0x27]))
           | Some z \<Rightarrow> Inr (Some z)))"

definition bad_time :: "string \<Rightarrow> string \<Rightarrow> app_error" where
  "bad_time what s = err_bad_request (what @ '': '' @ [CHR 0x27] @ s @ [CHR 0x27])"

text \<open>\<open>from_local_datetime(..).single()\<close>; without a zone, the time as UTC.\<close>

definition local_instant :: "'z chrono \<Rightarrow> 'z option \<Rightarrow> string \<Rightarrow> int \<Rightarrow> int reply" where
  "local_instant ch tz s t =
     (case tz of
        None \<Rightarrow> Inr t
      | Some z \<Rightarrow> (case from_local ch z t of One_Time u \<Rightarrow> Inr u | _ \<Rightarrow> Inl (bad_time ''ambiguous or invalid local time'' s)))"

text \<open>The three readings in their order; each but the last falls through.\<close>

definition parse_epoch :: "string \<Rightarrow> int option" where
  "parse_epoch s =
     Option.bind (parse_i64 s) (\<lambda>ts. if length s \<noteq> 8 \<and> length s \<noteq> 14 \<and> length s \<le> 13 then Some ts else None)"

definition parse_compact :: "'z chrono \<Rightarrow> string \<Rightarrow> bool \<Rightarrow> int option" where
  "parse_compact ch s is_end =
     (if length s = 8
      then map_option (\<lambda>d. d * day_secs + (if is_end then day_secs - 1 else 0)) (parse_date ch s)
      else if length s = 14 then parse_datetime ch s else None)"

definition parse_toki_time :: "'z chrono \<Rightarrow> string \<Rightarrow> bool \<Rightarrow> 'z option \<Rightarrow> int reply" where
  "parse_toki_time ch s is_end tz =
     (case parse_epoch s of
        Some ts \<Rightarrow> Inr ts
      | None \<Rightarrow>
          (case parse_compact ch s is_end of
             Some t \<Rightarrow> local_instant ch tz s t
           | None \<Rightarrow> Inl (bad_time ''invalid time format'' s)))"

definition parse_toki_bound_ms :: "'z chrono \<Rightarrow> string \<Rightarrow> bool \<Rightarrow> 'z option \<Rightarrow> int reply" where
  "parse_toki_bound_ms ch s is_end tz =
     (if length s = 13 \<and> list_all ascii_digit s
      then (case parse_i64 s of Some ms \<Rightarrow> Inr ms | None \<Rightarrow> Inl (bad_time ''time is out of range'' s))
      else
        (case parse_toki_time ch s is_end tz of
           Inl e \<Rightarrow> Inl e
         | Inr seconds \<Rightarrow>
             (case checked (seconds * 1000) of
                None \<Rightarrow> Inl (bad_time ''time is out of range'' s)
              | Some millis \<Rightarrow>
                  if is_end \<and> length s = 8
                  then (case checked (millis + 1000) of
                          None \<Rightarrow> Inl (bad_time ''time is out of range'' s) | Some m \<Rightarrow> Inr m)
                  else Inr millis)))"

text \<open>\<open>num_days_from_monday\<close>: 0 is Monday.\<close>

definition parse_weekday :: "(string \<Rightarrow> string) \<Rightarrow> string \<Rightarrow> int option" where
  "parse_weekday lower s =
     map_of [(''mon'', 0), (''monday'', 0), (''tue'', 1), (''tuesday'', 1), (''wed'', 2), (''wednesday'', 2),
       (''thu'', 3), (''thursday'', 3), (''fri'', 4), (''friday'', 4), (''sat'', 5), (''saturday'', 5),
       (''sun'', 6), (''sunday'', 6)] (lower s)"

section \<open>Buckets\<close>

definition weekday :: "int \<Rightarrow> int" where
  "weekday d = (d + 3) mod 7"

text \<open>The local day a bucket starts on.\<close>

definition bucket_day :: "int \<Rightarrow> int \<Rightarrow> int \<Rightarrow> int" where
  "bucket_day step_secs sow d =
     (if step_secs = 604800 then d - (weekday d - sow + 7) mod 7
      else (let step_days = step_secs div day_secs in (d div step_days) * step_days))"

definition earliest :: "local_time \<Rightarrow> int option" where
  "earliest t = (case t of No_Time \<Rightarrow> None | One_Time u \<Rightarrow> Some u | Two_Times u _ \<Rightarrow> Some u)"

text \<open>Minute by minute to the first local time that exists, at most a day.\<close>

fun first_minute :: "'z chrono \<Rightarrow> 'z \<Rightarrow> nat \<Rightarrow> int \<Rightarrow> int option" where
  "first_minute ch z 0 t = None"
| "first_minute ch z (Suc n) t =
     (case earliest (from_local ch z (t + 60)) of Some u \<Rightarrow> Some u | None \<Rightarrow> first_minute ch z n (t + 60))"

definition resolve_midnight :: "'z chrono \<Rightarrow> 'z \<Rightarrow> int \<Rightarrow> int option" where
  "resolve_midnight ch z midnight =
     (case from_local ch z midnight of
        One_Time u \<Rightarrow> Some u
      | Two_Times u _ \<Rightarrow> Some u
      | No_Time \<Rightarrow> first_minute ch z (24 * 60) midnight)"

definition calendar_start :: "'z chrono \<Rightarrow> 'z \<Rightarrow> int \<Rightarrow> int \<Rightarrow> int \<Rightarrow> int option" where
  "calendar_start ch z step_secs sow ts =
     Option.bind (local_day ch z ts) (\<lambda>d. resolve_midnight ch z (bucket_day step_secs sow d * day_secs))"

definition epoch_start :: "int \<Rightarrow> int \<Rightarrow> int" where
  "epoch_start step_secs ts = (let step_ms = step_secs * 1000 in quot (quot ts step_ms * step_ms) 1000)"

definition bucket_start_sec :: "'z chrono \<Rightarrow> int \<Rightarrow> int \<Rightarrow> 'z option \<Rightarrow> int \<Rightarrow> int" where
  "bucket_start_sec ch ts step_secs tz sow =
     (let is_week = (step_secs = 604800);
          whole_day_multiple = (step_secs \<ge> day_secs \<and> step_secs mod day_secs = 0)
      in (case tz of
            Some z \<Rightarrow>
              if is_week \<or> whole_day_multiple
              then (case calendar_start ch z step_secs sow ts of Some u \<Rightarrow> u | None \<Rightarrow> epoch_start step_secs ts)
              else epoch_start step_secs ts
          | None \<Rightarrow> epoch_start step_secs ts))"

section \<open>Aggregation\<close>

datatype group_dim = By_Model | By_Project | By_Device

definition group_dim_of :: "string \<Rightarrow> group_dim" where
  "group_dim_of s = (if s = ''project'' then By_Project else if s = ''device_id'' then By_Device else By_Model)"

definition group_key :: "group_dim \<Rightarrow> server_event \<Rightarrow> string" where
  "group_key g e = (case g of By_Model \<Rightarrow> model e | By_Project \<Rightarrow> project e | By_Device \<Rightarrow> device_id e)"

definition provider_key :: "server_event \<Rightarrow> string" where
  "provider_key e = (if provider e = [] then ''claude_code'' else provider e)"

definition event_cost_for_provider :: "'f floats \<Rightarrow> 'f model_pricing \<Rightarrow> server_event \<Rightarrow> string \<Rightarrow> 'f" where
  "event_cost_for_provider fl p e prov =
     (if prov = ''codex''
      then cost fl p (input_tokens e - cache_read_input_tokens e) (output_tokens e) 0 (cache_read_input_tokens e)
      else cost fl p (input_tokens e) (output_tokens e) (cache_creation_input_tokens e) (cache_read_input_tokens e))"

record 'f model_bucket =
  b_input :: nat
  b_output :: nat
  b_cache_create :: nat
  b_cache_read :: nat
  b_usage_total :: nat
  b_events :: nat
  b_cost_usd :: "'f option"
  b_provider :: string

definition empty_bucket :: "'f model_bucket" where
  "empty_bucket = \<lparr>b_input = 0, b_output = 0, b_cache_create = 0, b_cache_read = 0, b_usage_total = 0,
     b_events = 0, b_cost_usd = None, b_provider = []\<rparr>"

type_synonym bucket_key = "int \<times> string \<times> string"

text \<open>What is fixed for one query.\<close>

record ('z, 'f) query_plan =
  qp_step :: int
  qp_since :: int
  qp_until :: int
  qp_is_events :: bool
  qp_group :: group_dim
  qp_provider :: "string option"
  qp_tz :: "'z option"
  qp_sow :: int
  qp_include_cost :: bool
  qp_prices :: "'f pricing_table"

definition MAX_BUCKET_ENTRIES :: nat where "MAX_BUCKET_ENTRIES = 50000"

text \<open>The key of the bucket an event counts in, unless it is outside the range or of another provider.\<close>

definition bucket_of :: "'z chrono \<Rightarrow> ('z, 'f) query_plan \<Rightarrow> server_event \<Rightarrow> bucket_key option" where
  "bucket_of ch q e =
     (if ts_ms e < qp_since q \<or> ts_ms e \<ge> qp_until q then None
      else (let b = bucket_start_sec ch (ts_ms e) (qp_step q) (qp_tz q) (qp_sow q)
            in if b * 1000 + qp_step q * 1000 \<le> qp_since q \<or> b * 1000 \<ge> qp_until q then None
               else if (case qp_provider q of Some want \<Rightarrow> want \<noteq> provider_key e | None \<Rightarrow> False) then None
               else Some (b, provider_key e, group_key (qp_group q) e)))"

definition add_cost :: "'f floats \<Rightarrow> 'f pricing_table \<Rightarrow> server_event \<Rightarrow> 'f option \<Rightarrow> 'f option" where
  "add_cost fl t e c =
     (case price_of fl t (model e) of
        None \<Rightarrow> c
      | Some p \<Rightarrow> Some (f_add fl (or_else c (f_nat fl 0)) (event_cost_for_provider fl p e (provider_key e))))"

definition accumulate :: "'f floats \<Rightarrow> ('z, 'f) query_plan \<Rightarrow> server_event \<Rightarrow> 'f model_bucket \<Rightarrow> 'f model_bucket" where
  "accumulate fl q e b0 =
     (let b = (if b_provider b0 = [] \<and> provider e \<noteq> [] then b0\<lparr>b_provider := provider e\<rparr> else b0)
      in if qp_is_events q then b\<lparr>b_events := sat_add_u64 (b_events b) 1\<rparr>
         else
           b\<lparr>b_input := sat_add_u64 (b_input b) (input_tokens e),
             b_output := sat_add_u64 (b_output b) (output_tokens e),
             b_cache_create := sat_add_u64 (b_cache_create b) (cache_creation_input_tokens e),
             b_cache_read := sat_add_u64 (b_cache_read b) (cache_read_input_tokens e),
             b_usage_total := sat_add_u64 (b_usage_total b) (usage_total e),
             b_events := sat_add_u64 (b_events b) 1,
             b_cost_usd := (if qp_include_cost q then add_cost fl (qp_prices q) e (b_cost_usd b) else b_cost_usd b)\<rparr>)"

fun fill_buckets ::
  "'z chrono \<Rightarrow> 'f floats \<Rightarrow> ('z, 'f) query_plan \<Rightarrow> server_event list \<Rightarrow> (bucket_key, 'f model_bucket) hashmap \<Rightarrow> bool \<Rightarrow>
    (bucket_key, 'f model_bucket) hashmap \<times> bool" where
  "fill_buckets ch fl q [] m truncated = (m, truncated)"
| "fill_buckets ch fl q (e # es) m truncated =
     (case bucket_of ch q e of
        None \<Rightarrow> fill_buckets ch fl q es m truncated
      | Some k \<Rightarrow>
          if length m \<ge> MAX_BUCKET_ENTRIES \<and> hm_get m k = None then fill_buckets ch fl q es m True
          else fill_buckets ch fl q es
                 (hm_insert k (accumulate fl q e (or_else (hm_get m k) empty_bucket)) m) truncated)"

section \<open>The answer\<close>

text \<open>A \<open>BTreeMap<String, Vec<_>>\<close> filled in order.\<close>

definition grouped :: "(string \<times> 'a) list \<Rightarrow> (string \<times> 'a list) list" where
  "grouped xs = map (\<lambda>k. (k, map snd (filter (\<lambda>x. fst x = k) xs))) (sort (remdups (map fst xs)))"

text \<open>\<open>json!(x)\<close> of a float: \<open>null\<close> unless finite.\<close>

definition j_float :: "'f floats \<Rightarrow> 'f \<Rightarrow> 'f json" where
  "j_float fl x = (if f_finite fl x then J_Float x else J_Null)"

definition shown_provider :: "'f model_bucket \<Rightarrow> string" where
  "shown_provider b = (if b_provider b = [] then ''claude_code'' else b_provider b)"

definition bucket_json :: "'f floats \<Rightarrow> string \<Rightarrow> 'f model_bucket \<Rightarrow> 'f json" where
  "bucket_json fl g b =
     J_Obj ([(''model'', J_Str g), (''input_tokens'', J_Int (int (b_input b))),
             (''output_tokens'', J_Int (int (b_output b))), (''total_tokens'', J_Int (int (b_usage_total b))),
             (''events'', J_Int (int (b_events b)))]
       @ (if shown_provider b = ''codex''
          then [(''cached_input_tokens'', J_Int (int (b_cache_read b))),
                (''reasoning_output_tokens'', J_Int (int (b_cache_create b)))]
          else [(''cache_creation_input_tokens'', J_Int (int (b_cache_create b))),
                (''cache_read_input_tokens'', J_Int (int (b_cache_read b)))])
       @ (case b_cost_usd b of None \<Rightarrow> [] | Some c \<Rightarrow> [(''cost_usd'', j_float fl c)]))"

definition period_key :: "'z chrono \<Rightarrow> 'z option \<Rightarrow> int \<Rightarrow> string \<Rightarrow> string" where
  "period_key ch tz b g = or_else (fmt_secs ch tz b) [] @ ''|'' @ g"

definition period_json :: "string \<times> 'f json list \<Rightarrow> 'f json" where
  "period_json pm = J_Obj [(''period'', J_Str (fst pm)), (''usage_per_models'', J_Arr (snd pm))]"

definition providers_json :: "string \<Rightarrow> (string \<times> 'f json list) list \<Rightarrow> 'f json" where
  "providers_json empty_key ps =
     J_Obj (if ps = [] then [(empty_key, J_Arr [])] else map (\<lambda>(prov, rows). (prov, J_Arr rows)) ps)"

definition with_truncated :: "bool \<Rightarrow> 'f json \<Rightarrow> 'f json" where
  "with_truncated truncated provs =
     J_Obj ([(''providers'', provs)] @ (if truncated then [(''truncated'', J_Bool True)] else []))"

definition aggregate_events_to_toki_json ::
  "'z chrono \<Rightarrow> 'f floats \<Rightarrow> ('z, 'f) query_plan \<Rightarrow> server_event list \<Rightarrow> 'f json" where
  "aggregate_events_to_toki_json ch fl q es =
     (case fill_buckets ch fl q es [] False of (m, truncated) \<Rightarrow>
        (let rows = map (\<lambda>((b, _, g), bucket). (shown_provider bucket, (period_key ch (qp_tz q) b g, bucket_json fl g bucket)))
                      (sort_key fst m)
         in with_truncated truncated (providers_json ''claude_code''
              (map (\<lambda>(prov, periods). (prov, map period_json (grouped periods))) (grouped rows)))))"

definition raw_row :: "'z chrono \<Rightarrow> 'f floats \<Rightarrow> 'f pricing_table \<Rightarrow> 'z option \<Rightarrow> bool \<Rightarrow> string \<Rightarrow> server_event \<Rightarrow> 'f json" where
  "raw_row ch fl t tz include_cost prov e =
     J_Obj ([(''timestamp'', J_Str (or_else (fmt_ms ch tz (ts_ms e)) [])), (''model'', J_Str (model e)),
             (''session'', J_Str (session e)), (''project'', J_Str (project e)),
             (''input_tokens'', J_Int (int (input_tokens e))), (''output_tokens'', J_Int (int (output_tokens e))),
             (''cache_creation_input_tokens'', J_Int (int (cache_creation_input_tokens e))),
             (''cache_read_input_tokens'', J_Int (int (cache_read_input_tokens e)))]
       @ (if include_cost
          then (case price_of fl t (model e) of
                  None \<Rightarrow> [] | Some p \<Rightarrow> [(''cost_usd'', j_float fl (event_cost_for_provider fl p e prov))])
          else []))"

definition raw_events_to_toki_json ::
  "'z chrono \<Rightarrow> 'f floats \<Rightarrow> 'f pricing_table \<Rightarrow> 'z option \<Rightarrow> string option \<Rightarrow> bool \<Rightarrow> bool \<Rightarrow> server_event list \<Rightarrow> 'f json" where
  "raw_events_to_toki_json ch fl t tz want include_cost truncated es =
     (let kept = filter (\<lambda>e. case want of Some w \<Rightarrow> w = provider_key e | None \<Rightarrow> True) es
      in with_truncated truncated (providers_json (or_else want ''claude_code'')
           (map (\<lambda>(prov, pes). (prov, map (raw_row ch fl t tz include_cost prov) (sort_key ts_ms pes)))
              (grouped (map (\<lambda>e. (provider_key e, e)) kept)))))"

section \<open>The handler\<close>

record query_params =
  tq_query :: string
  tq_start :: "string option"
  tq_end :: "string option"
  tq_step :: "string option"
  tq_scope :: "string option"
  tq_tz :: "string option"
  tq_start_of_week :: "string option"
  tq_no_cost :: bool

definition MAX_QUERY_EVENTS :: nat where "MAX_QUERY_EVENTS = 200000"
definition MAX_BUCKETS :: int where "MAX_BUCKETS = 2000"

definition capabilities :: "'f response" where
  "capabilities = ok_json (J_Obj [(''sync_windows_v1'', J_Bool True), (''monitor_settings_v1'', J_Bool True)])"

text \<open>The zone and the half-open range of milliseconds.\<close>

definition bound_or :: "'z chrono \<Rightarrow> 'z option \<Rightarrow> bool \<Rightarrow> int \<Rightarrow> string option \<Rightarrow> int reply" where
  "bound_or ch tz is_end dflt s = (case s of None \<Rightarrow> Inr dflt | Some x \<Rightarrow> parse_toki_bound_ms ch x is_end tz)"

definition saturate_i64 :: "int \<Rightarrow> int" where
  "saturate_i64 x = max i64_min (min x i64_max)"

definition query_range :: "'z chrono \<Rightarrow> int \<Rightarrow> query_params \<Rightarrow> ('z option \<times> int \<times> int) reply" where
  "query_range ch now ps =
     res_bind (parse_timezone ch (tq_tz ps)) (\<lambda>tz.
     res_bind (bound_or ch tz False 0 (tq_start ps)) (\<lambda>start_ms.
     res_bind (bound_or ch tz True (saturate_i64 (now * 1000)) (tq_end ps)) (\<lambda>end_ms.
     if start_ms > end_ms then Inl (err_bad_request ''start time must not be after end time'')
     else if checked (end_ms - start_ms) = None then Inl (err_bad_request ''query time range is out of range'')
     else Inr (tz, start_ms, end_ms))))"

definition window_kind_name :: "nat \<Rightarrow> string" where
  "window_kind_name k = (if k = 0 then ''session'' else if k = 1 then ''weekly'' else ''unknown'')"

definition percent :: "'f floats \<Rightarrow> nat \<Rightarrow> 'f json" where
  "percent fl x100 = j_float fl (f_div fl (f_nat fl x100) (f_nat fl 100))"

definition window_json :: "'f floats \<Rightarrow> int \<Rightarrow> wire_window \<Rightarrow> 'f json" where
  "window_json fl now w = J_Obj [
     (''kind'', J_Str (window_kind_name (window_kind w))),
     (''limit_id'', J_Str (limit_id w)), (''account'', J_Str (account w)),
     (''window_end_ms'', J_Int (window_end_ms w)), (''raw_resets_at_ms'', J_Int (raw_resets_at_ms w)),
     (''window_minutes'', J_Int (int (window_minutes w))),
     (''peak_pct'', percent fl (peak_pct_x100 w)), (''last_pct'', percent fl (last_pct_x100 w)),
     (''observed_ts_ms'', J_Int (observed_ts_ms w)), (''first_seen_ms'', J_Int (first_seen_ms w)),
     (''finalized'', J_Bool (finalized w \<or> raw_resets_at_ms w + 180000 < now * 1000)),
     (''maxed_out'', J_Bool (maxed_out w)),
     (''limit_reached_kind'', J_Int (int (limit_reached_kind w))),
     (''time_to_100_ms'', J_Int (time_to_100_ms w)), (''active_ms'', J_Int (int (active_ms w))),
     (''last_sample_gap_ms'', J_Int (last_sample_gap_ms w)),
     (''sampled_active_fraction'', J_Int (int (sampled_active_fraction w))),
     (''n_samples'', J_Int (int (n_samples w))), (''plan'', J_Str (plan w))]"

definition windows_json :: "'f floats \<Rightarrow> int \<Rightarrow> int \<Rightarrow> (string \<times> wire_window) list \<Rightarrow> 'f json" where
  "windows_json fl now end_ms ws =
     J_Obj [(''schema'', J_Int 1),
       (''windows'', J_Obj (map (\<lambda>(prov, ws). (prov, J_Arr (map (window_json fl now) (sort_key window_end_ms ws))))
          (grouped (filter (\<lambda>(_, w). window_end_ms w < end_ms) ws))))]"

definition windows_query ::
  "'e event_store \<Rightarrow> 'f floats \<Rightarrow> int \<Rightarrow> string \<Rightarrow> string \<Rightarrow> int \<Rightarrow> int \<Rightarrow> ('e, 'f response) handler" where
  "windows_query es fl now user requested start_ms end_ms =
     h_bind (h_unless (requested = ''self'') (err_forbidden ''windows supports scope=self only'')) (\<lambda>_.
     h_bind (h_get (\<lambda>s. es_query_user_windows es user start_ms (sv_events (ap_server s)))) (\<lambda>r.
     h_bind (h_reply (or_internal r)) (\<lambda>rows.
     h_ok (ok_json (windows_json fl now end_ms rows)))))"

definition bad_query :: "'a result \<Rightarrow> 'a reply" where
  "bad_query r = (case r of Inl e \<Rightarrow> Inl (err_bad_request (''unsupported query: '' @ e)) | Inr x \<Rightarrow> Inr x)"

definition step_of :: "string option \<Rightarrow> int reply" where
  "step_of s = (case s of
     None \<Rightarrow> Inr 3600
   | Some x \<Rightarrow> (case parse_duration_secs x of Inl e \<Rightarrow> Inl (err_bad_request e) | Inr n \<Rightarrow> Inr n))"

definition range_secs :: "int \<Rightarrow> int" where
  "range_secs range_ms = max (range_ms div 1000) 1"

definition check_step :: "int \<Rightarrow> int \<Rightarrow> unit reply" where
  "check_step step_secs range_ms =
     (let secs = range_secs range_ms; min_step = (secs + MAX_BUCKETS - 1) div MAX_BUCKETS
      in if step_secs < min_step
         then Inl (err_bad_request (''step '' @ dec_int step_secs @ ''s too small for range '' @ dec_int secs
                @ ''s (would produce '' @ dec_int (secs div step_secs) @ '' buckets, max '' @ dec_int MAX_BUCKETS
                @ ''). minimum step: '' @ dec_int min_step @ ''s''))
         else if step_secs > secs
         then Inl (err_bad_request (''step '' @ dec_int step_secs @ ''s exceeds range '' @ dec_int secs @ ''s''))
         else Inr ())"

definition json_reply :: "'f json \<Rightarrow> 'f response" where
  "json_reply j = \<lparr>rs_status = 200, rs_headers = [(''Content-Type'', ''application/json'')], rs_body = Some j\<rparr>"

definition or_bad_gateway :: "'a result \<Rightarrow> 'a reply" where
  "or_bad_gateway r = (case r of Inl e \<Rightarrow> Inl (err_bad_gateway e) | Inr x \<Rightarrow> Inr x)"

text \<open>The rows of the range, one past the ceiling to see that it was passed, and the answer of them.\<close>

definition plan_of ::
  "(string \<Rightarrow> string) \<Rightarrow> 'f pricing_table \<Rightarrow> query_params \<Rightarrow> parsed_query \<Rightarrow> 'z option \<Rightarrow> int \<Rightarrow> int \<Rightarrow> int \<Rightarrow> ('z, 'f) query_plan" where
  "plan_of lower prices ps pq tz step_secs start_ms end_ms =
     \<lparr>qp_step = (if tq_step ps \<noteq> None then step_secs else range_secs (end_ms - start_ms)),
      qp_since = start_ms, qp_until = end_ms, qp_is_events = is_events pq, qp_group = group_dim_of (group_by pq),
      qp_provider = pq_provider pq, qp_tz = tz,
      qp_sow = or_else (Option.bind (tq_start_of_week ps) (parse_weekday lower)) 0,
      qp_include_cost = (\<not> tq_no_cost ps), qp_prices = prices\<rparr>"

definition answer_events ::
  "'z chrono \<Rightarrow> 'f floats \<Rightarrow> query_params \<Rightarrow> parsed_query \<Rightarrow> ('z, 'f) query_plan \<Rightarrow> server_event list \<Rightarrow> 'f json" where
  "answer_events ch fl ps pq q all =
     (let truncated = (length all > MAX_QUERY_EVENTS); es = take MAX_QUERY_EVENTS all
      in if raw_events pq \<and> tq_step ps = None
         then raw_events_to_toki_json ch fl (qp_prices q) (qp_tz q) (pq_provider pq) (\<not> tq_no_cost ps) truncated es
         else aggregate_events_to_toki_json ch fl q es)"

definition events_query ::
  "'e event_store \<Rightarrow> 'z chrono \<Rightarrow> 'f floats \<Rightarrow> 'f pricing_table \<Rightarrow> site \<Rightarrow> string \<Rightarrow> string \<Rightarrow> query_params \<Rightarrow>
    'z option \<Rightarrow> int \<Rightarrow> int \<Rightarrow> ('e, 'f response) handler" where
  "events_query es ch fl prices st user requested ps tz start_ms end_ms =
     h_bind (h_reply (bad_query (parse_toki_virtual_query (uni_blank st) (tq_query ps)))) (\<lambda>pq.
     h_bind (h_reply (step_of (tq_step ps))) (\<lambda>step_secs.
     h_bind (h_reply (if tq_step ps \<noteq> None then check_step step_secs (end_ms - start_ms) else Inr ())) (\<lambda>_.
     h_bind (resolve_user_filter st user requested) (\<lambda>f.
     h_bind (h_get (\<lambda>s. es_query_events es start_ms end_ms f (MAX_QUERY_EVENTS + 1) (sv_events (ap_server s)))) (\<lambda>r.
     h_bind (h_reply (or_bad_gateway r)) (\<lambda>rows.
     h_ok (json_reply (answer_events ch fl ps pq
       (plan_of (uni_lower st) prices ps pq tz step_secs start_ms end_ms) rows))))))))"

definition toki_query ::
  "'e event_store \<Rightarrow> 'z chrono \<Rightarrow> 'f floats \<Rightarrow> 'f pricing_table \<Rightarrow> site \<Rightarrow> request \<Rightarrow> query_params \<Rightarrow> ('e, 'f response) handler" where
  "toki_query es ch fl prices st rq ps =
     h_bind (authenticated st rq) (\<lambda>claims.
     (let requested = or_else (tq_scope ps) ''self''
      in h_bind (h_reply (query_range ch (unix_secs rq) ps)) (\<lambda>(tz, start_ms, end_ms).
         if str_trim (uni_blank st) (tq_query ps) = ''windows''
         then windows_query es fl (unix_secs rq) (cl_sub claims) requested start_ms end_ms
         else events_query es ch fl prices st (cl_sub claims) requested ps tz start_ms end_ms)))"

end
