(* ===== verification/Routes.thy ===== *)
theory Routes
  imports Monitor Admin Auth_Api Oidc Metrics Repository Guarantees
begin

text \<open>
  The API as one function: the route table (\<open>build_router\<close> of \<open>src/src/server/http.rs\<close>) as a datatype of
  calls, each with what its path and body carry, and the handler each is routed to. Matching of paths
  and decoding of bodies are axum's. The pages of \<open>dashboard.rs\<close> are static.

  \<open>keeps R h\<close>: the handler \<open>h\<close> takes every state to one related to it by \<open>R\<close>. The relation is shown
  step by step, in the locale \<open>step_relation\<close>; its interpretations are the database operations a
  handler may perform, and the event store's contract.
\<close>

section \<open>Calls\<close>

datatype call =
    Health | Auth_Method string | Auth_Info | Capabilities
  | Login login_request | Register string string | Token_Refresh string "string option"
  | Device_Code | Device_Token poll_request | Device_Approve string
  | Oidc_Authorize string | Oidc_Callback callback_query
  | Toki_Query query_params
  | Me_Devices | Me_Delete_Device string | Me_Rename_Device string string | Me_Password string string | Me_Teams
  | Monitor_Index | Monitor_List | Monitor_Get string | Monitor_Put string put_setting_request
  | Monitor_Delete string "int option"
  | Admin_Users | Admin_Create_User create_user_request | Admin_Delete_User string
  | Admin_Password string string | Admin_Role string string | Admin_Active string bool
  | Admin_Devices | Admin_Delete_Device string
  | Admin_Pending | Admin_Approve string | Admin_Reject string
  | Admin_Server_Info | Admin_Settings | Admin_Update_Setting string string
  | Admin_Teams | Admin_Create_Team string | Admin_Delete_Team string
  | Admin_Team_Members string | Admin_Add_Member string string "string option" | Admin_Remove_Member string string

text \<open>Method and path, the parameters of the path in their places.\<close>

fun path_of :: "call \<Rightarrow> string \<times> string list" where
  "path_of Health = (''GET'', [''health''])"
| "path_of (Auth_Method _) = (''POST'', [''auth-method''])"
| "path_of Auth_Info = (''GET'', [''auth'', ''info''])"
| "path_of Capabilities = (''GET'', [''api'', ''v1'', ''capabilities''])"
| "path_of (Login _) = (''POST'', [''login''])"
| "path_of (Register _ _) = (''POST'', [''register''])"
| "path_of (Token_Refresh _ _) = (''POST'', [''token'', ''refresh''])"
| "path_of Device_Code = (''POST'', [''device'', ''code''])"
| "path_of (Device_Token _) = (''POST'', [''device'', ''token''])"
| "path_of (Device_Approve _) = (''POST'', [''device'', ''approve''])"
| "path_of (Oidc_Authorize _) = (''GET'', [''auth'', ''oidc'', ''authorize''])"
| "path_of (Oidc_Callback _) = (''GET'', [''auth'', ''callback''])"
| "path_of (Toki_Query _) = (''GET'', [''api'', ''v1'', ''toki'', ''query''])"
| "path_of Me_Devices = (''GET'', [''me'', ''devices''])"
| "path_of (Me_Delete_Device d) = (''DELETE'', [''me'', ''devices'', d])"
| "path_of (Me_Rename_Device d _) = (''PATCH'', [''me'', ''devices'', d, ''name''])"
| "path_of (Me_Password _ _) = (''PATCH'', [''me'', ''password''])"
| "path_of Me_Teams = (''GET'', [''me'', ''teams''])"
| "path_of Monitor_Index = (''GET'', [''me'', ''monitor'', ''index''])"
| "path_of Monitor_List = (''GET'', [''me'', ''monitor'', ''settings''])"
| "path_of (Monitor_Get k) = (''GET'', [''me'', ''monitor'', ''settings'', k])"
| "path_of (Monitor_Put k _) = (''PUT'', [''me'', ''monitor'', ''settings'', k])"
| "path_of (Monitor_Delete k _) = (''DELETE'', [''me'', ''monitor'', ''settings'', k])"
| "path_of Admin_Users = (''GET'', [''admin'', ''users''])"
| "path_of (Admin_Create_User _) = (''POST'', [''admin'', ''users''])"
| "path_of (Admin_Delete_User u) = (''DELETE'', [''admin'', ''users'', u])"
| "path_of (Admin_Password u _) = (''PATCH'', [''admin'', ''users'', u, ''password''])"
| "path_of (Admin_Role u _) = (''PATCH'', [''admin'', ''users'', u, ''role''])"
| "path_of (Admin_Active u _) = (''PATCH'', [''admin'', ''users'', u, ''active''])"
| "path_of Admin_Devices = (''GET'', [''admin'', ''devices''])"
| "path_of (Admin_Delete_Device d) = (''DELETE'', [''admin'', ''devices'', d])"
| "path_of Admin_Pending = (''GET'', [''admin'', ''pending''])"
| "path_of (Admin_Approve i) = (''POST'', [''admin'', ''pending'', i, ''approve''])"
| "path_of (Admin_Reject i) = (''POST'', [''admin'', ''pending'', i, ''reject''])"
| "path_of Admin_Server_Info = (''GET'', [''admin'', ''server-info''])"
| "path_of Admin_Settings = (''GET'', [''admin'', ''settings''])"
| "path_of (Admin_Update_Setting k _) = (''PUT'', [''admin'', ''settings'', k])"
| "path_of Admin_Teams = (''GET'', [''admin'', ''teams''])"
| "path_of (Admin_Create_Team _) = (''POST'', [''admin'', ''teams''])"
| "path_of (Admin_Delete_Team t) = (''DELETE'', [''admin'', ''teams'', t])"
| "path_of (Admin_Team_Members t) = (''GET'', [''admin'', ''teams'', t, ''members''])"
| "path_of (Admin_Add_Member t _ _) = (''POST'', [''admin'', ''teams'', t, ''members''])"
| "path_of (Admin_Remove_Member t u) = (''DELETE'', [''admin'', ''teams'', t, ''members'', u])"

text \<open>What the handlers reach beside their state.\<close>

record ('e, 'z, 'f) outside =
  ou_events :: "'e event_store"
  ou_chrono :: "'z chrono"
  ou_floats :: "'f floats"
  ou_prices :: "'f pricing_table"
  ou_provider :: provider
  ou_state_ttl :: nat

fun serve :: "('e, 'z, 'f) outside \<Rightarrow> site \<Rightarrow> request \<Rightarrow> call \<Rightarrow> ('e, 'f response) handler" where
  "serve ou st rq Health = health"
| "serve ou st rq (Auth_Method _) = auth_method st"
| "serve ou st rq Auth_Info = auth_info st"
| "serve ou st rq Capabilities = h_ok capabilities"
| "serve ou st rq (Login b) = login st rq b"
| "serve ou st rq (Register u p) = register st rq u p"
| "serve ou st rq (Token_Refresh t d) = token_refresh st rq t d"
| "serve ou st rq Device_Code = device_code_request st rq"
| "serve ou st rq (Device_Token b) = device_token_poll st rq b"
| "serve ou st rq (Device_Approve c) = device_approve st rq c"
| "serve ou st rq (Oidc_Authorize r) = oidc_authorize (ou_provider ou) (ou_state_ttl ou) st rq r"
| "serve ou st rq (Oidc_Callback q) = oidc_callback (ou_provider ou) (ou_state_ttl ou) st rq q"
| "serve ou st rq (Toki_Query ps) = toki_query (ou_events ou) (ou_chrono ou) (ou_floats ou) (ou_prices ou) st rq ps"
| "serve ou st rq Me_Devices = me_devices st rq"
| "serve ou st rq (Me_Delete_Device d) = me_delete_device (ou_events ou) st rq d"
| "serve ou st rq (Me_Rename_Device d n) = me_rename_device st rq d n"
| "serve ou st rq (Me_Password c n) = me_change_password st rq c n"
| "serve ou st rq Me_Teams = me_teams st rq"
| "serve ou st rq Monitor_Index = me_monitor_index st rq"
| "serve ou st rq Monitor_List = me_monitor_list st rq"
| "serve ou st rq (Monitor_Get k) = me_monitor_get st rq k"
| "serve ou st rq (Monitor_Put k b) = me_monitor_put st rq k b"
| "serve ou st rq (Monitor_Delete k v) = me_monitor_delete st rq k v"
| "serve ou st rq Admin_Users = admin_list_users st rq"
| "serve ou st rq (Admin_Create_User b) = admin_create_user st rq b"
| "serve ou st rq (Admin_Delete_User u) = admin_delete_user (ou_events ou) st rq u"
| "serve ou st rq (Admin_Password u p) = admin_change_user_password st rq u p"
| "serve ou st rq (Admin_Role u r) = admin_change_user_role st rq u r"
| "serve ou st rq (Admin_Active u a) = admin_set_user_active st rq u a"
| "serve ou st rq Admin_Devices = admin_list_devices st rq"
| "serve ou st rq (Admin_Delete_Device d) = admin_delete_device (ou_events ou) st rq d"
| "serve ou st rq Admin_Pending = admin_list_pending st rq"
| "serve ou st rq (Admin_Approve i) = admin_approve_pending st rq i"
| "serve ou st rq (Admin_Reject i) = admin_reject_pending st rq i"
| "serve ou st rq Admin_Server_Info = admin_server_info st rq"
| "serve ou st rq Admin_Settings = admin_list_settings st rq"
| "serve ou st rq (Admin_Update_Setting k v) = admin_update_setting st rq k v"
| "serve ou st rq Admin_Teams = admin_list_teams st rq"
| "serve ou st rq (Admin_Create_Team n) = admin_create_team st rq n"
| "serve ou st rq (Admin_Delete_Team t) = admin_delete_team st rq t"
| "serve ou st rq (Admin_Team_Members t) = admin_list_team_members st rq t"
| "serve ou st rq (Admin_Add_Member t u r) = admin_add_team_member st rq t u r"
| "serve ou st rq (Admin_Remove_Member t u) = admin_remove_team_member st rq t u"

section \<open>Steps and relations\<close>

definition keeps :: "('e app \<Rightarrow> 'e app \<Rightarrow> bool) \<Rightarrow> ('e, 'a) handler \<Rightarrow> bool" where
  "keeps R h \<longleftrightarrow> (\<forall>s. R s (snd (h s)))"

lemma keepsD: "keeps R h \<Longrightarrow> h s = (r, s') \<Longrightarrow> R s s'"
  by (metis keeps_def snd_conv)

lemma keeps_cases:
  "(x = None \<Longrightarrow> keeps R a) \<Longrightarrow> (\<And>y. x = Some y \<Longrightarrow> keeps R (b y)) \<Longrightarrow> keeps R (case x of None \<Rightarrow> a | Some y \<Rightarrow> b y)"
  "(\<And>e. r = Inl e \<Longrightarrow> keeps R (f e)) \<Longrightarrow> (\<And>y. r = Inr y \<Longrightarrow> keeps R (g y)) \<Longrightarrow> keeps R (case r of Inl e \<Rightarrow> f e | Inr y \<Rightarrow> g y)"
  "(\<And>y z. p = (y, z) \<Longrightarrow> keeps R (h y z)) \<Longrightarrow> keeps R (case p of (y, z) \<Rightarrow> h y z)"
  "(\<And>y z. q = (y, z) \<Longrightarrow> keeps R (h' y z w)) \<Longrightarrow> keeps R ((case q of (y, z) \<Rightarrow> h' y z) w)"
  "(c \<Longrightarrow> keeps R a) \<Longrightarrow> (\<not> c \<Longrightarrow> keeps R a') \<Longrightarrow> keeps R (if c then a else a')"
  by (auto split: option.splits sum.splits prod.splits)

text \<open>The subject of the request's token.\<close>

definition caller :: "site \<Rightarrow> request \<Rightarrow> string option" where
  "caller st rq = (case extract_jwt (st_jwt_crate st) (st_jwt st) (clock.truncate rq) (rq_headers rq) of
     Inl _ \<Rightarrow> None | Inr c \<Rightarrow> Some (cl_sub c))"

lemma authenticated_caller: "authenticated st rq s = (Inr c, s') \<Longrightarrow> caller st rq = Some (cl_sub c)"
  by (auto simp: authenticated_def authenticate_def caller_def split: sum.splits prod.splits)

lemma as_admin_caller: "as_admin st rq s = (Inr a, s') \<Longrightarrow> caller st rq = Some a"
  by (auto simp: as_admin_def require_admin_def authenticate_def caller_def split: sum.splits prod.splits if_splits)

lemma authenticated_cache: "\<exists>c. snd (authenticated st rq s) = s\<lparr>ap_server := (ap_server s)\<lparr>sv_cache := c\<rparr>\<rparr>"
  by (auto simp: authenticated_def split: prod.splits)

lemma as_admin_cache: "\<exists>c. snd (as_admin st rq s) = s\<lparr>ap_server := (ap_server s)\<lparr>sv_cache := c\<rparr>\<rparr>"
  by (auto simp: as_admin_def split: prod.splits)

locale step_relation =
  fixes R :: "'e app \<Rightarrow> 'e app \<Rightarrow> bool"
  assumes refl: "R s s"
    and trans: "R s t \<Longrightarrow> R t u \<Longrightarrow> R s u"
    and same: "sv_db (ap_server t) = sv_db (ap_server s) \<Longrightarrow> sv_events (ap_server t) = sv_events (ap_server s) \<Longrightarrow> R s t"
begin

lemma ok: "keeps R (h_ok x)"
  by (simp add: keeps_def h_ok_def refl)

lemma fail: "keeps R (h_fail e)"
  by (simp add: keeps_def h_fail_def refl)

lemma get: "keeps R (h_get f)"
  by (simp add: keeps_def h_get_def refl)

lemma reply: "keeps R (h_reply r)"
  by (simp add: keeps_def h_reply_def refl)

lemma unless: "keeps R (h_unless c e)"
  by (simp add: h_unless_def ok fail)

lemma bind_value:
  assumes "keeps R m" "\<And>s x s'. m s = (Inr x, s') \<Longrightarrow> keeps R (f x)"
  shows "keeps R (h_bind m f)"
  unfolding keeps_def
proof
  fix s
  obtain r s' where m: "m s = (r, s')" by fastforce
  then have R: "R s s'" using assms(1) by (rule keepsD [rotated])
  show "R s (snd (h_bind m f s))"
  proof (cases r)
    case (Inr x)
    then have "R s' (snd (f x s'))" using assms(2) m by (simp add: keeps_def)
    with Inr m R show ?thesis by (simp add: h_bind_def trans)
  qed (use m R in \<open>simp add: h_bind_def\<close>)
qed

lemma bind: "keeps R m \<Longrightarrow> (\<And>x. keeps R (f x)) \<Longrightarrow> keeps R (h_bind m f)"
  by (rule bind_value)

lemma bind_unless: "(c \<Longrightarrow> keeps R (f ())) \<Longrightarrow> keeps R (h_bind (h_unless c e) f)"
  by (auto simp: keeps_def h_bind_def h_unless_def h_ok_def h_fail_def refl)

lemma each: "(\<And>x. keeps R (f x)) \<Longrightarrow> keeps R (h_each f xs)"
  by (induction xs) (auto intro: ok bind)

lemma db_read: "keeps R (db_read q)"
  by (simp add: keeps_def db_read_def refl)

lemma quiet:
  "(\<And>s. sv_db (ap_server (snd (h s))) = sv_db (ap_server s)) \<Longrightarrow>
   (\<And>s. sv_events (ap_server (snd (h s))) = sv_events (ap_server s)) \<Longrightarrow> keeps R h"
  by (auto simp: keeps_def intro: same)

lemma brute: "keeps R (brute_guarded st rq ip name)" "keeps R (brute_failed st rq ip name)" "keeps R (brute_passed ip name)"
  by (rule quiet; simp add: brute_guarded_def brute_failed_def brute_passed_def split: prod.splits)+

lemma cached: "keeps R (evict_active user)" "keeps R (authenticated st rq)" "keeps R (as_admin st rq)"
  by (rule quiet; simp add: evict_active_def authenticated_def as_admin_def split: prod.splits)+

lemma bind_caller:
  "(\<And>c. caller st rq = Some (cl_sub c) \<Longrightarrow> keeps R (f c)) \<Longrightarrow> keeps R (h_bind (authenticated st rq) f)"
  by (rule bind_value [OF cached(2)]) (blast dest: authenticated_caller)

lemma bind_admin: "(\<And>a. caller st rq = Some a \<Longrightarrow> keeps R (f a)) \<Longrightarrow> keeps R (h_bind (as_admin st rq) f)"
  by (rule bind_value [OF cached(3)]) (blast dest: as_admin_caller)

lemma tracked: "keeps R (monitor_slot rq user)" "keeps R (poll_slot rq code)" "keeps R (poll_done code)"
  by (rule quiet; simp add: monitor_slot_def poll_slot_def poll_done_def Let_def split: prod.splits sum.splits option.splits)+

lemma oidc_quiet: "keeps R (forget_discovery key)" "keeps R (get_oidc_discovery p st rq)"
    "keeps R (remember_state ttl rq csrf redirect nonce)" "keeps R (consume_state ttl rq csrf)"
  by (rule quiet; simp add: forget_discovery_def get_oidc_discovery_def remember_state_def consume_state_def
      split: prod.splits sum.splits option.splits)+

lemma checks: "keeps R (protect_builtin user)" "keeps R (hash_password st rq pw)" "keeps R health"
  by (rule quiet; simp add: protect_builtin_def hash_password_def h_reply_def h_fail_def h_ok_def health_def split: sum.splits option.splits)+

lemma lookups: "keeps R (require_user user)" "keeps R (require_team team)" "keeps R (keep_an_admin active u)"
  unfolding require_user_def require_team_def keep_an_admin_def
  by (auto intro!: bind db_read unless ok fail split: option.splits)

lemmas quiet_steps = ok fail get reply unless db_read brute cached tracked oidc_quiet checks lookups

end

section \<open>The database operations of a call\<close>

definition performs :: "(sqlite_db \<Rightarrow> 'a db_result) \<Rightarrow> int \<Rightarrow> db_op \<Rightarrow> bool" where
  "performs f now op \<longleftrightarrow> (\<forall>db. snd (f db) = db_exec now op db)"

lemma performed:
  "performs (create_user now u) now (Create_User u)"
  "performs (delete_user i) 0 (Delete_User i)"
  "performs (update_password now i h) now (Update_Password i h)"
  "performs (update_user_role now i role) now (Update_User_Role i role)"
  "performs (set_user_active now i b) now (Set_User_Active i b)"
  "performs (create_oidc_user now v) now (Create_Oidc_User v)"
  "performs (create_device now d i n k) now (Create_Device d i n k)"
  "performs (delete_device d) 0 (Delete_Device d)"
  "performs (delete_user_device d i) 0 (Delete_User_Device d i)"
  "performs (rename_device d i n) 0 (Rename_Device d i n)"
  "performs (create_team now g n) now (Create_Team g n)"
  "performs (delete_team g) 0 (Delete_Team g)"
  "performs (add_team_member now g i role) now (Add_Team_Member g i role)"
  "performs (remove_team_member g i) 0 (Remove_Team_Member g i)"
  "performs (create_pending_registration now p n h) now (Create_Pending p n h)"
  "performs (approve_registration now p i) now (Approve_Registration p i)"
  "performs (reject_registration p) 0 (Reject_Registration p)"
  "performs (store_issued_token now c) now (Store_Token (cl_jti c) (cl_sub c) (cl_did c) (cl_exp c))"
  "performs (revoke_refresh_token j) 0 (Revoke_Token j)"
  "performs (revoke_user_refresh_tokens i) 0 (Revoke_User_Tokens i)"
  "performs (create_device_code d n x) 0 (Create_Code d n x)"
  "performs (approve_device_code d i a r) 0 (Approve_Code d i a r)"
  "performs (delete_device_code d) 0 (Delete_Code d)"
  "performs (set_server_setting now k v') now (Set_Server_Setting k v')"
  "performs (upsert_monitor_setting now i k v' e q) now (Upsert_Monitor i k v' e q)"
  "performs (delete_monitor_setting i k e) 0 (Delete_Monitor i k e)"
  by (simp_all add: performs_def store_issued_token_def)

definition db_by :: "(db_op \<Rightarrow> bool) \<Rightarrow> 'e app \<Rightarrow> 'e app \<Rightarrow> bool" where
  "db_by P s s' \<longleftrightarrow> (\<exists>ops. list_all (\<lambda>(_, op). P op) ops \<and> ap_db s' = db_run ops (ap_db s))"

lemma db_run_append: "db_run (xs @ ys) db = db_run ys (db_run xs db)"
  by (induction xs db rule: db_run.induct) simp_all

lemma db_by_same: "ap_db s' = ap_db s \<Longrightarrow> db_by P s s'"
  unfolding db_by_def by (rule exI [of _ "[]"]) simp

lemma db_by_trans: "db_by P s t \<Longrightarrow> db_by P t u \<Longrightarrow> db_by P s u"
  unfolding db_by_def by (metis db_run_append list_all_append)

lemma db_by_one: "P op \<Longrightarrow> ap_db s' = db_exec now op (ap_db s) \<Longrightarrow> db_by P s s'"
  unfolding db_by_def by (rule exI [of _ "[(now, op)]"]) simp

interpretation db_steps: step_relation "db_by P" for P
  by unfold_locales (auto simp: ap_db_def intro: db_by_same db_by_trans)

lemma set_db_sel [simp]: "ap_db (set_db db s) = db" "sv_events (ap_server (set_db db s)) = sv_events (ap_server s)"
  by (simp_all add: ap_db_def set_db_def)

lemma db_step:
  assumes "performs f now op" "P op"
  shows "keeps (db_by P) (db_write err f)" "keeps (db_by P) (db_try f)" "keeps (db_by P) (db_attempt f)"
  using assms by (auto simp: keeps_def db_write_def db_try_def db_attempt_def performs_def split: prod.splits sum.splits
    intro!: db_by_one [of P op _ now]) (metis snd_conv)+

lemma events_step: "keeps (db_by P) (events_try f)"
  by (simp add: keeps_def events_try_def ap_db_def db_by_same)

lemma purge_step: "keeps (db_by P) (purge_user_events es devs)"
  unfolding purge_user_events_def by (rule db_steps.each) (rule events_step)

lemma db_step_at: "keeps (db_by P) h \<Longrightarrow> db_by P s (snd (h s))"
  by (simp add: keeps_def)

lemma rotate_tokens_effect:
  "snd (rotate_tokens jc m now i i' old dev db) = db \<or>
   (\<exists>j j' u e. snd (rotate_tokens jc m now i i' old dev db) = db_exec now (Rotate_Token j j' u dev e) db)"
proof (cases "\<exists>c a r c'. verify_refresh jc m now old = Inr c \<and> issue_access_token jc m now i (cl_sub c) = Inr a \<and>
    issue_refresh_token jc m now i' (cl_sub c) dev = Inr (r, c')")
  case True
  then obtain c a r c' where "verify_refresh jc m now old = Inr c" "issue_access_token jc m now i (cl_sub c) = Inr a"
    "issue_refresh_token jc m now i' (cl_sub c) dev = Inr (r, c')" by blast
  then have "snd (rotate_tokens jc m now i i' old dev db) =
      db_exec now (Rotate_Token (cl_jti c) (cl_jti c') (cl_sub c') dev (cl_exp c')) db"
    by (simp add: rotate_tokens_def split: prod.splits sum.splits)
  then show ?thesis by blast
next
  case False
  then have "snd (rotate_tokens jc m now i i' old dev db) = db"
    by (auto simp: rotate_tokens_def split: prod.splits sum.splits)
  then show ?thesis ..
qed

lemma rotate_step:
  assumes "\<And>j j' u d e. P (Rotate_Token j j' u d e)"
  shows "keeps (db_by P) (db_attempt (rotate_tokens jc m now i i' old dev))"
  unfolding keeps_def
proof
  fix s
  let ?db = "snd (rotate_tokens jc m now i i' old dev (ap_db s))"
  have "db_by P s (set_db ?db s)"
  proof (rule disjE [OF rotate_tokens_effect [of jc m now i i' old dev "ap_db s"]], goal_cases)
    case 2
    then obtain j j' u e where "?db = db_exec now (Rotate_Token j j' u dev e) (ap_db s)" by blast
    then show ?case by (intro db_by_one [where op = "Rotate_Token j j' u dev e" and now = now] assms) (simp only: set_db_sel)
  qed (simp add: db_by_same)
  then show "db_by P s (snd (db_attempt (rotate_tokens jc m now i i' old dev) s))" by (simp add: db_attempt_def)
qed

lemma issue_step:
  assumes "\<And>j d x. P (Store_Token j user d x)"
  shows "keeps (db_by P) (issue_pair st rq k user dev)"
proof -
  have sub: "cl_sub c = user" if "issue_refresh_token jc m now i user dev = Inr (t, c)" for jc m now i t c
    using that by (auto simp: issue_refresh_token_def refresh_claims_def Let_def split: sum.splits)
  show ?thesis unfolding issue_pair_def
    by (auto intro!: db_steps.bind_value db_steps.reply db_steps.ok db_step [OF performed(18)]
        simp: h_reply_def or_internal_def sub assms split: sum.splits)
qed

lemma register_step:
  assumes "\<And>k u n. P (Create_Device k u n k)"
  shows "keeps (db_by P) (register_device st rq user k n)"
  by (auto simp: keeps_def register_device_def assms split: option.splits
      intro: db_by_same db_step_at [OF db_step(2) [OF performed(7)]])

text \<open>What a call may do to the database, given the subject of its token.\<close>

definition own :: "string option \<Rightarrow> string \<Rightarrow> bool" where
  "own who u \<longleftrightarrow> who = Some u"

fun may :: "call \<Rightarrow> string option \<Rightarrow> db_op \<Rightarrow> bool" where
  "may (Login _) who op = (case op of Store_Token _ _ _ _ \<Rightarrow> True | _ \<Rightarrow> False)"
| "may (Register _ _) who op =
     (case op of Create_Pending _ _ _ \<Rightarrow> True | Create_User u \<Rightarrow> nu_role u = ''user'' | _ \<Rightarrow> False)"
| "may (Token_Refresh _ _) who op = (case op of Rotate_Token _ _ _ _ _ \<Rightarrow> True | _ \<Rightarrow> False)"
| "may Device_Code who op = (case op of Create_Code _ _ _ \<Rightarrow> True | _ \<Rightarrow> False)"
| "may (Device_Token b) who op =
     (case op of Delete_Code c \<Rightarrow> c = dp_device_code b | Create_Device _ _ _ _ \<Rightarrow> True | _ \<Rightarrow> False)"
| "may (Device_Approve _) who op =
     (case op of Delete_Code _ \<Rightarrow> True | Revoke_Token _ \<Rightarrow> True | Store_Token _ u _ _ \<Rightarrow> own who u
      | Approve_Code _ u _ _ \<Rightarrow> own who u | _ \<Rightarrow> False)"
| "may (Oidc_Callback _) who op =
     (case op of Create_Oidc_User u \<Rightarrow> no_role u = ''user'' | Store_Token _ _ _ _ \<Rightarrow> True | _ \<Rightarrow> False)"
| "may (Me_Delete_Device d) who op = (case op of Delete_User_Device d' u \<Rightarrow> d' = d \<and> own who u | _ \<Rightarrow> False)"
| "may (Me_Rename_Device d _) who op = (case op of Rename_Device d' u _ \<Rightarrow> d' = d \<and> own who u | _ \<Rightarrow> False)"
| "may (Me_Password _ _) who op =
     (case op of Update_Password u _ \<Rightarrow> own who u | Revoke_User_Tokens u \<Rightarrow> own who u | _ \<Rightarrow> False)"
| "may (Monitor_Put k b) who op =
     (case op of Upsert_Monitor u k' v e q \<Rightarrow>
        own who u \<and> k' = k \<and> v = ps_value b \<and> e = ps_if_version b \<and> q = quota | _ \<Rightarrow> False)"
| "may (Monitor_Delete k e) who op = (case op of Delete_Monitor u k' e' \<Rightarrow> own who u \<and> k' = k \<and> e' = e | _ \<Rightarrow> False)"
| "may (Admin_Create_User b) who op = (case op of Create_User u \<Rightarrow> nu_username u = cu_username b | _ \<Rightarrow> False)"
| "may (Admin_Delete_User u) who op =
     (case op of Set_User_Active v b \<Rightarrow> v = u \<and> \<not> b | Delete_User v \<Rightarrow> v = u | _ \<Rightarrow> False)"
| "may (Admin_Password u _) who op =
     (case op of Update_Password v _ \<Rightarrow> v = u | Revoke_User_Tokens v \<Rightarrow> v = u | _ \<Rightarrow> False)"
| "may (Admin_Role u r) who op = (case op of Update_User_Role v r' \<Rightarrow> v = u \<and> r' = r | _ \<Rightarrow> False)"
| "may (Admin_Active u a) who op =
     (case op of Set_User_Active v b \<Rightarrow> v = u \<and> b = a | Revoke_User_Tokens v \<Rightarrow> v = u \<and> \<not> a | _ \<Rightarrow> False)"
| "may (Admin_Delete_Device d) who op = (case op of Delete_Device d' \<Rightarrow> d' = d | _ \<Rightarrow> False)"
| "may (Admin_Approve i) who op = (case op of Approve_Registration _ i' \<Rightarrow> i' = i | _ \<Rightarrow> False)"
| "may (Admin_Reject i) who op = (case op of Reject_Registration i' \<Rightarrow> i' = i | _ \<Rightarrow> False)"
| "may (Admin_Update_Setting k v) who op = (case op of Set_Server_Setting k' v' \<Rightarrow> k' = k \<and> v' = v | _ \<Rightarrow> False)"
| "may (Admin_Create_Team _) who op = (case op of Create_Team _ _ \<Rightarrow> True | _ \<Rightarrow> False)"
| "may (Admin_Delete_Team t) who op = (case op of Delete_Team t' \<Rightarrow> t' = t | _ \<Rightarrow> False)"
| "may (Admin_Add_Member t u _) who op = (case op of Add_Team_Member t' u' _ \<Rightarrow> t' = t \<and> u' = u | _ \<Rightarrow> False)"
| "may (Admin_Remove_Member t u) who op = (case op of Remove_Team_Member t' u' \<Rightarrow> t' = t \<and> u' = u | _ \<Rightarrow> False)"
| "may _ who op = False"

named_theorems handler_defs \<open>the definitions of the handlers\<close>

declare auth_method_def [handler_defs] auth_info_def [handler_defs] login_def [handler_defs] register_def [handler_defs]
  register_outcome_def [handler_defs] token_refresh_def [handler_defs] 
  device_code_request_def [handler_defs] device_token_poll_def [handler_defs] device_approve_def [handler_defs]
  oidc_authorize_def [handler_defs] oidc_callback_def [handler_defs] oidc_account_def [handler_defs]
  toki_query_def [handler_defs] windows_query_def [handler_defs] events_query_def [handler_defs]
  me_devices_def [handler_defs] me_delete_device_def [handler_defs]
  me_rename_device_def [handler_defs] me_change_password_def [handler_defs] replace_password_def [handler_defs]
  me_teams_def [handler_defs] me_monitor_index_def [handler_defs] me_monitor_list_def [handler_defs]
  me_monitor_get_def [handler_defs] me_monitor_put_def [handler_defs] me_monitor_delete_def [handler_defs]
  admin_list_users_def [handler_defs] admin_create_user_def [handler_defs] admin_delete_user_def [handler_defs]
  admin_change_user_password_def [handler_defs] admin_change_user_role_def [handler_defs]
  admin_set_user_active_def [handler_defs] admin_list_devices_def [handler_defs] admin_delete_device_def [handler_defs]
  admin_list_pending_def [handler_defs] admin_approve_pending_def [handler_defs] admin_reject_pending_def [handler_defs]
  admin_server_info_def [handler_defs] admin_list_settings_def [handler_defs] admin_update_setting_def [handler_defs]
  admin_list_teams_def [handler_defs] admin_create_team_def [handler_defs] admin_delete_team_def [handler_defs]
  admin_list_team_members_def [handler_defs] admin_add_team_member_def [handler_defs] admin_remove_team_member_def [handler_defs]

lemmas db_keeping = db_steps.bind_admin db_steps.bind_caller db_steps.bind db_steps.quiet_steps keeps_cases events_step purge_step
  rotate_step register_step issue_step db_step [OF performed(1)] db_step [OF performed(2)] db_step [OF performed(3)]
  db_step [OF performed(4)] db_step [OF performed(5)] db_step [OF performed(6)] db_step [OF performed(7)]
  db_step [OF performed(8)] db_step [OF performed(9)] db_step [OF performed(10)] db_step [OF performed(11)]
  db_step [OF performed(12)] db_step [OF performed(13)] db_step [OF performed(14)] db_step [OF performed(15)]
  db_step [OF performed(16)] db_step [OF performed(17)] db_step [OF performed(18)] db_step [OF performed(19)]
  db_step [OF performed(20)] db_step [OF performed(21)] db_step [OF performed(22)] db_step [OF performed(23)]
  db_step [OF performed(24)] db_step [OF performed(25)] db_step [OF performed(26)]

lemma scope_step: "keeps (db_by P) (resolve_user_filter st user requested)"
  unfolding resolve_user_filter_def by (cases "parse_scope requested"; simp only: scope.case; intro db_keeping)

lemma public_ops:
  "keeps (db_by (may (Auth_Method x) (caller st rq))) (auth_method st)"
  "keeps (db_by (may (Auth_Info) (caller st rq))) (auth_info st)"
  "keeps (db_by (may (Login b) (caller st rq))) (login st rq b)"
  "keeps (db_by (may (Register u pw) (caller st rq))) (register st rq u pw)"
  "keeps (db_by (may (Token_Refresh t d) (caller st rq))) (token_refresh st rq t d)"
  "keeps (db_by (may (Device_Code) (caller st rq))) (device_code_request st rq)"
  "keeps (db_by (may (Device_Token pb) (caller st rq))) (device_token_poll st rq pb)"
  unfolding handler_defs Let_def by (intro db_keeping; simp add: own_def quota_def)+

lemma approve_ops:
  "keeps (db_by (may (Device_Approve x) (caller st rq))) (device_approve st rq x)"
  unfolding handler_defs Let_def by (intro db_keeping; simp add: own_def quota_def)+

lemma oidc_ops:
  "keeps (db_by (may (Oidc_Authorize x) (caller st rq))) (oidc_authorize p ttl st rq x)"
  "keeps (db_by (may (Oidc_Callback q) (caller st rq))) (oidc_callback p ttl st rq q)"
  unfolding handler_defs Let_def by (intro db_keeping; simp add: own_def quota_def)+

lemma query_ops:
  "keeps (db_by (may (Toki_Query ps) (caller st rq))) (toki_query es ch fl prices st rq ps)"
  unfolding handler_defs Let_def by (intro db_keeping scope_step; simp add: own_def quota_def)+

lemma me_ops:
  "keeps (db_by (may (Me_Devices) (caller st rq))) (me_devices st rq)"
  "keeps (db_by (may (Me_Delete_Device d) (caller st rq))) (me_delete_device es st rq d)"
  "keeps (db_by (may (Me_Rename_Device d n) (caller st rq))) (me_rename_device st rq d n)"
  "keeps (db_by (may (Me_Password x y) (caller st rq))) (me_change_password st rq x y)"
  "keeps (db_by (may (Me_Teams) (caller st rq))) (me_teams st rq)"
  unfolding handler_defs Let_def by (intro db_keeping; simp add: own_def quota_def)+

lemma monitor_ops:
  "keeps (db_by (may (Monitor_Index) (caller st rq))) (me_monitor_index st rq)"
  "keeps (db_by (may (Monitor_List) (caller st rq))) (me_monitor_list st rq)"
  "keeps (db_by (may (Monitor_Get k) (caller st rq))) (me_monitor_get st rq k)"
  "keeps (db_by (may (Monitor_Put k b') (caller st rq))) (me_monitor_put st rq k b')"
  "keeps (db_by (may (Monitor_Delete k v) (caller st rq))) (me_monitor_delete st rq k v)"
  unfolding handler_defs Let_def by (intro db_keeping; simp add: own_def quota_def)+

lemma admin_ops:
  "keeps (db_by (may (Admin_Users) (caller st rq))) (admin_list_users st rq)"
  "keeps (db_by (may (Admin_Create_User b'') (caller st rq))) (admin_create_user st rq b'')"
  "keeps (db_by (may (Admin_Delete_User u) (caller st rq))) (admin_delete_user es st rq u)"
  "keeps (db_by (may (Admin_Password u p') (caller st rq))) (admin_change_user_password st rq u p')"
  "keeps (db_by (may (Admin_Role u r) (caller st rq))) (admin_change_user_role st rq u r)"
  "keeps (db_by (may (Admin_Active u a) (caller st rq))) (admin_set_user_active st rq u a)"
  "keeps (db_by (may (Admin_Devices) (caller st rq))) (admin_list_devices st rq)"
  "keeps (db_by (may (Admin_Delete_Device d) (caller st rq))) (admin_delete_device es st rq d)"
  "keeps (db_by (may (Admin_Pending) (caller st rq))) (admin_list_pending st rq)"
  "keeps (db_by (may (Admin_Approve i) (caller st rq))) (admin_approve_pending st rq i)"
  "keeps (db_by (may (Admin_Reject i) (caller st rq))) (admin_reject_pending st rq i)"
  "keeps (db_by (may (Admin_Server_Info) (caller st rq))) (admin_server_info st rq)"
  "keeps (db_by (may (Admin_Settings) (caller st rq))) (admin_list_settings st rq)"
  "keeps (db_by (may (Admin_Update_Setting k v') (caller st rq))) (admin_update_setting st rq k v')"
  "keeps (db_by (may (Admin_Teams) (caller st rq))) (admin_list_teams st rq)"
  "keeps (db_by (may (Admin_Create_Team n) (caller st rq))) (admin_create_team st rq n)"
  "keeps (db_by (may (Admin_Delete_Team t) (caller st rq))) (admin_delete_team st rq t)"
  "keeps (db_by (may (Admin_Team_Members t) (caller st rq))) (admin_list_team_members st rq t)"
  "keeps (db_by (may (Admin_Add_Member t u r') (caller st rq))) (admin_add_team_member st rq t u r')"
  "keeps (db_by (may (Admin_Remove_Member t u) (caller st rq))) (admin_remove_team_member st rq t u)"
  unfolding handler_defs Let_def by (intro db_keeping; simp add: own_def quota_def)+

lemma serve_keeps: "keeps (db_by (may c (caller st rq))) (serve ou st rq c)"
  by (cases c) (simp_all only: serve.simps public_ops approve_ops oidc_ops query_ops me_ops monitor_ops admin_ops
      db_steps.checks db_steps.ok)

end
