(* ===== verification/Api_Demo.thy ===== *)
theory Api_Demo
  imports Routes Sync_Safety
begin

text \<open>
  Concrete parameters and states of the API, with which the properties' hypotheses are met: plain
  tokens, a \<open>bcrypt\<close> that keeps the password in clear, numbers for floats, one time zone that is UTC.
\<close>

definition demo_settings :: dynamic_settings where
  "demo_settings = \<lparr>config_registration_mode = ''open'', config_oidc_issuer = ''https://id'', config_oidc_client_id = ''c'',
     config_oidc_client_secret = ''x'', config_oidc_redirect_uri = ''https://sync/auth/callback'', config_max_query_scope = ''self''\<rparr>"

definition demo_site :: site where
  "demo_site = \<lparr>st_jwt_crate = plain_jwt, st_jwt = demo_manager,
     st_brute = \<lparr>max_attempts = 2, window = 60 * sec, lockout = 300 * sec\<rparr>, st_settings = demo_settings, st_access_ttl = 900,
     st_trust_proxy = False, st_external_url = [], st_storage_backend = ''sqlite'', st_version = ''1'',
     bcrypt_hash = (\<lambda>salt pw. Inr (''#'' @ pw)), bcrypt_verify = (\<lambda>pw h. Inr (h = ''#'' @ pw)),
     uni_alnum = (\<lambda>_. False), uni_blank = (\<lambda>_. False), uni_upper = id, uni_lower = id, url_encode = id,
     parse_uuid = (\<lambda>s. s = ''d'')\<rparr>"

definition demo_token :: "string \<Rightarrow> string" where
  "demo_token u = plain_token ''s'' \<lparr>cl_sub = u, cl_jti = ''t'', cl_typ = ''access'', cl_exp = 900, cl_iat = 0, cl_iss = None, cl_did = None\<rparr>"

definition demo_request :: "string \<Rightarrow> request" where
  "demo_request u = \<lparr>unix_secs = 5, instant = 0, rq_headers = [(''authorization'', ''Bearer '' @ demo_token u)], rq_addr = ''1.2.3.4'',
     rq_ids = (\<lambda>n. ''id'' @ dec n), rq_bytes = [0, 1, 2, 3, 4, 5, 6, 7], rq_salt = []\<rparr>"

definition demo_user :: "string \<Rightarrow> string \<Rightarrow> string \<Rightarrow> user_row" where
  "demo_user i name role = \<lparr>u_id = i, u_username = name, u_password_hash = ''#secret-'' @ name, u_role = role,
     u_created_at = 0, u_updated_at = 0, u_oidc_sub = None, u_oidc_issuer = None, u_active = True\<rparr>"

definition demo_db :: sqlite_db where
  "demo_db = empty_db\<lparr>users := [demo_user ''r'' ''admin'' ''admin'', demo_user ''u'' ''ann'' ''user''],
     devices := [\<lparr>d_id = ''d'', d_user_id = ''u'', d_name = ''laptop'', d_device_key = Some ''d'', d_created_at = 0, d_last_seen_at = 0\<rparr>],
     refresh_tokens := [\<lparr>t_jti = ''j'', t_user_id = ''u'', t_device_id = None, t_expires_at = 86400, t_revoked = False, t_created_at = 0\<rparr>]\<rparr>"

definition demo_app :: "sqlite_db \<Rightarrow> (keyspace \<times> string \<times> string option) list app" where
  "demo_app db = \<lparr>ap_server = demo_server db, ap_brute = brute_new 0, ap_monitor_rate = [], ap_poll = [],
     ap_oidc_states = [], ap_oidc_cache = None\<rparr>"

definition demo_floats :: "nat floats" where
  "demo_floats = \<lparr>f_nat = id, f_add = (+), f_mul = (*), f_div = (div), f_positive = (\<lambda>x. 0 < x), f_finite = (\<lambda>_. True)\<rparr>"

definition demo_chrono :: "unit chrono" where
  "demo_chrono = \<lparr>parse_tz = (\<lambda>s. if s = ''UTC'' then Some () else None), local_day = (\<lambda>_ ms. Some (ms div 86400000)),
     from_local = (\<lambda>_ t. One_Time t), fmt_ms = (\<lambda>_ ms. Some (dec_int ms)), fmt_secs = (\<lambda>_ t. Some (dec_int t)),
     parse_date = (\<lambda>_. None), parse_datetime = (\<lambda>_. None)\<rparr>"

definition demo_provider :: provider where
  "demo_provider = \<lparr>net_get = (\<lambda>url bearer. Inr (200, url)), net_post = (\<lambda>url form. Inr (200, [])),
     de_discovery = (\<lambda>_. Some \<lparr>authorization_endpoint = ''https://id/a'', token_endpoint = ''https://id/t'',
        userinfo_endpoint = ''https://id/u'', od_issuer = ''https://id'', jwks_uri = ''https://id/k''\<rparr>),
     de_jwks = (\<lambda>_. Some []), de_tokens = (\<lambda>_. Some \<lparr>ot_access_token = ''o'', ot_id_token = ''h.p.s''\<rparr>),
     de_userinfo = (\<lambda>_. Some \<lparr>ui_sub = ''sub'', ui_email = None, ui_name = None\<rparr>),
     jwt_header = (\<lambda>_. None), rsa_key_ok = (\<lambda>_ _. True), jwt_rsa = (\<lambda>_ _ _ _ _ _ _. None), b64_url = Some,
     de_json = (\<lambda>_. None), de_id_claims = (\<lambda>_. None)\<rparr>"

definition demo_outside :: "((keyspace \<times> string \<times> string option) list, unit, nat) outside" where
  "demo_outside = \<lparr>ou_events = demo_events, ou_chrono = demo_chrono, ou_floats = demo_floats, ou_prices = [],
     ou_provider = demo_provider, ou_state_ttl = 600 * sec\<rparr>"

section \<open>Calls\<close>

definition demo_claim :: "string \<Rightarrow> claims" where
  "demo_claim u = \<lparr>cl_sub = u, cl_jti = ''t'', cl_typ = ''access'', cl_exp = 900, cl_iat = 0, cl_iss = None, cl_did = None\<rparr>"

definition printable :: "string \<Rightarrow> bool" where
  "printable s \<longleftrightarrow> (\<forall>c\<in>set s. (32 \<le> byte c \<and> byte c < 127) \<or> byte c = 9)"

lemma printable_plain:
  "printable (s @ t) \<longleftrightarrow> printable s \<and> printable t" "printable (put_nat n)" "printable (put_str s) \<longleftrightarrow> printable s"
  "printable (put_int x)" "printable (plain_option None)"
  by (auto simp: printable_def put_nat_def put_str_def put_int_def plain_option_def byte_def split: if_splits)

lemma printable_token: "printable u \<Longrightarrow> printable (''Bearer '' @ demo_token u)"
  by (simp add: demo_token_def plain_token_def printable_plain del: append.append_Cons append.append_Nil) (simp add: printable_def byte_def)

lemma printable_users: "printable ''r''" "printable ''u''" "printable ''x''"
  by (simp_all add: printable_def byte_def)

lemma demo_extract:
  assumes "printable u"
  shows "extract_jwt (st_jwt_crate demo_site) (st_jwt demo_site) (clock.truncate (demo_request u)) (rq_headers (demo_request u)) =
    Inr (demo_claim u)"
proof -
  have "header_str (rq_headers (demo_request u)) ''authorization'' = Some (''Bearer '' @ demo_token u)"
    using printable_token [OF assms] by (simp add: header_str_def demo_request_def printable_def)
  then show ?thesis
    by (simp add: extract_jwt_def verify_access_def verify_def plain_jwt_def demo_token_def demo_request_def
        demo_manager_def demo_site_def clock.truncate_def demo_claim_def)
qed

lemma demo_caller: "printable u \<Longrightarrow> caller demo_site (demo_request u) = Some u"
  by (simp add: caller_def demo_extract) (simp add: demo_claim_def)

definition demo_seen :: "string \<Rightarrow> sqlite_db \<Rightarrow> (keyspace \<times> string \<times> string option) list app" where
  "demo_seen u db = demo_app db\<lparr>ap_server := demo_server db\<lparr>sv_cache := insert_if_current 0 u True 0 new_cache\<rparr>\<rparr>"

lemma demo_authenticated:
  assumes "printable u" "\<exists>r. get_user_by_id u db = Inr (Some r) \<and> u_active r"
  shows "authenticated demo_site (demo_request u) (demo_app db) = (Inr (demo_claim u), demo_seen u db)"
  using assms(2) unfolding authenticated_def authenticate_def demo_extract [OF assms(1)]
  by (auto simp: demo_claim_def ensure_user_active_def is_user_active_cached_def get_fresh_def new_cache_def
      demo_app_def demo_server_def demo_seen_def ap_db_def demo_request_def clock.truncate_def Let_def)

lemma demo_as_admin:
  assumes "printable u" "\<exists>r. get_user_by_id u db = Inr (Some r) \<and> u_active r" "user_is_admin u db = Inr True"
  shows "as_admin demo_site (demo_request u) (demo_app db) = (Inr u, demo_seen u db)"
  using demo_authenticated [OF assms(1,2)] assms(3) unfolding authenticated_def as_admin_def require_admin_def
  by (auto simp: or_internal_def demo_claim_def demo_app_def demo_server_def ap_db_def split: prod.splits sum.splits)

lemma demo_sel [simp]:
  "ap_db (demo_app db) = db" "ap_db (demo_seen u db) = db" "unix_secs (demo_request u) = 5" "instant (demo_request u) = 0"
  "rq_ids (demo_request u) n = ''id'' @ dec n" "ap_poll (demo_app db) = []" "ap_poll (demo_seen u db) = []"
  "sv_events (ap_server (demo_app db)) = []" "sv_events (ap_server (demo_seen u db)) = []"
  by (simp_all add: ap_db_def demo_app_def demo_seen_def demo_server_def demo_request_def)

lemma demo_admin: "as_admin demo_site (demo_request ''r'') (demo_app demo_db) = (Inr ''r'', demo_seen ''r'' demo_db)"
  by (rule demo_as_admin) (simp_all add: demo_db_def demo_user_def get_user_by_id_def user_is_admin_def printable_users)

lemma demo_ann: "authenticated demo_site (demo_request ''u'') (demo_app demo_db) = (Inr (demo_claim ''u''), demo_seen ''u'' demo_db)"
  by (rule demo_authenticated) (simp_all add: demo_db_def demo_user_def get_user_by_id_def printable_users)

lemma demo_rows:
  "users demo_db = [demo_user ''r'' ''admin'' ''admin'', demo_user ''u'' ''ann'' ''user'']"
  "devices demo_db = [\<lparr>d_id = ''d'', d_user_id = ''u'', d_name = ''laptop'', d_device_key = Some ''d'', d_created_at = 0, d_last_seen_at = 0\<rparr>]"
  "refresh_tokens demo_db = [\<lparr>t_jti = ''j'', t_user_id = ''u'', t_device_id = None, t_expires_at = 86400, t_revoked = False, t_created_at = 0\<rparr>]"
  "monitor_settings demo_db = []" "team_members demo_db = []" "teams demo_db = []" "device_codes demo_db = []" "server_settings demo_db = []"
  by (simp_all add: demo_db_def empty_db_def)

lemma demo_user_sel [simp]:
  "u_id (demo_user i n r) = i" "u_role (demo_user i n r) = r" "u_username (demo_user i n r) = n" "u_active (demo_user i n r)"
  "u_password_hash (demo_user i n r) = ''#secret-'' @ n"
  by (simp_all add: demo_user_def)

lemma demo_claim_sub [simp]: "cl_sub (demo_claim u) = u"
  by (simp add: demo_claim_def)

lemma demo_crypt [simp]:
  "bcrypt_hash demo_site salt pw = Inr (''#'' @ pw)" "bcrypt_verify demo_site pw h = Inr (h = ''#'' @ pw)"
  by (simp_all add: demo_site_def)

lemmas demo_step = h_bind_def h_unless_def h_ok_def h_fail_def h_reply_def h_get_def db_write_def db_read_def db_try_def db_attempt_def
  events_try_def or_internal_def

lemma demo_promotes:
  "\<exists>s'. serve demo_outside demo_site (demo_request ''r'') (Admin_Role ''u'' ''admin'') (demo_app demo_db) = (Inr no_content, s') \<and>
    map (\<lambda>r. (u_id r, u_role r)) (users (ap_db s')) = [(''r'', ''admin''), (''u'', ''admin'')]"
  by (simp add: admin_change_user_role_def demo_admin demo_step demo_rows update_user_role_def update_rows_def rows_affected_def)

lemma demo_changes_password:
  "\<exists>s'. serve demo_outside demo_site (demo_request ''u'') (Me_Password ''secret-ann'' ''new-secret'') (demo_app demo_db) =
      (Inr no_content, s') \<and>
    map u_password_hash (users (ap_db s')) = [''#secret-admin'', ''#new-secret''] \<and> map t_revoked (refresh_tokens (ap_db s')) = [True]"
  by (simp add: me_change_password_def demo_ann demo_step demo_rows demo_claim_sub require_user_def get_user_by_id_def replace_password_def
      password_ok_def hash_password_def demo_crypt update_password_def revoke_user_refresh_tokens_def update_rows_def rows_affected_def)

end
