(* ===== verification/Auth_Safety.thy ===== *)
theory Auth_Safety
  imports Api_Demo
begin

text \<open>
  What the authentication routes promise: a login is granted exactly to the password of an active
  account that is not locked out, and its tokens work; guessing locks the name out; the device grant
  hands the approver's tokens out once.
\<close>

section \<open>Issued tokens\<close>

lemma h_bind_Inr:
  "h_bind m f s = (Inr y, t) \<longleftrightarrow> (\<exists>x s1. m s = (Inr x, s1) \<and> f x s1 = (Inr y, t))"
  by (auto simp: h_bind_def split: prod.splits sum.splits)

lemma h_step_Inr:
  "h_ok x s = (Inr y, t) \<longleftrightarrow> y = x \<and> t = s"
  "h_fail e s = (Inr y, t) \<longleftrightarrow> False"
  "h_get g s = (Inr y, t) \<longleftrightarrow> y = g s \<and> t = s"
  "h_reply r s = (Inr y, t) \<longleftrightarrow> r = Inr y \<and> t = s"
  "h_unless c e s = (Inr u, t) \<longleftrightarrow> c \<and> t = s"
  "db_read q s = (Inr y, t) \<longleftrightarrow> q (ap_db s) = Inr y \<and> t = s"
  "db_write err f s = (Inr y, t) \<longleftrightarrow> (\<exists>db. f (ap_db s) = (Inr y, db) \<and> t = set_db db s)"
  "db_try f s = (Inr u, t) \<longleftrightarrow> t = set_db (snd (f (ap_db s))) s"
  "db_attempt f s = (Inr z, t) \<longleftrightarrow> z = fst (f (ap_db s)) \<and> t = set_db (snd (f (ap_db s))) s"
  by (auto simp: h_ok_def h_fail_def h_get_def h_reply_def h_unless_def db_read_def db_write_def db_try_def db_attempt_def
      or_internal_def split: prod.splits sum.splits)

lemma brute_guarded_Inr:
  "brute_guarded st rq ip name s = (Inr u, t) \<longleftrightarrow>
     (\<exists>g. brute_check (st_brute st) (instant rq) ip name (ap_brute s) = (Inr (), g) \<and> t = s\<lparr>ap_brute := g\<rparr>)"
  by (auto simp: brute_guarded_def locked_by_def split: prod.splits sum.splits)

lemma issue_pair_Inr:
  "issue_pair st rq k user dev s = (Inr ((access, refresh), c), t) \<longleftrightarrow>
    issue_access_token (st_jwt_crate st) (st_jwt st) (unix_secs rq) (rq_ids rq k) user = Inr access \<and>
    issue_refresh_token (st_jwt_crate st) (st_jwt st) (unix_secs rq) (rq_ids rq (k + 1)) user dev = Inr (refresh, c) \<and>
    (\<exists>db. store_issued_token (unix_secs rq) c (ap_db s) = (Inr (), db) \<and> t = set_db db s)"
  by (auto simp: issue_pair_def h_bind_Inr h_step_Inr or_internal_def split: sum.splits)

lemma stored_token_live:
  assumes "store_refresh_token now j u dev e db = (Inr (), db')"
  shows "is_refresh_token_revoked j db' = Inr False" "users db' = users db"
proof -
  have r: "refresh_tokens db' = refresh_tokens db @
      [\<lparr>t_jti = j, t_user_id = u, t_device_id = dev, t_expires_at = e, t_revoked = False, t_created_at = now\<rparr>]"
    and new: "\<forall>r\<in>set (refresh_tokens db). t_jti r \<noteq> j" and "users db' = users db"
    using assms by (auto simp: store_refresh_token_def with_context_def insert_token_def insert_row_def token_clash_def
        split: sum.splits if_splits)
  from new have "find (\<lambda>r. t_jti r = j) (refresh_tokens db) = None" by (simp add: find_None_iff)
  then have "find (\<lambda>r. t_jti r = j) (refresh_tokens db @ [x]) = (if t_jti x = j then Some x else None)" for x
    by (simp add: find_append)
  with r show "is_refresh_token_revoked j db' = Inr False" by (simp add: is_refresh_token_revoked_def)
  show "users db' = users db" by fact
qed

section \<open>Login\<close>

lemma or_internal_Inr [simp]: "or_internal r = Inr x \<longleftrightarrow> r = Inr x"
  by (auto simp: or_internal_def split: sum.splits)

lemma ap_db_other [simp]: "ap_db (s\<lparr>ap_brute := g\<rparr>) = ap_db s" "ap_db (s\<lparr>ap_poll := q\<rparr>) = ap_db s"
  "ap_db (s\<lparr>ap_oidc_states := x\<rparr>) = ap_db s" "ap_db (s\<lparr>ap_oidc_cache := y\<rparr>) = ap_db s" "ap_brute (set_db db s) = ap_brute s"
  "ap_poll (set_db db s) = ap_poll s" "ap_oidc_states (set_db db s) = ap_oidc_states s"
  by (simp_all add: ap_db_def set_db_def)

text \<open>The checks of a login, and what it issues.\<close>

definition login_checks :: "site \<Rightarrow> request \<Rightarrow> login_request \<Rightarrow> user_row \<Rightarrow> 'e app \<Rightarrow> bool" where
  "login_checks st rq b u s \<longleftrightarrow>
     fst (brute_check (st_brute st) (instant rq) (client_ip st rq) (li_username b) (ap_brute s)) = Inr () \<and>
     get_user_by_username (li_username b) (ap_db s) = Inr (Some u) \<and> u_active u \<and> u_password_hash u \<noteq> [] \<and>
     bcrypt_verify st (li_password b) (u_password_hash u) = Inr True"

definition login_cleared :: "site \<Rightarrow> request \<Rightarrow> login_request \<Rightarrow> 'e app \<Rightarrow> 'e app" where
  "login_cleared st rq b s = s\<lparr>ap_brute := brute_record_success (client_ip st rq) (li_username b)
     (snd (brute_check (st_brute st) (instant rq) (client_ip st rq) (li_username b) (ap_brute s)))\<rparr>"

lemma login_checked:
  assumes "login_checks st rq b u s"
  shows "login st rq b s = (case issue_pair st rq 0 (u_id u) (li_device_id b) (login_cleared st rq b s) of
    (Inl e, t) \<Rightarrow> (Inl e, t) | (Inr (p, _), t) \<Rightarrow> (Inr (token_response st p), t))"
  using assms
  by (cases "brute_check (st_brute st) (instant rq) (client_ip st rq) (li_username b) (ap_brute s)")
    (auto simp: login_checks_def login_cleared_def login_def Let_def h_bind_def brute_guarded_def locked_by_def db_read_def
      h_unless_def h_ok_def h_reply_def brute_passed_def or_internal_def split: prod.splits sum.splits)

lemma login_granted:
  assumes "login st rq b s = (Inr rs, s')"
  shows "\<exists>u. login_checks st rq b u s"
  using assms
  by (auto simp: login_def login_checks_def Let_def h_bind_Inr h_step_Inr brute_guarded_Inr
      split: option.splits prod.splits if_splits)

lemma access_total: "token_crate jc \<Longrightarrow> \<exists>t. issue_access_token jc m now i u = Inr t"
  by (auto simp: issue_access_token_def split: sum.split) (metis token_crate.encode_total Inl_Inr_False)

lemma refresh_total: "token_crate jc \<Longrightarrow> \<exists>t. issue_refresh_token jc m now i u d = Inr (t, refresh_claims m now i u d)"
  by (auto simp: issue_refresh_token_def Let_def split: sum.split) (metis token_crate.encode_total Inl_Inr_False)

lemma issue_pair_total:
  assumes "token_crate (st_jwt_crate st)" "\<forall>r\<in>set (refresh_tokens (ap_db s)). t_jti r \<noteq> rq_ids rq (k + 1)" "has_user (ap_db s) user"
  shows "\<exists>p c t. issue_pair st rq k user dev s = (Inr (p, c), t)"
proof -
  obtain access where a: "issue_access_token (st_jwt_crate st) (st_jwt st) (unix_secs rq) (rq_ids rq k) user = Inr access"
    using access_total [OF assms(1)] by blast
  let ?c = "refresh_claims (st_jwt st) (unix_secs rq) (rq_ids rq (k + 1)) user dev"
  obtain refresh where "issue_refresh_token (st_jwt_crate st) (st_jwt st) (unix_secs rq) (rq_ids rq (k + 1)) user dev = Inr (refresh, ?c)"
    using refresh_total [OF assms(1)] by blast
  moreover have "\<exists>db. store_issued_token (unix_secs rq) ?c (ap_db s) = (Inr (), db)"
    using assms(2,3) by (auto simp: store_issued_token_def store_refresh_token_def insert_token_def insert_row_def with_context_def
        token_clash_def refresh_claims_def)
  ultimately show ?thesis using a by (metis issue_pair_Inr)
qed

lemma named_user_exists: "get_user_by_username n db = Inr (Some u) \<Longrightarrow> has_user db (u_id u)"
  by (auto simp: get_user_by_username_def has_user_def exists_row_def find_Some_iff)

text \<open>C9: A login is granted exactly to the right password of an active account whose name is not locked
  out for the address.\<close>

theorem login_exactly_to_password:
  assumes "token_crate (st_jwt_crate st)" "\<forall>r\<in>set (refresh_tokens (ap_db s)). t_jti r \<noteq> rq_ids rq 1"
  shows "(\<exists>rs s'. login st rq b s = (Inr rs, s')) \<longleftrightarrow> (\<exists>u. login_checks st rq b u s)"
proof
  assume "\<exists>u. login_checks st rq b u s"
  then obtain u where u: "login_checks st rq b u s" ..
  then have "has_user (ap_db s) (u_id u)" by (auto simp: login_checks_def intro: named_user_exists)
  with issue_pair_total [OF assms(1), of "login_cleared st rq b s" rq 0] assms(2)
  obtain p c t where "issue_pair st rq 0 (u_id u) (li_device_id b) (login_cleared st rq b s) = (Inr (p, c), t)"
    by (fastforce simp: login_cleared_def)
  then show "\<exists>rs s'. login st rq b s = (Inr rs, s')" by (simp add: login_checked [OF u])
qed (use login_granted in blast)

definition bearer :: "request \<Rightarrow> string \<Rightarrow> bool" where
  "bearer rq tok \<longleftrightarrow> header_str (rq_headers rq) ''authorization'' = Some (''Bearer '' @ tok)"

lemma bearer_caller:
  assumes "bearer rq tok" "verify_access (st_jwt_crate st) (st_jwt st) (unix_secs rq) tok = Inr c"
  shows "caller st rq = Some (cl_sub c)"
  using assms by (simp add: caller_def extract_jwt_def bearer_def clock.truncate_def)

text \<open>The tokens a login hands out work: the access token makes its bearer the account that logged in
  until it expires, and the refresh token can be rotated.\<close>

theorem login_tokens_work:
  assumes "token_crate (st_jwt_crate st)" "login st rq b s = (Inr rs, s')"
  shows "\<exists>u access refresh jti. rs = token_response st (access, refresh) \<and> login_checks st rq b u s \<and>
    (\<forall>rq'. bearer rq' access \<longrightarrow> unix_secs rq' < expiry (unix_secs rq) (access_ttl_secs (st_jwt st)) \<longrightarrow> caller st rq' = Some (u_id u)) \<and>
    (\<forall>now. now < expiry (unix_secs rq) (refresh_ttl_secs (st_jwt st)) \<longrightarrow>
      (\<exists>c. verify_refresh (st_jwt_crate st) (st_jwt st) now refresh = Inr c \<and> cl_jti c = jti \<and> cl_sub c = u_id u)) \<and>
    is_refresh_token_revoked jti (ap_db s') = Inr False"
proof -
  obtain u where u: "login_checks st rq b u s" using login_granted [OF assms(2)] ..
  then obtain access refresh c where iss: "issue_pair st rq 0 (u_id u) (li_device_id b) (login_cleared st rq b s) = (Inr ((access, refresh), c), s')"
    and rs: "rs = token_response st (access, refresh)"
    using assms(2) by (auto simp: login_checked split: prod.splits sum.splits)
  from iss obtain db where a: "issue_access_token (st_jwt_crate st) (st_jwt st) (unix_secs rq) (rq_ids rq 0) (u_id u) = Inr access"
    and r: "issue_refresh_token (st_jwt_crate st) (st_jwt st) (unix_secs rq) (rq_ids rq 1) (u_id u) (li_device_id b) = Inr (refresh, c)"
    and st: "store_issued_token (unix_secs rq) c (ap_db s) = (Inr (), db)" and s': "ap_db s' = db"
    by (auto simp: issue_pair_Inr login_cleared_def ap_db_def set_db_def)
  have c: "c = refresh_claims (st_jwt st) (unix_secs rq) (rq_ids rq 1) (u_id u) (li_device_id b)"
    using r by (auto simp: issue_refresh_token_def Let_def split: sum.splits)
  have "is_refresh_token_revoked (cl_jti c) (ap_db s') = Inr False"
    using stored_token_live(1) st by (simp add: store_issued_token_def s')
  moreover have "caller st rq' = Some (u_id u)"
    if "bearer rq' access" "unix_secs rq' < expiry (unix_secs rq) (access_ttl_secs (st_jwt st))" for rq'
    using token_crate.verify_issued(1) [OF assms(1) a that(2)] bearer_caller [OF that(1)] by auto
  moreover have "verify_refresh (st_jwt_crate st) (st_jwt st) now refresh = Inr c"
    if "now < expiry (unix_secs rq) (refresh_ttl_secs (st_jwt st))" for now
    by (rule token_crate.verify_refresh_issued(1) [OF assms(1) r that])
  moreover have "cl_sub c = u_id u" by (simp add: c refresh_claims_def)
  ultimately show ?thesis using rs u by blast
qed

section \<open>Guessing\<close>

text \<open>A wrong guess: no such account, or another password.\<close>

definition wrong_password :: "site \<Rightarrow> login_request \<Rightarrow> sqlite_db \<Rightarrow> bool" where
  "wrong_password st b db \<longleftrightarrow>
     (case get_user_by_username (li_username b) db of
        Inr (Some u) \<Rightarrow> u_active u \<and> u_password_hash u \<noteq> [] \<and> bcrypt_verify st (li_password b) (u_password_hash u) = Inr False
      | Inr None \<Rightarrow> True
      | Inl _ \<Rightarrow> False)"

fun try_logins :: "site \<Rightarrow> (request \<times> login_request) list \<Rightarrow> 'e app \<Rightarrow> 'f response reply list \<times> 'e app" where
  "try_logins st [] s = ([], s)"
| "try_logins st ((rq, b) # xs) s =
     (case login st rq b s of (r, s') \<Rightarrow> case try_logins st xs s' of (rs, s'') \<Rightarrow> (r # rs, s''))"

lemma login_locked:
  assumes "brute_check (st_brute st) (instant rq) (client_ip st rq) (li_username b) (ap_brute s) = (Inl n, g)"
  shows "fst (login st rq b s) = Inl (err_locked_out n)"
  by (simp add: login_def Let_def h_bind_def brute_guarded_def locked_by_def assms)

lemma login_wrong:
  assumes "brute_check (st_brute st) (instant rq) (client_ip st rq) (li_username b) (ap_brute s) = (Inr (), g)"
    "wrong_password st b (ap_db s)"
  shows "login st rq b s = (Inl invalid_credentials,
    s\<lparr>ap_brute := snd (brute_record_failure (st_brute st) (instant rq) (client_ip st rq) (li_username b) g)\<rparr>)"
  using assms
  by (auto simp: login_def Let_def h_bind_def brute_guarded_def locked_by_def wrong_password_def db_read_def brute_failed_def h_fail_def
      h_unless_def h_ok_def h_reply_def or_internal_def split: sum.splits option.splits)

text \<open>The entry after \<open>n\<close> failures since \<open>start\<close>.\<close>

definition failed_times :: "brute_cfg \<Rightarrow> nat \<Rightarrow> nat \<Rightarrow> nat \<Rightarrow> brute_entry option" where
  "failed_times c start at n = (if n = 0 then None else
     Some \<lparr>count = n, first_attempt = start, locked_until = (if n < max_attempts c then None else Some (at + lockout c))\<rparr>)"

lemma failed_once_more:
  assumes "n < max_attempts c" "max_attempts c < 4294967296" "start \<le> now" "now - start \<le> window c" "n = 0 \<Longrightarrow> now = start"
  shows "fst (brute_decide c now Check (failed_times c start at n)) = Inr ()"
    "snd (brute_decide c now Record_Failure (snd (brute_decide c now Check (failed_times c start at n)))) = failed_times c start now (n + 1)"
  using assms by (auto simp: failed_times_def brute_decide_def brute_bump_def Let_def)

context brute_config
begin

lemmas guard_step = guard.step_alike
lemmas guard_later = guard.alike_mono

lemma guard_alike_refl: "guard.alike now a a"
  by (simp add: guard.alike_def)

end

lemma failed_login_step:
  assumes cfg: "brute_config c" and c: "c = st_brute st" and key: "key = brute_key (client_ip st rq) (li_username b)"
    and wf: "brute_wf c now (ap_brute s)" and now: "now = instant rq"
    and al: "keyed_limiter.alike (brute_dead c) now (brute_look (ap_brute s) key) (failed_times c start at n)"
    and n: "n < max_attempts c" "max_attempts c < 4294967296" "start \<le> now" "now - start \<le> window c" "n = 0 \<Longrightarrow> now = start"
    and wrong: "wrong_password st b (ap_db s)"
  shows "\<exists>g. login st rq b s = (Inl invalid_credentials, s\<lparr>ap_brute := g\<rparr>) \<and> brute_wf c now g \<and>
    keyed_limiter.alike (brute_dead c) now (brute_look g key) (failed_times c start now (n + 1))"
proof -
  obtain r g1 where chk: "brute_check_key c now key (ap_brute s) = (r, g1)" by fastforce
  note s1 = brute_config.guard_step [OF cfg wf al, of Check, unfolded brute_act_def brute_op.case chk fst_conv snd_conv]
  have wf1: "brute_wf c now g1" using brute_config.check_wf [OF cfg wf, of key] chk by simp
  have r: "r = Inr ()" using s1(1) failed_once_more(1) [OF n] by simp
  obtain r2 g2 where rec: "brute_failure_key c now key g1 = (r2, g2)" by fastforce
  note s2 = brute_config.guard_step(2) [OF cfg wf1 s1(2), of Record_Failure, unfolded brute_act_def brute_op.case rec snd_conv]
  have "login st rq b s = (Inl invalid_credentials, s\<lparr>ap_brute := g2\<rparr>)"
    using login_wrong [OF _ wrong, of rq g1] chk rec r by (simp add: brute_check_def brute_record_failure_def c key now)
  moreover have "brute_wf c now g2" using brute_config.failure_wf [OF cfg wf1, of key] rec by simp
  ultimately show ?thesis using s2 failed_once_more(2) [OF n] by auto
qed

lemma alike_later:
  assumes "brute_config c" "keyed_limiter.alike (brute_dead c) now a b" "now \<le> later"
  shows "keyed_limiter.alike (brute_dead c) later a b"
  by (rule brute_config.guard_later [OF assms])

definition guesses :: "site \<Rightarrow> string \<Rightarrow> string \<Rightarrow> sqlite_db \<Rightarrow> (request \<times> login_request) list \<Rightarrow> bool" where
  "guesses st ip name db xs \<longleftrightarrow>
     (\<forall>(rq, b)\<in>set xs. client_ip st rq = ip \<and> li_username b = name \<and> wrong_password st b db) \<and>
     sorted (map (\<lambda>(rq, _). instant rq) xs)"

lemma guesses_Cons:
  "guesses st ip name db ((rq, b) # xs) \<longleftrightarrow> client_ip st rq = ip \<and> li_username b = name \<and> wrong_password st b db \<and>
     (\<forall>(rq', _)\<in>set xs. instant rq \<le> instant rq') \<and> guesses st ip name db xs"
  by (auto simp: guesses_def)

lemma guesses_run:
  assumes cfg: "brute_config c" and c: "c = st_brute st" and key: "key = brute_key ip name"
    and wf: "brute_wf c now (ap_brute s)"
    and al: "keyed_limiter.alike (brute_dead c) now (brute_look (ap_brute s) key) (failed_times c start now n)"
    and g: "guesses st ip name (ap_db s) xs" "\<forall>(rq, _)\<in>set xs. now \<le> instant rq \<and> instant rq - start \<le> window c"
    and n: "n + length xs = max_attempts c" "max_attempts c < 4294967296" "start \<le> now" "n \<noteq> 0"
  shows "\<exists>g. (try_logins st xs s :: 'f response reply list \<times> 'e app) =
      (replicate (length xs) (Inl invalid_credentials), s\<lparr>ap_brute := g\<rparr>) \<and>
    (let latest = (if xs = [] then now else instant (fst (last xs))) in brute_wf c latest g \<and>
      keyed_limiter.alike (brute_dead c) latest (brute_look g key) (failed_times c start latest (n + length xs)))"
  using assms
proof (induction xs arbitrary: s n now)
  case Nil
  then show ?case by (auto intro!: exI [of _ "ap_brute s"])
next
  case (Cons x xs)
  obtain rq b where x: "x = (rq, b)" by (cases x)
  have st: "client_ip st rq = ip" "li_username b = name" "wrong_password st b (ap_db s)" "guesses st ip name (ap_db s) xs"
    "\<forall>(rq', _)\<in>set xs. instant rq \<le> instant rq'" "now \<le> instant rq" "instant rq - start \<le> window c"
    using Cons.prems(6,7) by (auto simp: x guesses_Cons)
  have wf: "brute_wf c (instant rq) (ap_brute s)" by (rule brute_config.wf_mono_brute [OF cfg Cons.prems(4) st(6)])
  have same: "failed_times c start now n = failed_times c start (instant rq) n"
    using Cons.prems(8) by (simp add: failed_times_def)
  note al = alike_later [OF cfg Cons.prems(5) st(6), unfolded same]
  obtain g where step: "(login st rq b s :: 'f response reply \<times> 'e app) = (Inl invalid_credentials, s\<lparr>ap_brute := g\<rparr>)" and wf': "brute_wf c (instant rq) g"
    and al': "keyed_limiter.alike (brute_dead c) (instant rq) (brute_look g key) (failed_times c start (instant rq) (n + 1))"
    using failed_login_step [OF cfg c _ wf refl al, of b] Cons.prems(3,8-11) st by auto
  have prem: "brute_wf c (instant rq) (ap_brute (s\<lparr>ap_brute := g\<rparr>))"
    "keyed_limiter.alike (brute_dead c) (instant rq) (brute_look (ap_brute (s\<lparr>ap_brute := g\<rparr>)) key) (failed_times c start (instant rq) (n + 1))"
    "guesses st ip name (ap_db (s\<lparr>ap_brute := g\<rparr>)) xs"
    "\<forall>(rq', _)\<in>set xs. instant rq \<le> instant rq' \<and> instant rq' - start \<le> window c"
    "n + 1 + length xs = max_attempts c" "start \<le> instant rq" "n + 1 \<noteq> 0"
    using wf' al' st Cons.prems(7,8,10) by (auto simp: x)
  from Cons.IH [OF cfg c key prem(1-5) Cons.prems(9) prem(6,7)] step
  show ?case by (auto simp: x Let_def split: if_splits)
qed

text \<open>C26: Guessing locks out: after as many wrong guesses at a name from an address within one window
  as the guard allows, each answered with the same error, no login of that name from there is
  granted until the lockout has passed, whatever its password.\<close>

theorem guessing_locks_out:
  assumes "brute_config (st_brute st)" "length xs = max_attempts (st_brute st)" "0 < max_attempts (st_brute st)"
    "max_attempts (st_brute st) < 4294967296"
    and "guesses st ip name (ap_db s) xs" "\<forall>(rq, _)\<in>set xs. instant rq - start \<le> window (st_brute st)" "start = instant (fst (hd xs))"
    and "brute_wf (st_brute st) start (ap_brute s)" "brute_look (ap_brute s) (brute_key ip name) = None"
    and "client_ip st rq = ip" "li_username b = name" "latest = instant (fst (last xs))" "latest \<le> instant rq"
    "instant rq < latest + lockout (st_brute st)"
  shows "(fst (try_logins st xs s) :: 'f response reply list) = replicate (length xs) (Inl invalid_credentials) \<and>
    (\<exists>n. (fst (login st rq b (snd (try_logins st xs s :: 'f response reply list \<times> 'e app))) :: 'f response reply) = Inl (err_locked_out n))"
proof -
  let ?c = "st_brute st" let ?key = "brute_key ip name"
  obtain rq0 b0 ys where xs: "xs = (rq0, b0) # ys" using assms(2,3) by (cases xs) auto
  have st: "client_ip st rq0 = ip" "li_username b0 = name" "wrong_password st b0 (ap_db s)" "guesses st ip name (ap_db s) ys"
    "\<forall>(rq', _)\<in>set ys. instant rq0 \<le> instant rq'" "start = instant rq0"
    using assms(5,7) by (auto simp: xs guesses_Cons)
  have al: "keyed_limiter.alike (brute_dead ?c) start (brute_look (ap_brute s) ?key) (failed_times ?c start start 0)"
    by (simp add: assms(9) failed_times_def brute_config.guard_alike_refl [OF assms(1)])
  obtain g where step: "(login st rq0 b0 s :: 'f response reply \<times> 'e app) = (Inl invalid_credentials, s\<lparr>ap_brute := g\<rparr>)" and g: "brute_wf ?c start g"
    "keyed_limiter.alike (brute_dead ?c) start (brute_look g ?key) (failed_times ?c start start (0 + 1))"
    using failed_login_step [OF assms(1) refl _ assms(8) st(6) al, of b0] assms(3,4) st by auto
  have late: "\<forall>(rq, _)\<in>set ys. start \<le> instant rq \<and> instant rq - start \<le> window ?c"
    using st(5,6) assms(6) by (auto simp: xs)
  from guesses_run [where s = "s\<lparr>ap_brute := g\<rparr>" and n = 1 and now = start and start = start and xs = ys and ip = ip and name = name,
      OF assms(1) refl refl _ _ _ late] g st assms(2,4)
  obtain g' where run: "(try_logins st ys (s\<lparr>ap_brute := g\<rparr>) :: 'f response reply list \<times> 'e app) = (replicate (length ys) (Inl invalid_credentials), s\<lparr>ap_brute := g'\<rparr>)"
    and wf': "brute_wf ?c latest g'" and al': "keyed_limiter.alike (brute_dead ?c) latest (brute_look g' ?key) (failed_times ?c start latest (length xs))"
    using assms(12) by (auto simp: xs Let_def split: if_splits)
  have "keyed_limiter.alike (brute_dead ?c) (instant rq) (brute_look g' ?key) (failed_times ?c start latest (length xs))"
    by (rule brute_config.guard_later [OF assms(1) al' assms(13)])
  from brute_config.guard_step(1) [OF assms(1) brute_config.wf_mono_brute [OF assms(1) wf' assms(13)] this, of Check]
  have "\<exists>n. fst (brute_check_key ?c (instant rq) ?key g') = Inl n"
    using assms(2,3,14) by (auto simp: brute_act_def brute_decide_def failed_times_def)
  then obtain n h where "brute_check ?c (instant rq) (client_ip st rq) (li_username b) g' = (Inl n, h)"
    by (auto simp: brute_check_def assms(10,11)) (metis prod.collapse)
  then have "(fst (login st rq b (s\<lparr>ap_brute := g'\<rparr>)) :: 'f response reply) = Inl (err_locked_out n)" by (intro login_locked) simp
  then show ?thesis using step run by (auto simp: xs)
qed

section \<open>The device grant\<close>

lemma poll_slot_Inr:
  "poll_slot rq code s = (r, t) \<Longrightarrow> \<exists>slow q. r = Inr slow \<and> t = s\<lparr>ap_poll := q\<rparr>"
  by (auto simp: poll_slot_def Let_def split: option.splits if_splits)

definition code_row :: "string \<Rightarrow> sqlite_db \<Rightarrow> code_row option" where
  "code_row code db = find (\<lambda>r. k_device_code r = code) (device_codes db)"

lemma register_device_codes:
  "register_device st rq u k n s = (r, t) \<Longrightarrow> r = Inr () \<and> device_codes (ap_db t) = device_codes (ap_db s)"
  by (auto simp: register_device_def db_try_def create_device_def insert_device_def with_context_def
      split: option.splits if_splits sum.splits)

lemma poll_slot_total: "\<exists>slow q. poll_slot rq code s = (Inr slow, s\<lparr>ap_poll := q\<rparr>)"
  by (auto simp: poll_slot_def Let_def split: option.splits)

lemma device_token_granted:
  assumes "device_token_poll st rq b s = (Inr rs, s')" "rs_status rs = 200"
  shows "\<exists>dc u. code_row (dp_device_code b) (ap_db s) = Some dc \<and> unix_secs rq \<le> k_expires_at dc \<and> k_approved_by dc = Some u \<and>
    rs = token_response st (or_empty (k_access_token dc), or_empty (k_refresh_token dc)) \<and>
    device_codes (ap_db s') = filter (\<lambda>r. k_device_code r \<noteq> dp_device_code b) (device_codes (ap_db s))"
proof -
  let ?code = "dp_device_code b"
  obtain slow q where slot: "poll_slot rq ?code s = (Inr slow, s\<lparr>ap_poll := q\<rparr>)" using poll_slot_total by blast
  note run = assms(1) [unfolded device_token_poll_def Let_def h_bind_def [of "poll_slot _ _"] slot prod.case sum.case]
  have "\<not> slow" using run assms(2) by (auto simp: h_ok_def with_status_def)
  note run = run [unfolded if_not_P [OF this] h_bind_def [of "db_read _"]]
  have "\<exists>dc u. code_row ?code (ap_db s) = Some dc \<and> unix_secs rq \<le> k_expires_at dc \<and> k_approved_by dc = Some u"
    using run assms(2)
    by (auto simp: db_read_def get_device_code_def or_internal_def h_ok_def poll_error_def with_status_def code_row_def h_bind_Inr h_fail_def
        split: option.splits if_splits)
  then obtain dc u where dc: "code_row ?code (ap_db s) = Some dc" "unix_secs rq \<le> k_expires_at dc" "k_approved_by dc = Some u" by blast
  with run show ?thesis
    by (auto simp: db_read_def get_device_code_def or_internal_def code_row_def h_bind_Inr h_step_Inr poll_done_def
        delete_device_code_def delete_rows_def dest!: register_device_codes)
qed

text \<open>An operation that stores the code.\<close>

fun creates_code :: "string \<Rightarrow> db_op \<Rightarrow> bool" where
  "creates_code code (Create_Code c _ _) = (c = code)"
| "creates_code code _ = False"

fun writes_codes :: "db_op \<Rightarrow> bool" where
  "writes_codes (Create_Code _ _ _) = True"
| "writes_codes (Approve_Code _ _ _ _) = True"
| "writes_codes (Delete_Code _) = True"
| "writes_codes Cleanup_Codes = True"
| "writes_codes _ = False"

lemma codes_untouched: "\<not> writes_codes op \<Longrightarrow> device_codes (db_exec now op db) = device_codes db"
  by (cases op) (auto simp: op_defs delete_defs Let_def upsert_target_matches_def insert_token_def insert_device_def insert_member_def
      insert_user_def intro!: with_context_sel split: option.splits sum.splits)

lemma code_row_None: "code_row code db = None \<longleftrightarrow> (\<forall>r\<in>set (device_codes db). k_device_code r \<noteq> code)"
  by (auto simp: code_row_def find_None_iff)

lemma device_token_spent:
  "device_token_poll st rq b s = (Inr rs, s') \<Longrightarrow> rs_status rs = 200 \<Longrightarrow> code_row (dp_device_code b) (ap_db s') = None"
  by (auto simp: code_row_None dest!: device_token_granted)

lemma code_stays_gone:
  assumes "code_row code db = None" "\<not> creates_code code op"
  shows "code_row code (db_exec now op db) = None"
proof (cases "writes_codes op")
  case True
  with assms show ?thesis
    by (cases op) (auto simp: code_row_None op_defs with_context_def insert_row_def update_rows_def delete_rows_def split: sum.splits)
qed (use assms in \<open>simp add: code_row_def codes_untouched\<close>)

lemma code_gone_run:
  assumes "code_row code db = None" "list_all (\<lambda>(_, op). \<not> creates_code code op) ops"
  shows "code_row code (db_run ops db) = None"
  using assms by (induction ops db rule: db_run.induct) (auto simp: code_stays_gone)

text \<open>A device code yields its tokens once: after a poll that was granted, no poll for the same code is
  granted again, whatever happens to the database in between short of issuing the same code again.\<close>

theorem device_tokens_once:
  assumes "device_token_poll st rq b s = (Inr rs, s')" "rs_status rs = 200"
    and "list_all (\<lambda>(_, op). \<not> creates_code (dp_device_code b) op) ops" "ap_db t = db_run ops (ap_db s')"
    and "dp_device_code b' = dp_device_code b" "device_token_poll st rq' b' t = (Inr rs', t')"
  shows "rs_status rs' \<noteq> 200"
proof
  assume "rs_status rs' = 200"
  from device_token_granted [OF assms(6) this] assms(4,5) have "code_row (dp_device_code b) (db_run ops (ap_db s')) \<noteq> None" by auto
  moreover have "code_row (dp_device_code b) (ap_db s') = None" by (rule device_token_spent [OF assms(1,2)])
  ultimately show False using code_gone_run [OF _ assms(3), of "ap_db s'"] by simp
qed

lemma normalize_user_code_as_shown:
  assumes "uni_upper st raw = code" "length code = 9" "CHR '' '' \<notin> set code"
  shows "normalize_user_code st raw = Some code"
proof -
  have "filter (\<lambda>c. c \<noteq> CHR '' '') code = code" using assms(3) by (auto simp: filter_id_conv)
  with assms(1,2) show ?thesis by (simp add: normalize_user_code_def Let_def)
qed

lemma user_code_length: "length (generate_user_code bytes) = 9"
  by (simp add: generate_user_code_def upt_rec)

lemma user_code_char_in: "user_code_char b \<in> set USER_CODE_CHARS"
proof -
  have "b mod length USER_CODE_CHARS < length USER_CODE_CHARS" by (simp add: USER_CODE_CHARS_def)
  then show ?thesis unfolding user_code_char_def by (rule nth_mem)
qed

lemma user_code_no_blank: "CHR '' '' \<notin> set (generate_user_code bytes)"
proof -
  have "user_code_char b \<noteq> CHR '' ''" for b using user_code_char_in [of b] by (auto simp: USER_CODE_CHARS_def)
  then show ?thesis by (auto simp: generate_user_code_def split: if_splits) metis
qed

lemma device_code_requested:
  assumes "device_code_request st rq s = (Inr rs, s')"
  shows "ap_poll s' = ap_poll s \<and> code_row (rq_ids rq 0) (ap_db s') = Some \<lparr>k_device_code = rq_ids rq 0, k_user_code = generate_user_code (rq_bytes rq),
      k_expires_at = unix_secs rq + 300, k_approved_by = None, k_access_token = None, k_refresh_token = None\<rparr> \<and>
    find (\<lambda>r. k_user_code r = generate_user_code (rq_bytes rq)) (device_codes (ap_db s')) =
      Some \<lparr>k_device_code = rq_ids rq 0, k_user_code = generate_user_code (rq_bytes rq),
      k_expires_at = unix_secs rq + 300, k_approved_by = None, k_access_token = None, k_refresh_token = None\<rparr>"
proof -
  let ?row = "\<lparr>k_device_code = rq_ids rq 0, k_user_code = generate_user_code (rq_bytes rq),
      k_expires_at = unix_secs rq + 300, k_approved_by = None, k_access_token = None, k_refresh_token = None\<rparr>"
  from assms have new: "\<forall>r\<in>set (device_codes (ap_db s)). k_device_code r \<noteq> rq_ids rq 0 \<and> k_user_code r \<noteq> generate_user_code (rq_bytes rq)"
    and codes: "device_codes (ap_db s') = device_codes (ap_db s) @ [?row]" and "ap_poll s' = ap_poll s"
    by (auto simp: device_code_request_def Let_def h_bind_Inr h_step_Inr brute_guarded_Inr brute_passed_def create_device_code_def
        with_context_def insert_row_def code_clash_def split: sum.splits if_splits)
  moreover from new have "find (\<lambda>r. k_device_code r = rq_ids rq 0) (device_codes (ap_db s)) = None"
    "find (\<lambda>r. k_user_code r = generate_user_code (rq_bytes rq)) (device_codes (ap_db s)) = None"
    by (auto simp: find_None_iff)
  ultimately show ?thesis by (simp add: code_row_def find_append)
qed

lemma authenticated_rest:
  assumes "authenticated st rq s = (r, t)"
  shows "ap_db t = ap_db s" "ap_brute t = ap_brute s" "ap_poll t = ap_poll s"
  using assms by (auto simp: authenticated_def ap_db_def split: prod.splits)

lemma find_update_rows:
  "\<forall>r. q (f r) = q r \<Longrightarrow> find q (update_rows p f rs) = map_option (\<lambda>r. if p r then f r else r) (find q rs)"
  by (induction rs) (auto simp: update_rows_def)

lemma code_row_approved:
  assumes "code_row d db = Some dc" "k_user_code dc = uc" "k_approved_by dc = None"
  shows "code_row d (snd (approve_device_code uc user access refresh db)) =
    Some (dc\<lparr>k_approved_by := Some user, k_access_token := Some access, k_refresh_token := Some refresh\<rparr>)"
  using assms by (simp add: approve_device_code_def code_row_def find_update_rows)

lemma register_device_total: "\<exists>t. register_device st rq u k n s = (Inr (), t)"
  by (auto simp: register_device_def db_try_def split: option.splits)

lemma device_approve_grants:
  assumes crate: "token_crate (st_jwt_crate st)"
    and auth: "authenticated st rq s = (Inr cl, t)"
    and free: "fst (brute_check (st_brute st) (instant rq) (cl_sub cl) ''__device_approve__'' (ap_brute s)) = Inr ()"
    and code: "normalize_user_code st raw = Some uc" "find (\<lambda>r. k_user_code r = uc) (device_codes (ap_db s)) = Some dc"
      "code_row (k_device_code dc) (ap_db s) = Some dc" "unix_secs rq \<le> k_expires_at dc" "k_approved_by dc = None"
    and fresh: "\<forall>r\<in>set (refresh_tokens (ap_db s)). t_jti r \<noteq> rq_ids rq 1" "has_user (ap_db s) (cl_sub cl)"
  shows "\<exists>s' access refresh. device_approve st rq raw s = (Inr (ok_json (J_Obj [(''status'', J_Str ''approved'')])), s') \<and>
    code_row (k_device_code dc) (ap_db s') = Some (dc\<lparr>k_approved_by := Some (cl_sub cl), k_access_token := Some access, k_refresh_token := Some refresh\<rparr>) \<and>
    issue_access_token (st_jwt_crate st) (st_jwt st) (unix_secs rq) (rq_ids rq 0) (cl_sub cl) = Inr access"
proof -
  note t = authenticated_rest [OF auth]
  obtain g where g: "brute_check (st_brute st) (instant rq) (cl_sub cl) ''__device_approve__'' (ap_brute t) = (Inr (), g)"
    using free t(2) by (metis prod.collapse)
  let ?t = "t\<lparr>ap_brute := g\<rparr>"
  obtain access refresh c s2 where iss: "issue_pair st rq 0 (cl_sub cl) None ?t = (Inr ((access, refresh), c), s2)"
    using issue_pair_total [OF crate, of ?t rq 0 "cl_sub cl" None] fresh t(1) by auto
  then have a: "issue_access_token (st_jwt_crate st) (st_jwt st) (unix_secs rq) (rq_ids rq 0) (cl_sub cl) = Inr access"
    and codes: "device_codes (ap_db s2) = device_codes (ap_db s)"
    by (auto simp: issue_pair_Inr store_issued_token_def store_refresh_token_def t(1) with_context_def insert_token_def split: sum.splits if_splits)
  have dc: "k_user_code dc = uc" "dc \<in> set (device_codes (ap_db s))" using code(2) by (auto simp: find_Some_iff)
  then have "0 < rows_affected (\<lambda>r. k_user_code r = uc \<and> k_approved_by r = None) (device_codes (ap_db s2))"
    using code(5) by (auto simp: rows_affected_def codes filter_empty_conv)
  then have ok: "fst (approve_device_code uc (cl_sub cl) access refresh (ap_db s2)) = Inr True" by (simp add: approve_device_code_def)
  then obtain db where ap: "approve_device_code uc (cl_sub cl) access refresh (ap_db s2) = (Inr True, db)" by (metis prod.collapse)
  let ?s' = "(set_db db s2)\<lparr>ap_brute := brute_record_success (cl_sub cl) ''__device_approve__'' (ap_brute s2)\<rparr>"
  have "device_approve st rq raw s = (Inr (ok_json (J_Obj [(''status'', J_Str ''approved'')])), ?s')"
    using code ap
    by (simp add: device_approve_def h_bind_def auth Let_def brute_guarded_def g locked_by_def db_read_def get_device_code_by_user_code_def
        or_internal_def t(1) h_unless_def h_ok_def iss db_write_def brute_passed_def)
  moreover have "code_row (k_device_code dc) (ap_db ?s') = Some (dc\<lparr>k_approved_by := Some (cl_sub cl), k_access_token := Some access, k_refresh_token := Some refresh\<rparr>)"
    using code_row_approved [of "k_device_code dc" "ap_db s2" dc uc "cl_sub cl" access refresh] code(3,5) codes dc(1) ap
    by (simp add: code_row_def)
  ultimately show ?thesis using a by blast
qed

lemma device_token_given:
  assumes "code_row (dp_device_code b) (ap_db s) = Some dc" "unix_secs rq \<le> k_expires_at dc" "k_approved_by dc = Some u"
    "fst (poll_slot rq (dp_device_code b) s) = Inr False"
  shows "\<exists>s'. device_token_poll st rq b s = (Inr (token_response st (or_empty (k_access_token dc), or_empty (k_refresh_token dc))), s')"
proof -
  obtain q where slot: "poll_slot rq (dp_device_code b) s = (Inr False, s\<lparr>ap_poll := q\<rparr>)"
    using assms(4) poll_slot_total [of rq "dp_device_code b" s] by auto
  let ?t = "set_db (snd (delete_device_code (dp_device_code b) (ap_db s))) (s\<lparr>ap_poll := q\<rparr>)"
  obtain t' where "register_device st rq u (dp_device_key b) (dp_device_name b) (?t\<lparr>ap_poll := hm_remove (dp_device_code b) q\<rparr>) = (Inr (), t')"
    using register_device_total by blast
  then show ?thesis using assms(1-3)
    by (simp add: device_token_poll_def Let_def h_bind_def slot db_read_def get_device_code_def or_internal_def code_row_def db_try_def
        poll_done_def h_ok_def or_empty_def)
qed


section \<open>At concrete states\<close>

definition demo_login :: "string \<Rightarrow> login_request" where
  "demo_login pw = \<lparr>li_username = ''ann'', li_password = pw, li_device_id = None\<rparr>"

lemma demo_name: "li_username (demo_login pw) = ''ann''"
  by (simp add: demo_login_def)

lemma demo_ip: "client_ip demo_site (demo_request u) = ''1.2.3.4''"
  by (simp add: client_ip_def extract_client_ip_def demo_site_def demo_request_def)

lemma demo_free: "brute_check (st_brute demo_site) 0 ip name (brute_new 0) = (Inr (), brute_new 0)"
  by (simp add: brute_check_def brute_check_key_def brute_new_def hm_get_def)

lemma demo_forgiven: "brute_record_success ip name (brute_new 0) = brute_new 0"
  by (simp add: brute_record_success_def brute_success_key_def brute_new_def hm_remove_def)

lemma demo_unchanged: "demo_app db\<lparr>ap_brute := brute_new 0\<rparr> = demo_app db"
  by (simp add: demo_app_def)

lemma demo_site_sel [simp]: "st_jwt_crate demo_site = plain_jwt" "st_jwt demo_site = demo_manager" "uni_upper demo_site = id"
  by (simp_all add: demo_site_def)

lemma demo_brute [simp]: "ap_brute (demo_app db) = brute_new 0" "ap_brute (demo_seen u db) = brute_new 0"
  by (simp_all add: demo_app_def demo_seen_def)

lemma demo_login_checks: "login_checks demo_site (demo_request u) (demo_login ''secret-ann'') (demo_user ''u'' ''ann'' ''user'') (demo_app demo_db)"
  by (simp add: login_checks_def demo_ip demo_free demo_login_def get_user_by_username_def demo_rows)

lemma demo_fresh: "\<forall>r\<in>set (refresh_tokens (ap_db (demo_app demo_db))). t_jti r \<noteq> rq_ids (demo_request u) n"
  by (simp add: demo_rows)

theorem login_exactly_to_password_witness:
  "\<exists>rs s'. login demo_site (demo_request ''r'') (demo_login ''secret-ann'') (demo_app demo_db) = (Inr rs, s')"
proof -
  have "token_crate (st_jwt_crate demo_site)" using plain_crate by simp
  then show ?thesis by (rule login_exactly_to_password [OF _ demo_fresh, THEN iffD2]) (rule exI, rule demo_login_checks)
qed

lemma demo_crate: "token_crate (st_jwt_crate demo_site)"
  using plain_crate by simp

lemma demo_logs_in:
  "\<exists>p s'. login demo_site (demo_request ''r'') (demo_login ''secret-ann'') (demo_app demo_db) = (Inr (token_response demo_site p :: nat response), s')"
proof -
  have "has_user demo_db ''u''" by (simp add: has_user_def exists_row_def demo_rows)
  then obtain p c t where "issue_pair demo_site (demo_request ''r'') 0 ''u'' None
      (login_cleared demo_site (demo_request ''r'') (demo_login ''secret-ann'') (demo_app demo_db)) = (Inr (p, c), t)"
    using issue_pair_total [OF demo_crate, of "login_cleared demo_site (demo_request ''r'') (demo_login ''secret-ann'') (demo_app demo_db)"
        "demo_request ''r''" 0 "''u''" None] demo_fresh [of "''r''" 1]
    by (auto simp: login_cleared_def)
  moreover have "li_device_id (demo_login ''secret-ann'') = None" by (simp add: demo_login_def)
  ultimately show ?thesis by (cases p) (auto simp: login_checked [OF demo_login_checks])
qed

theorem login_tokens_work_witness:
  "\<exists>access refresh s'. login demo_site (demo_request ''r'') (demo_login ''secret-ann'') (demo_app demo_db) =
      (Inr (token_response demo_site (access, refresh) :: nat response), s') \<and> (\<exists>jti. is_refresh_token_revoked jti (ap_db s') = Inr False)"
proof -
  obtain access refresh s' where run: "login demo_site (demo_request ''r'') (demo_login ''secret-ann'') (demo_app demo_db) =
      (Inr (token_response demo_site (access, refresh) :: nat response), s')" using demo_logs_in by (metis prod.collapse)
  from login_tokens_work [OF demo_crate run] have "\<exists>jti. is_refresh_token_revoked jti (ap_db s') = Inr False" by blast
  with run show ?thesis by blast
qed

theorem guessing_locks_out_witness:
  "\<exists>n. (fst :: _ \<Rightarrow> nat response reply) (login demo_site (demo_request ''u'') (demo_login ''secret-ann'')
    (snd ((try_logins :: _ \<Rightarrow> _ \<Rightarrow> _ \<Rightarrow> nat response reply list \<times> _) demo_site [(demo_request ''u'', demo_login ''a''), (demo_request ''u'', demo_login ''b'')] (demo_app demo_db)))) = Inl (err_locked_out n)"
proof -
  let ?xs = "[(demo_request ''u'', demo_login ''a''), (demo_request ''u'', demo_login ''b'')]"
  have c: "st_brute demo_site = \<lparr>max_attempts = 2, window = 60 * sec, lockout = 300 * sec\<rparr>" by (simp add: demo_site_def)
  have "brute_config (st_brute demo_site)" by unfold_locales (simp add: c sec_def)
  moreover have "guesses demo_site ''1.2.3.4'' ''ann'' (ap_db (demo_app demo_db)) ?xs"
    by (simp add: guesses_def demo_ip demo_login_def wrong_password_def get_user_by_username_def demo_rows)
  moreover have "brute_wf (st_brute demo_site) 0 (ap_brute (demo_app demo_db))" "brute_look (ap_brute (demo_app demo_db)) k = None" for k
    by (simp_all add: brute_wf_def brute_look_def brute_new_def hm_get_def)
  ultimately show ?thesis
    using guessing_locks_out [where 'f = nat and st = demo_site and xs = ?xs and ip = "''1.2.3.4''" and name = "''ann''"
        and s = "demo_app demo_db" and start = 0 and rq = "demo_request ''u''" and b = "demo_login ''secret-ann''" and latest = 0]
    by (simp add: c sec_def demo_ip demo_name del: try_logins.simps)
qed

definition demo_grant :: code_row where
  "demo_grant = \<lparr>k_device_code = ''c'', k_user_code = ''ABCD-EFGH'', k_expires_at = 300, k_approved_by = Some ''u'',
     k_access_token = Some ''a'', k_refresh_token = Some ''r''\<rparr>"

definition demo_poll :: "string \<Rightarrow> poll_request" where
  "demo_poll code = \<lparr>dp_device_code = code, dp_device_key = None, dp_device_name = None\<rparr>"

lemma device_token_unknown:
  assumes "code_row (dp_device_code b) (ap_db s) = None"
  shows "\<exists>rs t. device_token_poll st rq b s = (Inr (rs :: nat response), t)"
proof -
  obtain slow q where "poll_slot rq (dp_device_code b) s = (Inr slow, s\<lparr>ap_poll := q\<rparr>)" using poll_slot_total by blast
  then show ?thesis using assms
    by (auto simp: device_token_poll_def Let_def h_bind_def db_read_def get_device_code_def or_internal_def code_row_def h_ok_def)
qed

theorem device_tokens_once_witness:
  "\<exists>rs s' rs' t'. device_token_poll demo_site (demo_request ''r'') (demo_poll ''c'') (demo_app (demo_db\<lparr>device_codes := [demo_grant]\<rparr>)) = (Inr (rs :: nat response), s') \<and>
    rs_status rs = 200 \<and> device_token_poll demo_site (demo_request ''r'') (demo_poll ''c'') s' = (Inr (rs' :: nat response), t') \<and> rs_status rs' \<noteq> 200"
proof -
  let ?s = "demo_app (demo_db\<lparr>device_codes := [demo_grant]\<rparr>)" and ?p = "demo_poll ''c''" and ?rq = "demo_request ''r''"
  have row: "code_row (dp_device_code ?p) (ap_db ?s) = Some demo_grant" by (simp add: code_row_def demo_poll_def demo_grant_def)
  have "fst (poll_slot ?rq (dp_device_code ?p) ?s) = Inr False"
    by (simp add: poll_slot_def Let_def hm_retain_def hm_get_def)
  then have "\<exists>s'. device_token_poll demo_site ?rq ?p ?s =
      (Inr (token_response demo_site (or_empty (k_access_token demo_grant), or_empty (k_refresh_token demo_grant)) :: nat response), s')"
    by (intro device_token_given [OF row]) (simp_all add: demo_grant_def)
  then obtain rs s' where run: "device_token_poll demo_site ?rq ?p ?s = (Inr (rs :: nat response), s')" and ok: "rs_status rs = 200"
    by (auto simp: token_response_def ok_json_def simp del: demo_sel)
  have "code_row (dp_device_code ?p) (ap_db s') = None" by (rule device_token_spent [OF run ok])
  then obtain rs' t' where again: "device_token_poll demo_site ?rq ?p s' = (Inr (rs' :: nat response), t')"
    using device_token_unknown by blast
  from device_tokens_once [OF run ok, of "[]", OF _ _ refl again] run ok again show ?thesis by auto
qed


end
