(* ===== verification/Metrics_Safety.thy ===== *)
theory Metrics_Safety
  imports Auth_Safety
begin

text \<open>
  What a query of theory \<open>Metrics\<close> answers: the aggregation against its specification (a saturating
  sum per bucket, exact until the cap on buckets), that no token of the range is lost between
  buckets, whose events a caller may read, and that the answer is made of exactly those.
\<close>

section \<open>Aggregation\<close>

declare split_paired_All [simp del] split_paired_Ex [simp del]

definition sat_sum :: "(server_event \<Rightarrow> nat) \<Rightarrow> server_event list \<Rightarrow> nat" where
  "sat_sum f es = min (sum_list (map f es)) u64_max"

definition in_bucket :: "'z chrono \<Rightarrow> ('z, 'f) query_plan \<Rightarrow> bucket_key \<Rightarrow> server_event list \<Rightarrow> server_event list" where
  "in_bucket ch q k es = filter (\<lambda>e. bucket_of ch q e = Some k) es"

definition bucket_keys :: "'z chrono \<Rightarrow> ('z, 'f) query_plan \<Rightarrow> server_event list \<Rightarrow> bucket_key set" where
  "bucket_keys ch q es = {k. \<exists>e\<in>set es. bucket_of ch q e = Some k}"

text \<open>The specification of a bucket holding \<open>es\<close>.\<close>

definition tallies :: "'f floats \<Rightarrow> ('z, 'f) query_plan \<Rightarrow> server_event list \<Rightarrow> 'f model_bucket \<Rightarrow> bool" where
  "tallies fl q es b \<longleftrightarrow> b_events b = sat_sum (\<lambda>_. 1) es \<and>
     (if qp_is_events q then b_input b = 0 \<and> b_output b = 0 \<and> b_cache_create b = 0 \<and> b_cache_read b = 0 \<and> b_usage_total b = 0
      else b_input b = sat_sum input_tokens es \<and> b_output b = sat_sum output_tokens es \<and>
        b_cache_create b = sat_sum cache_creation_input_tokens es \<and> b_cache_read b = sat_sum cache_read_input_tokens es \<and>
        b_usage_total b = sat_sum usage_total es) \<and>
     b_cost_usd b = (if qp_is_events q \<or> \<not> qp_include_cost q then None
       else fold (add_cost fl (qp_prices q)) es None)"

lemma sat_sum_snoc: "sat_add_u64 (sat_sum f es) (f e) = sat_sum f (es @ [e])"
  by (simp add: sat_sum_def sat_add_u64_def)

lemma sat_count_snoc: "sat_add_u64 (sat_sum (\<lambda>_. Suc 0) es) (Suc 0) = sat_sum (\<lambda>_. Suc 0) (es @ [e])"
  by (simp add: sat_sum_def sat_add_u64_def)

lemma tallies_empty: "tallies fl q [] empty_bucket"
  by (simp add: tallies_def empty_bucket_def sat_sum_def)

lemma tallies_snoc: "tallies fl q es b \<Longrightarrow> tallies fl q (es @ [e]) (accumulate fl q e b)"
  by (auto simp: tallies_def accumulate_def Let_def sat_sum_snoc sat_count_snoc)

lemma in_bucket_snoc: "in_bucket ch q k (es @ [e]) = in_bucket ch q k es @ (if bucket_of ch q e = Some k then [e] else [])"
  by (simp add: in_bucket_def)

lemma in_bucket_empty: "in_bucket ch q k es = [] \<longleftrightarrow> k \<notin> bucket_keys ch q es"
  by (auto simp: in_bucket_def bucket_keys_def filter_empty_conv)

text \<open>What holds after the events \<open>past\<close>: every kept bucket summarises its events, and buckets are
  missing only once the map is full.\<close>

definition filled :: "'z chrono \<Rightarrow> 'f floats \<Rightarrow> ('z, 'f) query_plan \<Rightarrow> server_event list \<Rightarrow> (bucket_key, 'f model_bucket) hashmap \<Rightarrow> bool \<Rightarrow> bool" where
  "filled ch fl q past m t \<longleftrightarrow> hm_wf m \<and> length m \<le> MAX_BUCKET_ENTRIES \<and>
     (\<forall>k b. hm_get m k = Some b \<longrightarrow> tallies fl q (in_bucket ch q k past) b \<and> k \<in> bucket_keys ch q past) \<and>
     (if t then length m = MAX_BUCKET_ENTRIES \<and> (\<exists>k\<in>bucket_keys ch q past. hm_get m k = None)
      else \<forall>k\<in>bucket_keys ch q past. hm_get m k \<noteq> None)"

lemma filled_start: "filled ch fl q [] [] False"
  by (simp add: filled_def hm_get_def bucket_keys_def)

lemma bucket_keys_snoc: "bucket_keys ch q (es @ [e]) = (case bucket_of ch q e of None \<Rightarrow> bucket_keys ch q es | Some k \<Rightarrow> insert k (bucket_keys ch q es))"
  by (auto simp: bucket_keys_def split: option.splits)

lemma filled_insert:
  assumes "filled ch fl q past m t" "bucket_of ch q e = Some k" "\<not> (length m \<ge> MAX_BUCKET_ENTRIES \<and> hm_get m k = None)"
  shows "filled ch fl q (past @ [e]) (hm_insert k (accumulate fl q e (or_else (hm_get m k) empty_bucket)) m) t"
proof -
  let ?b = "or_else (hm_get m k) empty_bucket"
  have "hm_get m k = None \<Longrightarrow> \<not> t \<and> in_bucket ch q k past = []"
    using assms by (auto simp: filled_def in_bucket_empty split: if_splits)
  then have b: "tallies fl q (in_bucket ch q k past @ [e]) (accumulate fl q e ?b)"
    using assms(1) by (intro tallies_snoc)
      (auto simp: filled_def or_else_def tallies_empty split: option.splits)
  have "length (hm_insert k x m) = length m + (if hm_get m k = None then 1 else 0)" for x
    by (simp add: hm_length_insert)
  then show ?thesis using assms b
    by (auto simp: filled_def in_bucket_snoc bucket_keys_snoc hm_simps split: if_splits) (metis option.distinct(1))
qed

lemma fill_buckets_filled:
  "filled ch fl q past m t \<Longrightarrow> fill_buckets ch fl q es m t = (m', t') \<Longrightarrow> filled ch fl q (past @ es) m' t'"
proof (induction es arbitrary: past m t)
  case (Cons e es)
  show ?case
  proof (cases "bucket_of ch q e")
    case None
    then have "filled ch fl q (past @ [e]) m t"
      using Cons.prems(1) by (simp add: filled_def in_bucket_snoc bucket_keys_snoc)
    from Cons.IH [OF this] Cons.prems(2) None show ?thesis by simp
  next
    case (Some k)
    show ?thesis
    proof (cases "length m \<ge> MAX_BUCKET_ENTRIES \<and> hm_get m k = None")
      case True
      then have "filled ch fl q (past @ [e]) m True"
        using Cons.prems(1) Some by (auto simp: filled_def in_bucket_snoc bucket_keys_snoc split: if_splits)
      from Cons.IH [OF this] Cons.prems(2) Some True show ?thesis by simp
    next
      case False
      from Cons.IH [OF filled_insert [OF Cons.prems(1) Some False]] Cons.prems(2) Some False show ?thesis by simp
    qed
  qed
qed simp

lemma hm_keys: "{k. hm_get m k \<noteq> None} = fst ` set m"
  unfolding hm_get_def by (auto simp: map_of_eq_None_iff)

lemma hm_keys_card:
  assumes "hm_wf m"
  shows "finite {k. hm_get m k \<noteq> None}" "card {k. hm_get m k \<noteq> None} = length m"
proof -
  show "finite {k. hm_get m k \<noteq> None}" by (simp only: hm_keys) simp
  show "card {k. hm_get m k \<noteq> None} = length m"
    using assms by (simp only: hm_keys) (metis distinct_card length_map list.set_map)
qed

lemma finite_bucket_keys: "finite (bucket_keys ch q es)"
proof -
  have "bucket_keys ch q es \<subseteq> (the \<circ> bucket_of ch q) ` set es" by (force simp: bucket_keys_def)
  then show ?thesis by (rule finite_subset) simp
qed


section \<open>No token is lost\<close>

definition wanted :: "('z, 'f) query_plan \<Rightarrow> server_event \<Rightarrow> bool" where
  "wanted q e \<longleftrightarrow> qp_since q \<le> ts_ms e \<and> ts_ms e < qp_until q \<and>
     (case qp_provider q of Some want \<Rightarrow> want = provider_key e | None \<Rightarrow> True)"

lemma epoch_start_aligned:
  assumes "1 \<le> step" "0 \<le> t"
  shows "epoch_start step t * 1000 \<le> t" "t < epoch_start step t * 1000 + step * 1000" "step dvd epoch_start step t"
proof -
  let ?ms = "step * 1000"
  have eq: "epoch_start step t = t div ?ms * step"
  proof -
    have "0 \<le> t div ?ms * ?ms" using assms by (intro mult_nonneg_nonneg) (simp_all add: pos_imp_zdiv_nonneg_iff)
    moreover have "quot t ?ms = t div ?ms" using assms by (simp add: quot_def)
    moreover have "t div ?ms * ?ms div 1000 = t div ?ms * step" by (metis mult.assoc nonzero_mult_div_cancel_right zero_neq_numeral)
    ultimately show ?thesis by (simp add: epoch_start_def Let_def quot_def not_less del: times_divide_eq_left)
  qed
  have "t div ?ms * ?ms \<le> t" "t < t div ?ms * ?ms + ?ms"
    using pos_mod_sign [of ?ms t] pos_mod_bound [of ?ms t] div_mult_mod_eq [of t ?ms] assms(1) by linarith+
  then show "epoch_start step t * 1000 \<le> t" "t < epoch_start step t * 1000 + step * 1000" "step dvd epoch_start step t"
    by (simp_all add: eq algebra_simps)
qed

lemma epoch_bucket:
  assumes "qp_tz q = None" "1 \<le> qp_step q" "0 \<le> qp_since q"
  shows "bucket_of ch q e = (if wanted q e then Some (epoch_start (qp_step q) (ts_ms e), provider_key e, group_key (qp_group q) e) else None)"
proof (cases "wanted q e")
  case True
  then have "0 \<le> ts_ms e" using assms(3) by (simp add: wanted_def)
  from epoch_start_aligned [OF assms(2) this] True assms show ?thesis
    by (auto simp: bucket_of_def wanted_def bucket_start_sec_def Let_def split: option.splits)
next
  case False
  then show ?thesis by (auto simp: bucket_of_def wanted_def Let_def split: option.splits)
qed

lemma sum_by_key:
  assumes "finite K"
  shows "(\<Sum>k\<in>K. sum_list (map f (filter (\<lambda>e. g e = Some k) es))) = (sum_list (map f (filter (\<lambda>e. g e \<in> Some ` K) es)) :: nat)"
proof (induction es)
  case (Cons e es)
  have "(\<Sum>k\<in>K. sum_list (map f (filter (\<lambda>e. g e = Some k) (e # es)))) =
      (\<Sum>k\<in>K. if g e = Some k then f e else 0) + (\<Sum>k\<in>K. sum_list (map f (filter (\<lambda>e. g e = Some k) es)))"
    by (subst sum.distrib [symmetric]) (rule sum.cong, auto)
  also have "(\<Sum>k\<in>K. if g e = Some k then f e else 0) = (if g e \<in> Some ` K then f e else 0)"
    using assms by (cases "g e") (auto simp: sum.delta')
  finally show ?case using Cons.IH by simp
qed simp

lemma bucket_total:
  assumes "fill_buckets ch fl q es [] False = (m, False)"
    and "\<And>k b. hm_get m k = Some b \<Longrightarrow> g b = sat_sum f (in_bucket ch q k es)"
    and "sum_list (map f (filter (\<lambda>e. bucket_of ch q e \<noteq> None) es)) \<le> u64_max"
  shows "sum_list (map (\<lambda>(_, b). g b) m) = sum_list (map f (filter (\<lambda>e. bucket_of ch q e \<noteq> None) es))"
proof -
  have fd: "filled ch fl q es m False" using fill_buckets_filled [OF filled_start assms(1)] by simp
  then have wf: "hm_wf m" by (simp add: filled_def)
  let ?K = "fst ` set m" and ?total = "sum_list (map f (filter (\<lambda>e. bucket_of ch q e \<noteq> None) es))"
  have keys: "?K = bucket_keys ch q es"
    using fd unfolding hm_keys [symmetric] filled_def by auto
  have part: "sum_list (map f (in_bucket ch q k es)) \<le> ?total" for k
    unfolding in_bucket_def by (induction es) auto
  have each: "g b = sum_list (map f (in_bucket ch q k es))" if "(k, b) \<in> set m" for k b
    using assms(2) [of k b] that wf part [of k] assms(3) by (simp add: hm_get_def sat_sum_def)
  have "sum_list (map (\<lambda>(_, b). g b) m) = (\<Sum>(k, b)\<in>set m. g b)"
    using wf by (subst sum_list_distinct_conv_sum_set) (auto simp: distinct_map)
  also have "\<dots> = (\<Sum>(k, b)\<in>set m. sum_list (map f (in_bucket ch q k es)))"
    by (rule sum.cong) (auto simp: each)
  also have "\<dots> = (\<Sum>k\<in>?K. sum_list (map f (in_bucket ch q k es)))"
    using wf by (subst sum.reindex) (auto simp: distinct_map split_beta)
  also have "\<dots> = sum_list (map f (filter (\<lambda>e. bucket_of ch q e \<in> Some ` ?K) es))"
    unfolding in_bucket_def by (rule sum_by_key) simp
  also have "filter (\<lambda>e. bucket_of ch q e \<in> Some ` ?K) es = filter (\<lambda>e. bucket_of ch q e \<noteq> None) es"
    unfolding keys by (rule filter_cong) (auto simp: bucket_keys_def)
  finally show ?thesis .
qed

text \<open>No token of the range is lost or counted twice: without a time zone the buckets of an answer that
  is not truncated add up to the tokens of all events of the range and provider asked for.\<close>

theorem tokens_conserved:
  assumes "fill_buckets ch fl q es [] False = (m, False)" "\<not> qp_is_events q"
    and "qp_tz q = None" "1 \<le> qp_step q" "0 \<le> qp_since q"
    and "sum_list (map usage_total (filter (wanted q) es)) \<le> u64_max"
  shows "sum_list (map (\<lambda>(_, b). b_usage_total b) m) = sum_list (map usage_total (filter (wanted q) es))"
proof -
  have w: "(\<lambda>e. bucket_of ch q e \<noteq> None) = wanted q" using epoch_bucket [OF assms(3-5)] by (auto simp: fun_eq_iff)
  have "filled ch fl q es m False" using fill_buckets_filled [OF filled_start assms(1)] by simp
  then have "b_usage_total b = sat_sum usage_total (in_bucket ch q k es)" if "hm_get m k = Some b" for k b
    using that assms(2) by (auto simp: filled_def tallies_def)
  from bucket_total [OF assms(1) this] assms(6) show ?thesis by (simp only: w)
qed

section \<open>Whose events\<close>

text \<open>The filters a caller may get: his own events, a team's when he is one of it and the setting allows
  teams, everybody's when the setting allows all; an administrator gets any.\<close>

definition permitted :: "site \<Rightarrow> string \<Rightarrow> sqlite_db \<Rightarrow> string \<Rightarrow> user_filter \<Rightarrow> bool" where
  "permitted st u db requested f \<longleftrightarrow>
     requested = ''self'' \<and> f = Single u \<or>
     (\<exists>team ms. requested = ''team:'' @ team \<and> team \<noteq> [] \<and> list_team_members team db = Inr ms \<and> f = Multiple (map ts_user_id ms) \<and>
        (user_is_admin u db = Inr True \<or>
         max_query_scope (st_settings st) db \<noteq> ''self'' \<and> (\<exists>r. get_team_member_role team u db = Inr (Some r)))) \<or>
     requested = ''all'' \<and> f = All \<and> (user_is_admin u db = Inr True \<or> max_query_scope (st_settings st) db = ''all'')"

lemma parse_scope_cases:
  "parse_scope s = Self_Scope \<Longrightarrow> s = ''self''" "parse_scope s = All_Scope \<Longrightarrow> s = ''all''"
  "parse_scope s = Team_Scope t \<Longrightarrow> s = ''team:'' @ t \<and> t \<noteq> []"
  by (auto simp: parse_scope_def prefix_def split: if_splits)

lemma resolved:
  assumes "resolve_user_filter st u requested s = (Inr f, s')"
  shows "permitted st u (ap_db s) requested f \<and> s' = s"
proof -
  obtain a where a: "user_is_admin u (ap_db s) = Inr a" by (simp add: user_is_admin_def)
  show ?thesis
  proof (cases "parse_scope requested")
    case (Team_Scope t)
    note sc = parse_scope_cases(3) [OF Team_Scope]
    with Team_Scope assms a show ?thesis
      by (auto simp: resolve_user_filter_def h_bind_Inr h_step_Inr permitted_def split: if_splits)
  qed (use assms a parse_scope_cases(1,2) in \<open>auto simp: resolve_user_filter_def h_bind_Inr h_step_Inr permitted_def\<close>)
qed

lemma bad_query_Inr: "bad_query r = Inr x \<longleftrightarrow> r = Inr x"
  by (auto simp: bad_query_def split: sum.splits)

lemma or_bad_gateway_Inr: "or_bad_gateway r = Inr x \<longleftrightarrow> r = Inr x"
  by (auto simp: or_bad_gateway_def split: sum.splits)

lemma events_query_answered:
  assumes "events_query es ch fl prices st u requested ps tz a b s = (Inr rs, s')"
  shows "\<exists>pq step f rows. parse_toki_virtual_query (uni_blank st) (tq_query ps) = Inr pq \<and>
    permitted st u (ap_db s) requested f \<and>
    es_query_events es a b f (MAX_QUERY_EVENTS + 1) (sv_events (ap_server s)) = Inr rows \<and>
    rs = json_reply (answer_events ch fl ps pq (plan_of (uni_lower st) prices ps pq tz step a b) rows) \<and> s' = s"
  using assms
  unfolding events_query_def h_bind_Inr h_step_Inr bad_query_Inr or_bad_gateway_Inr by (auto dest!: resolved)

lemma filter_ok_permitted:
  assumes "permitted st u db requested f" "nul \<notin> set u" "\<forall>r\<in>set (users db). nul \<notin> set (u_id r)"
  shows "filter_ok f"
proof -
  have "ts_user_id m \<in> u_id ` set (users db)" if "list_team_members team db = Inr ms" "m \<in> set ms" for team ms m
    using that by (auto simp: list_team_members_def image_iff) metis
  with assms show ?thesis by (fastforce simp: permitted_def filter_ok_def)
qed


section \<open>Where the answer can mislead\<close>

text \<open>The aggregate of a query that ran into the ceiling of rows looks like a complete one.\<close>

lemma capped_aggregate_looks_complete:
  "\<not> (raw_events pq \<and> tq_step ps = None) \<Longrightarrow>
    answer_events ch fl ps pq q es = answer_events ch fl ps pq q (take MAX_QUERY_EVENTS es)"
  by (auto simp: answer_events_def Let_def)

definition demo_plan :: "int \<Rightarrow> int \<Rightarrow> int \<Rightarrow> (unit, nat) query_plan" where
  "demo_plan step since until = \<lparr>qp_step = step, qp_since = since, qp_until = until, qp_is_events = False, qp_group = By_Model,
     qp_provider = None, qp_tz = None, qp_sow = 0, qp_include_cost = False, qp_prices = []\<rparr>"

text \<open>A query of one instant over a second that does not begin at a multiple of its length counts in two periods.\<close>

lemma instant_query_splits:
  "bucket_of demo_chrono (demo_plan (range_secs 1000) 500 1500) (sample_event ''a'' 600) = Some (0, ''p'', ''m'')"
  "bucket_of demo_chrono (demo_plan (range_secs 1000) 500 1500) (sample_event ''b'' 1200) = Some (1, ''p'', ''m'')"
  by (simp_all add: bucket_of_def demo_plan_def sample_event_def bucket_start_sec_def epoch_start_def quot_def range_secs_def
      Let_def provider_key_def group_key_def)

section \<open>At concrete queries\<close>

lemma demo_bucket:
  "bucket_of demo_chrono (demo_plan 60 0 10000) (sample_event ''a'' 1) = Some (0, ''p'', ''m'')"
  "bucket_of demo_chrono (demo_plan 60 0 10000) (sample_event ''b'' 2) = Some (0, ''p'', ''m'')"
  by (simp_all add: bucket_of_def demo_plan_def sample_event_def bucket_start_sec_def epoch_start_def quot_def
      Let_def provider_key_def group_key_def)

lemma demo_filled:
  "\<exists>m. fill_buckets demo_chrono demo_floats (demo_plan 60 0 10000) [sample_event ''a'' 1, sample_event ''b'' 2] [] False = (m, False)"
  by (simp add: demo_bucket MAX_BUCKET_ENTRIES_def hm_length_insert hm_simps)


theorem tokens_conserved_witness:
  "\<exists>m. fill_buckets demo_chrono demo_floats (demo_plan 60 0 10000) [sample_event ''a'' 1, sample_event ''b'' 2] [] False = (m, False) \<and>
    sum_list (map (\<lambda>(_, b). b_usage_total b) m) = 6"
proof -
  obtain m where run: "fill_buckets demo_chrono demo_floats (demo_plan 60 0 10000) [sample_event ''a'' 1, sample_event ''b'' 2] [] False = (m, False)"
    using demo_filled ..
  have "filter (wanted (demo_plan 60 0 10000)) [sample_event ''a'' 1, sample_event ''b'' 2] = [sample_event ''a'' 1, sample_event ''b'' 2]"
    by (simp add: wanted_def demo_plan_def sample_event_def)
  moreover have "usage_total (sample_event i t) = 3" for i t by (simp add: sample_event_def)
  ultimately have "sum_list (map usage_total (filter (wanted (demo_plan 60 0 10000)) [sample_event ''a'' 1, sample_event ''b'' 2])) = 6" by simp
  with tokens_conserved [OF run] run show ?thesis by (simp add: demo_plan_def u64_max_def)
qed

definition demo_params :: query_params where
  "demo_params = \<lparr>tq_query = ''cost'', tq_start = None, tq_end = None, tq_step = None, tq_scope = None, tq_tz = None,
     tq_start_of_week = None, tq_no_cost = True\<rparr>"

lemma demo_parsed:
  "parse_toki_virtual_query (\<lambda>_. False) ''cost'' =
    Inr \<lparr>is_cost = True, is_events = False, raw_events = False, group_by = ''model'', pq_provider = None\<rparr>"
  by code_simp

lemma demo_trimmed: "str_trim (\<lambda>_. False) ''cost'' \<noteq> ''windows''"
  by code_simp

lemma demo_blank: "uni_blank demo_site = (\<lambda>_. False)"
  by (simp add: demo_site_def)

lemma demo_range: "query_range demo_chrono 5 demo_params = Inr (None, 0, 5000)"
  by (simp add: query_range_def demo_params_def parse_timezone_def bound_or_def saturate_i64_def checked_def in_i64_def i64_min_def i64_max_def res_bind_def)

lemma demo_toki_runs:
  "\<exists>rs s'. toki_query demo_events demo_chrono demo_floats [] demo_site (demo_request ''u'') demo_params (demo_app demo_db) = (Inr rs, s')"
proof -
  have "\<exists>out. query_events mem_kv plain_codec 0 5000 (Single ''u'') (MAX_QUERY_EVENTS + 1) [] = Inr out \<and>
      query_answer empty_log (Single ''u'') 0 5000 (MAX_QUERY_EVENTS + 1) out"
    by (rule fjall_env.query_events_answer [OF plain_env empty_stores empty_log_complete(3)])
      (auto simp: nul_def char_of_def sample_times)
  then obtain out where "query_events mem_kv plain_codec 0 5000 (Single ''u'') (MAX_QUERY_EVENTS + 1) [] = Inr out" by blast
  then have "\<exists>s'. events_query demo_events demo_chrono demo_floats [] demo_site ''u'' ''self'' demo_params None 0 5000 (demo_seen ''u'' demo_db) = (Inr rs, s')"
    if "rs = json_reply (answer_events demo_chrono demo_floats demo_params
        \<lparr>is_cost = True, is_events = False, raw_events = False, group_by = ''model'', pq_provider = None\<rparr>
        (plan_of (uni_lower demo_site) [] demo_params \<lparr>is_cost = True, is_events = False, raw_events = False, group_by = ''model'', pq_provider = None\<rparr>
          None 3600 0 5000) out)" for rs
    using that by (simp add: events_query_def demo_step bad_query_def demo_blank demo_params_def demo_parsed step_of_def resolve_user_filter_def
        user_is_admin_def parse_scope_def or_bad_gateway_def fjall_events_def)
  then show ?thesis
    by (simp add: toki_query_def Let_def h_bind_def demo_ann h_reply_def demo_range demo_blank)
      (simp add: demo_params_def demo_trimmed or_else_def, blast)
qed


end
