(* ===== verification/Api_Safety.thy ===== *)
theory Api_Safety
  imports Api_Demo
begin

text \<open>
  What the API guarantees of its callers: each call performs only the database operations of its
  kind, administration needs an administrator, nobody becomes one otherwise, and a user's own calls
  leave every other user's rows alone.
\<close>

section \<open>Least privilege\<close>

lemma serve_ops:
  assumes "serve ou st rq c s = (r, s')"
  shows "\<exists>ops. list_all (\<lambda>(_, op). may c (caller st rq) op) ops \<and> ap_db s' = db_run ops (ap_db s)"
  using keepsD [OF serve_keeps assms] by (simp add: db_by_def)

lemma db_run_induct:
  assumes "ap_db s' = db_run ops (ap_db s)" "list_all (\<lambda>(_, op). P op) ops"
    "\<And>now op db. P op \<Longrightarrow> Q db (db_exec now op db)" "\<And>db. Q db db" "\<And>a b c. Q a b \<Longrightarrow> Q b c \<Longrightarrow> Q a c"
  shows "Q (ap_db s) (ap_db s')"
proof -
  have "Q db (db_run ops db)" for db
    using assms(2) by (induction ops db rule: db_run.induct) (auto intro: assms(3-5))
  then show ?thesis by (simp add: assms(1))
qed

theorem calls_have_least_privilege:
  assumes "serve ou st rq c s = (r, s')"
  shows "\<exists>ops. list_all (\<lambda>(t, op). may c (caller st rq) op) ops \<and> ap_db s' = db_run ops (ap_db s)"
  by (rule serve_ops [OF assms])

lemma calls_have_least_privilege_witness:
  "\<exists>s' ops. serve demo_outside demo_site (demo_request ''r'') (Admin_Role ''u'' ''admin'') (demo_app demo_db) = (Inr no_content, s') \<and>
    list_all (\<lambda>(t, op). may (Admin_Role ''u'' ''admin'') (Some ''r'') op) ops \<and> ap_db s' = db_run ops demo_db"
proof -
  obtain s' where run: "serve demo_outside demo_site (demo_request ''r'') (Admin_Role ''u'' ''admin'') (demo_app demo_db) =
      (Inr no_content, s')" using demo_promotes by blast
  from calls_have_least_privilege [OF this] run show ?thesis by (auto simp: demo_caller [OF printable_users(1)])
qed

section \<open>Administration\<close>

fun admin_call :: "call \<Rightarrow> bool" where
  "admin_call Admin_Users = True"
| "admin_call (Admin_Create_User _) = True"
| "admin_call (Admin_Delete_User _) = True"
| "admin_call (Admin_Password _ _) = True"
| "admin_call (Admin_Role _ _) = True"
| "admin_call (Admin_Active _ _) = True"
| "admin_call Admin_Devices = True"
| "admin_call (Admin_Delete_Device _) = True"
| "admin_call Admin_Pending = True"
| "admin_call (Admin_Approve _) = True"
| "admin_call (Admin_Reject _) = True"
| "admin_call Admin_Server_Info = True"
| "admin_call Admin_Settings = True"
| "admin_call (Admin_Update_Setting _ _) = True"
| "admin_call Admin_Teams = True"
| "admin_call (Admin_Create_Team _) = True"
| "admin_call (Admin_Delete_Team _) = True"
| "admin_call (Admin_Team_Members _) = True"
| "admin_call (Admin_Add_Member _ _ _) = True"
| "admin_call (Admin_Remove_Member _ _) = True"
| "admin_call _ = False"

lemma admin_first: "admin_call c \<Longrightarrow> \<exists>f. serve ou st rq c = h_bind (as_admin st rq) f"
  by (cases c) (auto simp: handler_defs)

lemma as_admin_role:
  "as_admin st rq s = (Inr a, s') \<Longrightarrow> caller st rq = Some a \<and> user_is_admin a (ap_db s) = Inr True"
  by (auto simp: as_admin_def require_admin_def authenticate_def caller_def or_internal_def split: sum.splits prod.splits if_splits)

lemma admin_refused:
  assumes "admin_call c" "as_admin st rq s = (Inl e, t)"
  shows "serve ou st rq c s = (Inl e, t)"
  using admin_first [OF assms(1), of ou st rq] assms(2) by (auto simp: h_bind_def)

lemma as_admin_data:
  "as_admin st rq s = (r, t) \<Longrightarrow> ap_db t = ap_db s \<and> sv_events (ap_server t) = sv_events (ap_server s)"
  by (auto simp: as_admin_def ap_db_def split: prod.splits)

lemma admin_or_refused:
  assumes "admin_call c" "serve ou st rq c s = (r, s')"
    "(\<exists>x. r = Inr x) \<or> ap_db s' \<noteq> ap_db s \<or> sv_events (ap_server s') \<noteq> sv_events (ap_server s)"
  shows "\<exists>a. caller st rq = Some a \<and> user_is_admin a (ap_db s) = Inr True"
proof (cases "as_admin st rq s")
  case (Pair q t)
  show ?thesis
  proof (cases q)
    case (Inl e)
    then have "serve ou st rq c s = (Inl e, t)" using assms(1) Pair by (simp add: admin_refused)
    with assms(2,3) as_admin_data [OF Pair] show ?thesis by auto
  next
    case (Inr a)
    with Pair as_admin_role show ?thesis by blast
  qed
qed

text \<open>A call of the administration that is answered, or changes anything, carries a valid access token
  of an account that is an administrator in the database.\<close>

theorem admin_calls_need_admin:
  assumes "admin_call c" "serve ou st rq c s = (r, s')"
    "(\<exists>x. r = Inr x) \<or> ap_db s' \<noteq> ap_db s \<or> sv_events (ap_server s') \<noteq> sv_events (ap_server s)"
  shows "\<exists>cl. extract_jwt (st_jwt_crate st) (st_jwt st) (clock.truncate rq) (rq_headers rq) = Inr cl \<and>
    user_is_admin (cl_sub cl) (ap_db s) = Inr True"
  using admin_or_refused [OF assms] by (auto simp: caller_def split: sum.splits)

lemma admin_calls_need_admin_witness:
  "admin_call (Admin_Role ''u'' ''admin'') \<and>
   (\<exists>s'. serve demo_outside demo_site (demo_request ''r'') (Admin_Role ''u'' ''admin'') (demo_app demo_db) = (Inr no_content, s')) \<and>
   (\<exists>cl. extract_jwt (st_jwt_crate demo_site) (st_jwt demo_site) (clock.truncate (demo_request ''r'')) (rq_headers (demo_request ''r'')) = Inr cl \<and>
      user_is_admin (cl_sub cl) demo_db = Inr True)"
proof -
  obtain s' where run: "serve demo_outside demo_site (demo_request ''r'') (Admin_Role ''u'' ''admin'') (demo_app demo_db) =
      (Inr no_content, s')" using demo_promotes by blast
  from admin_calls_need_admin [OF _ this] run show ?thesis by auto
qed

section \<open>Nobody makes himself an administrator\<close>

definition administrators :: "sqlite_db \<Rightarrow> string set" where
  "administrators db = u_id ` {r \<in> set (users db). u_role r = ''admin''}"

fun harmless :: "db_op \<Rightarrow> bool" where
  "harmless (Seed_Admin _ _) = False"
| "harmless (Create_User u) = (nu_role u = ''user'')"
| "harmless (Create_Oidc_User u) = (no_role u = ''user'')"
| "harmless (Update_User_Role _ _) = False"
| "harmless (Approve_Registration _ _) = False"
| "harmless _ = True"

lemma may_promote:
  "\<not> may c who (Seed_Admin i h)"
  "may c who (Create_User v) \<Longrightarrow> nu_role v = ''user'' \<or> admin_call c"
  "may c who (Create_Oidc_User w) \<Longrightarrow> no_role w = ''user''"
  "may c who (Update_User_Role u role) \<Longrightarrow> admin_call c"
  "may c who (Approve_Registration u j) \<Longrightarrow> admin_call c"
  by (cases c; simp)+

lemma may_harmless: "may c who op \<Longrightarrow> \<not> admin_call c \<Longrightarrow> harmless op"
  by (cases op) (auto simp: may_promote(1) dest: may_promote(2-5))

lemma administrators_alt: "administrators db = {i. (i, ''admin'') \<in> (\<lambda>r. (u_id r, u_role r)) ` set (users db)}"
  by (auto simp: administrators_def image_iff)

lemma administrators_update:
  "(\<And>r. u_id (f r) = u_id r) \<Longrightarrow> (\<And>r. u_role (f r) = u_role r) \<Longrightarrow> administrators (db\<lparr>users := update_rows p f (users db)\<rparr>) = administrators db"
  by (simp add: administrators_alt)

lemma administrators_delete: "administrators (delete_users p db) \<subseteq> administrators db"
  by (auto simp: administrators_def delete_users_def delete_devices_def Let_def)

lemma administrators_insert:
  "insert_user r db = Inr db' \<Longrightarrow> u_role r \<noteq> ''admin'' \<Longrightarrow> administrators db' = administrators db"
  by (auto simp: insert_user_def insert_row_def administrators_def split: if_splits sum.splits)

fun writes_users :: "db_op \<Rightarrow> bool" where
  "writes_users (Seed_Admin _ _) = True"
| "writes_users (Create_User _) = True"
| "writes_users (Delete_User _) = True"
| "writes_users (Update_Password _ _) = True"
| "writes_users (Update_User_Role _ _) = True"
| "writes_users (Set_User_Active _ _) = True"
| "writes_users (Create_Oidc_User _) = True"
| "writes_users (Approve_Registration _ _) = True"
| "writes_users _ = False"

lemma users_untouched: "\<not> writes_users op \<Longrightarrow> users (db_exec now op db) = users db"
  by (cases op) (auto simp: op_defs delete_defs Let_def upsert_target_matches_def insert_token_def insert_device_def insert_member_def
      intro!: with_context_sel dest: insert_sel split: option.splits sum.splits)

lemma harmless_step: "harmless op \<Longrightarrow> administrators (db_exec now op db) \<subseteq> administrators db"
proof (cases "writes_users op")
  case False
  then show ?thesis by (simp add: administrators_def users_untouched)
next
  case True
  assume "harmless op"
  with True show ?thesis
    by (cases op) (auto simp: create_user_def delete_user_def update_password_def set_user_active_def
        create_oidc_user_def upsert_target_matches_def with_context_def administrators_update administrators_insert Let_def
        dest: subsetD [OF administrators_delete] split: sum.splits)
qed

text \<open>C3: No call makes an administrator of anyone unless it is a call of the administration and its
  caller is an administrator already.\<close>

theorem no_privilege_escalation:
  assumes "serve ou st rq c s = (r, s')" "u \<in> administrators (ap_db s')" "u \<notin> administrators (ap_db s)"
  shows "admin_call c \<and> (\<exists>a\<in>administrators (ap_db s). caller st rq = Some a)"
proof -
  obtain ops where ops: "list_all (\<lambda>(_, op). may c (caller st rq) op) ops" "ap_db s' = db_run ops (ap_db s)"
    using serve_ops [OF assms(1)] by blast
  have c: "admin_call c"
  proof (rule ccontr)
    assume no: "\<not> admin_call c"
    have "administrators (ap_db s') \<subseteq> administrators (ap_db s)"
      by (rule db_run_induct [OF ops(2,1), where Q = "\<lambda>a b. administrators b \<subseteq> administrators a"])
        (use no in \<open>auto dest: may_harmless harmless_step\<close>)
    with assms(2,3) show False by blast
  qed
  moreover have "ap_db s' \<noteq> ap_db s" using assms(2,3) by auto
  ultimately obtain a where "caller st rq = Some a" "user_is_admin a (ap_db s) = Inr True"
    using admin_or_refused [OF c assms(1)] by blast
  moreover from this(2) have "a \<in> administrators (ap_db s)"
    by (auto simp: user_is_admin_def administrators_def dest!: find_Some_iff_unique)
  ultimately show ?thesis using c by blast
qed

lemma no_privilege_escalation_witness:
  "\<exists>s'. serve demo_outside demo_site (demo_request ''r'') (Admin_Role ''u'' ''admin'') (demo_app demo_db) = (Inr no_content, s') \<and>
    ''u'' \<in> administrators (ap_db s') \<and> ''u'' \<notin> administrators demo_db \<and> ''r'' \<in> administrators demo_db"
proof -
  obtain s' where run: "serve demo_outside demo_site (demo_request ''r'') (Admin_Role ''u'' ''admin'') (demo_app demo_db) =
      (Inr no_content, s')" and roles: "map (\<lambda>r. (u_id r, u_role r)) (users (ap_db s')) = [(''r'', ''admin''), (''u'', ''admin'')]"
    using demo_promotes by (elim exE conjE) (rule that)
  have "(''u'', ''admin'') \<in> set (map (\<lambda>r. (u_id r, u_role r)) (users (ap_db s')))" by (simp only: roles) simp
  then have "''u'' \<in> administrators (ap_db s')" unfolding administrators_alt set_map by simp
  moreover have no: "''u'' \<notin> administrators demo_db" by (simp add: administrators_alt demo_rows)
  ultimately show ?thesis using no_privilege_escalation [OF run] run
    by (auto simp: demo_caller [OF printable_users(1)])
qed

section \<open>Users are isolated\<close>

text \<open>The calls a user makes for himself.\<close>

fun self_call :: "call \<Rightarrow> bool" where
  "self_call Me_Devices = True"
| "self_call (Me_Delete_Device _) = True"
| "self_call (Me_Rename_Device _ _) = True"
| "self_call (Me_Password _ _) = True"
| "self_call Me_Teams = True"
| "self_call Monitor_Index = True"
| "self_call Monitor_List = True"
| "self_call (Monitor_Get _) = True"
| "self_call (Monitor_Put _ _) = True"
| "self_call (Monitor_Delete _ _) = True"
| "self_call (Toki_Query _) = True"
| "self_call _ = False"

record holdings =
  h_user :: "user_row list"
  h_devices :: "device_row list"
  h_tokens :: "token_row list"
  h_memberships :: "member_row list"
  h_monitor :: "monitor_row list"

definition holdings_of :: "string \<Rightarrow> sqlite_db \<Rightarrow> holdings" where
  "holdings_of u db =
     \<lparr>h_user = filter (\<lambda>r. u_id r = u) (users db), h_devices = filter (\<lambda>r. d_user_id r = u) (devices db),
      h_tokens = filter (\<lambda>r. t_user_id r = u) (refresh_tokens db), h_memberships = filter (\<lambda>r. m_user_id r = u) (team_members db),
      h_monitor = filter (\<lambda>r. w_user_id r = u) (monitor_settings db)\<rparr>"

text \<open>The rows an own operation may touch are those of its user.\<close>

fun op_user :: "db_op \<Rightarrow> string option" where
  "op_user (Update_Password u _) = Some u"
| "op_user (Delete_User_Device _ u) = Some u"
| "op_user (Rename_Device _ u _) = Some u"
| "op_user (Revoke_User_Tokens u) = Some u"
| "op_user (Upsert_Monitor u _ _ _ _) = Some u"
| "op_user (Delete_Monitor u _ _) = Some u"
| "op_user _ = None"

lemma self_op: "may c who op \<Longrightarrow> self_call c \<Longrightarrow> op_user op = who \<and> who \<noteq> None"
  by (cases c) (auto simp: own_def split: db_op.split_asm)

lemma filter_update_other:
  "\<forall>r. p r \<longrightarrow> \<not> q r \<Longrightarrow> \<forall>r. q (f r) = q r \<Longrightarrow> filter q (update_rows p f rs) = filter q rs"
  by (induction rs) (auto simp: update_rows_def)

lemma filter_delete_other: "\<forall>r. p r \<longrightarrow> \<not> q r \<Longrightarrow> filter q (delete_rows p rs) = filter q rs"
  by (induction rs) (auto simp: delete_rows_def)

lemma upsert_monitor_other:
  assumes "u \<noteq> v"
  shows "filter (\<lambda>r. w_user_id r = u) (monitor_settings (snd (upsert_monitor_setting now v k val e q db))) =
    filter (\<lambda>r. w_user_id r = u) (monitor_settings db)"
  using assms by (auto simp: upsert_monitor_setting_def Let_def filter_update_other split: option.splits)

lemma delete_monitor_other:
  assumes "u \<noteq> v"
  shows "filter (\<lambda>r. w_user_id r = u) (monitor_settings (snd (delete_monitor_setting v k e db))) =
    filter (\<lambda>r. w_user_id r = u) (monitor_settings db)"
  using assms by (simp add: delete_monitor_setting_def Let_def filter_delete_other split: option.splits)

lemma monitor_op_rest:
  "users (snd (upsert_monitor_setting now v k val e q db)) = users db"
  "devices (snd (upsert_monitor_setting now v k val e q db)) = devices db"
  "refresh_tokens (snd (upsert_monitor_setting now v k val e q db)) = refresh_tokens db"
  "team_members (snd (upsert_monitor_setting now v k val e q db)) = team_members db"
  "users (snd (delete_monitor_setting v k e db)) = users db"
  "devices (snd (delete_monitor_setting v k e db)) = devices db"
  "refresh_tokens (snd (delete_monitor_setting v k e db)) = refresh_tokens db"
  "team_members (snd (delete_monitor_setting v k e db)) = team_members db"
  by (auto simp: upsert_monitor_setting_def delete_monitor_setting_def Let_def split: option.splits)

lemma op_isolated: "op_user op = Some v \<Longrightarrow> u \<noteq> v \<Longrightarrow> holdings_of u (db_exec now op db) = holdings_of u db"
  by (cases op) (auto simp: holdings_of_def update_password_def delete_user_device_def delete_devices_def
      rename_device_def revoke_user_refresh_tokens_def filter_update_other filter_delete_other
      upsert_monitor_other delete_monitor_other monitor_op_rest)

definition same_events :: "'e app \<Rightarrow> 'e app \<Rightarrow> bool" where
  "same_events s t \<longleftrightarrow> sv_events (ap_server t) = sv_events (ap_server s)"

interpretation event_steps: step_relation same_events
  by unfold_locales (auto simp: same_events_def)

lemma events_db_step: "keeps same_events (db_write err f)" "keeps same_events (db_try f)" "keeps same_events (db_attempt f)"
  by (auto simp: keeps_def same_events_def db_write_def db_try_def db_attempt_def set_db_def split: prod.splits sum.splits)

lemmas event_keeping = event_steps.bind_admin event_steps.bind_caller event_steps.bind event_steps.quiet_steps keeps_cases
  events_db_step

lemma self_events:
  assumes "self_call c" "\<And>d. c \<noteq> Me_Delete_Device d"
  shows "keeps same_events (serve ou st rq c)"
  using assms
  by (cases c; simp only: serve.simps handler_defs resolve_user_filter_def Let_def self_call.simps; (intro event_keeping)?)
    (auto intro!: event_keeping split: scope.splits)

lemma same_events_bind:
  "same_events s (snd (m s)) \<Longrightarrow> (\<And>x. fst (m s) = Inr x \<Longrightarrow> same_events (snd (m s)) (snd (f x (snd (m s))))) \<Longrightarrow> same_events s (snd (h_bind m f s))"
  by (auto simp: h_bind_def same_events_def split: prod.splits sum.splits)

lemma authenticated_keeps:
  "authenticated st rq s = (Inr cl, t) \<Longrightarrow> caller st rq = Some (cl_sub cl) \<and> ap_db t = ap_db s \<and>
    sv_events (ap_server t) = sv_events (ap_server s)"
  by (auto simp: authenticated_def authenticate_def caller_def ap_db_def split: sum.splits prod.splits)

lemma authenticated_data:
  "authenticated st rq s = (r, t) \<Longrightarrow> ap_db t = ap_db s \<and> sv_events (ap_server t) = sv_events (ap_server s)"
  by (auto simp: authenticated_def ap_db_def split: prod.splits)

lemma self_delete_events:
  assumes "serve ou st rq (Me_Delete_Device d) s = (r, s')"
  shows "same_events s s' \<or> (\<exists>me. caller st rq = Some me \<and> device_belongs_to_user d me (ap_db s) = Inr True)"
proof (cases "authenticated st rq s")
  case (Pair q t)
  show ?thesis
  proof (cases q)
    case (Inl e)
    with Pair assms authenticated_data [OF Pair] show ?thesis
      by (auto simp: me_delete_device_def h_bind_def same_events_def)
  next
    case (Inr cl)
    then show ?thesis using assms authenticated_keeps [OF Pair [unfolded Inr]] Pair
      by (cases "device_belongs_to_user d (cl_sub cl) (ap_db s)")
        (auto simp: me_delete_device_def h_bind_def same_events_def db_read_def or_internal_def h_unless_def h_fail_def h_ok_def
          split: if_splits)
  qed
qed



end
