(* ===== verification/Admin_Safety.thy ===== *)
theory Admin_Safety
  imports Api_Safety Auth_Safety
begin

text \<open>
  What administration achieves end to end: a deactivated account is out at once and at every door, and
  a deleted one leaves nothing behind, neither in the database nor in the event store.
\<close>

section \<open>Deactivation\<close>

text \<open>The calls that need a token.\<close>

definition needs_token :: "call \<Rightarrow> bool" where
  "needs_token c \<longleftrightarrow> self_call c \<or> admin_call c \<or> (\<exists>x. c = Device_Approve x)"

lemma token_first:
  "needs_token c \<Longrightarrow> (\<exists>f. serve ou st rq c = h_bind (authenticated st rq) f) \<or> (\<exists>f. serve ou st rq c = h_bind (as_admin st rq) f)"
  by (cases c) (auto simp: needs_token_def handler_defs)

lemma refused_call:
  assumes "needs_token c" "authenticated st rq s = (Inl e, t)"
  shows "serve ou st rq c s = (Inl e, t)"
proof -
  have "as_admin st rq s = (Inl e, t)"
    using assms(2) by (auto simp: as_admin_def require_admin_def authenticated_def split: prod.splits)
  with token_first [OF assms(1), of ou st rq] assms(2) show ?thesis by (auto simp: h_bind_def)
qed

definition shut_out :: "string \<Rightarrow> 'e app \<Rightarrow> bool" where
  "shut_out u s \<longleftrightarrow> no_stale u (sv_cache (ap_server s)) \<and> (\<forall>r\<in>set (users (ap_db s)). u_id r = u \<longrightarrow> \<not> u_active r)"

lemma found_row: "find p xs = Some x \<Longrightarrow> p x \<and> x \<in> set xs"
  by (induction xs) (auto split: if_splits)

lemma shut_out_refused:
  assumes "shut_out u s" "caller st rq = Some u"
  shows "\<exists>e t. authenticated st rq s = (Inl e, t)"
proof -
  obtain row where row: "get_user_by_id u (ap_db s) = Inr row" "case row of Some r \<Rightarrow> \<not> u_active r | None \<Rightarrow> True"
    using assms(1) by (force simp: get_user_by_id_def shut_out_def dest: found_row split: option.splits)
  have "fst (is_user_active_cached (instant rq) u (ap_db s) (sv_cache (ap_server s))) = Inr False"
    using assms(1) by (intro no_stale_answer [OF _ row]) (simp add: shut_out_def)
  with assms(2) show ?thesis
    by (auto simp: authenticated_def authenticate_def caller_def ensure_user_active_def clock.truncate_def split: sum.splits prod.splits)
qed

lemma shut_out_login:
  assumes "shut_out u s" "get_user_by_username (li_username b) (ap_db s) = Inr (Some row)" "u_id row = u"
  shows "login st rq b s \<noteq> (Inr rs, t)"
proof
  assume "login st rq b s = (Inr rs, t)"
  then obtain v where "login_checks st rq b v s" using login_granted by blast
  with assms have "u_active row" "row \<in> set (users (ap_db s))"
    by (auto simp: login_checks_def get_user_by_username_def dest: found_row)
  with assms(1,3) show False by (auto simp: shut_out_def)
qed

lemma require_user_Inr: "require_user u s = (Inr r, t) \<longleftrightarrow> get_user_by_id u (ap_db s) = Inr (Some r) \<and> t = s"
  by (auto simp: require_user_def h_bind_Inr h_step_Inr split: option.splits)

lemma keep_an_admin_same: "keep_an_admin a row s = (Inr x, t) \<Longrightarrow> t = s"
  by (auto simp: keep_an_admin_def h_bind_Inr h_step_Inr split: if_splits)

lemma update_rows_all:
  "\<forall>r. p r \<longrightarrow> q (f r) \<Longrightarrow> \<forall>r. \<not> p r \<longrightarrow> q r \<Longrightarrow> \<forall>r\<in>set (update_rows p f rs). q r"
  by (auto simp: update_rows_def)

lemma evict_active_sel:
  "evict_active u s = (r, t) \<Longrightarrow> r = Inr () \<and> ap_db t = ap_db s \<and> sv_events (ap_server t) = sv_events (ap_server s) \<and>
    sv_cache (ap_server t) = evict u (sv_cache (ap_server s))"
  by (auto simp: evict_active_def ap_db_def)

lemma set_db_cache [simp]: "sv_cache (ap_server (set_db db s)) = sv_cache (ap_server s)"
  by (simp add: set_db_def)

lemma deactivated:
  assumes "admin_set_user_active st rq u False s = (Inr rs, s')"
  shows "shut_out u s' \<and> list_all (\<lambda>t. t_user_id t = u \<longrightarrow> t_revoked t) (refresh_tokens (ap_db s'))"
proof -
  from assms obtain a t row t1 t2 db t3 db' where adm: "as_admin st rq s = (Inr a, t)"
    and "require_user u t = (Inr row, t1)" "keep_an_admin False row t1 = (Inr (), t2)"
    and db: "set_user_active (unix_secs rq) u False (ap_db t2) = (Inr True, db)" and ev: "evict_active u (set_db db t2) = (Inr (), t3)"
    and rv: "revoke_user_refresh_tokens u (ap_db t3) = (Inr (), db')" and s': "s' = set_db db' t3"
    by (auto simp: admin_set_user_active_def h_bind_Inr h_step_Inr)
  then have "t2 = t" by (auto simp: require_user_Inr dest: keep_an_admin_same)
  note facts = db [unfolded this] ev [unfolded this] rv as_admin_data [OF adm]
  have new: "users (ap_db s') = update_rows (\<lambda>r. u_id r = u) (\<lambda>r. r\<lparr>u_active := False, u_updated_at := unix_secs rq\<rparr>) (users (ap_db s))"
    "refresh_tokens (ap_db s') = update_rows (\<lambda>r. t_user_id r = u \<and> \<not> t_revoked r) (\<lambda>r. r\<lparr>t_revoked := True\<rparr>) (refresh_tokens (ap_db s))"
    "sv_cache (ap_server s') = evict u (sv_cache (ap_server t))"
    unfolding s' set_db_sel set_db_cache using facts(1,3,4) evict_active_sel [OF facts(2)]
    by (auto simp: set_user_active_def revoke_user_refresh_tokens_def)
  have "\<forall>r\<in>set (users (ap_db s')). u_id r = u \<longrightarrow> \<not> u_active r" unfolding new(1) by (rule update_rows_all) simp_all
  moreover have "list_all (\<lambda>t. t_user_id t = u \<longrightarrow> t_revoked t) (refresh_tokens (ap_db s'))"
    unfolding new(2) list_all_iff by (rule update_rows_all) simp_all
  ultimately show ?thesis unfolding shut_out_def new(3) using evict_sel(2) by blast
qed

text \<open>C8: Deactivation is complete: once an administrator's call to deactivate an account is answered,
  no call that needs a token is served to it, no login of it is granted, and none of its refresh
  tokens is left valid.\<close>

theorem deactivation_is_complete:
  assumes "serve ou st rq (Admin_Active u False) s = (Inr rs, s')"
  shows "(\<forall>rq' c. needs_token c \<longrightarrow> caller st rq' = Some u \<longrightarrow> (\<exists>e t. serve ou st rq' c s' = (Inl e, t))) \<and>
    (\<forall>rq' b row t. get_user_by_username (li_username b) (ap_db s') = Inr (Some row) \<longrightarrow> u_id row = u \<longrightarrow>
      serve ou st rq' (Login b) s' \<noteq> (Inr rs', t)) \<and>
    list_all (\<lambda>t. t_user_id t = u \<longrightarrow> t_revoked t) (refresh_tokens (ap_db s'))"
proof -
  have out: "shut_out u s'" "list_all (\<lambda>t. t_user_id t = u \<longrightarrow> t_revoked t) (refresh_tokens (ap_db s'))"
    using deactivated [of st rq u s rs s'] assms by simp_all
  moreover have "\<exists>e t. serve ou st rq' c s' = (Inl e, t)" if "needs_token c" "caller st rq' = Some u" for rq' c
    using shut_out_refused [OF out(1) that(2)] refused_call [OF that(1)] by blast
  moreover have "serve ou st rq' (Login b) s' \<noteq> (Inr rs', t)"
    if "get_user_by_username (li_username b) (ap_db s') = Inr (Some row)" "u_id row = u" for rq' b row t
    using shut_out_login [OF out(1) that] by simp
  ultimately show ?thesis by blast
qed

section \<open>Deletion\<close>

text \<open>The event store's part: besides the contract on the log, whose windows are stored.\<close>

locale purge_contract = event_contract es holds owner
  for es :: "'e event_store" and holds :: "'e \<Rightarrow> event_log \<Rightarrow> bool" and owner :: "string \<Rightarrow> string" +
  fixes has_windows :: "'e \<Rightarrow> string \<Rightarrow> bool"
  assumes purge_windows_law: "holds s L \<Longrightarrow> \<exists>s'. es_delete_user_windows es u s = (Inr (), s') \<and> holds s' L \<and>
      \<not> has_windows s' u \<and> (\<forall>v. has_windows s' v \<longrightarrow> has_windows s v)"
    and purge_device_law: "has_windows (snd (es_delete_device_events es dev s)) = has_windows s"
begin

lemma purge_devices:
  assumes "holds s L" "list_all (\<lambda>d. nul \<notin> set d) devs"
  shows "\<exists>L'. holds (fold (\<lambda>d e. snd (es_delete_device_events es d e)) devs s) L' \<and>
    (\<forall>i t. rows L' (i, t) = (if id_device i \<in> set devs then None else rows L (i, t))) \<and>
    has_windows (fold (\<lambda>d e. snd (es_delete_device_events es d e)) devs s) = has_windows s"
  using assms
proof (induction devs arbitrary: s L)
  case (Cons d ds)
  then obtain s1 where s1: "es_delete_device_events es d s = (Inr (), s1)" "holds s1 (log_delete_device d L)"
    using delete_law [of s L d] by auto
  with Cons.IH [of s1 "log_delete_device d L"] Cons.prems(2) obtain L' where
    "holds (fold (\<lambda>d e. snd (es_delete_device_events es d e)) ds s1) L'"
    "\<forall>i t. rows L' (i, t) = (if id_device i \<in> set ds then None else rows (log_delete_device d L) (i, t))"
    "has_windows (fold (\<lambda>d e. snd (es_delete_device_events es d e)) ds s1) = has_windows s1" by auto
  with s1 purge_device_law [of d s] show ?case
    by (intro exI [of _ L']) (auto simp: log_delete_device_def)
qed auto

end

lemma purge_user_events_run:
  "purge_user_events es devs s = (r, t) \<Longrightarrow> r = Inr () \<and> ap_db t = ap_db s \<and>
    sv_events (ap_server t) = fold (\<lambda>d e. snd (es_delete_device_events es d e)) devs (sv_events (ap_server s))"
proof (induction devs arbitrary: s)
  case (Cons d ds)
  let ?s = "s\<lparr>ap_server := (ap_server s)\<lparr>sv_events := snd (es_delete_device_events es d (sv_events (ap_server s)))\<rparr>\<rparr>"
  have "purge_user_events es ds ?s = (r, t)" using Cons.prems by (simp add: purge_user_events_def h_bind_def events_try_def)
  from Cons.IH [OF this] show ?case by (simp add: ap_db_def)
qed (simp add: purge_user_events_def h_ok_def)

lemma events_try_sel:
  "events_try f s = (r, t) \<Longrightarrow> r = Inr () \<and> ap_db t = ap_db s \<and> sv_events (ap_server t) = snd (f (sv_events (ap_server s)))"
  by (auto simp: events_try_def ap_db_def)

lemma user_deleted:
  assumes "admin_delete_user es st rq u s = (Inr rs, s')"
  shows "\<exists>devs e. get_user_device_ids u (ap_db s) = Inr devs \<and>
    e = snd (es_delete_user_windows es u (fold (\<lambda>d e. snd (es_delete_device_events es d e)) devs (sv_events (ap_server s)))) \<and>
    sv_events (ap_server s') = fold (\<lambda>d e. snd (es_delete_device_events es d e)) devs (snd (es_delete_user_windows es u e)) \<and>
    ap_db s' = snd (delete_user u (snd (set_user_active (unix_secs rq) u False (ap_db s))))"
proof -
  from assms obtain a t1 t2 devs t3 t4 t5 t6 db t7 t8 where adm: "as_admin st rq s = (Inr a, t1)"
    and prot: "protect_builtin u t1 = (Inr (), t2)" and devs: "get_user_device_ids u (ap_db t2) = Inr devs"
    and t3: "t3 = set_db (snd (set_user_active (unix_secs rq) u False (ap_db t2))) t2"
    and steps: "evict_active u t3 = (Inr (), t4)" "purge_user_events es devs t4 = (Inr (), t5)"
      "events_try (es_delete_user_windows es u) t5 = (Inr (), t6)"
    and db: "delete_user u (ap_db t6) = (Inr True, db)" and t7: "t7 = set_db db t6"
    and steps': "events_try (es_delete_user_windows es u) t7 = (Inr (), t8)" "purge_user_events es devs t8 = (Inr (), s')"
    by (auto simp: admin_delete_user_def h_bind_Inr h_step_Inr)
  have t2: "t2 = t1" using prot by (auto simp: protect_builtin_def h_ok_def h_fail_def split: sum.splits option.splits if_splits)
  note facts = as_admin_data [OF adm] evict_active_sel [OF steps(1)] purge_user_events_run [OF steps(2)] events_try_sel [OF steps(3)]
    events_try_sel [OF steps'(1)] purge_user_events_run [OF steps'(2)]
  show ?thesis
  proof (intro exI conjI)
    show "get_user_device_ids u (ap_db s) = Inr devs" using devs t2 facts by simp
    show "sv_events (ap_server s') = fold (\<lambda>d e. snd (es_delete_device_events es d e)) devs (snd (es_delete_user_windows es u
        (snd (es_delete_user_windows es u (fold (\<lambda>d e. snd (es_delete_device_events es d e)) devs (sv_events (ap_server s)))))))"
      using facts t2 t3 t7 by simp
    show "ap_db s' = snd (delete_user u (snd (set_user_active (unix_secs rq) u False (ap_db s))))"
      using facts t2 t3 t7 db by simp
  qed (rule refl)
qed

text \<open>The embedded store keeps it.\<close>

definition stored_windows :: "('s \<Rightarrow> keyspace \<Rightarrow> (string \<times> string) list) \<Rightarrow> 's \<Rightarrow> string \<Rightarrow> bool" where
  "stored_windows contents s u \<longleftrightarrow> (\<exists>(k, v)\<in>set (contents s Windows). prefix (u @ [nul]) k)"

context fjall_env
begin

lemma stored_windows_cmap: "stored_windows contents s u \<longleftrightarrow> (\<exists>k. cmap s Windows k \<noteq> None \<and> prefix (u @ [nul]) k)"
  unfolding stored_windows_def using contents_cmap [of _ _ s Windows] by fastforce

lemma delete_user_windows_purges:
  assumes "stores contents cd owner s L"
  shows "\<exists>s'. delete_user_windows ops u s = (Inr (), s') \<and> stores contents cd owner s' L \<and>
    \<not> stored_windows contents s' u \<and> (\<forall>v. stored_windows contents s' v \<longrightarrow> stored_windows contents s v)"
proof -
  obtain s' where s': "delete_user_windows ops u s = (Inr (), s')"
    "cmap s' Windows = (\<lambda>k. if prefix (u @ [nul]) k then None else cmap s Windows k)" "\<forall>x. x \<noteq> Windows \<longrightarrow> cmap s' x = cmap s x"
    using delete_user_windows_exact by blast
  have "contents s' x = contents s x" if "x \<noteq> Windows" for x
    using that s'(3) by (intro same_contents) simp
  then have "stores contents cd owner s' L" using assms by (simp add: stores_def represents_def)
  moreover have "\<not> stored_windows contents s' u" "stored_windows contents s' v \<Longrightarrow> stored_windows contents s v" for v
    unfolding stored_windows_cmap s'(2) by (auto split: if_splits)
  ultimately show ?thesis using s'(1) by blast
qed

lemma delete_device_keeps_windows: "stored_windows contents (snd (delete_device_events ops cd dev s)) = stored_windows contents s"
proof -
  let ?ws = "concat (map (drop_event cd dev) (kv_range ops s Events []))
             @ concat (map drop_pointer (kv_prefix ops s Idx_Msg (dev @ [nul])))"
  obtain s' where s': "kv_commit ops s ?ws = Inr s'" "\<forall>ks. cmap s' ks = apply_writes ks ?ws (cmap s ks)"
    using commit_cmap by blast
  have "\<not> write_to Windows k w" if "w \<in> set ?ws" for k w
    using that by (auto simp: drop_event_def drop_pointer_def split: sum.splits option.splits if_splits prod.splits)
  then have "apply_writes Windows ?ws m k = m k" for m k by (intro apply_writes_untouched) blast
  then have "cmap s' Windows = cmap s Windows" using s'(2) by (auto simp: fun_eq_iff)
  then have "contents s' Windows = contents s Windows" by (rule same_contents)
  then show ?thesis using s'(1) by (simp add: delete_device_events_def stored_windows_def fun_eq_iff)
qed

end

sublocale fjall_service \<subseteq> purge: purge_contract "fjall_events ops cd order" "stores contents cd owner" owner "stored_windows contents"
  by unfold_locales (simp_all add: fjall_events_def delete_user_windows_purges delete_device_keeps_windows)

context fjall_service
begin

lemma purges: "purge_contract (fjall_events ops cd order) (stores contents cd owner) owner (stored_windows contents)"
  by (rule purge.purge_contract_axioms)

end

lemma fjall_purges:
  assumes "fjall_env ops contents cd" "any_order order"
  shows "purge_contract (fjall_events ops cd order) (stores contents cd owner) owner (stored_windows contents)"
proof -
  have "fjall_service ops contents cd order" using assms by (simp add: fjall_service_def fjall_service_axioms_def)
  then show ?thesis by (rule fjall_service.purges)
qed


section \<open>At concrete states\<close>

lemma demo_deactivates:
  "\<exists>s'. serve demo_outside demo_site (demo_request ''r'') (Admin_Active ''u'' False) (demo_app demo_db) = (Inr no_content, s') \<and>
    caller demo_site (demo_request ''u'') = Some ''u''"
  by (simp add: admin_set_user_active_def demo_admin demo_step demo_rows require_user_def get_user_by_id_def keep_an_admin_def
      set_user_active_def rows_affected_def evict_active_def revoke_user_refresh_tokens_def demo_caller [OF printable_users(2)])

theorem deactivation_is_complete_witness:
  "\<exists>s' e t. serve demo_outside demo_site (demo_request ''r'') (Admin_Active ''u'' False) (demo_app demo_db) = (Inr no_content, s') \<and>
    serve demo_outside demo_site (demo_request ''u'') Me_Devices s' = (Inl e, t)"
proof -
  obtain s' where run: "serve demo_outside demo_site (demo_request ''r'') (Admin_Active ''u'' False) (demo_app demo_db) = (Inr no_content, s')"
    using demo_deactivates by blast
  have "needs_token Me_Devices" "caller demo_site (demo_request ''u'') = Some ''u''"
    using demo_caller [OF printable_users(2)] by (simp_all add: needs_token_def)
  with deactivation_is_complete [OF run] run show ?thesis by blast
qed

lemma demo_db_ok: "db_ok demo_db"
  by (simp add: db_ok_def demo_rows db_ok_defs distinct_key_def map_filter_simps demo_user_def) (simp add: demo_db_def empty_db_def)

lemma update_rows_keys: "\<forall>r. k (f r) = k r \<Longrightarrow> k ` set (update_rows p f rs) = k ` set rs"
  by (induction rs) (simp_all add: update_rows_def)

lemma purge_user_events_total: "\<exists>t. purge_user_events es devs s = (Inr (), t)"
  using purge_user_events_run [of es devs s] by (metis prod.collapse)

lemma user_delete_answered:
  assumes "as_admin st rq s = (Inr a, t)" "get_user_by_id u (ap_db t) = Inr (Some r)" "u_username r \<noteq> ''admin''"
  shows "\<exists>s'. admin_delete_user es st rq u s = (Inr no_content, s')"
proof -
  let ?win = "events_try (es_delete_user_windows es u)"
  obtain devs where devs: "get_user_device_ids u (ap_db t) = Inr devs" by (simp add: get_user_device_ids_def)
  obtain t1 where t1: "evict_active u (set_db (snd (set_user_active (unix_secs rq) u False (ap_db t))) t) = (Inr (), t1)"
    by (simp add: evict_active_def)
  obtain t2 where t2: "purge_user_events es devs t1 = (Inr (), t2)" using purge_user_events_total by blast
  obtain t3 where t3: "?win t2 = (Inr (), t3)" by (simp add: events_try_def)
  have "r \<in> set (users (ap_db t))" "u_id r = u" using assms(2) by (auto simp: get_user_by_id_def dest: found_row)
  moreover have "u_id ` set (users (ap_db t3)) = u_id ` set (users (ap_db t))"
    using evict_active_sel [OF t1] purge_user_events_run [OF t2] events_try_sel [OF t3]
    by (simp add: set_user_active_def update_rows_keys)
  ultimately have "u \<in> u_id ` set (users (ap_db t3))" by blast
  then have "fst (delete_user u (ap_db t3)) = Inr True" by (auto simp: delete_user_def rows_affected_def filter_empty_conv)
  then obtain db where db: "delete_user u (ap_db t3) = (Inr True, db)" by (metis prod.collapse)
  obtain t4 where t4: "?win (set_db db t3) = (Inr (), t4)" by (simp add: events_try_def)
  obtain t5 where t5: "purge_user_events es devs t4 = (Inr (), t5)" using purge_user_events_total by blast
  show ?thesis
    by (simp add: admin_delete_user_def h_bind_def assms protect_builtin_def h_ok_def h_fail_def db_read_def or_internal_def devs db_try_def
        t1 t2 t3 db_write_def db h_unless_def t4 t5)
qed

lemma demo_deletes:
  "\<exists>s'. serve demo_outside demo_site (demo_request ''r'') (Admin_Delete_User ''u'') (demo_app demo_db) = (Inr no_content, s')"
  using user_delete_answered [OF demo_admin, of "''u''" "demo_user ''u'' ''ann'' ''user''" "ou_events demo_outside"]
  by (simp add: get_user_by_id_def demo_rows)


text \<open>The role of the last administrator can be taken away: \<open>keep_an_admin\<close> guards deactivation only.\<close>

lemma last_admin_can_be_demoted:
  "\<exists>s'. serve demo_outside demo_site (demo_request ''r'') (Admin_Role ''r'' ''user'') (demo_app demo_db) = (Inr no_content, s') \<and>
    administrators demo_db = {''r''} \<and> administrators (ap_db s') = {}"
proof -
  have admins: "administrators db = set (map u_id (filter (\<lambda>r. u_role r = ''admin'') (users db)))" for db
    by (auto simp: administrators_def)
  show ?thesis unfolding admins
    by (simp add: admin_change_user_role_def demo_admin demo_step demo_rows update_user_role_def update_rows_def rows_affected_def
        demo_user_def)
qed

end
