(* ===== verification/Postgres.thy ===== *)
theory Postgres
  imports Repository
begin

text \<open>
  The PostgreSQL repository (\<open>src/src/db/postgres.rs\<close>): the same tables and the same operations as the
  SQLite one, on a server that differs where the code can see it. A result without \<open>ORDER BY\<close>, and rows
  that tie under one, come in any order (\<open>pg_order\<close>); text is ordered by the collation of the database
  (\<open>pg_collate\<close>, a sort key); text with a NUL is refused when it is bound. A transaction here runs
  alone; \<open>Pg_Transactions\<close> interleaves the ones that read before they write.
\<close>

section \<open>The server\<close>

record pg_server =
  pg_order :: "nat \<Rightarrow> nat list"
  pg_collate :: "string \<Rightarrow> string"

definition pg_ok :: "pg_server \<Rightarrow> bool" where
  "pg_ok srv \<longleftrightarrow> (\<forall>n. mset (pg_order srv n) = mset [0..<n])"

definition pg_rows :: "pg_server \<Rightarrow> 'r list \<Rightarrow> 'r list" where
  "pg_rows srv rs = map (nth rs) (pg_order srv (length rs))"

text \<open>\<open>fetch_optional\<close> takes the first row.\<close>

definition pg_first :: "pg_server \<Rightarrow> ('r \<Rightarrow> bool) \<Rightarrow> 'r list \<Rightarrow> 'r option" where
  "pg_first srv p rs = find p (pg_rows srv rs)"

definition clean_texts :: "string list \<Rightarrow> bool" where
  "clean_texts ss \<longleftrightarrow> list_all (\<lambda>s. nul \<notin> set s) ss"

definition pg_query :: "string \<Rightarrow> string list \<Rightarrow> 'a \<Rightarrow> 'a result" where
  "pg_query c texts x = (if clean_texts texts then Inr x else Inl c)"

definition pg_change :: "string \<Rightarrow> string list \<Rightarrow> 'a \<times> sqlite_db \<Rightarrow> sqlite_db \<Rightarrow> 'a db_result" where
  "pg_change c texts r db = (if clean_texts texts then (Inr (fst r), snd r) else (Inl c, db))"

definition pg_insert :: "string \<Rightarrow> string list \<Rightarrow> sql_error + sqlite_db \<Rightarrow> sqlite_db \<Rightarrow> unit db_result" where
  "pg_insert c texts r db = (if clean_texts texts then with_context c r db else (Inl c, db))"

text \<open>The server's messages.\<close>

definition pg_display :: "sql_error \<Rightarrow> string" where
  "pg_display e = (case e of
     Unique_Failed \<Rightarrow> ''duplicate key value violates unique constraint''
   | Foreign_Key_Failed \<Rightarrow> ''insert or update on table violates foreign key constraint''
   | Conflict_Target_Unmatched \<Rightarrow> ''there is no unique or exclusion constraint matching the ON CONFLICT specification'')"

definition pg_nul_error :: string where
  "pg_nul_error = ''invalid byte sequence for encoding UTF8: 0x00''"

definition pg_duplicate :: "string \<Rightarrow> bool" where
  "pg_duplicate e \<longleftrightarrow> contains e ''UNIQUE'' \<or> contains e ''duplicate key''"

section \<open>Seeding\<close>

definition pg_seed_admin :: "int \<Rightarrow> string \<Rightarrow> string \<Rightarrow> sqlite_db \<Rightarrow> unit db_result" where
  "pg_seed_admin now uuid hash db =
     (if length (users db) = 0
      then pg_insert ''seed: create default admin'' [uuid, hash]
        (insert_user \<lparr>u_id = uuid, u_username = ''admin'', u_password_hash = hash, u_role = ''admin'',
           u_created_at = now, u_updated_at = now, u_oidc_sub = None, u_oidc_issuer = None, u_active = True\<rparr> db) db
      else (Inr (), db))"

section \<open>Users\<close>

definition pg_get_user_by_username :: "pg_server \<Rightarrow> string \<Rightarrow> sqlite_db \<Rightarrow> user_row option result" where
  "pg_get_user_by_username srv username db =
     pg_query ''get_user_by_username'' [username] (pg_first srv (\<lambda>r. u_username r = username) (users db))"

definition pg_get_user_by_id :: "pg_server \<Rightarrow> string \<Rightarrow> sqlite_db \<Rightarrow> user_row option result" where
  "pg_get_user_by_id srv i db = pg_query ''get_user_by_id'' [i] (pg_first srv (\<lambda>r. u_id r = i) (users db))"

definition pg_create_user :: "int \<Rightarrow> new_user \<Rightarrow> sqlite_db \<Rightarrow> unit db_result" where
  "pg_create_user now u db =
     (let failed = (\<lambda>e. if pg_duplicate e then ''UNIQUE constraint violation: username already exists''
                        else ''create_user: '' @ e)
      in if \<not> clean_texts [nu_id u, nu_username u, nu_password_hash u, nu_role u]
         then (Inl (failed pg_nul_error), db)
         else (case insert_user \<lparr>u_id = nu_id u, u_username = nu_username u, u_password_hash = nu_password_hash u,
                     u_role = nu_role u, u_created_at = now, u_updated_at = now,
                     u_oidc_sub = None, u_oidc_issuer = None, u_active = True\<rparr> db of
                 Inl e \<Rightarrow> (Inl (failed (pg_display e)), db)
               | Inr db' \<Rightarrow> (Inr (), db')))"

definition pg_delete_user :: "string \<Rightarrow> sqlite_db \<Rightarrow> bool db_result" where
  "pg_delete_user i db =
     pg_change ''delete_user'' [i] (rows_affected (\<lambda>r. u_id r = i) (users db) > 0, delete_users (\<lambda>r. u_id r = i) db) db"

definition pg_update_password :: "int \<Rightarrow> string \<Rightarrow> string \<Rightarrow> sqlite_db \<Rightarrow> unit db_result" where
  "pg_update_password now user hash db =
     pg_change ''update_password'' [hash, user]
       ((), db\<lparr>users := update_rows (\<lambda>r. u_id r = user)
          (\<lambda>r. r\<lparr>u_password_hash := hash, u_updated_at := now\<rparr>) (users db)\<rparr>) db"

definition pg_list_users :: "pg_server \<Rightarrow> sqlite_db \<Rightarrow> user_summary list result" where
  "pg_list_users srv db = Inr (map (\<lambda>r. \<lparr>us_id = u_id r, us_username = u_username r, us_role = u_role r,
     us_created_at = u_created_at r, us_active = u_active r\<rparr>) (sort_key u_created_at (pg_rows srv (users db))))"

definition pg_user_is_admin :: "pg_server \<Rightarrow> string \<Rightarrow> sqlite_db \<Rightarrow> bool result" where
  "pg_user_is_admin srv user db =
     pg_query ''user_is_admin'' [user] (map_option u_role (pg_first srv (\<lambda>r. u_id r = user) (users db)) = Some ''admin'')"

definition pg_update_user_role :: "int \<Rightarrow> string \<Rightarrow> string \<Rightarrow> sqlite_db \<Rightarrow> bool db_result" where
  "pg_update_user_role now user role db =
     pg_change ''update_user_role'' [role, user]
       (rows_affected (\<lambda>r. u_id r = user) (users db) > 0,
        db\<lparr>users := update_rows (\<lambda>r. u_id r = user) (\<lambda>r. r\<lparr>u_role := role, u_updated_at := now\<rparr>) (users db)\<rparr>) db"

definition pg_set_user_active :: "int \<Rightarrow> string \<Rightarrow> bool \<Rightarrow> sqlite_db \<Rightarrow> bool db_result" where
  "pg_set_user_active now user active db =
     pg_change ''set_user_active'' [user]
       (rows_affected (\<lambda>r. u_id r = user) (users db) > 0,
        db\<lparr>users := update_rows (\<lambda>r. u_id r = user) (\<lambda>r. r\<lparr>u_active := active, u_updated_at := now\<rparr>) (users db)\<rparr>) db"

definition pg_count_active_admins_except :: "string \<Rightarrow> sqlite_db \<Rightarrow> nat result" where
  "pg_count_active_admins_except username db =
     pg_query ''count_active_admins_except'' [username]
       (rows_affected (\<lambda>r. u_role r = ''admin'' \<and> u_active r \<and> u_username r \<noteq> username) (users db))"

definition pg_find_user_by_oidc :: "pg_server \<Rightarrow> string \<Rightarrow> string \<Rightarrow> sqlite_db \<Rightarrow> user_row option result" where
  "pg_find_user_by_oidc srv issuer sub db =
     pg_query ''find_user_by_oidc'' [issuer, sub]
       (pg_first srv (\<lambda>r. u_oidc_issuer r = Some issuer \<and> u_oidc_sub r = Some sub) (users db))"

text \<open>Inference of a partial index needs its predicate here too.\<close>

definition pg_create_oidc_user :: "int \<Rightarrow> new_oidc_user \<Rightarrow> sqlite_db \<Rightarrow> unit db_result" where
  "pg_create_oidc_user now u db =
     (let r = \<lparr>u_id = no_id u, u_username = no_username u, u_password_hash = [], u_role = no_role u,
                u_created_at = now, u_updated_at = now, u_oidc_sub = Some (no_oidc_sub u),
                u_oidc_issuer = Some (no_oidc_issuer u), u_active = True\<rparr>;
          same = (\<lambda>r. u_oidc_sub r = Some (no_oidc_sub u) \<and> u_oidc_issuer r = Some (no_oidc_issuer u))
      in pg_insert ''create_oidc_user'' [no_id u, no_username u, no_role u, no_oidc_sub u, no_oidc_issuer u]
          (if \<not> upsert_target_matches True False then Inl Conflict_Target_Unmatched
           else if exists_row same (users db)
           then Inr (db\<lparr>users := update_rows same (\<lambda>r. r\<lparr>u_updated_at := now\<rparr>) (users db)\<rparr>)
           else insert_user r db) db)"

section \<open>Devices\<close>

definition pg_find_device_by_key_and_user :: "pg_server \<Rightarrow> string \<Rightarrow> string \<Rightarrow> sqlite_db \<Rightarrow> string option result" where
  "pg_find_device_by_key_and_user srv device_key user db =
     pg_query ''find_device_by_key_and_user'' [device_key, user]
       (map_option d_id (pg_first srv (\<lambda>r. d_device_key r = Some device_key \<and> d_user_id r = user) (devices db)))"

definition pg_create_device :: "int \<Rightarrow> string \<Rightarrow> string \<Rightarrow> string \<Rightarrow> string \<Rightarrow> sqlite_db \<Rightarrow> unit db_result" where
  "pg_create_device now i user name device_key db =
     pg_insert ''create_device'' [i, user, name, device_key]
       (insert_device \<lparr>d_id = i, d_user_id = user, d_name = name,
          d_device_key = Some device_key, d_created_at = now, d_last_seen_at = now\<rparr> db) db"

definition pg_update_device_seen :: "int \<Rightarrow> string \<Rightarrow> string \<Rightarrow> sqlite_db \<Rightarrow> unit db_result" where
  "pg_update_device_seen now i name db =
     pg_change ''update_device_seen'' [name, i]
       ((), db\<lparr>devices := update_rows (\<lambda>r. d_id r = i) (\<lambda>r. r\<lparr>d_last_seen_at := now, d_name := name\<rparr>) (devices db)\<rparr>) db"

definition pg_list_user_devices :: "pg_server \<Rightarrow> string \<Rightarrow> sqlite_db \<Rightarrow> device_summary list result" where
  "pg_list_user_devices srv user db =
     pg_query ''list_user_devices'' [user]
       (map (\<lambda>r. \<lparr>ds_id = d_id r, ds_name = d_name r,
            ds_device_key = (case d_device_key r of None \<Rightarrow> [] | Some k \<Rightarrow> k), ds_last_seen_at = d_last_seen_at r\<rparr>)
         (sort_key (\<lambda>r. - d_last_seen_at r) (pg_rows srv (filter (\<lambda>r. d_user_id r = user) (devices db)))))"

definition pg_list_all_devices :: "pg_server \<Rightarrow> sqlite_db \<Rightarrow> device_admin_summary list result" where
  "pg_list_all_devices srv db =
     Inr (sort_key (\<lambda>r. - da_last_seen_at r) (pg_rows srv
       (concat (map (\<lambda>r. map (\<lambda>u. \<lparr>da_id = d_id r, da_name = d_name r, da_username = u_username u,
            da_last_seen_at = d_last_seen_at r\<rparr>) (filter (\<lambda>u. u_id u = d_user_id r) (users db))) (devices db)))))"

definition pg_delete_device :: "string \<Rightarrow> sqlite_db \<Rightarrow> bool db_result" where
  "pg_delete_device i db =
     pg_change ''delete_device'' [i] (rows_affected (\<lambda>r. d_id r = i) (devices db) > 0, delete_devices (\<lambda>r. d_id r = i) db) db"

definition pg_delete_user_device :: "string \<Rightarrow> string \<Rightarrow> sqlite_db \<Rightarrow> bool db_result" where
  "pg_delete_user_device i user db =
     pg_change ''delete_user_device'' [i, user]
       (rows_affected (\<lambda>r. d_id r = i \<and> d_user_id r = user) (devices db) > 0,
        delete_devices (\<lambda>r. d_id r = i \<and> d_user_id r = user) db) db"

definition pg_device_belongs_to_user :: "string \<Rightarrow> string \<Rightarrow> sqlite_db \<Rightarrow> bool result" where
  "pg_device_belongs_to_user i user db =
     pg_query ''device_belongs_to_user'' [i, user] (rows_affected (\<lambda>r. d_id r = i \<and> d_user_id r = user) (devices db) > 0)"

definition pg_rename_device :: "string \<Rightarrow> string \<Rightarrow> string \<Rightarrow> sqlite_db \<Rightarrow> bool db_result" where
  "pg_rename_device i user name db =
     pg_change ''rename_device'' [name, i, user]
       (rows_affected (\<lambda>r. d_id r = i \<and> d_user_id r = user) (devices db) > 0,
        db\<lparr>devices := update_rows (\<lambda>r. d_id r = i \<and> d_user_id r = user) (\<lambda>r. r\<lparr>d_name := name\<rparr>) (devices db)\<rparr>) db"

definition pg_get_user_device_ids :: "pg_server \<Rightarrow> string \<Rightarrow> sqlite_db \<Rightarrow> string list result" where
  "pg_get_user_device_ids srv user db =
     pg_query ''get_user_device_ids'' [user] (map d_id (pg_rows srv (filter (\<lambda>r. d_user_id r = user) (devices db))))"

section \<open>Cursors\<close>

definition pg_ensure_cursor :: "int \<Rightarrow> string \<Rightarrow> string \<Rightarrow> sqlite_db \<Rightarrow> unit db_result" where
  "pg_ensure_cursor now dev prov db =
     pg_insert ''ensure_cursor'' [dev, prov]
       (case insert_row cursor_clash \<lparr>c_device_id = dev, c_provider = prov, c_last_ts = 0, c_updated_at = now\<rparr> (cursors db) of
          Inl _ \<Rightarrow> Inr db
        | Inr rs \<Rightarrow> if has_device db dev then Inr (db\<lparr>cursors := rs\<rparr>) else Inl Foreign_Key_Failed) db"

definition pg_get_last_ts :: "pg_server \<Rightarrow> string \<Rightarrow> string \<Rightarrow> sqlite_db \<Rightarrow> int result" where
  "pg_get_last_ts srv dev prov db =
     pg_query ''get_last_ts'' [dev, prov]
       (case pg_first srv (\<lambda>r. c_device_id r = dev \<and> c_provider r = prov) (cursors db) of
          None \<Rightarrow> 0 | Some r \<Rightarrow> c_last_ts r)"

definition pg_advance_cursor :: "int \<Rightarrow> string \<Rightarrow> string \<Rightarrow> int \<Rightarrow> sqlite_db \<Rightarrow> unit db_result" where
  "pg_advance_cursor now dev prov ts db =
     pg_change ''advance_cursor'' [dev, prov]
       ((), db\<lparr>cursors := update_rows (\<lambda>r. c_device_id r = dev \<and> c_provider r = prov)
          (\<lambda>r. r\<lparr>c_last_ts := max (c_last_ts r) ts, c_updated_at := now\<rparr>) (cursors db)\<rparr>) db"

definition pg_reset_cursor :: "int \<Rightarrow> string \<Rightarrow> string \<Rightarrow> sqlite_db \<Rightarrow> unit db_result" where
  "pg_reset_cursor now dev prov db =
     pg_change ''reset_cursor'' [dev, prov]
       ((), db\<lparr>cursors := update_rows (\<lambda>r. c_device_id r = dev \<and> c_provider r = prov)
          (\<lambda>r. r\<lparr>c_last_ts := 0, c_updated_at := now\<rparr>) (cursors db)\<rparr>) db"

section \<open>Teams\<close>

definition pg_create_team :: "int \<Rightarrow> string \<Rightarrow> string \<Rightarrow> sqlite_db \<Rightarrow> unit db_result" where
  "pg_create_team now i name db =
     pg_insert ''create_team'' [i, name]
       (case insert_row team_clash \<lparr>g_id = i, g_name = name, g_created_at = now, g_updated_at = now\<rparr> (teams db) of
          Inl e \<Rightarrow> Inl e | Inr rs \<Rightarrow> Inr (db\<lparr>teams := rs\<rparr>)) db"

definition pg_get_team :: "pg_server \<Rightarrow> string \<Rightarrow> sqlite_db \<Rightarrow> team_row option result" where
  "pg_get_team srv i db = pg_query ''get_team'' [i] (pg_first srv (\<lambda>r. g_id r = i) (teams db))"

definition pg_list_teams :: "pg_server \<Rightarrow> sqlite_db \<Rightarrow> team_row list result" where
  "pg_list_teams srv db = Inr (sort_key (\<lambda>r. pg_collate srv (g_name r)) (pg_rows srv (teams db)))"

definition pg_list_teams_with_member_count :: "pg_server \<Rightarrow> sqlite_db \<Rightarrow> team_with_count list result" where
  "pg_list_teams_with_member_count srv db =
     Inr (map (\<lambda>r. \<lparr>tc_id = g_id r, tc_name = g_name r,
            tc_member_count = rows_affected (\<lambda>m. m_team_id m = g_id r) (team_members db),
            tc_created_at = g_created_at r\<rparr>) (sort_key g_created_at (pg_rows srv (teams db))))"

definition pg_delete_team :: "string \<Rightarrow> sqlite_db \<Rightarrow> bool db_result" where
  "pg_delete_team i db =
     pg_change ''delete_team'' [i] (rows_affected (\<lambda>r. g_id r = i) (teams db) > 0, delete_teams (\<lambda>r. g_id r = i) db) db"

definition pg_list_user_teams :: "pg_server \<Rightarrow> string \<Rightarrow> sqlite_db \<Rightarrow> team_membership list result" where
  "pg_list_user_teams srv user db =
     pg_query ''list_user_teams'' [user]
       (sort_key (\<lambda>t. pg_collate srv (tm_team_name t)) (pg_rows srv
         (concat (map (\<lambda>m. map (\<lambda>g. \<lparr>tm_team_id = m_team_id m, tm_team_name = g_name g, tm_role = m_role m\<rparr>)
            (filter (\<lambda>g. g_id g = m_team_id m) (teams db)))
          (filter (\<lambda>m. m_user_id m = user) (team_members db))))))"

definition pg_add_team_member :: "int \<Rightarrow> string \<Rightarrow> string \<Rightarrow> string \<Rightarrow> sqlite_db \<Rightarrow> unit db_result" where
  "pg_add_team_member now team user role db =
     pg_insert ''add_team_member'' [team, user, role]
       (insert_member \<lparr>m_team_id = team, m_user_id = user, m_role = role, m_joined_at = now\<rparr> db) db"

definition pg_remove_team_member :: "string \<Rightarrow> string \<Rightarrow> sqlite_db \<Rightarrow> bool db_result" where
  "pg_remove_team_member team user db =
     pg_change ''remove_team_member'' [team, user]
       (rows_affected (\<lambda>m. m_team_id m = team \<and> m_user_id m = user) (team_members db) > 0,
        db\<lparr>team_members := delete_rows (\<lambda>m. m_team_id m = team \<and> m_user_id m = user) (team_members db)\<rparr>) db"

definition pg_list_team_members :: "pg_server \<Rightarrow> string \<Rightarrow> sqlite_db \<Rightarrow> team_member_summary list result" where
  "pg_list_team_members srv team db =
     pg_query ''list_team_members'' [team]
       (sort_key ts_joined_at (pg_rows srv
         (concat (map (\<lambda>m. map (\<lambda>u. \<lparr>ts_user_id = m_user_id m, ts_username = u_username u, ts_role = m_role m,
              ts_joined_at = m_joined_at m\<rparr>) (filter (\<lambda>u. u_id u = m_user_id m) (users db)))
          (filter (\<lambda>m. m_team_id m = team) (team_members db))))))"

definition pg_get_team_member_role :: "pg_server \<Rightarrow> string \<Rightarrow> string \<Rightarrow> sqlite_db \<Rightarrow> string option result" where
  "pg_get_team_member_role srv team user db =
     pg_query ''get_team_member_role'' [team, user]
       (map_option m_role (pg_first srv (\<lambda>m. m_team_id m = team \<and> m_user_id m = user) (team_members db)))"

section \<open>Pending registrations\<close>

definition pg_create_pending_registration :: "int \<Rightarrow> string \<Rightarrow> string \<Rightarrow> string \<Rightarrow> sqlite_db \<Rightarrow> unit db_result" where
  "pg_create_pending_registration now i username hash db =
     (let failed = (\<lambda>e. if pg_duplicate e then ''UNIQUE constraint violation: username already pending''
                        else ''create_pending_registration: '' @ e)
      in if \<not> clean_texts [i, username, hash] then (Inl (failed pg_nul_error), db)
         else (case insert_row pending_clash \<lparr>p_id = i, p_username = username, p_password_hash = hash, p_requested_at = now\<rparr>
                     (pending_registrations db) of
                 Inl e \<Rightarrow> (Inl (failed (pg_display e)), db)
               | Inr rs \<Rightarrow> (Inr (), db\<lparr>pending_registrations := rs\<rparr>)))"

definition pg_list_pending_registrations :: "pg_server \<Rightarrow> sqlite_db \<Rightarrow> pending_registration list result" where
  "pg_list_pending_registrations srv db =
     Inr (map (\<lambda>r. \<lparr>pr_id = p_id r, pr_username = p_username r, pr_requested_at = p_requested_at r\<rparr>)
       (sort_key p_requested_at (pg_rows srv (pending_registrations db))))"

definition pg_approve_registration :: "pg_server \<Rightarrow> int \<Rightarrow> string \<Rightarrow> string \<Rightarrow> sqlite_db \<Rightarrow> bool db_result" where
  "pg_approve_registration srv now uuid i db =
     (if \<not> clean_texts [i] then (Inl ''approve_registration: fetch'', db)
      else (case pg_first srv (\<lambda>r. p_id r = i) (pending_registrations db) of
        None \<Rightarrow> (Inr False, db)
      | Some p \<Rightarrow>
          if rows_affected (\<lambda>r. u_username r = p_username p) (users db) > 0
          then (Inl ''UNIQUE constraint: username already exists in users'', db)
          else (case pg_insert ''approve_registration: create user'' [uuid]
                      (insert_user \<lparr>u_id = uuid, u_username = p_username p, u_password_hash = p_password_hash p,
                         u_role = ''user'', u_created_at = now, u_updated_at = now,
                         u_oidc_sub = None, u_oidc_issuer = None, u_active = True\<rparr> db) db of
                  (Inl e, _) \<Rightarrow> (Inl e, db)
                | (Inr _, db') \<Rightarrow> (Inr True, db'\<lparr>pending_registrations :=
                      delete_rows (\<lambda>r. p_id r = p_id p) (pending_registrations db')\<rparr>))))"

definition pg_reject_registration :: "string \<Rightarrow> sqlite_db \<Rightarrow> bool db_result" where
  "pg_reject_registration i db =
     pg_change ''reject_registration'' [i]
       (rows_affected (\<lambda>r. p_id r = i) (pending_registrations db) > 0,
        db\<lparr>pending_registrations := delete_rows (\<lambda>r. p_id r = i) (pending_registrations db)\<rparr>) db"

definition pg_cleanup_old_pending_registrations :: "int \<Rightarrow> int \<Rightarrow> sqlite_db \<Rightarrow> nat db_result" where
  "pg_cleanup_old_pending_registrations now max_age db =
     (Inr (rows_affected (\<lambda>r. p_requested_at r < now - max_age) (pending_registrations db)),
      db\<lparr>pending_registrations := delete_rows (\<lambda>r. p_requested_at r < now - max_age) (pending_registrations db)\<rparr>)"

section \<open>Refresh tokens\<close>

definition pg_store_refresh_token :: "int \<Rightarrow> string \<Rightarrow> string \<Rightarrow> string option \<Rightarrow> int \<Rightarrow> sqlite_db \<Rightarrow> unit db_result" where
  "pg_store_refresh_token now jti user dev expires_at db =
     pg_insert ''store_refresh_token'' [jti, user, case dev of None \<Rightarrow> [] | Some d \<Rightarrow> d]
       (insert_token \<lparr>t_jti = jti, t_user_id = user, t_device_id = dev,
          t_expires_at = expires_at, t_revoked = False, t_created_at = now\<rparr> db) db"

text \<open>A token without a row counts as revoked.\<close>

definition pg_revoked :: "pg_server \<Rightarrow> string \<Rightarrow> sqlite_db \<Rightarrow> bool" where
  "pg_revoked srv jti db = (case pg_first srv (\<lambda>r. t_jti r = jti) (refresh_tokens db) of None \<Rightarrow> True | Some r \<Rightarrow> t_revoked r)"

definition pg_is_refresh_token_revoked :: "pg_server \<Rightarrow> string \<Rightarrow> sqlite_db \<Rightarrow> bool result" where
  "pg_is_refresh_token_revoked srv jti db = pg_query ''is_refresh_token_revoked'' [jti] (pg_revoked srv jti db)"

definition revoke_row :: "string \<Rightarrow> sqlite_db \<Rightarrow> sqlite_db" where
  "revoke_row jti db = db\<lparr>refresh_tokens := update_rows (\<lambda>r. t_jti r = jti) (\<lambda>r. r\<lparr>t_revoked := True\<rparr>) (refresh_tokens db)\<rparr>"

definition pg_revoke_refresh_token :: "string \<Rightarrow> sqlite_db \<Rightarrow> unit db_result" where
  "pg_revoke_refresh_token jti db = pg_change ''revoke_refresh_token'' [jti] ((), revoke_row jti db) db"

definition pg_revoke_user_refresh_tokens :: "string \<Rightarrow> sqlite_db \<Rightarrow> unit db_result" where
  "pg_revoke_user_refresh_tokens user db =
     pg_change ''revoke_user_refresh_tokens'' [user]
       ((), db\<lparr>refresh_tokens := update_rows (\<lambda>r. t_user_id r = user \<and> \<not> t_revoked r)
          (\<lambda>r. r\<lparr>t_revoked := True\<rparr>) (refresh_tokens db)\<rparr>) db"

definition pg_rotate_refresh_token ::
  "pg_server \<Rightarrow> int \<Rightarrow> string \<Rightarrow> string \<Rightarrow> string \<Rightarrow> string option \<Rightarrow> int \<Rightarrow> sqlite_db \<Rightarrow> unit db_result" where
  "pg_rotate_refresh_token srv now old_jti new_jti user dev expires_at db =
     (if \<not> clean_texts [old_jti] then (Inl ''db error checking revocation'', db)
      else if pg_revoked srv old_jti db then (Inl ''refresh token already used or revoked'', db)
      else pg_insert ''failed to store new refresh token'' [new_jti, user, case dev of None \<Rightarrow> [] | Some d \<Rightarrow> d]
        (insert_token \<lparr>t_jti = new_jti, t_user_id = user, t_device_id = dev,
           t_expires_at = expires_at, t_revoked = False, t_created_at = now\<rparr> (revoke_row old_jti db)) db)"

definition pg_cleanup_expired_tokens :: "int \<Rightarrow> sqlite_db \<Rightarrow> nat db_result" where
  "pg_cleanup_expired_tokens now db =
     (Inr (rows_affected (\<lambda>r. t_expires_at r < now \<or> t_revoked r) (refresh_tokens db)),
      db\<lparr>refresh_tokens := delete_rows (\<lambda>r. t_expires_at r < now \<or> t_revoked r) (refresh_tokens db)\<rparr>)"

section \<open>Device codes\<close>

definition pg_create_device_code :: "string \<Rightarrow> string \<Rightarrow> int \<Rightarrow> sqlite_db \<Rightarrow> unit db_result" where
  "pg_create_device_code device_code user_code expires_at db =
     pg_insert ''create_device_code'' [device_code, user_code]
       (case insert_row code_clash \<lparr>k_device_code = device_code, k_user_code = user_code, k_expires_at = expires_at,
               k_approved_by = None, k_access_token = None, k_refresh_token = None\<rparr> (device_codes db) of
          Inl e \<Rightarrow> Inl e | Inr rs \<Rightarrow> Inr (db\<lparr>device_codes := rs\<rparr>)) db"

definition pg_get_device_code :: "pg_server \<Rightarrow> string \<Rightarrow> sqlite_db \<Rightarrow> code_row option result" where
  "pg_get_device_code srv device_code db =
     pg_query ''get_device_code'' [device_code] (pg_first srv (\<lambda>r. k_device_code r = device_code) (device_codes db))"

definition pg_get_device_code_by_user_code :: "pg_server \<Rightarrow> string \<Rightarrow> sqlite_db \<Rightarrow> code_row option result" where
  "pg_get_device_code_by_user_code srv user_code db =
     pg_query ''get_device_code_by_user_code'' [user_code] (pg_first srv (\<lambda>r. k_user_code r = user_code) (device_codes db))"

definition pg_approve_device_code :: "string \<Rightarrow> string \<Rightarrow> string \<Rightarrow> string \<Rightarrow> sqlite_db \<Rightarrow> bool db_result" where
  "pg_approve_device_code user_code user access refresh db =
     pg_change ''approve_device_code'' [user, access, refresh, user_code]
       (rows_affected (\<lambda>r. k_user_code r = user_code \<and> k_approved_by r = None) (device_codes db) > 0,
        db\<lparr>device_codes := update_rows (\<lambda>r. k_user_code r = user_code \<and> k_approved_by r = None)
          (\<lambda>r. r\<lparr>k_approved_by := Some user, k_access_token := Some access, k_refresh_token := Some refresh\<rparr>)
          (device_codes db)\<rparr>) db"

definition pg_delete_device_code :: "string \<Rightarrow> sqlite_db \<Rightarrow> unit db_result" where
  "pg_delete_device_code device_code db =
     pg_change ''delete_device_code'' [device_code]
       ((), db\<lparr>device_codes := delete_rows (\<lambda>r. k_device_code r = device_code) (device_codes db)\<rparr>) db"

definition pg_cleanup_expired_device_codes :: "int \<Rightarrow> sqlite_db \<Rightarrow> nat db_result" where
  "pg_cleanup_expired_device_codes now db =
     (Inr (rows_affected (\<lambda>r. k_expires_at r < now) (device_codes db)),
      db\<lparr>device_codes := delete_rows (\<lambda>r. k_expires_at r < now) (device_codes db)\<rparr>)"

section \<open>Server settings\<close>

definition pg_get_server_setting :: "pg_server \<Rightarrow> string \<Rightarrow> sqlite_db \<Rightarrow> string option result" where
  "pg_get_server_setting srv key db =
     pg_query ''get_server_setting'' [key] (map_option s_value (pg_first srv (\<lambda>r. s_key r = key) (server_settings db)))"

definition pg_set_server_setting :: "int \<Rightarrow> string \<Rightarrow> string \<Rightarrow> sqlite_db \<Rightarrow> unit db_result" where
  "pg_set_server_setting now key val db =
     pg_change ''set_server_setting'' [key, val]
       ((), db\<lparr>server_settings :=
          (case insert_row setting_clash \<lparr>s_key = key, s_value = val, s_updated_at = now\<rparr> (server_settings db) of
             Inl _ \<Rightarrow> update_rows (\<lambda>r. s_key r = key) (\<lambda>r. r\<lparr>s_value := val, s_updated_at := now\<rparr>) (server_settings db)
           | Inr rs \<Rightarrow> rs)\<rparr>) db"

definition pg_list_server_settings :: "pg_server \<Rightarrow> sqlite_db \<Rightarrow> (string \<times> string) list result" where
  "pg_list_server_settings srv db =
     Inr (map (\<lambda>r. (s_key r, s_value r)) (sort_key (\<lambda>r. pg_collate srv (s_key r)) (pg_rows srv (server_settings db))))"

definition pg_health_check :: "sqlite_db \<Rightarrow> unit result" where
  "pg_health_check db = Inr ()"

section \<open>Monitor settings\<close>

definition pg_list_monitor_settings :: "pg_server \<Rightarrow> string \<Rightarrow> sqlite_db \<Rightarrow> monitor_setting list result" where
  "pg_list_monitor_settings srv user db =
     pg_query ''list_monitor_settings'' [user]
       (map (\<lambda>r. \<lparr>ms_key = w_key r, ms_value = w_value r, ms_version = w_version r, ms_updated_at = w_updated_at r\<rparr>)
         (sort_key (\<lambda>r. pg_collate srv (w_key r)) (pg_rows srv (monitor_of user db))))"

definition pg_list_monitor_setting_index :: "pg_server \<Rightarrow> string \<Rightarrow> sqlite_db \<Rightarrow> monitor_setting_meta list result" where
  "pg_list_monitor_setting_index srv user db =
     pg_query ''list_monitor_setting_index'' [user]
       (map (\<lambda>r. \<lparr>mm_key = w_key r, mm_version = w_version r, mm_updated_at = w_updated_at r, mm_size_bytes = w_size_bytes r\<rparr>)
         (sort_key (\<lambda>r. pg_collate srv (w_key r)) (pg_rows srv (monitor_of user db))))"

definition pg_monitor_at :: "pg_server \<Rightarrow> string \<Rightarrow> string \<Rightarrow> sqlite_db \<Rightarrow> monitor_row option" where
  "pg_monitor_at srv user key db = pg_first srv (\<lambda>r. w_user_id r = user \<and> w_key r = key) (monitor_settings db)"

definition pg_get_monitor_setting :: "pg_server \<Rightarrow> string \<Rightarrow> string \<Rightarrow> sqlite_db \<Rightarrow> monitor_setting option result" where
  "pg_get_monitor_setting srv user key db =
     pg_query ''get_monitor_setting'' [user, key]
       (map_option (\<lambda>r. \<lparr>ms_key = key, ms_value = w_value r, ms_version = w_version r, ms_updated_at = w_updated_at r\<rparr>)
         (pg_monitor_at srv user key db))"

text \<open>Entries and bytes, as one statement counts them.\<close>

definition pg_usage :: "string \<Rightarrow> sqlite_db \<Rightarrow> int \<times> int" where
  "pg_usage user db = (int (length (monitor_of user db)), sum_list (map w_size_bytes (monitor_of user db)))"

definition pg_monitor_settings_usage :: "string \<Rightarrow> sqlite_db \<Rightarrow> monitor_usage result" where
  "pg_monitor_settings_usage user db =
     pg_query ''monitor_settings_usage'' [user] \<lparr>mu_entries = fst (pg_usage user db), mu_total_bytes = snd (pg_usage user db)\<rparr>"

text \<open>The statements of an upsert after the lock: the comparison, the quota and the write.\<close>

definition cas_refused :: "int option \<Rightarrow> monitor_row option \<Rightarrow> monitor_write_outcome option" where
  "cas_refused if_version current =
     (case if_version of
        None \<Rightarrow> None
      | Some expected \<Rightarrow>
          if (case current of None \<Rightarrow> 0 | Some r \<Rightarrow> w_version r) \<noteq> expected
          then Some (Write_Version_Mismatch (map_option w_version current) (map_option w_updated_at current))
          else None)"

definition quota_refused :: "monitor_quota \<Rightarrow> int \<Rightarrow> monitor_row option \<Rightarrow> int \<times> int \<Rightarrow> monitor_write_outcome option" where
  "quota_refused quota bytes current usage =
     (let existing_size = (case current of None \<Rightarrow> 0 | Some r \<Rightarrow> w_size_bytes r);
          new_count = (if current \<noteq> None then fst usage else fst usage + 1);
          new_total = snd usage - existing_size + bytes
      in if new_count > q_max_entries quota then Some (Quota_Exceeded ''entries'' new_count (q_max_entries quota))
         else if new_total > q_max_total_bytes quota then Some (Quota_Exceeded ''bytes'' new_total (q_max_total_bytes quota))
         else None)"

text \<open>\<open>INSERT ... ON CONFLICT DO UPDATE ... RETURNING version\<close>: the new version counts from the stored row.\<close>

definition pg_monitor_write :: "int \<Rightarrow> string \<Rightarrow> string \<Rightarrow> string \<Rightarrow> sqlite_db \<Rightarrow> sql_error + int \<times> sqlite_db" where
  "pg_monitor_write now user key val db =
     (let size = int (length val)
      in case insert_row monitor_clash \<lparr>w_user_id = user, w_key = key, w_value = val, w_size_bytes = size,
                w_version = 1, w_updated_at = now\<rparr> (monitor_settings db) of
           Inr rs \<Rightarrow> if has_user db user then Inr (1, db\<lparr>monitor_settings := rs\<rparr>) else Inl Foreign_Key_Failed
         | Inl _ \<Rightarrow>
             Inr ((case monitor_row_at user key db of None \<Rightarrow> 0 | Some r \<Rightarrow> w_version r) + 1,
                  db\<lparr>monitor_settings := update_rows (\<lambda>r. w_user_id r = user \<and> w_key r = key)
                    (\<lambda>r. r\<lparr>w_value := val, w_size_bytes := size, w_version := w_version r + 1, w_updated_at := now\<rparr>)
                    (monitor_settings db)\<rparr>))"

definition pg_upsert_monitor_setting ::
  "pg_server \<Rightarrow> int \<Rightarrow> string \<Rightarrow> string \<Rightarrow> string \<Rightarrow> int option \<Rightarrow> monitor_quota \<Rightarrow> sqlite_db \<Rightarrow> monitor_write_outcome db_result" where
  "pg_upsert_monitor_setting srv now user key val if_version quota db =
     (let current = pg_monitor_at srv user key db
      in if \<not> clean_texts [user] then (Inl ''upsert_monitor_setting: lock user'', db)
         else if \<not> clean_texts [key] then (Inl ''upsert_monitor_setting: read current'', db)
         else (case cas_refused if_version current of
             Some refused \<Rightarrow> (Inr refused, db)
           | None \<Rightarrow>
               (case quota_refused quota (int (length val)) current (pg_usage user db) of
                  Some refused \<Rightarrow> (Inr refused, db)
                | None \<Rightarrow>
                    if \<not> clean_texts [val] then (Inl ''upsert_monitor_setting: write'', db)
                    else (case pg_monitor_write now user key val db of
                        Inl _ \<Rightarrow> (Inl ''upsert_monitor_setting: write'', db)
                      | Inr (version, db') \<Rightarrow> (Inr (Written version now (map_option w_version current)), db')))))"

definition monitor_hit :: "string \<Rightarrow> string \<Rightarrow> int option \<Rightarrow> monitor_row \<Rightarrow> bool" where
  "monitor_hit user key if_version r \<longleftrightarrow> w_user_id r = user \<and> w_key r = key \<and>
     (case if_version of None \<Rightarrow> True | Some expected \<Rightarrow> w_version r = expected)"

definition pg_monitor_drop :: "string \<Rightarrow> string \<Rightarrow> int option \<Rightarrow> sqlite_db \<Rightarrow> nat \<times> sqlite_db" where
  "pg_monitor_drop user key if_version db =
     (rows_affected (monitor_hit user key if_version) (monitor_settings db),
      db\<lparr>monitor_settings := delete_rows (monitor_hit user key if_version) (monitor_settings db)\<rparr>)"

definition delete_outcome :: "nat \<Rightarrow> int option \<Rightarrow> monitor_row option \<Rightarrow> monitor_delete_outcome" where
  "delete_outcome affected if_version current =
     (if affected > 0 then Deleted
      else (case current of
              Some r \<Rightarrow> if if_version \<noteq> None then Delete_Version_Mismatch (w_version r) (w_updated_at r) else Not_Found
            | None \<Rightarrow> Not_Found))"

definition pg_delete_monitor_setting ::
  "pg_server \<Rightarrow> string \<Rightarrow> string \<Rightarrow> int option \<Rightarrow> sqlite_db \<Rightarrow> monitor_delete_outcome db_result" where
  "pg_delete_monitor_setting srv user key if_version db =
     (if \<not> clean_texts [user] then (Inl ''delete_monitor_setting: lock user'', db)
      else if \<not> clean_texts [key] then (Inl ''delete_monitor_setting'', db)
      else (case pg_monitor_drop user key if_version db of
              (affected, db') \<Rightarrow> (Inr (delete_outcome affected if_version (pg_monitor_at srv user key db')), db')))"

end
