(* ===== verification/Pg_Refinement.thy ===== *)
theory Pg_Refinement
  imports Postgres Guarantees
begin

text \<open>
  Both repositories keep the contract of the trait \<open>DatabaseRepo\<close>: \<open>db_call\<close> and \<open>db_ask\<close> say what an
  operation or a query answers, the locale \<open>repository\<close> is what a client may rely on, and the SQLite
  model and the PostgreSQL model, on any server that satisfies \<open>pg_ok\<close>, are instances of it.
\<close>

section \<open>The operations with their answers\<close>

datatype outcome =
    O_Unit
  | O_Bool bool
  | O_Count nat
  | O_Write monitor_write_outcome
  | O_Delete monitor_delete_outcome

definition answering :: "('a \<Rightarrow> outcome) \<Rightarrow> 'a db_result \<Rightarrow> outcome db_result" where
  "answering f r = (case fst r of Inl e \<Rightarrow> Inl e | Inr x \<Rightarrow> Inr (f x), snd r)"

abbreviation "unit_of \<equiv> answering (\<lambda>_. O_Unit)"
abbreviation "bool_of \<equiv> answering O_Bool"
abbreviation "count_of \<equiv> answering O_Count"

fun db_call :: "int \<Rightarrow> db_op \<Rightarrow> sqlite_db \<Rightarrow> outcome db_result" where
  "db_call now (Seed_Admin i h) db = unit_of (seed_admin now i h db)"
| "db_call now (Create_User u) db = unit_of (create_user now u db)"
| "db_call now (Delete_User i) db = bool_of (delete_user i db)"
| "db_call now (Update_Password u h) db = unit_of (update_password now u h db)"
| "db_call now (Update_User_Role u r) db = bool_of (update_user_role now u r db)"
| "db_call now (Set_User_Active u a) db = bool_of (set_user_active now u a db)"
| "db_call now (Create_Oidc_User u) db = unit_of (create_oidc_user now u db)"
| "db_call now (Create_Device i u n k) db = unit_of (create_device now i u n k db)"
| "db_call now (Update_Device_Seen i n) db = unit_of (update_device_seen now i n db)"
| "db_call now (Delete_Device i) db = bool_of (delete_device i db)"
| "db_call now (Delete_User_Device i u) db = bool_of (delete_user_device i u db)"
| "db_call now (Rename_Device i u n) db = bool_of (rename_device i u n db)"
| "db_call now (Ensure_Cursor d p) db = unit_of (ensure_cursor now d p db)"
| "db_call now (Advance_Cursor d p ts) db = unit_of (advance_cursor now d p ts db)"
| "db_call now (Reset_Cursor d p) db = unit_of (reset_cursor now d p db)"
| "db_call now (Create_Team i n) db = unit_of (create_team now i n db)"
| "db_call now (Delete_Team i) db = bool_of (delete_team i db)"
| "db_call now (Add_Team_Member g u r) db = unit_of (add_team_member now g u r db)"
| "db_call now (Remove_Team_Member g u) db = bool_of (remove_team_member g u db)"
| "db_call now (Create_Pending i u h) db = unit_of (create_pending_registration now i u h db)"
| "db_call now (Approve_Registration uuid i) db = bool_of (approve_registration now uuid i db)"
| "db_call now (Reject_Registration i) db = bool_of (reject_registration i db)"
| "db_call now (Cleanup_Pending age) db = count_of (cleanup_old_pending_registrations now age db)"
| "db_call now (Store_Token j u d e) db = unit_of (store_refresh_token now j u d e db)"
| "db_call now (Revoke_Token j) db = unit_of (revoke_refresh_token j db)"
| "db_call now (Revoke_User_Tokens u) db = unit_of (revoke_user_refresh_tokens u db)"
| "db_call now (Rotate_Token j j' u d e) db = unit_of (rotate_refresh_token now j j' u d e db)"
| "db_call now Cleanup_Tokens db = count_of (cleanup_expired_tokens now db)"
| "db_call now (Create_Code d u e) db = unit_of (create_device_code d u e db)"
| "db_call now (Approve_Code c u a r) db = bool_of (approve_device_code c u a r db)"
| "db_call now (Delete_Code d) db = unit_of (delete_device_code d db)"
| "db_call now Cleanup_Codes db = count_of (cleanup_expired_device_codes now db)"
| "db_call now (Set_Server_Setting k v) db = unit_of (set_server_setting now k v db)"
| "db_call now (Upsert_Monitor u k v e q) db = answering O_Write (upsert_monitor_setting now u k v e q db)"
| "db_call now (Delete_Monitor u k e) db = answering O_Delete (delete_monitor_setting u k e db)"

fun pg_call :: "pg_server \<Rightarrow> int \<Rightarrow> db_op \<Rightarrow> sqlite_db \<Rightarrow> outcome db_result" where
  "pg_call srv now (Seed_Admin i h) db = unit_of (pg_seed_admin now i h db)"
| "pg_call srv now (Create_User u) db = unit_of (pg_create_user now u db)"
| "pg_call srv now (Delete_User i) db = bool_of (pg_delete_user i db)"
| "pg_call srv now (Update_Password u h) db = unit_of (pg_update_password now u h db)"
| "pg_call srv now (Update_User_Role u r) db = bool_of (pg_update_user_role now u r db)"
| "pg_call srv now (Set_User_Active u a) db = bool_of (pg_set_user_active now u a db)"
| "pg_call srv now (Create_Oidc_User u) db = unit_of (pg_create_oidc_user now u db)"
| "pg_call srv now (Create_Device i u n k) db = unit_of (pg_create_device now i u n k db)"
| "pg_call srv now (Update_Device_Seen i n) db = unit_of (pg_update_device_seen now i n db)"
| "pg_call srv now (Delete_Device i) db = bool_of (pg_delete_device i db)"
| "pg_call srv now (Delete_User_Device i u) db = bool_of (pg_delete_user_device i u db)"
| "pg_call srv now (Rename_Device i u n) db = bool_of (pg_rename_device i u n db)"
| "pg_call srv now (Ensure_Cursor d p) db = unit_of (pg_ensure_cursor now d p db)"
| "pg_call srv now (Advance_Cursor d p ts) db = unit_of (pg_advance_cursor now d p ts db)"
| "pg_call srv now (Reset_Cursor d p) db = unit_of (pg_reset_cursor now d p db)"
| "pg_call srv now (Create_Team i n) db = unit_of (pg_create_team now i n db)"
| "pg_call srv now (Delete_Team i) db = bool_of (pg_delete_team i db)"
| "pg_call srv now (Add_Team_Member g u r) db = unit_of (pg_add_team_member now g u r db)"
| "pg_call srv now (Remove_Team_Member g u) db = bool_of (pg_remove_team_member g u db)"
| "pg_call srv now (Create_Pending i u h) db = unit_of (pg_create_pending_registration now i u h db)"
| "pg_call srv now (Approve_Registration uuid i) db = bool_of (pg_approve_registration srv now uuid i db)"
| "pg_call srv now (Reject_Registration i) db = bool_of (pg_reject_registration i db)"
| "pg_call srv now (Cleanup_Pending age) db = count_of (pg_cleanup_old_pending_registrations now age db)"
| "pg_call srv now (Store_Token j u d e) db = unit_of (pg_store_refresh_token now j u d e db)"
| "pg_call srv now (Revoke_Token j) db = unit_of (pg_revoke_refresh_token j db)"
| "pg_call srv now (Revoke_User_Tokens u) db = unit_of (pg_revoke_user_refresh_tokens u db)"
| "pg_call srv now (Rotate_Token j j' u d e) db = unit_of (pg_rotate_refresh_token srv now j j' u d e db)"
| "pg_call srv now Cleanup_Tokens db = count_of (pg_cleanup_expired_tokens now db)"
| "pg_call srv now (Create_Code d u e) db = unit_of (pg_create_device_code d u e db)"
| "pg_call srv now (Approve_Code c u a r) db = bool_of (pg_approve_device_code c u a r db)"
| "pg_call srv now (Delete_Code d) db = unit_of (pg_delete_device_code d db)"
| "pg_call srv now Cleanup_Codes db = count_of (pg_cleanup_expired_device_codes now db)"
| "pg_call srv now (Set_Server_Setting k v) db = unit_of (pg_set_server_setting now k v db)"
| "pg_call srv now (Upsert_Monitor u k v e q) db = answering O_Write (pg_upsert_monitor_setting srv now u k v e q db)"
| "pg_call srv now (Delete_Monitor u k e) db = answering O_Delete (pg_delete_monitor_setting srv u k e db)"

lemma db_call_exec: "snd (db_call now op db) = db_exec now op db"
  by (cases op) (simp_all add: answering_def)

text \<open>The texts an operation binds.\<close>

fun op_texts :: "db_op \<Rightarrow> string list" where
  "op_texts (Seed_Admin i h) = [i, h]"
| "op_texts (Create_User u) = [nu_id u, nu_username u, nu_password_hash u, nu_role u]"
| "op_texts (Delete_User i) = [i]"
| "op_texts (Update_Password u h) = [u, h]"
| "op_texts (Update_User_Role u r) = [u, r]"
| "op_texts (Set_User_Active u a) = [u]"
| "op_texts (Create_Oidc_User u) = [no_id u, no_username u, no_role u, no_oidc_sub u, no_oidc_issuer u]"
| "op_texts (Create_Device i u n k) = [i, u, n, k]"
| "op_texts (Update_Device_Seen i n) = [i, n]"
| "op_texts (Delete_Device i) = [i]"
| "op_texts (Delete_User_Device i u) = [i, u]"
| "op_texts (Rename_Device i u n) = [i, u, n]"
| "op_texts (Ensure_Cursor d p) = [d, p]"
| "op_texts (Advance_Cursor d p ts) = [d, p]"
| "op_texts (Reset_Cursor d p) = [d, p]"
| "op_texts (Create_Team i n) = [i, n]"
| "op_texts (Delete_Team i) = [i]"
| "op_texts (Add_Team_Member g u r) = [g, u, r]"
| "op_texts (Remove_Team_Member g u) = [g, u]"
| "op_texts (Create_Pending i u h) = [i, u, h]"
| "op_texts (Approve_Registration uuid i) = [uuid, i]"
| "op_texts (Reject_Registration i) = [i]"
| "op_texts (Store_Token j u d e) = [j, u, case d of None \<Rightarrow> [] | Some d \<Rightarrow> d]"
| "op_texts (Revoke_Token j) = [j]"
| "op_texts (Revoke_User_Tokens u) = [u]"
| "op_texts (Rotate_Token j j' u d e) = [j, j', u, case d of None \<Rightarrow> [] | Some d \<Rightarrow> d]"
| "op_texts (Create_Code d u e) = [d, u]"
| "op_texts (Approve_Code c u a r) = [c, u, a, r]"
| "op_texts (Delete_Code d) = [d]"
| "op_texts (Set_Server_Setting k v) = [k, v]"
| "op_texts (Upsert_Monitor u k v e q) = [u, k, v]"
| "op_texts (Delete_Monitor u k e) = [u, k]"
| "op_texts _ = []"

section \<open>Rows in any order\<close>

lemma mset_pg_rows [simp]: "pg_ok srv \<Longrightarrow> mset (pg_rows srv rs) = mset rs"
  by (metis pg_ok_def pg_rows_def mset_map map_nth)

lemma pg_first_unique:
  assumes "pg_ok srv" "\<And>r r'. r \<in> set rs \<Longrightarrow> r' \<in> set rs \<Longrightarrow> p r \<Longrightarrow> p r' \<Longrightarrow> r = r'"
  shows "pg_first srv p rs = find p rs"
proof -
  have same: "set (pg_rows srv rs) = set rs" using assms(1) by (metis mset_pg_rows set_mset_mset)
  show ?thesis
  proof (cases "find p rs")
    case None
    then show ?thesis using same by (metis find_None_iff pg_first_def)
  next
    case (Some r)
    then obtain r' where r': "find p (pg_rows srv rs) = Some r'"
      using same by (cases "find p (pg_rows srv rs)") (auto simp: find_None_iff dest: find_Some_iff_unique)
    then have "r' = r" using Some same assms(2) by (blast dest: find_Some_iff_unique)
    with Some r' show ?thesis by (simp add: pg_first_def)
  qed
qed

lemma pg_first_keyed:
  assumes "pg_ok srv" "distinct (map key rs)" "\<And>r r'. p r \<Longrightarrow> p r' \<Longrightarrow> key r = key r'"
  shows "pg_first srv p rs = find p rs"
  using assms(1)
proof (rule pg_first_unique)
  show "r = r'" if "r \<in> set rs" "r' \<in> set rs" "p r" "p r'" for r r'
    using that assms(2,3) by (auto simp: distinct_map dest: inj_onD)
qed

text \<open>An \<open>OIDC\<close> identity belongs to one account; the other keys are part of \<open>db_ok\<close>.\<close>

definition oidc_of :: "user_row \<Rightarrow> (string \<times> string) option" where
  "oidc_of r = (case (u_oidc_issuer r, u_oidc_sub r) of (Some i, Some s) \<Rightarrow> Some (i, s) | _ \<Rightarrow> None)"

definition oidc_unique :: "sqlite_db \<Rightarrow> bool" where
  "oidc_unique db \<longleftrightarrow> distinct_key oidc_of (users db)"

definition db_sound :: "sqlite_db \<Rightarrow> bool" where
  "db_sound db \<longleftrightarrow> db_ok db \<and> oidc_unique db"

lemma oidc_insert: "oidc_unique db \<Longrightarrow> insert_user r db = Inr db' \<Longrightarrow> oidc_unique db'"
  unfolding oidc_unique_def insert_user_def
  by (rule distinct_key_insert [of _ "users db" user_clash r]) (auto simp: oidc_of_def key_clash_def user_clash_def split: sum.splits option.splits)

lemma oidc_update: "oidc_unique db \<Longrightarrow> (\<And>r. u_oidc_issuer (f r) = u_oidc_issuer r \<and> u_oidc_sub (f r) = u_oidc_sub r) \<Longrightarrow>
    oidc_unique (db\<lparr>users := update_rows p f (users db)\<rparr>)"
  unfolding oidc_unique_def by (auto simp: oidc_of_def intro!: distinct_key_update)

lemma oidc_delete: "oidc_unique db \<Longrightarrow> oidc_unique (snd (delete_user u db))"
  by (simp add: oidc_unique_def delete_user_def delete_users_def delete_devices_def Let_def distinct_key_delete)

lemma oidc_same: "oidc_unique db \<Longrightarrow> users db' = users db \<Longrightarrow> oidc_unique db'"
  by (simp add: oidc_unique_def)

lemma insert_users_same:
  "insert_device d db = Inr db' \<Longrightarrow> users db' = users db"
  "insert_member m db = Inr db' \<Longrightarrow> users db' = users db"
  "insert_token t db = Inr db' \<Longrightarrow> users db' = users db"
  by (auto simp: insert_device_def insert_member_def insert_token_def split: sum.splits if_splits)

lemma with_context_keeps: "P db \<Longrightarrow> (\<And>db'. r = Inr db' \<Longrightarrow> P db') \<Longrightarrow> P (snd (with_context c r db))"
  by (cases r) (auto simp: with_context_def)

fun writes_users :: "db_op \<Rightarrow> bool" where
  "writes_users (Seed_Admin _ _) = True"
| "writes_users (Create_User _) = True"
| "writes_users (Delete_User _) = True"
| "writes_users (Update_Password _ _) = True"
| "writes_users (Update_User_Role _ _) = True"
| "writes_users (Set_User_Active _ _) = True"
| "writes_users (Create_Oidc_User _) = True"
| "writes_users (Approve_Registration _ _) = True"
| "writes_users _ = False"

lemma user_rows_untouched: "\<not> writes_users op \<Longrightarrow> users (db_exec now op db) = users db"
  by (cases op) (auto simp: op_defs delete_devices_def delete_teams_def Let_def
      intro!: with_context_sel [where f = users] dest: insert_users_same split: option.splits sum.splits)

lemma approve_oidc:
  assumes "oidc_unique db"
  shows "oidc_unique (snd (approve_registration now uuid i db))"
proof -
  have "oidc_unique (db'\<lparr>pending_registrations := rs\<rparr>)" if "insert_user r db = Inr db'" for r db' rs
    using oidc_insert [OF assms that] by (simp add: oidc_unique_def)
  with assms show ?thesis by (auto simp: approve_registration_def split: option.splits sum.splits)
qed

lemma db_exec_oidc:
  assumes "oidc_unique db"
  shows "oidc_unique (db_exec now op db)"
proof (cases "writes_users op")
  case True
  then show ?thesis using assms
    by (cases op) (auto simp: seed_admin_def create_user_def update_password_def update_user_role_def set_user_active_def
        create_oidc_user_def upsert_target_matches_def Let_def approve_oidc oidc_delete
        intro!: with_context_keeps [where P = oidc_unique] oidc_update dest: oidc_insert split: sum.splits)
next
  case False
  then show ?thesis using oidc_same [OF assms user_rows_untouched] by blast
qed

lemma db_exec_sound: "db_sound db \<Longrightarrow> db_sound (db_exec now op db)"
  by (simp add: db_sound_def db_exec_ok db_exec_oidc)

section \<open>The operations agree\<close>

lemma clean_texts_simps [simp]:
  "clean_texts []" "clean_texts (s # ss) \<longleftrightarrow> nul \<notin> set s \<and> clean_texts ss"
  by (simp_all add: clean_texts_def)

lemma duplicate_or_not [simp]:
  "pg_duplicate (pg_display Unique_Failed)" "\<not> pg_duplicate (pg_display Foreign_Key_Failed)"
  "contains (sql_display Unique_Failed) ''UNIQUE''"
  by (simp_all add: pg_duplicate_def pg_display_def sql_display_def contains_def) (simp_all add: sublist_code)

lemma insert_row_error: "insert_row clash r rs = Inl e \<Longrightarrow> e = Unique_Failed"
  by (auto simp: insert_row_def split: if_splits)

lemma insert_user_error: "insert_user r db = Inl e \<Longrightarrow> e = Unique_Failed"
  by (auto simp: insert_user_def dest: insert_row_error split: sum.splits)

lemma firsts_by_key:
  assumes "pg_ok srv" "db_ok db"
  shows "pg_first srv (\<lambda>r. p_id r = i) (pending_registrations db) = find (\<lambda>r. p_id r = i) (pending_registrations db)"
    and "pg_first srv (\<lambda>r. t_jti r = j) (refresh_tokens db) = find (\<lambda>r. t_jti r = j) (refresh_tokens db)"
    and "pg_monitor_at srv u k db = monitor_row_at u k db"
    and "pg_first srv (\<lambda>r. u_id r = i) (users db) = find (\<lambda>r. u_id r = i) (users db)"
    and "pg_first srv (\<lambda>r. u_username r = i) (users db) = find (\<lambda>r. u_username r = i) (users db)"
    and "pg_first srv (\<lambda>r. c_device_id r = d \<and> c_provider r = p) (cursors db) = find (\<lambda>r. c_device_id r = d \<and> c_provider r = p) (cursors db)"
    and "pg_first srv (\<lambda>r. g_id r = i) (teams db) = find (\<lambda>r. g_id r = i) (teams db)"
    and "pg_first srv (\<lambda>m. m_team_id m = i \<and> m_user_id m = u) (team_members db) = find (\<lambda>m. m_team_id m = i \<and> m_user_id m = u) (team_members db)"
    and "pg_first srv (\<lambda>r. k_device_code r = i) (device_codes db) = find (\<lambda>r. k_device_code r = i) (device_codes db)"
    and "pg_first srv (\<lambda>r. k_user_code r = i) (device_codes db) = find (\<lambda>r. k_user_code r = i) (device_codes db)"
    and "pg_first srv (\<lambda>r. s_key r = k) (server_settings db) = find (\<lambda>r. s_key r = k) (server_settings db)"
proof -
  note key = pg_first_keyed [OF assms(1)]
  have "distinct (map u_id (users db))" "distinct (map u_username (users db))" "distinct (map p_id (pending_registrations db))"
    "distinct (map t_jti (refresh_tokens db))" "distinct (map (\<lambda>r. (w_user_id r, w_key r)) (monitor_settings db))"
    "distinct (map (\<lambda>r. (c_device_id r, c_provider r)) (cursors db))" "distinct (map g_id (teams db))"
    "distinct (map (\<lambda>r. (m_team_id r, m_user_id r)) (team_members db))" "distinct (map k_device_code (device_codes db))"
    "distinct (map k_user_code (device_codes db))" "distinct (map s_key (server_settings db))"
    using assms(2) by (simp_all add: db_ok_def db_ok_defs)
  note keys = this [THEN key]
  show "pg_first srv (\<lambda>r. p_id r = i) (pending_registrations db) = find (\<lambda>r. p_id r = i) (pending_registrations db)"
    by (rule keys) simp
  show "pg_first srv (\<lambda>r. t_jti r = j) (refresh_tokens db) = find (\<lambda>r. t_jti r = j) (refresh_tokens db)" by (rule keys) simp
  show "pg_monitor_at srv u k db = monitor_row_at u k db" unfolding pg_monitor_at_def monitor_row_at_def by (rule keys) simp
  show "pg_first srv (\<lambda>r. u_id r = i) (users db) = find (\<lambda>r. u_id r = i) (users db)" by (rule keys(1)) simp
  show "pg_first srv (\<lambda>r. u_username r = i) (users db) = find (\<lambda>r. u_username r = i) (users db)" by (rule keys(2)) simp
  show "pg_first srv (\<lambda>r. c_device_id r = d \<and> c_provider r = p) (cursors db) = find (\<lambda>r. c_device_id r = d \<and> c_provider r = p) (cursors db)"
    by (rule keys) simp
  show "pg_first srv (\<lambda>r. g_id r = i) (teams db) = find (\<lambda>r. g_id r = i) (teams db)" by (rule keys) simp
  show "pg_first srv (\<lambda>m. m_team_id m = i \<and> m_user_id m = u) (team_members db) = find (\<lambda>m. m_team_id m = i \<and> m_user_id m = u) (team_members db)"
    by (rule keys) simp
  show "pg_first srv (\<lambda>r. k_device_code r = i) (device_codes db) = find (\<lambda>r. k_device_code r = i) (device_codes db)"
    by (rule keys(9)) simp
  show "pg_first srv (\<lambda>r. k_user_code r = i) (device_codes db) = find (\<lambda>r. k_user_code r = i) (device_codes db)"
    by (rule keys(10)) simp
  show "pg_first srv (\<lambda>r. s_key r = k) (server_settings db) = find (\<lambda>r. s_key r = k) (server_settings db)" by (rule keys) simp
qed

lemma revoked_same: "pg_ok srv \<Longrightarrow> db_ok db \<Longrightarrow> pg_revoked srv j db =
    (case find (\<lambda>r. t_jti r = j) (refresh_tokens db) of None \<Rightarrow> True | Some r \<Rightarrow> t_revoked r)"
  by (simp add: pg_revoked_def firsts_by_key)

lemma create_user_same:
  "clean_texts (op_texts (Create_User u)) \<Longrightarrow> pg_create_user now u db = create_user now u db"
  by (auto simp: pg_create_user_def create_user_def Let_def dest: insert_user_error split: sum.splits)

lemma create_pending_same:
  "clean_texts [i, u, h] \<Longrightarrow> pg_create_pending_registration now i u h db = create_pending_registration now i u h db"
  by (auto simp: pg_create_pending_registration_def create_pending_registration_def Let_def dest: insert_row_error split: sum.splits)

lemma approve_same:
  assumes "pg_ok srv" "db_ok db" "clean_texts [uuid, i]"
  shows "pg_approve_registration srv now uuid i db = approve_registration now uuid i db"
  using assms
  by (auto simp: pg_approve_registration_def approve_registration_def firsts_by_key pg_insert_def with_context_def
      split: option.splits sum.splits)

lemma rotate_same:
  assumes "pg_ok srv" "db_ok db" "clean_texts (op_texts (Rotate_Token j j' u d e))"
  shows "pg_rotate_refresh_token srv now j j' u d e db = rotate_refresh_token now j j' u d e db"
  using assms
  by (simp add: pg_rotate_refresh_token_def rotate_refresh_token_def revoked_same pg_insert_def revoke_row_def)

lemma monitor_clash_at:
  assumes "db_ok db"
  shows "insert_row monitor_clash \<lparr>w_user_id = u, w_key = k, w_value = v, w_size_bytes = n, w_version = m, w_updated_at = t\<rparr>
      (monitor_settings db) =
    (case monitor_row_at u k db of
       None \<Rightarrow> Inr (monitor_settings db @ [\<lparr>w_user_id = u, w_key = k, w_value = v, w_size_bytes = n, w_version = m, w_updated_at = t\<rparr>])
     | Some r \<Rightarrow> Inl Unique_Failed)"
  by (auto simp: insert_row_def monitor_clash_def no_monitor dest: find_monitor split: option.split)

lemma upsert_monitor_same:
  assumes "pg_ok srv" "db_ok db" "clean_texts [u, k, v]"
  shows "pg_upsert_monitor_setting srv now u k v e q db = upsert_monitor_setting now u k v e q db"
proof (cases "monitor_row_at u k db")
  case None
  with assms show ?thesis
    by (auto simp: pg_upsert_monitor_setting_def upsert_monitor_setting_def firsts_by_key Let_def cas_refused_def quota_refused_def
        pg_usage_def pg_monitor_write_def monitor_clash_at split: option.splits)
next
  case (Some r)
  with assms show ?thesis
    by (auto simp: pg_upsert_monitor_setting_def upsert_monitor_setting_def firsts_by_key Let_def cas_refused_def quota_refused_def
        pg_usage_def pg_monitor_write_def monitor_clash_at split: option.splits)
qed

lemma delete_monitor_same:
  assumes "pg_ok srv" "db_ok db" "clean_texts [u, k]"
  shows "pg_delete_monitor_setting srv u k e db = delete_monitor_setting u k e db"
proof -
  have "db_ok (snd (pg_monitor_drop u k e db))"
    using assms(2) unfolding pg_monitor_drop_def snd_conv
    by (intro db_ok_set_monitor) (auto simp: db_ok_def monitor_ok_def)
  then have "pg_monitor_at srv u k (snd (pg_monitor_drop u k e db)) = monitor_row_at u k (snd (pg_monitor_drop u k e db))"
    using assms(1) by (rule firsts_by_key(3) [rotated])
  moreover have "monitor_hit u k e = (\<lambda>r. w_user_id r = u \<and> w_key r = k \<and> (case e of None \<Rightarrow> True | Some x \<Rightarrow> w_version r = x))"
    by (simp add: monitor_hit_def fun_eq_iff)
  ultimately show ?thesis
    using assms(3) by (auto simp: pg_delete_monitor_setting_def delete_monitor_setting_def pg_monitor_drop_def delete_outcome_def Let_def
        split: option.splits)
qed

lemmas pg_defs = pg_seed_admin_def pg_delete_user_def pg_update_password_def pg_update_user_role_def pg_set_user_active_def
  pg_create_oidc_user_def pg_create_device_def pg_update_device_seen_def pg_delete_device_def pg_delete_user_device_def
  pg_rename_device_def pg_ensure_cursor_def pg_advance_cursor_def pg_reset_cursor_def pg_create_team_def pg_delete_team_def
  pg_add_team_member_def pg_remove_team_member_def pg_reject_registration_def pg_cleanup_old_pending_registrations_def
  pg_store_refresh_token_def pg_revoke_refresh_token_def pg_revoke_user_refresh_tokens_def pg_cleanup_expired_tokens_def
  pg_create_device_code_def pg_approve_device_code_def pg_delete_device_code_def pg_cleanup_expired_device_codes_def
  pg_set_server_setting_def pg_change_def pg_insert_def revoke_row_def

lemma pg_call_same:
  assumes "pg_ok srv" "db_ok db" "clean_texts (op_texts op)"
  shows "pg_call srv now op db = db_call now op db"
proof (cases op)
  case (Ensure_Cursor d p)
  with assms(3) show ?thesis
    by (auto simp: pg_defs ensure_cursor_def with_context_def split: sum.splits)
next
  case (Create_User u)
  with assms(3) show ?thesis using create_user_same by auto
next
  case (Create_Pending i u h)
  with assms(3) show ?thesis using create_pending_same by auto
next
  case (Approve_Registration uuid i)
  with assms show ?thesis using approve_same by auto
next
  case (Rotate_Token j j' u d e)
  with assms show ?thesis using rotate_same by auto
next
  case (Upsert_Monitor u k v e q)
  with assms show ?thesis using upsert_monitor_same by auto
next
  case (Delete_Monitor u k e)
  with assms show ?thesis using delete_monitor_same by auto
qed (use assms(3) in \<open>auto simp: pg_defs op_defs Let_def\<close>)

lemma pg_call_sound_same:
  "pg_ok srv \<Longrightarrow> db_sound db \<Longrightarrow> clean_texts (op_texts op) \<Longrightarrow> pg_call srv now op db = db_call now op db"
  by (simp add: db_sound_def pg_call_same)

section \<open>The queries\<close>

datatype db_query =
    Q_User_By_Name string
  | Q_User_By_Id string
  | Q_Users
  | Q_Is_Admin string
  | Q_Other_Admins string
  | Q_User_By_Oidc string string
  | Q_Device_By_Key string string
  | Q_User_Devices string
  | Q_All_Devices
  | Q_Owns_Device string string
  | Q_Device_Ids string
  | Q_Last_Ts string string
  | Q_Team string
  | Q_Teams
  | Q_Team_Counts
  | Q_User_Teams string
  | Q_Team_Members string
  | Q_Member_Role string string
  | Q_Pending
  | Q_Revoked string
  | Q_Code string
  | Q_Code_By_User_Code string
  | Q_Setting string
  | Q_Settings
  | Q_Health
  | Q_Monitor_All string
  | Q_Monitor_Index string
  | Q_Monitor string string
  | Q_Monitor_Usage string

datatype answer =
    A_User "user_row option"
  | A_Users "user_summary list"
  | A_Bool bool
  | A_Count nat
  | A_Text "string option"
  | A_Devices "device_summary list"
  | A_All_Devices "device_admin_summary list"
  | A_Ids "string list"
  | A_Int int
  | A_Team "team_row option"
  | A_Teams "team_row list"
  | A_Team_Counts "team_with_count list"
  | A_Memberships "team_membership list"
  | A_Members "team_member_summary list"
  | A_Pending "pending_registration list"
  | A_Code "code_row option"
  | A_Settings "(string \<times> string) list"
  | A_Ok
  | A_Monitor_All "monitor_setting list"
  | A_Monitor_Index "monitor_setting_meta list"
  | A_Monitor "monitor_setting option"
  | A_Usage monitor_usage

definition answered :: "('a \<Rightarrow> answer) \<Rightarrow> 'a result \<Rightarrow> answer result" where
  "answered f r = (case r of Inl e \<Rightarrow> Inl e | Inr x \<Rightarrow> Inr (f x))"

fun db_ask :: "db_query \<Rightarrow> sqlite_db \<Rightarrow> answer result" where
  "db_ask (Q_User_By_Name n) db = answered A_User (get_user_by_username n db)"
| "db_ask (Q_User_By_Id i) db = answered A_User (get_user_by_id i db)"
| "db_ask Q_Users db = answered A_Users (list_users db)"
| "db_ask (Q_Is_Admin u) db = answered A_Bool (user_is_admin u db)"
| "db_ask (Q_Other_Admins n) db = answered A_Count (count_active_admins_except n db)"
| "db_ask (Q_User_By_Oidc i s) db = answered A_User (find_user_by_oidc i s db)"
| "db_ask (Q_Device_By_Key k u) db = answered A_Text (find_device_by_key_and_user k u db)"
| "db_ask (Q_User_Devices u) db = answered A_Devices (list_user_devices u db)"
| "db_ask Q_All_Devices db = answered A_All_Devices (list_all_devices db)"
| "db_ask (Q_Owns_Device d u) db = answered A_Bool (device_belongs_to_user d u db)"
| "db_ask (Q_Device_Ids u) db = answered A_Ids (get_user_device_ids u db)"
| "db_ask (Q_Last_Ts d p) db = answered A_Int (get_last_ts d p db)"
| "db_ask (Q_Team i) db = answered A_Team (get_team i db)"
| "db_ask Q_Teams db = answered A_Teams (list_teams db)"
| "db_ask Q_Team_Counts db = answered A_Team_Counts (list_teams_with_member_count db)"
| "db_ask (Q_User_Teams u) db = answered A_Memberships (list_user_teams u db)"
| "db_ask (Q_Team_Members g) db = answered A_Members (list_team_members g db)"
| "db_ask (Q_Member_Role g u) db = answered A_Text (get_team_member_role g u db)"
| "db_ask Q_Pending db = answered A_Pending (list_pending_registrations db)"
| "db_ask (Q_Revoked j) db = answered A_Bool (is_refresh_token_revoked j db)"
| "db_ask (Q_Code c) db = answered A_Code (get_device_code c db)"
| "db_ask (Q_Code_By_User_Code c) db = answered A_Code (get_device_code_by_user_code c db)"
| "db_ask (Q_Setting k) db = answered A_Text (get_server_setting k db)"
| "db_ask Q_Settings db = answered A_Settings (list_server_settings db)"
| "db_ask Q_Health db = answered (\<lambda>_. A_Ok) (health_check db)"
| "db_ask (Q_Monitor_All u) db = answered A_Monitor_All (list_monitor_settings u db)"
| "db_ask (Q_Monitor_Index u) db = answered A_Monitor_Index (list_monitor_setting_index u db)"
| "db_ask (Q_Monitor u k) db = answered A_Monitor (get_monitor_setting u k db)"
| "db_ask (Q_Monitor_Usage u) db = answered A_Usage (monitor_settings_usage u db)"

fun pg_ask :: "pg_server \<Rightarrow> db_query \<Rightarrow> sqlite_db \<Rightarrow> answer result" where
  "pg_ask srv (Q_User_By_Name n) db = answered A_User (pg_get_user_by_username srv n db)"
| "pg_ask srv (Q_User_By_Id i) db = answered A_User (pg_get_user_by_id srv i db)"
| "pg_ask srv Q_Users db = answered A_Users (pg_list_users srv db)"
| "pg_ask srv (Q_Is_Admin u) db = answered A_Bool (pg_user_is_admin srv u db)"
| "pg_ask srv (Q_Other_Admins n) db = answered A_Count (pg_count_active_admins_except n db)"
| "pg_ask srv (Q_User_By_Oidc i s) db = answered A_User (pg_find_user_by_oidc srv i s db)"
| "pg_ask srv (Q_Device_By_Key k u) db = answered A_Text (pg_find_device_by_key_and_user srv k u db)"
| "pg_ask srv (Q_User_Devices u) db = answered A_Devices (pg_list_user_devices srv u db)"
| "pg_ask srv Q_All_Devices db = answered A_All_Devices (pg_list_all_devices srv db)"
| "pg_ask srv (Q_Owns_Device d u) db = answered A_Bool (pg_device_belongs_to_user d u db)"
| "pg_ask srv (Q_Device_Ids u) db = answered A_Ids (pg_get_user_device_ids srv u db)"
| "pg_ask srv (Q_Last_Ts d p) db = answered A_Int (pg_get_last_ts srv d p db)"
| "pg_ask srv (Q_Team i) db = answered A_Team (pg_get_team srv i db)"
| "pg_ask srv Q_Teams db = answered A_Teams (pg_list_teams srv db)"
| "pg_ask srv Q_Team_Counts db = answered A_Team_Counts (pg_list_teams_with_member_count srv db)"
| "pg_ask srv (Q_User_Teams u) db = answered A_Memberships (pg_list_user_teams srv u db)"
| "pg_ask srv (Q_Team_Members g) db = answered A_Members (pg_list_team_members srv g db)"
| "pg_ask srv (Q_Member_Role g u) db = answered A_Text (pg_get_team_member_role srv g u db)"
| "pg_ask srv Q_Pending db = answered A_Pending (pg_list_pending_registrations srv db)"
| "pg_ask srv (Q_Revoked j) db = answered A_Bool (pg_is_refresh_token_revoked srv j db)"
| "pg_ask srv (Q_Code c) db = answered A_Code (pg_get_device_code srv c db)"
| "pg_ask srv (Q_Code_By_User_Code c) db = answered A_Code (pg_get_device_code_by_user_code srv c db)"
| "pg_ask srv (Q_Setting k) db = answered A_Text (pg_get_server_setting srv k db)"
| "pg_ask srv Q_Settings db = answered A_Settings (pg_list_server_settings srv db)"
| "pg_ask srv Q_Health db = answered (\<lambda>_. A_Ok) (pg_health_check db)"
| "pg_ask srv (Q_Monitor_All u) db = answered A_Monitor_All (pg_list_monitor_settings srv u db)"
| "pg_ask srv (Q_Monitor_Index u) db = answered A_Monitor_Index (pg_list_monitor_setting_index srv u db)"
| "pg_ask srv (Q_Monitor u k) db = answered A_Monitor (pg_get_monitor_setting srv u k db)"
| "pg_ask srv (Q_Monitor_Usage u) db = answered A_Usage (pg_monitor_settings_usage u db)"

fun query_texts :: "db_query \<Rightarrow> string list" where
  "query_texts (Q_User_By_Name n) = [n]"
| "query_texts (Q_User_By_Id i) = [i]"
| "query_texts (Q_Is_Admin u) = [u]"
| "query_texts (Q_Other_Admins n) = [n]"
| "query_texts (Q_User_By_Oidc i s) = [i, s]"
| "query_texts (Q_Device_By_Key k u) = [k, u]"
| "query_texts (Q_User_Devices u) = [u]"
| "query_texts (Q_Owns_Device d u) = [d, u]"
| "query_texts (Q_Device_Ids u) = [u]"
| "query_texts (Q_Last_Ts d p) = [d, p]"
| "query_texts (Q_Team i) = [i]"
| "query_texts (Q_User_Teams u) = [u]"
| "query_texts (Q_Team_Members g) = [g]"
| "query_texts (Q_Member_Role g u) = [g, u]"
| "query_texts (Q_Revoked j) = [j]"
| "query_texts (Q_Code c) = [c]"
| "query_texts (Q_Code_By_User_Code c) = [c]"
| "query_texts (Q_Setting k) = [k]"
| "query_texts (Q_Monitor_All u) = [u]"
| "query_texts (Q_Monitor_Index u) = [u]"
| "query_texts (Q_Monitor u k) = [u, k]"
| "query_texts (Q_Monitor_Usage u) = [u]"
| "query_texts _ = []"

text \<open>The same rows, and in the order asked for, up to ties and to how the server orders text.\<close>

definition rows_by :: "('a \<Rightarrow> 'k::linorder) \<Rightarrow> 'a list \<Rightarrow> 'a list \<Rightarrow> bool" where
  "rows_by k xs ys \<longleftrightarrow> mset xs = mset ys \<and> sorted (map k xs)"

definition same_answer :: "(string \<Rightarrow> string) \<Rightarrow> answer \<Rightarrow> answer \<Rightarrow> bool" where
  "same_answer col a b =
     (case a of
        A_Users xs \<Rightarrow> (case b of A_Users ys \<Rightarrow> rows_by us_created_at xs ys | _ \<Rightarrow> False) |
        A_Devices xs \<Rightarrow> (case b of A_Devices ys \<Rightarrow> rows_by (\<lambda>d. - ds_last_seen_at d) xs ys | _ \<Rightarrow> False) |
        A_All_Devices xs \<Rightarrow> (case b of A_All_Devices ys \<Rightarrow> rows_by (\<lambda>d. - da_last_seen_at d) xs ys | _ \<Rightarrow> False) |
        A_Ids xs \<Rightarrow> (case b of A_Ids ys \<Rightarrow> mset xs = mset ys | _ \<Rightarrow> False) |
        A_Teams xs \<Rightarrow> (case b of A_Teams ys \<Rightarrow> rows_by (\<lambda>t. col (g_name t)) xs ys | _ \<Rightarrow> False) |
        A_Team_Counts xs \<Rightarrow> (case b of A_Team_Counts ys \<Rightarrow> rows_by tc_created_at xs ys | _ \<Rightarrow> False) |
        A_Memberships xs \<Rightarrow> (case b of A_Memberships ys \<Rightarrow> rows_by (\<lambda>t. col (tm_team_name t)) xs ys | _ \<Rightarrow> False) |
        A_Members xs \<Rightarrow> (case b of A_Members ys \<Rightarrow> rows_by ts_joined_at xs ys | _ \<Rightarrow> False) |
        A_Pending xs \<Rightarrow> (case b of A_Pending ys \<Rightarrow> rows_by pr_requested_at xs ys | _ \<Rightarrow> False) |
        A_Settings xs \<Rightarrow> (case b of A_Settings ys \<Rightarrow> rows_by (\<lambda>s. col (fst s)) xs ys | _ \<Rightarrow> False) |
        A_Monitor_All xs \<Rightarrow> (case b of A_Monitor_All ys \<Rightarrow> rows_by (\<lambda>s. col (ms_key s)) xs ys | _ \<Rightarrow> False) |
        A_Monitor_Index xs \<Rightarrow> (case b of A_Monitor_Index ys \<Rightarrow> rows_by (\<lambda>s. col (mm_key s)) xs ys | _ \<Rightarrow> False) |
        _ \<Rightarrow> a = b)"

lemma rows_by_sort: "mset xs = mset ys \<Longrightarrow> rows_by k (sort_key k xs) (sort_key l ys)"
  by (simp add: rows_by_def)

lemma rows_by_map:
  assumes "mset xs = mset ys" "\<And>x. k (f x) = l x"
  shows "rows_by k (map f (sort_key l xs)) (map f (sort_key m ys))"
proof -
  have "map k (map f (sort_key l xs)) = map l (sort_key l xs)" using assms(2) by simp
  then show ?thesis using assms(1) by (simp only: rows_by_def mset_map mset_sort sorted_sort_key)
qed

lemma oidc_first:
  assumes "pg_ok srv" "oidc_unique db"
  shows "pg_first srv (\<lambda>r. u_oidc_issuer r = Some i \<and> u_oidc_sub r = Some s) (users db) =
    find (\<lambda>r. u_oidc_issuer r = Some i \<and> u_oidc_sub r = Some s) (users db)"
  using assms(1)
  by (rule pg_first_unique) (auto simp: oidc_of_def intro: distinct_key_same [OF assms(2) [unfolded oidc_unique_def], of _ _ "(i, s)"])

lemma device_first:
  assumes "pg_ok srv" "db_ok db"
  shows "pg_first srv (\<lambda>r. d_device_key r = Some k \<and> d_user_id r = u) (devices db) =
    find (\<lambda>r. d_device_key r = Some k \<and> d_user_id r = u) (devices db)"
proof -
  have "distinct_key d_device_key (devices db)" using assms(2) by (simp add: db_ok_def devices_ok_def)
  from distinct_key_same [OF this] show ?thesis by (intro pg_first_unique [OF assms(1)]) blast
qed

lemmas query_defs = get_user_by_username_def get_user_by_id_def user_is_admin_def count_active_admins_except_def find_user_by_oidc_def
  find_device_by_key_and_user_def device_belongs_to_user_def get_user_device_ids_def get_last_ts_def get_team_def
  get_team_member_role_def is_refresh_token_revoked_def get_device_code_def get_device_code_by_user_code_def
  get_server_setting_def health_check_def get_monitor_setting_def monitor_settings_usage_def

lemmas pg_query_defs = pg_get_user_by_username_def pg_get_user_by_id_def pg_user_is_admin_def pg_count_active_admins_except_def
  pg_find_user_by_oidc_def pg_find_device_by_key_and_user_def pg_device_belongs_to_user_def pg_get_user_device_ids_def
  pg_get_last_ts_def pg_get_team_def pg_get_team_member_role_def pg_is_refresh_token_revoked_def pg_get_device_code_def
  pg_get_device_code_by_user_code_def pg_get_server_setting_def pg_health_check_def pg_get_monitor_setting_def
  pg_monitor_settings_usage_def

lemmas list_query_defs = list_users_def list_user_devices_def list_all_devices_def list_teams_def list_teams_with_member_count_def
  list_user_teams_def list_team_members_def list_pending_registrations_def list_server_settings_def list_monitor_settings_def
  list_monitor_setting_index_def

lemmas pg_list_query_defs = pg_list_users_def pg_list_user_devices_def pg_list_all_devices_def pg_list_teams_def
  pg_list_teams_with_member_count_def pg_list_user_teams_def pg_list_team_members_def pg_list_pending_registrations_def
  pg_list_server_settings_def pg_list_monitor_settings_def pg_list_monitor_setting_index_def

lemma pg_ask_same:
  assumes "pg_ok srv" "db_sound db" "clean_texts (query_texts q)"
  shows "\<exists>a b. pg_ask srv q db = Inr a \<and> db_ask q db = Inr b \<and> same_answer (pg_collate srv) a b"
proof -
  have "db_ok db" "oidc_unique db" using assms(2) by (simp_all add: db_sound_def)
  note first = firsts_by_key [OF assms(1) this(1)] revoked_same [OF assms(1) this(1)] oidc_first [OF assms(1) this(2)]
    device_first [OF assms(1) this(1)] mset_pg_rows [OF assms(1)]
  show ?thesis
    using assms(3)
    by (cases q) (simp_all add: answered_def same_answer_def query_defs pg_query_defs list_query_defs pg_list_query_defs pg_query_def pg_usage_def first
        rows_by_sort rows_by_map)
qed

lemma db_ask_orders:
  "\<exists>a. db_ask q db = Inr a \<and> same_answer id a a"
  by (cases q) (simp_all add: answered_def same_answer_def query_defs list_query_defs rows_by_sort rows_by_map)

section \<open>The contract and its providers\<close>

text \<open>What a handler may rely on, whichever repository the configuration chose.\<close>

locale repository =
  fixes call :: "int \<Rightarrow> db_op \<Rightarrow> sqlite_db \<Rightarrow> outcome db_result"
    and ask :: "db_query \<Rightarrow> sqlite_db \<Rightarrow> answer result"
    and col :: "string \<Rightarrow> string"
  assumes call_law: "db_sound db \<Longrightarrow> clean_texts (op_texts op) \<Longrightarrow> call now op db = db_call now op db"
    and ask_law: "db_sound db \<Longrightarrow> clean_texts (query_texts q) \<Longrightarrow>
      \<exists>a b. ask q db = Inr a \<and> db_ask q db = Inr b \<and> same_answer col a b"
begin

lemma call_sound: "db_sound db \<Longrightarrow> clean_texts (op_texts op) \<Longrightarrow> db_sound (snd (call now op db))"
  by (simp add: call_law db_call_exec db_exec_sound)

lemma asked_after:
  assumes "db_sound db" "clean_texts (op_texts op)" "clean_texts (query_texts q)"
  shows "\<exists>a b. ask q (snd (call now op db)) = Inr a \<and> db_ask q (db_exec now op db) = Inr b \<and> same_answer col a b"
  using ask_law [OF call_sound [OF assms(1,2)] assms(3)] by (simp add: call_law assms(1,2) db_call_exec)

end

interpretation sqlite_repository: repository db_call db_ask id
  by unfold_locales (use db_ask_orders in blast)+

locale postgres =
  fixes srv :: pg_server
  assumes order_law: "pg_ok srv"

sublocale postgres \<subseteq> pg: repository "pg_call srv" "pg_ask srv" "pg_collate srv"
  by unfold_locales (rule pg_call_sound_same [OF order_law] pg_ask_same [OF order_law]; assumption)+

context postgres
begin

lemma is_repository: "repository (pg_call srv) (pg_ask srv) (pg_collate srv)"
  by (rule pg.repository_axioms)

end

definition reversing_server :: pg_server where
  "reversing_server = \<lparr>pg_order = (\<lambda>n. rev [0..<n]), pg_collate = (\<lambda>s. s)\<rparr>"

interpretation reversing: postgres reversing_server
  by unfold_locales (simp add: pg_ok_def reversing_server_def)

section \<open>A run\<close>

fun db_calls :: "(int \<times> db_op) list \<Rightarrow> sqlite_db \<Rightarrow> outcome result list \<times> sqlite_db" where
  "db_calls [] db = ([], db)"
| "db_calls ((now, op) # ops) db =
     (case db_call now op db of (r, db) \<Rightarrow> case db_calls ops db of (rs, db) \<Rightarrow> (r # rs, db))"

fun pg_calls :: "(pg_server \<times> int \<times> db_op) list \<Rightarrow> sqlite_db \<Rightarrow> outcome result list \<times> sqlite_db" where
  "pg_calls [] db = ([], db)"
| "pg_calls ((srv, now, op) # ops) db =
     (case pg_call srv now op db of (r, db) \<Rightarrow> case pg_calls ops db of (rs, db) \<Rightarrow> (r # rs, db))"

lemma db_calls_sound: "db_sound db \<Longrightarrow> db_sound (snd (db_calls ops db))"
proof (induction ops db rule: db_calls.induct)
  case (2 now op ops db)
  obtain r db' where c: "db_call now op db = (r, db')" by fastforce
  then have "db_sound db'" using db_exec_sound [OF 2(2), of now op] db_call_exec [of now op db] by simp
  then show ?case using 2(1) [OF c [symmetric]] by (auto simp: c split: prod.splits)
qed simp

lemma pg_calls_same:
  "db_sound db \<Longrightarrow> list_all (\<lambda>(srv, _, op). pg_ok srv \<and> clean_texts (op_texts op)) ops \<Longrightarrow>
     pg_calls ops db = db_calls (map snd ops) db"
proof (induction ops arbitrary: db)
  case (Cons x ops)
  obtain srv now op where x: "x = (srv, now, op)" by (cases x)
  have same: "pg_call srv now op db = db_call now op db"
    using Cons.prems by (simp add: x pg_call_sound_same)
  obtain r db' where c: "db_call now op db = (r, db')" by fastforce
  then have "db_sound db'" using db_exec_sound [OF Cons.prems(1), of now op] db_call_exec [of now op db] by simp
  then show ?case using Cons.IH Cons.prems(2) by (simp add: x same c)
qed simp

text \<open>C11: Both repositories are one: run on PostgreSQL, any sequence of operations answers what it
  answers on SQLite and leaves the same database, and any query then returns the same rows in the
  order asked for, whatever order the server reads rows in, as long as no text holds a NUL.\<close>

theorem postgres_runs_like_sqlite:
  assumes "db_sound db" "list_all (\<lambda>(srv, _, op). pg_ok srv \<and> clean_texts (op_texts op)) ops"
    and "pg_ok srv" "clean_texts (query_texts q)"
  shows "pg_calls ops db = db_calls (map snd ops) db \<and>
    (\<exists>a b. pg_ask srv q (snd (pg_calls ops db)) = Inr a \<and> db_ask q (snd (db_calls (map snd ops) db)) = Inr b \<and>
      same_answer (pg_collate srv) a b)"
  using pg_calls_same [OF assms(1,2)] repository.ask_law [OF postgres.is_repository [OF postgres.intro [OF assms(3)]]
      db_calls_sound [OF assms(1)] assms(4)] by simp

definition demo_writes :: "(pg_server \<times> int \<times> db_op) list" where
  "demo_writes =
     [(reversing_server, 1, Create_User \<lparr>nu_id = ''a'', nu_username = ''ann'', nu_password_hash = ''h'', nu_role = ''user''\<rparr>),
      (reversing_server, 1, Create_User \<lparr>nu_id = ''b'', nu_username = ''bob'', nu_password_hash = ''h'', nu_role = ''user''\<rparr>)]"

theorem postgres_runs_like_sqlite_witness:
  "pg_calls demo_writes empty_db = db_calls (map snd demo_writes) empty_db \<and>
    (\<exists>a b. pg_ask reversing_server Q_Users (snd (pg_calls demo_writes empty_db)) = Inr a \<and>
      db_ask Q_Users (snd (db_calls (map snd demo_writes) empty_db)) = Inr b \<and> same_answer (pg_collate reversing_server) a b)"
proof (rule postgres_runs_like_sqlite)
  show "db_sound empty_db"
    using reachable_ok [OF db_reachable.start] by (simp add: db_sound_def oidc_unique_def distinct_key_def empty_db_def map_filter_simps)
  show "list_all (\<lambda>(srv, _, op). pg_ok srv \<and> clean_texts (op_texts op)) demo_writes"
    by (simp add: demo_writes_def reversing.order_law nul_def) (simp add: char_of_def)
qed (simp_all add: reversing.order_law)

text \<open>What the two repositories do differently: a text with a NUL, here a name nobody has, is an error on PostgreSQL.\<close>

lemma nul_is_an_error:
  "pg_ask srv (Q_User_By_Name [nul]) db = Inl ''get_user_by_username'' \<and> db_ask (Q_User_By_Name [nul]) empty_db = Inr (A_User None)"
  by (simp add: pg_get_user_by_username_def get_user_by_username_def pg_query_def answered_def empty_db_def)

end
