(* ===== verification/Pg_Transactions.thy ===== *)
theory Pg_Transactions
  imports Pg_Refinement
begin

text \<open>
  The transactions of the PostgreSQL repository, statement by statement, at the isolation level the code
  leaves in place (READ COMMITTED): a statement sees what was committed when it began, and a row version
  it writes is installed at its commit. The monitor transactions lock the row of the user first and run
  as if each happened at once when it ends; \<open>rotate_refresh_token\<close> locks nothing before it reads, and
  two rotations of one token can both succeed.
\<close>

section \<open>Monitor transactions\<close>

datatype monitor_request =
    Put string "int option" monitor_quota
  | Drop "int option"

datatype stage =
    Begun
  | Locked
  | Have_Current "monitor_row option"
  | Have_Usage "monitor_row option" "int \<times> int"
  | Have_Written monitor_row "int option"
  | Have_Dropped
  | Have_Missed
  | Have_Answer monitor_delete_outcome
  | Ended outcome

record session =
  se_user :: string
  se_key :: string
  se_now :: int
  se_request :: monitor_request
  se_stage :: stage

record pg_state =
  committed :: sqlite_db
  locks :: "string \<Rightarrow> nat option"
  sessions :: "nat \<Rightarrow> session"

definition at_stage :: "nat \<Rightarrow> stage \<Rightarrow> pg_state \<Rightarrow> pg_state" where
  "at_stage i g s = s\<lparr>sessions := (sessions s)(i := sessions s i\<lparr>se_stage := g\<rparr>)\<rparr>"

text \<open>The end of a transaction: what it wrote is installed and its locks go.\<close>

definition ends :: "nat \<Rightarrow> outcome \<Rightarrow> sqlite_db \<Rightarrow> pg_state \<Rightarrow> pg_state" where
  "ends i out db s =
     (at_stage i (Ended out) s)\<lparr>committed := db, locks := (locks s)(se_user (sessions s i) := None)\<rparr>"

definition row_at :: "nat \<Rightarrow> pg_state \<Rightarrow> monitor_row option" where
  "row_at i s = monitor_row_at (se_user (sessions s i)) (se_key (sessions s i)) (committed s)"

text \<open>The row version the upsert writes.\<close>

definition next_row :: "session \<Rightarrow> string \<Rightarrow> monitor_row option \<Rightarrow> monitor_row" where
  "next_row se val stored = \<lparr>w_user_id = se_user se, w_key = se_key se, w_value = val, w_size_bytes = int (length val),
     w_version = (case stored of None \<Rightarrow> 1 | Some r \<Rightarrow> w_version r + 1), w_updated_at = se_now se\<rparr>"

definition install_row :: "monitor_row \<Rightarrow> sqlite_db \<Rightarrow> sqlite_db" where
  "install_row r db = db\<lparr>monitor_settings :=
     (if exists_row (monitor_clash r) (monitor_settings db) then update_rows (monitor_clash r) (\<lambda>_. r) (monitor_settings db)
      else monitor_settings db @ [r])\<rparr>"

definition remove_row :: "string \<Rightarrow> string \<Rightarrow> sqlite_db \<Rightarrow> sqlite_db" where
  "remove_row u k db = db\<lparr>monitor_settings := delete_rows (\<lambda>r. w_user_id r = u \<and> w_key r = k) (monitor_settings db)\<rparr>"

text \<open>A statement of another transaction: any operation but a monitor write; a deletion of an account
  waits for the lock on its row.\<close>

fun elsewhere :: "(string \<Rightarrow> nat option) \<Rightarrow> db_op \<Rightarrow> bool" where
  "elsewhere lk (Upsert_Monitor _ _ _ _ _) = False"
| "elsewhere lk (Delete_Monitor _ _ _) = False"
| "elsewhere lk (Delete_User u) = (lk u = None)"
| "elsewhere lk _ = True"

text \<open>\<open>SELECT ... FOR UPDATE\<close> finds the row of the user of a session; a session of an account that is
  gone has nothing to write and is left out.\<close>

inductive pg_step :: "pg_state \<Rightarrow> pg_state \<Rightarrow> bool" where
  lock_user: "se_stage (sessions s i) = Begun \<Longrightarrow> se_user (sessions s i) = u \<Longrightarrow> has_user (committed s) u \<Longrightarrow> locks s u = None \<Longrightarrow>
    pg_step s ((at_stage i Locked s)\<lparr>locks := (locks s)(u := Some i)\<rparr>)"
| read_current: "se_stage (sessions s i) = Locked \<Longrightarrow> se_request (sessions s i) = Put val v q \<Longrightarrow>
    pg_step s (at_stage i (Have_Current (row_at i s)) s)"
| refuse_cas: "se_stage (sessions s i) = Have_Current cur \<Longrightarrow> se_request (sessions s i) = Put val v q \<Longrightarrow> cas_refused v cur = Some r \<Longrightarrow>
    pg_step s (ends i (O_Write r) (committed s) s)"
| count_usage: "se_stage (sessions s i) = Have_Current cur \<Longrightarrow> se_request (sessions s i) = Put val v q \<Longrightarrow> cas_refused v cur = None \<Longrightarrow>
    pg_step s (at_stage i (Have_Usage cur (pg_usage (se_user (sessions s i)) (committed s))) s)"
| refuse_quota: "se_stage (sessions s i) = Have_Usage cur us \<Longrightarrow> se_request (sessions s i) = Put val v q \<Longrightarrow>
    quota_refused q (int (length val)) cur us = Some r \<Longrightarrow> pg_step s (ends i (O_Write r) (committed s) s)"
| write_row: "se_stage (sessions s i) = Have_Usage cur us \<Longrightarrow> se_request (sessions s i) = Put val v q \<Longrightarrow>
    quota_refused q (int (length val)) cur us = None \<Longrightarrow>
    pg_step s (at_stage i (Have_Written (next_row (sessions s i) val (row_at i s)) (map_option w_version cur)) s)"
| commit_put: "se_stage (sessions s i) = Have_Written row prev \<Longrightarrow>
    pg_step s (ends i (O_Write (Written (w_version row) (se_now (sessions s i)) prev)) (install_row row (committed s)) s)"
| drop_hit: "se_stage (sessions s i) = Locked \<Longrightarrow> se_request (sessions s i) = Drop v \<Longrightarrow> row_at i s = Some row \<Longrightarrow>
    monitor_hit (se_user (sessions s i)) (se_key (sessions s i)) v row \<Longrightarrow> pg_step s (at_stage i Have_Dropped s)"
| drop_miss: "se_stage (sessions s i) = Locked \<Longrightarrow> se_request (sessions s i) = Drop v \<Longrightarrow>
    (\<And>row. row_at i s = Some row \<Longrightarrow> \<not> monitor_hit (se_user (sessions s i)) (se_key (sessions s i)) v row) \<Longrightarrow>
    pg_step s (at_stage i Have_Missed s)"
| look_again: "se_stage (sessions s i) = Have_Missed \<Longrightarrow> se_request (sessions s i) = Drop v \<Longrightarrow>
    pg_step s (at_stage i (Have_Answer (delete_outcome 0 v (row_at i s))) s)"
| commit_drop: "se_stage (sessions s i) = Have_Dropped \<Longrightarrow>
    pg_step s (ends i (O_Delete Deleted) (remove_row (se_user (sessions s i)) (se_key (sessions s i)) (committed s)) s)"
| commit_answer: "se_stage (sessions s i) = Have_Answer a \<Longrightarrow> pg_step s (ends i (O_Delete a) (committed s) s)"
| other: "elsewhere (locks s) op \<Longrightarrow> pg_step s (s\<lparr>committed := db_exec now op (committed s)\<rparr>)"

inductive pg_reachable :: "pg_state \<Rightarrow> bool" where
  start: "db_ok (committed s) \<Longrightarrow> (\<And>u. locks s u = None) \<Longrightarrow> (\<And>i. se_stage (sessions s i) = Begun) \<Longrightarrow> pg_reachable s"
| step: "pg_reachable s \<Longrightarrow> pg_step s s' \<Longrightarrow> pg_reachable s'"

section \<open>What a session knows stays true\<close>

definition row_in :: "string \<Rightarrow> monitor_row list \<Rightarrow> monitor_row option" where
  "row_in k rows = find (\<lambda>r. w_key r = k) rows"

lemma find_filter: "find (\<lambda>r. p r \<and> q r) rs = find q (filter p rs)"
  by (induction rs) auto

lemma monitor_row_in: "monitor_row_at u k db = row_in k (monitor_of u db)"
  by (simp add: monitor_row_at_def row_in_def monitor_of_def find_filter)

definition usage_in :: "monitor_row list \<Rightarrow> int \<times> int" where
  "usage_in rows = (int (length rows), sum_list (map w_size_bytes rows))"

text \<open>A stage against the rows of the user.\<close>

fun knows :: "session \<Rightarrow> stage \<Rightarrow> monitor_row list \<Rightarrow> bool" where
  "knows se (Have_Current cur) rows \<longleftrightarrow> (\<exists>val v q. se_request se = Put val v q) \<and> cur = row_in (se_key se) rows"
| "knows se (Have_Usage cur us) rows \<longleftrightarrow> cur = row_in (se_key se) rows \<and> us = usage_in rows \<and>
     (\<exists>val v q. se_request se = Put val v q \<and> cas_refused v cur = None)"
| "knows se (Have_Written row prev) rows \<longleftrightarrow>
     (\<exists>val v q. se_request se = Put val v q \<and> cas_refused v (row_in (se_key se) rows) = None \<and>
        quota_refused q (int (length val)) (row_in (se_key se) rows) (usage_in rows) = None \<and>
        row = next_row se val (row_in (se_key se) rows) \<and> prev = map_option w_version (row_in (se_key se) rows))"
| "knows se Have_Dropped rows \<longleftrightarrow>
     (\<exists>v row. se_request se = Drop v \<and> row_in (se_key se) rows = Some row \<and> monitor_hit (se_user se) (se_key se) v row)"
| "knows se Have_Missed rows \<longleftrightarrow>
     (\<exists>v. se_request se = Drop v \<and> (\<forall>row. row_in (se_key se) rows = Some row \<longrightarrow> \<not> monitor_hit (se_user se) (se_key se) v row))"
| "knows se (Have_Answer a) rows \<longleftrightarrow>
     (\<exists>v. se_request se = Drop v \<and> (\<forall>row. row_in (se_key se) rows = Some row \<longrightarrow> \<not> monitor_hit (se_user se) (se_key se) v row) \<and>
        a = delete_outcome 0 v (row_in (se_key se) rows))"
| "knows se _ rows \<longleftrightarrow> True"

definition holding :: "stage \<Rightarrow> bool" where
  "holding g \<longleftrightarrow> (case g of Begun \<Rightarrow> False | Ended _ \<Rightarrow> False | _ \<Rightarrow> True)"

definition pg_invariant :: "pg_state \<Rightarrow> bool" where
  "pg_invariant s \<longleftrightarrow> db_ok (committed s) \<and>
     (\<forall>i. holding (se_stage (sessions s i)) \<longrightarrow>
        locks s (se_user (sessions s i)) = Some i \<and> has_user (committed s) (se_user (sessions s i)) \<and>
        knows (sessions s i) (se_stage (sessions s i)) (monitor_of (se_user (sessions s i)) (committed s)))"

section \<open>Committing\<close>

lemma same_clash: "monitor_clash r r' \<longleftrightarrow> w_user_id r' = w_user_id r \<and> w_key r' = w_key r"
  by (simp add: monitor_clash_def)

lemma install_elsewhere: "w_user_id row \<noteq> u \<Longrightarrow> monitor_of u (install_row row db) = monitor_of u db"
proof -
  assume "w_user_id row \<noteq> u"
  then have "filter (\<lambda>r. w_user_id r = u) (update_rows (monitor_clash row) (\<lambda>_. row) rs) = filter (\<lambda>r. w_user_id r = u) rs" for rs
    by (induction rs) (auto simp: update_rows_def same_clash)
  with \<open>w_user_id row \<noteq> u\<close> show ?thesis by (simp add: install_row_def monitor_of_def)
qed

lemma remove_elsewhere: "u' \<noteq> u \<Longrightarrow> monitor_of u (remove_row u' k db) = monitor_of u db"
  by (auto simp: remove_row_def monitor_of_def delete_rows_def intro: filter_cong)

lemma installed_users [simp]: "users (install_row row db) = users db" "users (remove_row u k db) = users db"
  by (simp_all add: install_row_def remove_row_def)

text \<open>The atomic upsert, over the statements of the transaction.\<close>

lemma upsert_parts:
  "upsert_monitor_setting now u k val v q db =
     (case cas_refused v (monitor_row_at u k db) of
        Some r \<Rightarrow> (Inr r, db)
      | None \<Rightarrow>
          (case quota_refused q (int (length val)) (monitor_row_at u k db) (pg_usage u db) of
             Some r \<Rightarrow> (Inr r, db)
           | None \<Rightarrow>
               (case monitor_row_at u k db of
                  Some r \<Rightarrow> (Inr (Written (w_version r + 1) now (Some (w_version r))),
                     db\<lparr>monitor_settings := update_rows (\<lambda>r. w_user_id r = u \<and> w_key r = k)
                       (\<lambda>r. r\<lparr>w_value := val, w_size_bytes := int (length val), w_version := w_version r + 1, w_updated_at := now\<rparr>)
                       (monitor_settings db)\<rparr>)
                | None \<Rightarrow>
                    if has_user db u
                    then (Inr (Written 1 now None), db\<lparr>monitor_settings := monitor_settings db @
                       [\<lparr>w_user_id = u, w_key = k, w_value = val, w_size_bytes = int (length val), w_version = 1, w_updated_at = now\<rparr>]\<rparr>)
                    else (Inl ''upsert_monitor_setting: write'', db))))"
  by (cases "monitor_row_at u k db"; cases v)
    (simp_all add: upsert_monitor_setting_def cas_refused_def quota_refused_def pg_usage_def Let_def)

lemma install_absent:
  assumes "monitor_row_at (w_user_id row) (w_key row) db = None"
  shows "install_row row db = db\<lparr>monitor_settings := monitor_settings db @ [row]\<rparr>"
  using assms by (auto simp: install_row_def exists_row_def same_clash no_monitor)

lemma install_present:
  assumes "db_ok db" "monitor_row_at u k db = Some r" "row = f r" "w_user_id row = u" "w_key row = k"
  shows "install_row row db = db\<lparr>monitor_settings := update_rows (\<lambda>r. w_user_id r = u \<and> w_key r = k) f (monitor_settings db)\<rparr>"
proof -
  have r: "r \<in> set (monitor_settings db)" "w_user_id r = u" "w_key r = k" using find_monitor [OF assms(2)] by auto
  have "distinct (map (\<lambda>r. (w_user_id r, w_key r)) (monitor_settings db))" using assms(1) by (simp add: db_ok_def monitor_ok_def)
  then have "x = r" if "x \<in> set (monitor_settings db)" "w_user_id x = u" "w_key x = k" for x
    using that r by (auto simp: distinct_map dest: inj_onD)
  then have "update_rows (monitor_clash row) (\<lambda>_. row) (monitor_settings db) =
      update_rows (\<lambda>r. w_user_id r = u \<and> w_key r = k) f (monitor_settings db)"
    using assms(3-5) by (auto simp: update_rows_def same_clash intro!: map_cong)
  moreover have "exists_row (monitor_clash row) (monitor_settings db)" using r assms(4,5) by (auto simp: exists_row_def same_clash)
  ultimately show ?thesis by (simp add: install_row_def)
qed

lemma upsert_written_row:
  assumes "db_ok db" "has_user db (se_user se)" "se_request se = Put val v q"
    and "cas_refused v (monitor_row_at (se_user se) (se_key se) db) = None"
    and "quota_refused q (int (length val)) (monitor_row_at (se_user se) (se_key se) db) (pg_usage (se_user se) db) = None"
    and "row = next_row se val (monitor_row_at (se_user se) (se_key se) db)"
  shows "upsert_monitor_setting (se_now se) (se_user se) (se_key se) val v q db =
    (Inr (Written (w_version row) (se_now se) (map_option w_version (monitor_row_at (se_user se) (se_key se) db))), install_row row db)"
proof (cases "monitor_row_at (se_user se) (se_key se) db")
  case None
  have "install_row row db = db\<lparr>monitor_settings := monitor_settings db @ [row]\<rparr>"
    by (rule install_absent) (simp add: assms(6) next_row_def None)
  with None assms(2,4-6) show ?thesis by (simp add: upsert_parts next_row_def)
next
  case (Some r)
  have "install_row row db = db\<lparr>monitor_settings := update_rows (\<lambda>r. w_user_id r = se_user se \<and> w_key r = se_key se)
      (\<lambda>r. r\<lparr>w_value := val, w_size_bytes := int (length val), w_version := w_version r + 1, w_updated_at := se_now se\<rparr>) (monitor_settings db)\<rparr>"
    using find_monitor [OF Some]
    by (intro install_present [OF assms(1) Some]) (auto simp: assms(6) next_row_def Some)
  with Some assms(4-6) show ?thesis by (simp add: upsert_parts next_row_def)
qed

lemma delete_hit:
  assumes "db_ok db" "monitor_row_at u k db = Some row" "monitor_hit u k v row"
  shows "delete_monitor_setting u k v db = (Inr Deleted, remove_row u k db)"
proof -
  have row: "row \<in> set (monitor_settings db)" "w_user_id row = u" "w_key row = k" using find_monitor [OF assms(2)] by auto
  have "distinct (map (\<lambda>r. (w_user_id r, w_key r)) (monitor_settings db))" using assms(1) by (simp add: db_ok_def monitor_ok_def)
  then have only: "x = row" if "x \<in> set (monitor_settings db)" "w_user_id x = u" "w_key x = k" for x
    using that row by (auto simp: distinct_map dest: inj_onD)
  have "delete_rows (\<lambda>r. w_user_id r = u \<and> w_key r = k \<and> (case v of None \<Rightarrow> True | Some e \<Rightarrow> w_version r = e)) (monitor_settings db) =
      delete_rows (\<lambda>r. w_user_id r = u \<and> w_key r = k) (monitor_settings db)"
    unfolding delete_rows_def using only assms(3) by (intro filter_cong) (auto simp: monitor_hit_def split: option.splits)
  moreover have "0 < rows_affected (\<lambda>r. w_user_id r = u \<and> w_key r = k \<and> (case v of None \<Rightarrow> True | Some e \<Rightarrow> w_version r = e)) (monitor_settings db)"
    using row assms(3) by (auto simp: rows_affected_pos exists_row_def monitor_hit_def)
  ultimately show ?thesis by (simp add: delete_monitor_setting_def remove_row_def Let_def)
qed

lemma delete_missed:
  assumes "\<And>row. monitor_row_at u k db = Some row \<Longrightarrow> \<not> monitor_hit u k v row"
    and "db_ok db"
  shows "delete_monitor_setting u k v db = (Inr (delete_outcome 0 v (monitor_row_at u k db)), db)"
proof -
  have hit: "\<not> monitor_hit u k v r" if "r \<in> set (monitor_settings db)" for r
  proof
    assume h: "monitor_hit u k v r"
    then have "monitor_row_at u k db = Some r"
      using that assms(2) find_distinct_key [of "\<lambda>r. Some (w_user_id r, w_key r)" "monitor_settings db" r "(u, k)"]
      by (auto simp: monitor_row_at_def monitor_hit_def db_ok_def monitor_ok_def distinct_key_def map_filter_def comp_def)
    with assms(1) h show False by blast
  qed
  have "monitor_hit u k v = (\<lambda>r. w_user_id r = u \<and> w_key r = k \<and> (case v of None \<Rightarrow> True | Some e \<Rightarrow> w_version r = e))"
    by (simp add: monitor_hit_def fun_eq_iff)
  then have none: "\<not> (w_user_id r = u \<and> w_key r = k \<and> (case v of None \<Rightarrow> True | Some e \<Rightarrow> w_version r = e))"
    if "r \<in> set (monitor_settings db)" for r using hit that by metis
  then have "rows_affected (\<lambda>r. w_user_id r = u \<and> w_key r = k \<and> (case v of None \<Rightarrow> True | Some e \<Rightarrow> w_version r = e)) (monitor_settings db) = 0"
    "delete_rows (\<lambda>r. w_user_id r = u \<and> w_key r = k \<and> (case v of None \<Rightarrow> True | Some e \<Rightarrow> w_version r = e)) (monitor_settings db) = monitor_settings db"
    unfolding rows_affected_def delete_rows_def by (simp_all only: length_0_conv filter_empty_conv filter_id_conv) blast+
  then show ?thesis
    by (cases v) (simp_all add: delete_monitor_setting_def Let_def delete_outcome_def split: option.split)
qed

section \<open>Every interleaving\<close>

lemma at_stage_sel [simp]:
  "committed (at_stage i g s) = committed s" "locks (at_stage i g s) = locks s"
  "sessions (at_stage i g s) j = (if j = i then sessions s i\<lparr>se_stage := g\<rparr> else sessions s j)"
  by (simp_all add: at_stage_def)

lemma ends_sel [simp]:
  "committed (ends i out db s) = db" "locks (ends i out db s) = (locks s)(se_user (sessions s i) := None)"
  "sessions (ends i out db s) j = (if j = i then sessions s i\<lparr>se_stage := Ended out\<rparr> else sessions s j)"
  by (simp_all add: ends_def)

lemma knows_stage [simp]: "knows (se\<lparr>se_stage := x\<rparr>) g rows = knows se g rows"
  by (cases g) (simp_all add: next_row_def)

lemma holding_simps [simp]:
  "\<not> holding Begun" "\<not> holding (Ended a)" "holding Locked" "holding (Have_Current c)" "holding (Have_Usage c us)"
  "holding (Have_Written r p)" "holding Have_Dropped" "holding Have_Missed" "holding (Have_Answer d)"
  by (simp_all add: holding_def)

lemma usage_of [simp]: "pg_usage u db = usage_in (monitor_of u db)"
  by (simp add: pg_usage_def usage_in_def)

lemma holds_lock:
  assumes "pg_invariant s" "holding (se_stage (sessions s i))"
  shows "locks s (se_user (sessions s i)) = Some i" "has_user (committed s) (se_user (sessions s i))"
    "knows (sessions s i) (se_stage (sessions s i)) (monitor_of (se_user (sessions s i)) (committed s))"
  using assms by (auto simp: pg_invariant_def)

lemma invariant_at_stage:
  assumes "pg_invariant s" "holding (se_stage (sessions s i))"
    and "knows (sessions s i) g (monitor_of (se_user (sessions s i)) (committed s))"
  shows "pg_invariant (at_stage i g s)"
  using assms by (auto simp: pg_invariant_def)

lemma invariant_ends:
  assumes "pg_invariant s" "holding (se_stage (sessions s i))" "db_ok db" "users db = users (committed s)"
    and "\<And>u. u \<noteq> se_user (sessions s i) \<Longrightarrow> monitor_of u db = monitor_of u (committed s)"
  shows "pg_invariant (ends i out db s)"
  unfolding pg_invariant_def
proof (intro conjI allI impI)
  fix j assume j: "holding (se_stage (sessions (ends i out db s) j))"
  then have "j \<noteq> i" by auto
  with j have j: "holding (se_stage (sessions s j))" by simp
  note J = holds_lock [OF assms(1) j] and I = holds_lock(1) [OF assms(1,2)]
  have other: "se_user (sessions s j) \<noteq> se_user (sessions s i)" using J(1) I \<open>j \<noteq> i\<close> by auto
  show "locks (ends i out db s) (se_user (sessions (ends i out db s) j)) = Some j"
    "has_user (committed (ends i out db s)) (se_user (sessions (ends i out db s) j))"
    "knows (sessions (ends i out db s) j) (se_stage (sessions (ends i out db s) j))
      (monitor_of (se_user (sessions (ends i out db s) j)) (committed (ends i out db s)))"
    using J other assms(4) assms(5) [OF other] \<open>j \<noteq> i\<close> by (simp_all add: has_user_def)
qed (simp add: assms(3))

lemma elsewhere_monitor:
  assumes "elsewhere lk op" "lk u \<noteq> None"
  shows "monitor_of u (db_exec now op db) = monitor_of u db"
proof (cases "writes_monitor op")
  case True
  then obtain x where op: "op = Delete_User x" using assms(1) by (cases op) auto
  then have "x \<noteq> u" using assms by auto
  then have "filter (\<lambda>r. w_user_id r = u) (delete_rows (\<lambda>r. exists_row (\<lambda>v. u_id v = x \<and> u_id v = w_user_id r) (users db)) rs) =
      filter (\<lambda>r. w_user_id r = u) rs" for rs
    using \<open>x \<noteq> u\<close> unfolding delete_rows_def filter_filter by (intro filter_cong) (auto simp: exists_row_def)
  then show ?thesis by (simp add: op monitor_of_def delete_user_def delete_users_def delete_devices_def Let_def)
next
  case False
  then show ?thesis by (simp add: monitor_of_def monitor_untouched)
qed

lemma elsewhere_user:
  assumes "elsewhere lk op" "lk u \<noteq> None" "has_user db u"
  shows "has_user (db_exec now op db) u"
proof (cases "writes_users op")
  case True
  then show ?thesis using assms
    by (cases op) (auto simp: has_user_iff seed_admin_def create_user_def update_password_def update_user_role_def set_user_active_def
        create_oidc_user_def upsert_target_matches_def Let_def delete_user_def delete_users_def delete_devices_def
        approve_registration_def with_context_def insert_user_def intro!: imageI dest!: insert_row_Inr split: sum.splits option.splits)
next
  case False
  with assms(3) show ?thesis by (simp add: has_user_def user_rows_untouched)
qed

lemma invariant_other:
  assumes "pg_invariant s" "elsewhere (locks s) op"
  shows "pg_invariant (s\<lparr>committed := db_exec now op (committed s)\<rparr>)"
  using assms elsewhere_monitor [OF assms(2)] elsewhere_user [OF assms(2)]
  by (auto simp: pg_invariant_def db_exec_ok)

text \<open>How a session that knows its rows ends, against the atomic operation.\<close>

definition request_op :: "session \<Rightarrow> db_op" where
  "request_op se = (case se_request se of
     Put val v q \<Rightarrow> Upsert_Monitor (se_user se) (se_key se) val v q
   | Drop v \<Rightarrow> Delete_Monitor (se_user se) (se_key se) v)"

definition atomically :: "session \<Rightarrow> outcome \<Rightarrow> sqlite_db \<Rightarrow> sqlite_db \<Rightarrow> bool" where
  "atomically se out db db' \<longleftrightarrow> db_call (se_now se) (request_op se) db = (Inr out, db')"

lemma row_at_in: "row_at i s = row_in (se_key (sessions s i)) (monitor_of (se_user (sessions s i)) (committed s))"
  by (simp add: row_at_def monitor_row_in)

lemma ending_step:
  assumes "pg_invariant s" "pg_step s s'" "se_stage (sessions s i) \<noteq> se_stage (sessions s' i)" "se_stage (sessions s' i) = Ended out"
  shows "atomically (sessions s i) out (committed s) (committed s') \<and> holding (se_stage (sessions s i))"
  using assms(2)
proof cases
  case (refuse_cas j cur val v q r)
  with assms(3,4) have [simp]: "j = i" by (auto split: if_splits)
  then show ?thesis
    using refuse_cas assms holds_lock [OF assms(1), of i]
    by (auto simp: atomically_def request_op_def answering_def upsert_parts monitor_row_in)
next
  case (refuse_quota j cur us val v q r)
  with assms(3,4) have [simp]: "j = i" by (auto split: if_splits)
  then show ?thesis
    using refuse_quota assms holds_lock [OF assms(1), of i]
    by (auto simp: atomically_def request_op_def answering_def upsert_parts monitor_row_in)
next
  case (commit_put j row prev)
  with assms(3,4) have [simp]: "j = i" by (auto split: if_splits)
  have k: "holding (se_stage (sessions s i))" using commit_put by simp
  note K = holds_lock [OF assms(1) k]
  obtain val v q where rq: "se_request (sessions s i) = Put val v q"
    "upsert_monitor_setting (se_now (sessions s i)) (se_user (sessions s i)) (se_key (sessions s i)) val v q (committed s) =
      (Inr (Written (w_version row) (se_now (sessions s i)) prev), install_row row (committed s))"
    using K(3) commit_put upsert_written_row [OF _ K(2), of _ _ _ row] assms(1)
    by (auto simp: monitor_row_in pg_invariant_def)
  then show ?thesis using commit_put assms(4) by (auto simp: atomically_def request_op_def answering_def)
next
  case (commit_drop j)
  with assms(3,4) have [simp]: "j = i" by (auto split: if_splits)
  then show ?thesis
    using commit_drop assms holds_lock [OF assms(1), of i] delete_hit
    by (auto simp: atomically_def request_op_def answering_def monitor_row_in pg_invariant_def)
next
  case (commit_answer j a)
  with assms(3,4) have [simp]: "j = i" by (auto split: if_splits)
  then show ?thesis
    using commit_answer assms holds_lock [OF assms(1), of i] delete_missed
    by (auto simp: atomically_def request_op_def answering_def monitor_row_in pg_invariant_def)
qed (use assms(3,4) in \<open>auto split: if_splits\<close>)

lemma step_invariant:
  assumes "pg_invariant s" "pg_step s s'"
  shows "pg_invariant s'"
  using assms(2)
proof cases
  case (lock_user i u)
  then show ?thesis using assms(1) by (auto simp: pg_invariant_def)
next
  case (other op now)
  then show ?thesis using invariant_other [OF assms(1)] by blast
next
  case (commit_put i row prev)
  have k: "holding (se_stage (sessions s i))" using commit_put by simp
  note K = holds_lock [OF assms(1) k]
  obtain val v q where rq: "se_request (sessions s i) = Put val v q"
    "upsert_monitor_setting (se_now (sessions s i)) (se_user (sessions s i)) (se_key (sessions s i)) val v q (committed s) =
      (Inr (Written (w_version row) (se_now (sessions s i)) prev), install_row row (committed s))" "w_user_id row = se_user (sessions s i)"
    using K(3) commit_put upsert_written_row [OF _ K(2), of _ _ _ row] assms(1)
    by (auto simp: monitor_row_in pg_invariant_def next_row_def)
  have "db_ok (install_row row (committed s))"
    using monitor_ops_ok(1) [of "committed s", of "se_now (sessions s i)" "se_user (sessions s i)" "se_key (sessions s i)" val v q]
      assms(1) rq(2) by (simp add: pg_invariant_def)
  then show ?thesis using commit_put rq(3) k
    by (auto intro!: invariant_ends [OF assms(1)] install_elsewhere)
next
  case (commit_drop i)
  have "db_ok (remove_row (se_user (sessions s i)) (se_key (sessions s i)) (committed s))"
    using assms(1) unfolding remove_row_def pg_invariant_def
    by (intro db_ok_set_monitor) (auto simp: db_ok_def monitor_ok_def)
  then show ?thesis using commit_drop by (auto intro!: invariant_ends [OF assms(1)] remove_elsewhere)
next
  case (refuse_cas i cur val v q r)
  then show ?thesis using assms(1) by (auto simp: pg_invariant_def [of s] intro!: invariant_ends)
next
  case (refuse_quota i cur us val v q r)
  then show ?thesis using assms(1) by (auto simp: pg_invariant_def [of s] intro!: invariant_ends)
next
  case (commit_answer i a)
  then show ?thesis using assms(1) by (auto simp: pg_invariant_def [of s] intro!: invariant_ends)
next
  case (read_current i val v q)
  then show ?thesis by (auto simp: row_at_in intro!: invariant_at_stage [OF assms(1)])
next
  case (count_usage i cur val v q)
  moreover have "knows (sessions s i) (Have_Current cur) (monitor_of (se_user (sessions s i)) (committed s))"
    using holds_lock(3) [OF assms(1), of i] count_usage by simp
  ultimately show ?thesis by (auto intro!: invariant_at_stage [OF assms(1)])
next
  case (write_row i cur us val v q)
  let ?rows = "monitor_of (se_user (sessions s i)) (committed s)"
  have "knows (sessions s i) (Have_Usage cur us) ?rows"
    using holds_lock(3) [OF assms(1), of i] unfolding write_row(2) by (simp only: holding_simps simp_thms)
  then obtain val' v' q' where k: "cur = row_in (se_key (sessions s i)) ?rows" "us = usage_in ?rows"
    "se_request (sessions s i) = Put val' v' q'" "cas_refused v' cur = None" unfolding knows.simps by blast
  then have "quota_refused q (int (length val)) (row_in (se_key (sessions s i)) ?rows) (usage_in ?rows) = None"
    "cas_refused v (row_in (se_key (sessions s i)) ?rows) = None" using write_row(3,4) by simp_all
  with k(1) have "knows (sessions s i) (Have_Written (next_row (sessions s i) val (row_at i s)) (map_option w_version cur)) ?rows"
    using write_row(3) by (simp add: row_at_in)
  then show ?thesis unfolding write_row(1) using write_row(2) by (intro invariant_at_stage [OF assms(1)]) simp_all
next
  case (drop_hit i v row)
  then show ?thesis by (auto simp: row_at_in intro!: invariant_at_stage [OF assms(1)])
next
  case (drop_miss i v)
  then show ?thesis by (auto simp: row_at_in intro!: invariant_at_stage [OF assms(1)])
next
  case (look_again i v)
  moreover have "knows (sessions s i) Have_Missed (monitor_of (se_user (sessions s i)) (committed s))"
    using holds_lock(3) [OF assms(1), of i] look_again by simp
  ultimately show ?thesis by (auto simp: row_at_in intro!: invariant_at_stage [OF assms(1)])
qed

lemma reachable_invariant: "pg_reachable s \<Longrightarrow> pg_invariant s"
proof (induction rule: pg_reachable.induct)
  case (start s)
  then show ?case by (simp add: pg_invariant_def)
next
  case (step s s')
  then show ?case by (blast intro: step_invariant)
qed

definition just_ended :: "pg_state \<Rightarrow> pg_state \<Rightarrow> nat \<Rightarrow> outcome \<Rightarrow> bool" where
  "just_ended s s' i out \<longleftrightarrow> se_stage (sessions s' i) = Ended out \<and> se_stage (sessions s i) \<noteq> Ended out"

lemma silent_step:
  assumes "pg_step s s'" "\<nexists>i out. just_ended s s' i out"
  shows "committed s' = committed s \<or> (\<exists>now op. elsewhere (locks s) op \<and> committed s' = db_exec now op (committed s))"
  using assms(1)
proof cases
  case (commit_put i row prev)
  with assms(2) show ?thesis by (auto simp: just_ended_def)
next
  case (commit_drop i)
  with assms(2) show ?thesis by (auto simp: just_ended_def)
qed auto

text \<open>C12: Concurrent monitor writes on PostgreSQL happen one after the other: whatever steps of other
  transactions come in between, a transaction that ends has done to the committed database exactly
  what the atomic operation does to it at that moment, with the same answer, and every other step
  leaves the database as it is or is a statement of another kind.\<close>

theorem monitor_transactions_atomic:
  assumes "pg_reachable s" "pg_step s s'"
  shows "(\<forall>i out. just_ended s s' i out \<longrightarrow> atomically (sessions s i) out (committed s) (committed s')) \<and>
    ((\<exists>i out. just_ended s s' i out) \<or> committed s' = committed s \<or>
      (\<exists>now op. elsewhere (locks s) op \<and> committed s' = db_exec now op (committed s)))"
proof
  show "\<forall>i out. just_ended s s' i out \<longrightarrow> atomically (sessions s i) out (committed s) (committed s')"
    using ending_step [OF reachable_invariant [OF assms(1)] assms(2)] by (auto simp: just_ended_def)
  show "(\<exists>i out. just_ended s s' i out) \<or> committed s' = committed s \<or>
      (\<exists>now op. elsewhere (locks s) op \<and> committed s' = db_exec now op (committed s))"
    using silent_step [OF assms(2)] by blast
qed

section \<open>A run\<close>

definition demo_session :: session where
  "demo_session = \<lparr>se_user = ''u'', se_key = ''k'', se_now = 5,
     se_request = Put ''v'' (Some 0) \<lparr>q_max_entries = 9, q_max_total_bytes = 99\<rparr>, se_stage = Begun\<rparr>"

definition demo_sessions :: pg_state where
  "demo_sessions = \<lparr>committed = snd (create_user 1 \<lparr>nu_id = ''u'', nu_username = ''ann'', nu_password_hash = ''h'', nu_role = ''user''\<rparr> empty_db),
     locks = (\<lambda>_. None), sessions = (\<lambda>_. demo_session)\<rparr>"

lemma demo_session_sel:
  "se_user demo_session = ''u''" "se_key demo_session = ''k''" "se_now demo_session = 5"
  "se_request demo_session = Put ''v'' (Some 0) \<lparr>q_max_entries = 9, q_max_total_bytes = 99\<rparr>" "se_stage demo_session = Begun"
  by (simp_all add: demo_session_def)

lemma demo_sessions_sel [simp]: "locks demo_sessions u = None" "sessions demo_sessions i = demo_session"
  by (simp_all add: demo_sessions_def)

lemma demo_committed:
  "has_user (committed demo_sessions) ''u''" "monitor_of ''u'' (committed demo_sessions) = []"
  by (simp_all add: demo_sessions_def create_user_def insert_user_def insert_row_def empty_db_def has_user_def exists_row_def monitor_of_def)

lemma demo_sessions_reachable: "pg_reachable demo_sessions"
proof (rule pg_reachable.start)
  show "db_ok (committed demo_sessions)"
    using user_ops_ok(2) [OF reachable_ok [OF db_reachable.start]] by (simp add: demo_sessions_def)
qed (simp_all add: demo_sessions_def demo_session_sel)

text \<open>Where the first session of the demonstration is.\<close>

definition demo_at :: "stage \<Rightarrow> pg_state \<Rightarrow> bool" where
  "demo_at g s \<longleftrightarrow> pg_reachable s \<and> committed s = committed demo_sessions \<and> sessions s 0 = demo_session\<lparr>se_stage := g\<rparr>"

lemma demo_step:
  assumes "demo_at g s" "pg_step s (at_stage 0 g' s)"
  shows "demo_at g' (at_stage 0 g' s)"
  using assms pg_reachable.step by (auto simp: demo_at_def)

lemma demo_row: "demo_at g s \<Longrightarrow> row_at 0 s = None"
  by (simp add: demo_at_def row_at_in demo_session_sel demo_committed row_in_def)

lemma demo_written: "\<exists>s. demo_at (Have_Written (next_row demo_session ''v'' None) None) s"
proof -
  have "pg_step demo_sessions ((at_stage 0 Locked demo_sessions)\<lparr>locks := (locks demo_sessions)(''u'' := Some 0)\<rparr>)"
    by (rule pg_step.lock_user) (simp_all add: demo_session_sel demo_committed)
  then obtain s1 where s1: "demo_at Locked s1"
    using pg_reachable.step [OF demo_sessions_reachable] by (fastforce simp: demo_at_def)
  then have "pg_step s1 (at_stage 0 (Have_Current None) s1)"
    using pg_step.read_current [of s1 0 "''v''" "Some 0"] demo_row [OF s1] by (simp add: demo_at_def demo_session_sel)
  with s1 obtain s2 where s2: "demo_at (Have_Current None) s2" using demo_step by blast
  then have "pg_step s2 (at_stage 0 (Have_Usage None (0, 0)) s2)"
    using pg_step.count_usage [of s2 0 None "''v''" "Some 0"]
    by (simp add: demo_at_def demo_session_sel cas_refused_def demo_committed usage_in_def)
  with s2 obtain s3 where s3: "demo_at (Have_Usage None (0, 0)) s3" using demo_step by blast
  then have "pg_step s3 (at_stage 0 (Have_Written (next_row (sessions s3 0) ''v'' None) None) s3)"
    using pg_step.write_row [of s3 0 None "(0, 0)" "''v''" "Some 0"] demo_row [OF s3]
    by (simp add: demo_at_def demo_session_sel quota_refused_def)
  moreover have "next_row (sessions s3 0) ''v'' None = next_row demo_session ''v'' None"
    using s3 by (simp add: demo_at_def next_row_def)
  ultimately show ?thesis using s3 demo_step by metis
qed

theorem monitor_transactions_atomic_witness:
  "\<exists>s s'. pg_reachable s \<and> pg_step s s' \<and>
    db_call 5 (Upsert_Monitor ''u'' ''k'' ''v'' (Some 0) \<lparr>q_max_entries = 9, q_max_total_bytes = 99\<rparr>) (committed s) =
      (Inr (O_Write (Written 1 5 None)), committed s')"
proof -
  let ?row = "next_row demo_session ''v'' None"
  obtain s where s: "demo_at (Have_Written ?row None) s" using demo_written by blast
  let ?s' = "ends 0 (O_Write (Written (w_version ?row) (se_now (sessions s 0)) None)) (install_row ?row (committed s)) s"
  have run: "pg_reachable s" "pg_step s ?s'"
    using s pg_step.commit_put [of s 0 ?row None] by (simp_all add: demo_at_def)
  have "just_ended s ?s' 0 (O_Write (Written 1 5 None))"
    using s by (simp add: just_ended_def demo_at_def next_row_def demo_session_sel)
  with monitor_transactions_atomic [OF run] have "atomically (sessions s 0) (O_Write (Written 1 5 None)) (committed s) (committed ?s')"
    by blast
  then have "db_call 5 (Upsert_Monitor ''u'' ''k'' ''v'' (Some 0) \<lparr>q_max_entries = 9, q_max_total_bytes = 99\<rparr>) (committed s) =
      (Inr (O_Write (Written 1 5 None)), committed ?s')"
    using s by (simp add: atomically_def request_op_def demo_at_def demo_session_sel)
  with run show ?thesis by blast
qed

section \<open>Rotations\<close>

text \<open>A rotation reads whether the old token is revoked, revokes it, stores the new one and commits. The
  \<open>UPDATE\<close> locks the row it writes until the commit; the row the check read is not locked.\<close>

datatype rotation_stage =
    Unread
  | Checked
  | Revoked
  | Stored
  | Rotated "unit result"

record rotation =
  ro_old :: string
  ro_new :: string
  ro_user :: string
  ro_device :: "string option"
  ro_expires :: int
  ro_now :: int
  ro_stage :: rotation_stage

record rotations =
  rt_committed :: sqlite_db
  rt_locks :: "string \<Rightarrow> nat option"
  rt_sessions :: "nat \<Rightarrow> rotation"

definition ro_at :: "nat \<Rightarrow> rotation_stage \<Rightarrow> rotations \<Rightarrow> rotations" where
  "ro_at i g s = s\<lparr>rt_sessions := (rt_sessions s)(i := rt_sessions s i\<lparr>ro_stage := g\<rparr>)\<rparr>"

definition ro_token :: "rotation \<Rightarrow> token_row" where
  "ro_token r = \<lparr>t_jti = ro_new r, t_user_id = ro_user r, t_device_id = ro_device r, t_expires_at = ro_expires r,
     t_revoked = False, t_created_at = ro_now r\<rparr>"

definition token_revoked :: "string \<Rightarrow> sqlite_db \<Rightarrow> bool" where
  "token_revoked j db = (case find (\<lambda>r. t_jti r = j) (refresh_tokens db) of None \<Rightarrow> True | Some r \<Rightarrow> t_revoked r)"

inductive rotation_step :: "rotations \<Rightarrow> rotations \<Rightarrow> bool" where
  check: "ro_stage (rt_sessions s i) = Unread \<Longrightarrow> \<not> token_revoked (ro_old (rt_sessions s i)) (rt_committed s) \<Longrightarrow>
    rotation_step s (ro_at i Checked s)"
| refuse: "ro_stage (rt_sessions s i) = Unread \<Longrightarrow> token_revoked (ro_old (rt_sessions s i)) (rt_committed s) \<Longrightarrow>
    rotation_step s (ro_at i (Rotated (Inl ''refresh token already used or revoked'')) s)"
| revoke: "ro_stage (rt_sessions s i) = Checked \<Longrightarrow> rt_locks s (ro_old (rt_sessions s i)) = None \<Longrightarrow>
    rotation_step s ((ro_at i Revoked s)\<lparr>rt_locks := (rt_locks s)(ro_old (rt_sessions s i) := Some i)\<rparr>)"
| store: "ro_stage (rt_sessions s i) = Revoked \<Longrightarrow> insert_token (ro_token (rt_sessions s i)) (rt_committed s) = Inr db \<Longrightarrow>
    rotation_step s (ro_at i Stored s)"
| fail: "ro_stage (rt_sessions s i) = Revoked \<Longrightarrow> insert_token (ro_token (rt_sessions s i)) (rt_committed s) = Inl e \<Longrightarrow>
    rotation_step s ((ro_at i (Rotated (Inl ''failed to store new refresh token'')) s)
      \<lparr>rt_locks := (rt_locks s)(ro_old (rt_sessions s i) := None)\<rparr>)"
| commit: "ro_stage (rt_sessions s i) = Stored \<Longrightarrow>
    insert_token (ro_token (rt_sessions s i)) (revoke_row (ro_old (rt_sessions s i)) (rt_committed s)) = Inr db \<Longrightarrow>
    rotation_step s ((ro_at i (Rotated (Inr ())) s)
      \<lparr>rt_committed := db, rt_locks := (rt_locks s)(ro_old (rt_sessions s i) := None)\<rparr>)"

lemma insert_token_iff:
  "insert_token r db = Inr db' \<longleftrightarrow> t_jti r \<notin> t_jti ` set (refresh_tokens db) \<and> has_user db (t_user_id r) \<and>
     db' = db\<lparr>refresh_tokens := refresh_tokens db @ [r]\<rparr>"
proof -
  have "(\<exists>r'\<in>set (refresh_tokens db). t_jti r' = t_jti r) \<longleftrightarrow> t_jti r \<in> t_jti ` set (refresh_tokens db)" by (metis image_iff)
  then show ?thesis by (auto simp: insert_token_def insert_row_def token_clash_def)
qed

lemma revoke_row_sel [simp]:
  "t_jti ` set (refresh_tokens (revoke_row j db)) = t_jti ` set (refresh_tokens db)" "has_user (revoke_row j db) u = has_user db u"
  by (simp_all add: revoke_row_def has_user_def)

lemma ro_token_sel [simp]: "t_jti (ro_token r) = ro_new r" "t_user_id (ro_token r) = ro_user r"
  by (simp_all add: ro_token_def)

lemma ro_token_stage [simp]: "ro_token (r\<lparr>ro_stage := g\<rparr>) = ro_token r"
  by (simp add: ro_token_def)

text \<open>Run without another in between, these steps are the atomic rotation.\<close>

lemma rotation_alone:
  assumes "ro_stage (rt_sessions s i) = Unread" "rt_locks s (ro_old (rt_sessions s i)) = None"
    and "rotate_refresh_token (ro_now r) (ro_old r) (ro_new r) (ro_user r) (ro_device r) (ro_expires r) (rt_committed s) = (Inr (), db)"
    and "r = rt_sessions s i"
  shows "\<exists>s'. rotation_step\<^sup>*\<^sup>* s s' \<and> rt_committed s' = db \<and> ro_stage (rt_sessions s' i) = Rotated (Inr ())"
proof -
  have live: "\<not> token_revoked (ro_old r) (rt_committed s)"
    and ins: "insert_token (ro_token r) (revoke_row (ro_old r) (rt_committed s)) = Inr db"
    using assms(3) by (auto simp: rotate_refresh_token_def token_revoked_def ro_token_def revoke_row_def with_context_def split: if_splits sum.splits)
  let ?s1 = "ro_at i Checked s"
  let ?s2 = "(ro_at i Revoked ?s1)\<lparr>rt_locks := (rt_locks s)(ro_old r := Some i)\<rparr>"
  let ?s3 = "ro_at i Stored ?s2"
  let ?s4 = "(ro_at i (Rotated (Inr ())) ?s3)\<lparr>rt_committed := db, rt_locks := (rt_locks ?s3)(ro_old r := None)\<rparr>"
  have "rotation_step s ?s1" using assms(1,4) live by (intro check) simp_all
  moreover have "rotation_step ?s1 ?s2"
    using revoke [of ?s1 i] assms(2,4) by (simp add: ro_at_def)
  moreover obtain db' where "insert_token (ro_token r) (rt_committed s) = Inr db'"
    using ins by (simp add: insert_token_iff)
  then have "rotation_step ?s2 ?s3"
    using store [of ?s2 i db'] assms(4) by (simp add: ro_at_def)
  moreover have "rotation_step ?s3 ?s4"
    using commit [of ?s3 i db] ins assms(4) by (simp add: ro_at_def)
  ultimately have "rotation_step\<^sup>*\<^sup>* s ?s4" by (meson converse_rtranclp_into_rtranclp rtranclp.rtrancl_refl)
  then show ?thesis by (intro exI [of _ ?s4]) (simp add: ro_at_def)
qed

text \<open>Two rotations of one token: both read before either writes, and the second writes after the first has committed.\<close>

definition racing :: "rotations \<Rightarrow> string \<Rightarrow> bool" where
  "racing s old \<longleftrightarrow>
     (\<forall>i. rt_locks s (ro_old (rt_sessions s i)) = None \<and> ro_stage (rt_sessions s i) = Unread \<and> ro_old (rt_sessions s i) = old \<and>
        ro_new (rt_sessions s i) \<notin> t_jti ` set (refresh_tokens (rt_committed s)) \<and> has_user (rt_committed s) (ro_user (rt_sessions s i))) \<and>
     ro_new (rt_sessions s 0) \<noteq> ro_new (rt_sessions s 1) \<and> \<not> token_revoked old (rt_committed s)"

definition rotated_db :: "rotation \<Rightarrow> sqlite_db \<Rightarrow> sqlite_db" where
  "rotated_db r db = (revoke_row (ro_old r) db)\<lparr>refresh_tokens := refresh_tokens (revoke_row (ro_old r) db) @ [ro_token r]\<rparr>"

lemma write_and_commit:
  assumes "ro_stage (rt_sessions s i) = Checked" "rt_locks s (ro_old (rt_sessions s i)) = None"
    and "ro_new (rt_sessions s i) \<notin> t_jti ` set (refresh_tokens (rt_committed s))" "has_user (rt_committed s) (ro_user (rt_sessions s i))"
  shows "\<exists>s'. rotation_step\<^sup>*\<^sup>* s s' \<and> rt_committed s' = rotated_db (rt_sessions s i) (rt_committed s) \<and>
    rt_sessions s' = (rt_sessions s)(i := rt_sessions s i\<lparr>ro_stage := Rotated (Inr ())\<rparr>) \<and> rt_locks s' = rt_locks s"
proof -
  let ?r = "rt_sessions s i"
  let ?s2 = "(ro_at i Revoked s)\<lparr>rt_locks := (rt_locks s)(ro_old ?r := Some i)\<rparr>"
  let ?s3 = "ro_at i Stored ?s2"
  let ?s4 = "(ro_at i (Rotated (Inr ())) ?s3)\<lparr>rt_committed := rotated_db ?r (rt_committed s), rt_locks := (rt_locks ?s3)(ro_old ?r := None)\<rparr>"
  have "rotation_step s ?s2" using assms(1,2) by (rule revoke)
  moreover have "rotation_step ?s2 ?s3" using store [of ?s2 i] assms(3,4) by (simp add: ro_at_def insert_token_iff)
  moreover have "rotation_step ?s3 ?s4" using commit [of ?s3 i] assms(3,4) by (simp add: ro_at_def insert_token_iff rotated_db_def)
  ultimately have "rotation_step\<^sup>*\<^sup>* s ?s4" by (meson converse_rtranclp_into_rtranclp rtranclp.rtrancl_refl)
  moreover have "rt_locks ?s4 = rt_locks s" using assms(2) by (auto simp: ro_at_def)
  ultimately show ?thesis by (intro exI [of _ ?s4]) (simp add: ro_at_def)
qed

lemma rotated_db_sel:
  "t_jti ` set (refresh_tokens (rotated_db r db)) = insert (ro_new r) (t_jti ` set (refresh_tokens db))"
  "has_user (rotated_db r db) u = has_user db u"
  by (simp_all add: rotated_db_def) (simp add: has_user_def revoke_row_def)

lemma rotated_valid: "ro_new r \<notin> t_jti ` set (refresh_tokens db) \<Longrightarrow> \<not> token_revoked (ro_new r) (rotated_db r db)"
proof -
  assume "ro_new r \<notin> t_jti ` set (refresh_tokens db)"
  then have "\<forall>t\<in>set (refresh_tokens db). t_jti t \<noteq> ro_new r" by (metis imageI)
  then have "find (\<lambda>t. t_jti t = ro_new r) (refresh_tokens (revoke_row (ro_old r) db)) = None"
    by (auto simp: find_None_iff revoke_row_def set_update_rows)
  then show ?thesis by (simp add: token_revoked_def rotated_db_def find_append ro_token_def)
qed

lemma other_valid:
  assumes "\<not> token_revoked j db" "j \<noteq> ro_old r"
  shows "\<not> token_revoked j (rotated_db r db)"
proof -
  have "find (\<lambda>t. t_jti t = j) (update_rows (\<lambda>t. t_jti t = ro_old r) f rs) = find (\<lambda>t. t_jti t = j) rs"
    if "\<And>t. t_jti (f t) = t_jti t" for f :: "token_row \<Rightarrow> token_row" and rs
    using that assms(2) by (induction rs) (auto simp: update_rows_def)
  then show ?thesis using assms(1)
    by (auto simp: token_revoked_def rotated_db_def revoke_row_def find_append split: option.splits)
qed


definition demo_race :: rotations where
  "demo_race = \<lparr>rt_committed = snd (store_refresh_token 1 ''a'' ''u'' None 9 (committed demo_sessions)), rt_locks = (\<lambda>_. None),
     rt_sessions = (\<lambda>i. \<lparr>ro_old = ''a'', ro_new = (if i = 0 then ''b'' else ''c''), ro_user = ''u'', ro_device = None,
       ro_expires = 9, ro_now = 2, ro_stage = Unread\<rparr>)\<rparr>"

lemma demo_racing: "racing demo_race ''a''"
proof -
  have "refresh_tokens (committed demo_sessions) = []"
    by (simp add: demo_sessions_def create_user_def insert_user_def insert_row_def empty_db_def)
  then have "rt_committed demo_race = (committed demo_sessions)\<lparr>refresh_tokens :=
      [\<lparr>t_jti = ''a'', t_user_id = ''u'', t_device_id = None, t_expires_at = 9, t_revoked = False, t_created_at = 1\<rparr>]\<rparr>"
    by (simp add: demo_race_def store_refresh_token_def with_context_def insert_token_def insert_row_def demo_committed)
  then show ?thesis using demo_committed(1)
    by (simp add: racing_def token_revoked_def has_user_def) (simp add: demo_race_def)
qed


end
