(* ===== verification/Pg_Approval.thy ===== *)
theory Pg_Approval
  imports Repository
begin

text \<open>
  The approval of a registration on PostgreSQL (\<open>approve_registration\<close> of \<open>src/src/db/postgres.rs\<close>),
  statement by statement at READ COMMITTED. The transaction reads the registration without a lock, looks
  for an account of its name, inserts the account, whose name and id no other transaction can insert until
  it ends, and deletes the registration whether or not it is still there. The deletion and the commit are
  one step: a statement that wants the deleted row waits for the commit. Operations of other transactions
  happen in between, atomically.
\<close>

section \<open>Steps\<close>

datatype approval_stage =
    Unfetched
  | Fetched pending_row
  | Free_Name pending_row
  | Inserted user_row
  | Concluded "bool result"

record approval =
  ap_registration :: string
  ap_uuid :: string
  ap_now :: int
  ap_stage :: approval_stage

record approvals =
  aa_committed :: sqlite_db
  aa_sessions :: "nat \<Rightarrow> approval"

definition ap_at :: "nat \<Rightarrow> approval_stage \<Rightarrow> approvals \<Rightarrow> approvals" where
  "ap_at i g s = s\<lparr>aa_sessions := (aa_sessions s)(i := aa_sessions s i\<lparr>ap_stage := g\<rparr>)\<rparr>"

definition approved_user :: "approval \<Rightarrow> pending_row \<Rightarrow> user_row" where
  "approved_user a p = \<lparr>u_id = ap_uuid a, u_username = p_username p, u_password_hash = p_password_hash p, u_role = ''user'',
     u_created_at = ap_now a, u_updated_at = ap_now a, u_oidc_sub = None, u_oidc_issuer = None, u_active = True\<rparr>"

definition drop_pending :: "string \<Rightarrow> sqlite_db \<Rightarrow> sqlite_db" where
  "drop_pending i db = db\<lparr>pending_registrations := delete_rows (\<lambda>r. p_id r = i) (pending_registrations db)\<rparr>"

text \<open>The accounts inserted and not yet committed: an insert that clashes with one of them waits.\<close>

definition uncommitted :: "approvals \<Rightarrow> user_row \<Rightarrow> bool" where
  "uncommitted s u \<longleftrightarrow> (\<exists>i. ap_stage (aa_sessions s i) = Inserted u)"

definition waits :: "approvals \<Rightarrow> user_row \<Rightarrow> bool" where
  "waits s u \<longleftrightarrow> (\<exists>u'. uncommitted s u' \<and> user_clash u u')"

definition free_to_commit :: "approvals \<Rightarrow> sqlite_db \<Rightarrow> bool" where
  "free_to_commit s db \<longleftrightarrow> (\<forall>u. uncommitted s u \<longrightarrow> (\<forall>u'\<in>set (users db). u' \<in> set (users (aa_committed s)) \<or> \<not> user_clash u u'))"

inductive approval_step :: "approvals \<Rightarrow> approvals \<Rightarrow> bool" where
  fetch: "ap_stage (aa_sessions s i) = Unfetched \<Longrightarrow>
    find (\<lambda>r. p_id r = ap_registration (aa_sessions s i)) (pending_registrations (aa_committed s)) = Some p \<Longrightarrow>
    approval_step s (ap_at i (Fetched p) s)"
| missing: "ap_stage (aa_sessions s i) = Unfetched \<Longrightarrow>
    find (\<lambda>r. p_id r = ap_registration (aa_sessions s i)) (pending_registrations (aa_committed s)) = None \<Longrightarrow>
    approval_step s (ap_at i (Concluded (Inr False)) s)"
| taken: "ap_stage (aa_sessions s i) = Fetched p \<Longrightarrow> rows_affected (\<lambda>r. u_username r = p_username p) (users (aa_committed s)) > 0 \<Longrightarrow>
    approval_step s (ap_at i (Concluded (Inl ''UNIQUE constraint: username already exists in users'')) s)"
| not_taken: "ap_stage (aa_sessions s i) = Fetched p \<Longrightarrow> rows_affected (\<lambda>r. u_username r = p_username p) (users (aa_committed s)) = 0 \<Longrightarrow>
    approval_step s (ap_at i (Free_Name p) s)"
| create: "ap_stage (aa_sessions s i) = Free_Name p \<Longrightarrow> u = approved_user (aa_sessions s i) p \<Longrightarrow> \<not> waits s u \<Longrightarrow>
    insert_user u (aa_committed s) = Inr db \<Longrightarrow> approval_step s (ap_at i (Inserted u) s)"
| clash: "ap_stage (aa_sessions s i) = Free_Name p \<Longrightarrow> u = approved_user (aa_sessions s i) p \<Longrightarrow> \<not> waits s u \<Longrightarrow>
    insert_user u (aa_committed s) = Inl e \<Longrightarrow> approval_step s (ap_at i (Concluded (Inl ''approve_registration: create user'')) s)"
| commit: "ap_stage (aa_sessions s i) = Inserted u \<Longrightarrow> insert_user u (aa_committed s) = Inr db \<Longrightarrow>
    approval_step s ((ap_at i (Concluded (Inr True)) s)\<lparr>aa_committed := drop_pending (ap_registration (aa_sessions s i)) db\<rparr>)"
| other: "free_to_commit s (db_exec now op (aa_committed s)) \<Longrightarrow>
    approval_step s (s\<lparr>aa_committed := db_exec now op (aa_committed s)\<rparr>)"

section \<open>Alone\<close>

lemma insert_user_iff:
  "insert_user u db = Inr db' \<longleftrightarrow> (\<forall>r\<in>set (users db). \<not> user_clash u r) \<and> db' = db\<lparr>users := users db @ [u]\<rparr>"
  by (auto simp: insert_user_def insert_row_def)

definition quiet :: "approvals \<Rightarrow> bool" where
  "quiet s \<longleftrightarrow> (\<forall>u. \<not> uncommitted s u)"

lemma quiet_waits: "quiet s \<Longrightarrow> \<not> waits s u"
  by (simp add: quiet_def waits_def)

lemma ap_at_sel [simp]:
  "aa_committed (ap_at i g s) = aa_committed s" "ap_stage (aa_sessions (ap_at i g s) j) = (if j = i then g else ap_stage (aa_sessions s j))"
  "ap_registration (aa_sessions (ap_at i g s) j) = ap_registration (aa_sessions s j)" "ap_uuid (aa_sessions (ap_at i g s) j) = ap_uuid (aa_sessions s j)"
  "ap_now (aa_sessions (ap_at i g s) j) = ap_now (aa_sessions s j)"
  by (simp_all add: ap_at_def)

lemma approved_user_at [simp]: "approved_user (aa_sessions (ap_at i g s) j) p = approved_user (aa_sessions s j) p"
  by (simp add: approved_user_def)

lemma quiet_at: "quiet s \<Longrightarrow> (\<And>u. g \<noteq> Inserted u) \<Longrightarrow> quiet (ap_at i g s)"
  by (auto simp: quiet_def uncommitted_def)

text \<open>Run without another in between, the steps are the atomic operation.\<close>

lemma approval_alone:
  assumes "quiet s" "ap_stage (aa_sessions s i) = Unfetched" "a = aa_sessions s i"
  shows "\<exists>s'. approval_step\<^sup>*\<^sup>* s s' \<and>
    (case approve_registration (ap_now a) (ap_uuid a) (ap_registration a) (aa_committed s) of (r, db) \<Rightarrow>
       ap_stage (aa_sessions s' i) = Concluded r \<and> aa_committed s' = db)"
proof (cases "find (\<lambda>r. p_id r = ap_registration a) (pending_registrations (aa_committed s))")
  case None
  with assms have "approval_step s (ap_at i (Concluded (Inr False)) s)" by (intro missing) simp_all
  with None show ?thesis by (intro exI [of _ "ap_at i (Concluded (Inr False)) s"]) (simp add: approve_registration_def r_into_rtranclp)
next
  case (Some p)
  let ?s1 = "ap_at i (Fetched p) s" and ?s2 = "ap_at i (Free_Name p) (ap_at i (Fetched p) s)" and ?u = "approved_user a p"
  have 1: "approval_step s ?s1" using assms Some by (intro fetch) simp_all
  show ?thesis
  proof (cases "rows_affected (\<lambda>r. u_username r = p_username p) (users (aa_committed s)) > 0")
    case True
    let ?e = "ap_at i (Concluded (Inl ''UNIQUE constraint: username already exists in users'')) ?s1"
    have "approval_step ?s1 ?e" by (rule taken [where p = p]) (use True in simp_all)
    with 1 have "approval_step\<^sup>*\<^sup>* s ?e" by (meson converse_rtranclp_into_rtranclp r_into_rtranclp)
    with Some True show ?thesis by (intro exI [of _ ?e]) (simp add: approve_registration_def)
  next
    case False
    have 2: "approval_step ?s1 ?s2" by (rule not_taken [where p = p]) (use False in simp_all)
    have quiet: "quiet ?s2" using assms(1) by (intro quiet_at) simp_all
    show ?thesis
    proof (cases "insert_user ?u (aa_committed s)")
      case (Inl e)
      let ?e = "ap_at i (Concluded (Inl ''approve_registration: create user'')) ?s2"
      have "approval_step ?s2 ?e" by (rule clash [where p = p and e = e]) (use Inl assms(3) quiet_waits [OF quiet] in simp_all)
      with 1 2 have "approval_step\<^sup>*\<^sup>* s ?e" by (meson converse_rtranclp_into_rtranclp r_into_rtranclp)
      with Some False Inl show ?thesis by (intro exI [of _ ?e]) (simp add: approve_registration_def approved_user_def)
    next
      case (Inr db)
      let ?s3 = "ap_at i (Inserted ?u) ?s2"
      let ?s4 = "(ap_at i (Concluded (Inr True)) ?s3)\<lparr>aa_committed := drop_pending (ap_registration a) db\<rparr>"
      have 3: "approval_step ?s2 ?s3" by (rule create [where p = p and db = db]) (use Inr assms(3) quiet_waits [OF quiet] in simp_all)
      have "approval_step ?s3 ?s4" using commit [of ?s3 i ?u db] Inr assms(3) by simp
      with 1 2 3 have "approval_step\<^sup>*\<^sup>* s ?s4" by (meson converse_rtranclp_into_rtranclp r_into_rtranclp)
      moreover have "p_id p = ap_registration a" using Some by (auto simp: find_Some_iff)
      ultimately show ?thesis using Some False Inr
        by (intro exI [of _ ?s4]) (simp add: approve_registration_def approved_user_def drop_pending_def)
    qed
  qed
qed

lemma drop_pending_ok: "db_ok db \<Longrightarrow> db_ok (drop_pending i db)"
  unfolding drop_pending_def by (intro db_ok_set_pending) (auto simp: db_ok_def pending_ok_def delete_rows_def distinct_map_filter)

lemma approval_keeps_schema:
  assumes "approval_step\<^sup>*\<^sup>* s s'" "db_ok (aa_committed s)"
  shows "db_ok (aa_committed s')"
  using assms
proof (induction rule: rtranclp_induct)
  case (step t t')
  from step.hyps(2) step.IH [OF step.prems] show ?case
    by cases (auto intro: drop_pending_ok db_ok_add_user db_exec_ok)
qed

section \<open>Rejected and approved\<close>

text \<open>C14: On PostgreSQL a rejected registration can still become an account: while an approval has read
  the registration, a rejection of it answers that it was removed, and the approval then creates
  the account and answers that it was approved.\<close>

theorem rejected_registration_approved:
  assumes "quiet s" "ap_stage (aa_sessions s i) = Unfetched" "a = aa_sessions s i"
    and "find (\<lambda>r. p_id r = ap_registration a) (pending_registrations (aa_committed s)) = Some p"
    and "\<forall>r\<in>set (users (aa_committed s)). \<not> user_clash (approved_user a p) r"
  shows "\<exists>s1 db s2. approval_step\<^sup>*\<^sup>* s s1 \<and> reject_registration (ap_registration a) (aa_committed s1) = (Inr True, db) \<and>
    approval_step s1 (s1\<lparr>aa_committed := db\<rparr>) \<and> approval_step\<^sup>*\<^sup>* (s1\<lparr>aa_committed := db\<rparr>) s2 \<and>
    ap_stage (aa_sessions s2 i) = Concluded (Inr True) \<and> approved_user a p \<in> set (users (aa_committed s2)) \<and>
    \<not> exists_row (\<lambda>r. p_id r = ap_registration a) (pending_registrations (aa_committed s2))"
proof -
  let ?u = "approved_user a p" and ?s1 = "ap_at i (Fetched p) s"
  define db where "db = drop_pending (ap_registration a) (aa_committed s)"
  have quiet: "quiet (ap_at i g s)" if "\<And>u. g \<noteq> Inserted u" for g using assms(1) that by (rule quiet_at)
  have "approval_step s ?s1" using assms(2-4) by (intro fetch) simp_all
  moreover have "\<exists>r\<in>set (pending_registrations (aa_committed s)). p_id r = ap_registration a"
    using assms(4) by (auto dest: find_Some_iff_unique)
  then have rejected: "reject_registration (ap_registration a) (aa_committed ?s1) = (Inr True, db)"
    by (simp add: reject_registration_def db_def drop_pending_def rows_affected_pos exists_row_def)
  moreover have "approval_step ?s1 (?s1\<lparr>aa_committed := db_exec 0 (Reject_Registration (ap_registration a)) (aa_committed ?s1)\<rparr>)"
    by (rule other) (use quiet [of "Fetched p"] in \<open>simp add: free_to_commit_def quiet_def\<close>)
  then have "approval_step ?s1 (?s1\<lparr>aa_committed := db\<rparr>)" using rejected by simp
  moreover
  let ?t1 = "?s1\<lparr>aa_committed := db\<rparr>" let ?t2 = "ap_at i (Free_Name p) ?t1" let ?t3 = "ap_at i (Inserted ?u) ?t2"
  let ?t4 = "(ap_at i (Concluded (Inr True)) ?t3)\<lparr>aa_committed := drop_pending (ap_registration a) (db\<lparr>users := users db @ [?u]\<rparr>)\<rparr>"
  have users: "users db = users (aa_committed s)" by (simp add: db_def drop_pending_def)
  have free: "insert_user ?u db = Inr (db\<lparr>users := users db @ [?u]\<rparr>)" using assms(5) by (simp add: insert_user_iff users)
  have "rows_affected (\<lambda>r. u_username r = p_username p) (users db) = 0"
    using assms(5) by (auto simp: rows_affected_def filter_empty_conv users user_clash_def approved_user_def)
  then have "approval_step ?t1 ?t2" by (intro not_taken) simp_all
  moreover have "\<not> waits ?t2 ?u" using assms(1) by (auto simp: quiet_def waits_def uncommitted_def)
  then have "approval_step ?t2 ?t3" by (intro create [where p = p]) (use free assms(3) in simp_all)
  moreover have "approval_step ?t3 ?t4" using commit [of ?t3 i ?u] free assms(3) by simp
  ultimately have "approval_step\<^sup>*\<^sup>* s ?s1" "approval_step ?s1 ?t1" "approval_step\<^sup>*\<^sup>* ?t1 ?t4"
    by (meson converse_rtranclp_into_rtranclp rtranclp.rtrancl_refl)+
  with rejected show ?thesis
    by (intro exI [of _ ?s1] exI [of _ db] exI [of _ ?t4]) (simp add: drop_pending_def exists_row_def)
qed

definition demo_approvals :: approvals where
  "demo_approvals = \<lparr>aa_committed = empty_db\<lparr>pending_registrations :=
       [\<lparr>p_id = ''p'', p_username = ''eve'', p_password_hash = ''h'', p_requested_at = 1\<rparr>]\<rparr>,
     aa_sessions = (\<lambda>_. \<lparr>ap_registration = ''p'', ap_uuid = ''u'', ap_now = 5, ap_stage = Unfetched\<rparr>)\<rparr>"

theorem rejected_registration_approved_witness:
  "\<exists>s1 db s2. approval_step\<^sup>*\<^sup>* demo_approvals s1 \<and> reject_registration ''p'' (aa_committed s1) = (Inr True, db) \<and>
    approval_step\<^sup>*\<^sup>* (s1\<lparr>aa_committed := db\<rparr>) s2 \<and> map u_username (users (aa_committed s2)) \<noteq> []"
proof -
  have "quiet demo_approvals" by (simp add: quiet_def uncommitted_def demo_approvals_def)
  then have "\<exists>s1 db s2. approval_step\<^sup>*\<^sup>* demo_approvals s1 \<and> reject_registration ''p'' (aa_committed s1) = (Inr True, db) \<and>
      approval_step\<^sup>*\<^sup>* (s1\<lparr>aa_committed := db\<rparr>) s2 \<and> users (aa_committed s2) \<noteq> []"
    using rejected_registration_approved [of demo_approvals 0 "aa_sessions demo_approvals 0"
        "\<lparr>p_id = ''p'', p_username = ''eve'', p_password_hash = ''h'', p_requested_at = 1\<rparr>"]
    by (fastforce simp: demo_approvals_def empty_db_def)
  then show ?thesis by simp
qed

end
