(* ===== verification/Decimal.thy ===== *)
theory Decimal
  imports Query
begin

text \<open>
  Decimal numbers as Rust's standard library prints and parses them (\<open>format!\<close>, \<open>to_string\<close> and
  \<open>str::parse\<close> of the integer types), and that what is printed is parsed. The signed parser is in
  theory \<open>Query\<close>.
\<close>

text \<open>\<open>format!\<close> of an integer.\<close>

fun show_nat :: "nat \<Rightarrow> string" where
  "show_nat n = (if n < 10 then [char_of (48 + n)] else show_nat (n div 10) @ [char_of (48 + n mod 10)])"

declare show_nat.simps [simp del]

definition show_int :: "int \<Rightarrow> string" where
  "show_int i = (if i < 0 then CHR ''-'' # show_nat (nat (- i)) else show_nat (nat i))"

text \<open>\<open>parse\<close> into an unsigned type with the given maximum.\<close>

definition parse_uint :: "nat \<Rightarrow> string \<Rightarrow> nat option" where
  "parse_uint m s =
     (case parse_digits (case s of c # r \<Rightarrow> if c = CHR ''+'' then r else s | [] \<Rightarrow> []) of
        None \<Rightarrow> None
      | Some n \<Rightarrow> if n \<le> int m then Some (nat n) else None)"

definition u8_max :: nat where "u8_max = 255"
definition u16_max :: nat where "u16_max = 65535"
definition u32_max :: nat where "u32_max = 4294967295"

section \<open>What is printed is parsed\<close>

lemma digit_char: "n < 10 \<Longrightarrow> byte (char_of (48 + n)) = 48 + n"
  by simp

lemma digits_value_snoc: "digits_value (s @ [c]) = 10 * digits_value s + (int (byte c) - 48)"
  by (simp add: digits_value_def)

lemma show_nat_digits: "show_nat n \<noteq> [] \<and> list_all ascii_digit (show_nat n) \<and> digits_value (show_nat n) = int n"
proof (induction n rule: less_induct)
  case (less n)
  show ?case
  proof (cases "n < 10")
    case True
    then show ?thesis by (subst (1 2 3) show_nat.simps) (simp add: digits_value_def ascii_digit_def)
  next
    case False
    then have "n div 10 < n" by simp
    note IH = less.IH [OF this]
    have "show_nat n = show_nat (n div 10) @ [char_of (48 + n mod 10)]" using False by (subst show_nat.simps) simp
    moreover have "n mod 10 < 10" "10 * (n div 10) + n mod 10 = n" by simp_all
    then have "10 * int (n div 10) + int (n mod 10) = int n" "n mod 10 \<le> 9" by linarith+
    ultimately show ?thesis using IH by (simp add: digits_value_snoc ascii_digit_def)
  qed
qed

lemma parse_digits_show [simp]: "parse_digits (show_nat n) = Some (int n)"
  using show_nat_digits [of n] by (simp add: parse_digits_def)

lemma show_nat_head: "\<exists>c r. show_nat n = c # r \<and> ascii_digit c"
  using show_nat_digits [of n] by (cases "show_nat n") auto

lemma parse_uint_show [simp]: "n \<le> m \<Longrightarrow> parse_uint m (show_nat n) = Some n"
proof -
  assume "n \<le> m"
  obtain c r where s: "show_nat n = c # r" "ascii_digit c" using show_nat_head by blast
  then have "c \<noteq> CHR ''+''" by (auto simp: ascii_digit_def byte_def)
  then have "(case show_nat n of c # r \<Rightarrow> if c = CHR ''+'' then r else show_nat n | [] \<Rightarrow> []) = show_nat n" by (simp add: s)
  then show ?thesis using \<open>n \<le> m\<close> by (simp add: parse_uint_def)
qed

lemma parse_i64_show [simp]: "in_i64 i \<Longrightarrow> parse_i64 (show_int i) = Some i"
proof (cases "i < 0")
  case True
  moreover assume "in_i64 i"
  ultimately show ?thesis by (simp add: parse_i64_def show_int_def)
next
  case False
  moreover assume "in_i64 i"
  moreover obtain c r where s: "show_nat (nat i) = c # r" "ascii_digit c" using show_nat_head by blast
  moreover have "c \<noteq> CHR ''+''" "c \<noteq> CHR ''-''" using s(2) by (auto simp: ascii_digit_def byte_def)
  moreover have "parse_digits (c # r) = Some i" using parse_digits_show [of "nat i"] False s(1) by simp
  ultimately show ?thesis by (simp add: parse_i64_def show_int_def)
qed

lemma show_nat_int: "show_nat n = show_int (int n)"
  by (simp add: show_int_def)

end
