(* ===== verification/Clickhouse.thy ===== *)
theory Clickhouse
  imports Event_Api Decimal
begin

text \<open>
  The ClickHouse event store (\<open>src/src/events/clickhouse.rs\<close>): the SQL text it posts and what it makes
  of the answers. The server is a parameter \<open>post\<close>, which takes the text of a statement to the body of
  the answer or an error and a new state; \<open>json_row\<close> parses one line of \<open>JSONEachRow\<close> into an event.
  An operation runs alone (for windows the code holds a lock per user).
\<close>

section \<open>Text\<close>

definition bslash :: char where "bslash = CHR 0x5C"
definition squote :: char where "squote = CHR 0x27"
definition LF :: char where "LF = CHR 0x0A"
definition CR :: char where "CR = CHR 0x0D"
definition TAB :: char where "TAB = CHR 0x09"

definition show_flag :: "bool \<Rightarrow> string" where
  "show_flag b = (if b then ''1'' else ''0'')"

definition replace_char :: "char \<Rightarrow> string \<Rightarrow> string \<Rightarrow> string" where
  "replace_char c rep s = concat (map (\<lambda>d. if d = c then rep else [d]) s)"

definition escape :: "string \<Rightarrow> string" where
  "escape s = replace_char TAB [bslash, CHR ''t''] (replace_char CR [bslash, CHR ''r''] (replace_char LF [bslash, CHR ''n'']
     (replace_char nul [] (replace_char squote [bslash, squote] (replace_char bslash [bslash, bslash] s)))))"

definition quoted :: "string \<Rightarrow> string" where
  "quoted s = [squote] @ escape s @ [squote]"

fun join :: "string \<Rightarrow> string list \<Rightarrow> string" where
  "join sep [] = []"
| "join sep [x] = x"
| "join sep (x # xs) = x @ sep @ join sep xs"

fun split_on :: "char \<Rightarrow> string \<Rightarrow> string list" where
  "split_on c [] = [[]]"
| "split_on c (d # s) = (if d = c then [] # split_on c s else (d # hd (split_on c s)) # tl (split_on c s))"

text \<open>\<open>str::lines\<close>: a carriage return belongs to the line end only before a line feed.\<close>

definition strip_cr :: "string \<Rightarrow> string" where
  "strip_cr l = (if l \<noteq> [] \<and> last l = CR then butlast l else l)"

definition str_lines :: "string \<Rightarrow> string list" where
  "str_lines s = (let p = split_on LF s in map strip_cr (butlast p) @ (if last p = [] then [] else [last p]))"

fun tsv_unescape :: "string \<Rightarrow> string" where
  "tsv_unescape [] = []"
| "tsv_unescape (c # s) =
     (if c \<noteq> bslash then c # tsv_unescape s
      else (case s of
              [] \<Rightarrow> [bslash]
            | d # r \<Rightarrow>
                (if d = CHR ''t'' then [TAB] else if d = CHR ''n'' then [LF] else if d = CHR ''r'' then [CR]
                 else if d = bslash then [bslash] else [bslash, d]) @ tsv_unescape r))"

section \<open>Statements\<close>

definition EVENT_COLS :: string where
  "EVENT_COLS = ''device_id, user_id, msg_id, ts_ms, provider, model, project, session, input_tokens, output_tokens, cache_creation_input_tokens, cache_read_input_tokens, usage_total''"

definition WINDOW_COLS :: string where
  "WINDOW_COLS = ''user_id, provider, limit_id, account, window_kind, window_end_ms, raw_resets_at_ms, window_minutes, peak_pct_x100, last_pct_x100, observed_ts_ms, first_seen_ms, finalized, maxed_out, limit_reached_kind, time_to_100_ms, active_ms, last_sample_gap_ms, sampled_active_fraction, n_samples, plan''"

definition tuple :: "string list \<Rightarrow> string" where
  "tuple vs = ''('' @ join '','' vs @ '')''"

definition event_values :: "server_event \<Rightarrow> string" where
  "event_values e = tuple [quoted (device_id e), quoted (user_id e), quoted (msg_id e), show_int (ts_ms e), quoted (provider e),
     quoted (model e), quoted (project e), quoted (session e), show_nat (input_tokens e), show_nat (output_tokens e),
     show_nat (cache_creation_input_tokens e), show_nat (cache_read_input_tokens e), show_nat (usage_total e)]"

definition insert_events_sql :: "server_event list \<Rightarrow> string" where
  "insert_events_sql es = ''INSERT INTO toki_events ('' @ EVENT_COLS @ '') VALUES '' @ join '','' (map event_values es)"

definition user_clause :: "user_filter \<Rightarrow> string" where
  "user_clause f = (case f of
     Single u \<Rightarrow> ''AND user_id = '' @ quoted u
   | Multiple us \<Rightarrow> ''AND user_id IN ('' @ join '','' (map quoted us) @ '')''
   | All \<Rightarrow> [])"

definition select_events_sql :: "int \<Rightarrow> int \<Rightarrow> user_filter \<Rightarrow> nat \<Rightarrow> string" where
  "select_events_sql since until f limit =
     ''SELECT '' @ EVENT_COLS @ '' FROM toki_events FINAL WHERE ts_ms >= '' @ show_int since @ '' AND ts_ms < '' @ show_int until @
     '' '' @ user_clause f @ '' ORDER BY ts_ms LIMIT '' @ show_nat limit @ '' FORMAT JSONEachRow''"

definition delete_device_sql :: "string \<Rightarrow> string" where
  "delete_device_sql dev = ''ALTER TABLE toki_events DELETE WHERE device_id = '' @ quoted dev"

definition select_windows_sql :: "string \<Rightarrow> string option \<Rightarrow> int \<Rightarrow> string" where
  "select_windows_sql user prov since =
     ''SELECT '' @ WINDOW_COLS @ '' FROM toki_windows FINAL WHERE user_id = '' @ quoted user @
     (case prov of None \<Rightarrow> [] | Some p \<Rightarrow> '' AND provider = '' @ quoted p) @
     '' AND window_end_ms >= '' @ show_int since @ '' FORMAT TSV''"

definition window_values :: "string \<Rightarrow> string \<Rightarrow> nat \<Rightarrow> wire_window \<Rightarrow> string" where
  "window_values user prov now w = tuple [quoted user, quoted prov, quoted (limit_id w), quoted (account w), show_nat (window_kind w),
     show_int (window_end_ms w), show_int (raw_resets_at_ms w), show_nat (window_minutes w), show_nat (peak_pct_x100 w),
     show_nat (last_pct_x100 w), show_int (observed_ts_ms w), show_int (first_seen_ms w), show_flag (finalized w),
     show_flag (maxed_out w), show_nat (limit_reached_kind w), show_int (time_to_100_ms w), show_nat (active_ms w),
     show_int (last_sample_gap_ms w), show_nat (sampled_active_fraction w), show_nat (n_samples w), quoted (plan w), show_nat now]"

definition insert_windows_sql :: "string \<Rightarrow> string \<Rightarrow> nat \<Rightarrow> wire_window list \<Rightarrow> string" where
  "insert_windows_sql user prov now ws =
     ''INSERT INTO toki_windows ('' @ WINDOW_COLS @ '', updated_at) VALUES '' @ join '','' (map (window_values user prov now) ws)"

definition count_stale_sql :: "int \<Rightarrow> string" where
  "count_stale_sql cutoff = ''SELECT count() FROM toki_windows WHERE window_end_ms < '' @ show_int cutoff @ '' FORMAT TSV''"

definition delete_stale_sql :: "int \<Rightarrow> string" where
  "delete_stale_sql cutoff = ''ALTER TABLE toki_windows DELETE WHERE window_end_ms < '' @ show_int cutoff"

definition delete_user_windows_sql :: "string \<Rightarrow> string" where
  "delete_user_windows_sql user = ''ALTER TABLE toki_windows DELETE WHERE user_id = '' @ quoted user"

section \<open>Operations\<close>

type_synonym 's ch_server = "string \<Rightarrow> 's \<Rightarrow> string result \<times> 's"

text \<open>An error of the server is shown after the name of the operation.\<close>

definition ch_send :: "string \<Rightarrow> 's ch_server \<Rightarrow> string \<Rightarrow> 's \<Rightarrow> string result \<times> 's" where
  "ch_send what post q s = (case post q s of (Inl e, s') \<Rightarrow> (Inl (what @ '' failed: '' @ e), s') | (Inr b, s') \<Rightarrow> (Inr b, s'))"

definition ch_do :: "string \<Rightarrow> 's ch_server \<Rightarrow> string \<Rightarrow> 'a \<Rightarrow> 's \<Rightarrow> 'a result \<times> 's" where
  "ch_do what post q x s = (case ch_send what post q s of (Inl e, s') \<Rightarrow> (Inl e, s') | (Inr _, s') \<Rightarrow> (Inr x, s'))"

definition ch_upsert_events :: "'s ch_server \<Rightarrow> server_event list \<Rightarrow> 's \<Rightarrow> unit result \<times> 's" where
  "ch_upsert_events post es s =
     (if es = [] then (Inr (), s) else ch_do ''ClickHouse INSERT'' post (insert_events_sql es) () s)"

fun parse_rows :: "(string \<Rightarrow> 'e option) \<Rightarrow> string list \<Rightarrow> 'e list result" where
  "parse_rows json_row [] = Inr []"
| "parse_rows json_row (l # ls) =
     (if l = [] then parse_rows json_row ls
      else (case json_row l of
              None \<Rightarrow> Inl (''parse ClickHouse row: '' @ take 100 l)
            | Some e \<Rightarrow> res_bind (parse_rows json_row ls) (\<lambda>es. Inr (e # es))))"

definition ch_query_events ::
  "'s ch_server \<Rightarrow> (string \<Rightarrow> server_event option) \<Rightarrow> int \<Rightarrow> int \<Rightarrow> user_filter \<Rightarrow> nat \<Rightarrow> 's \<Rightarrow> server_event list result" where
  "ch_query_events post json_row since until f limit s =
     res_bind (fst (ch_send ''ClickHouse SELECT'' post (select_events_sql since until f limit) s))
       (\<lambda>body. parse_rows json_row (str_lines body))"

definition ch_cleanup_old_dedup :: "string \<Rightarrow> int \<Rightarrow> 's \<Rightarrow> unit result \<times> 's" where
  "ch_cleanup_old_dedup dev cutoff s = (Inr (), s)"

definition id_char :: "char \<Rightarrow> bool" where
  "id_char c \<longleftrightarrow> (48 \<le> byte c \<and> byte c \<le> 57) \<or> (65 \<le> byte c \<and> byte c \<le> 90) \<or> (97 \<le> byte c \<and> byte c \<le> 122) \<or> c = CHR ''-''"

definition ch_delete_device_events :: "'s ch_server \<Rightarrow> string \<Rightarrow> 's \<Rightarrow> unit result \<times> 's" where
  "ch_delete_device_events post dev s =
     (if \<not> list_all id_char dev then (Inl (''invalid device_id format: '' @ dev), s)
      else ch_do ''ClickHouse DELETE'' post (delete_device_sql dev) () s)"

text \<open>One line of the answer to a windows query; a line with a column that does not parse is skipped.\<close>

definition window_from_row :: "string list \<Rightarrow> (string \<times> wire_window) option" where
  "window_from_row cols =
     (if length cols < 21 then None
      else (case (parse_uint u8_max (cols ! 4), parse_i64 (cols ! 5), parse_i64 (cols ! 6), parse_uint u32_max (cols ! 7),
                  parse_uint u16_max (cols ! 8), parse_uint u16_max (cols ! 9), parse_i64 (cols ! 10), parse_i64 (cols ! 11)) of
              (Some kind, Some end_ms, Some resets, Some minutes, Some peak, Some lst, Some observed, Some first) \<Rightarrow>
                (case (parse_uint u8_max (cols ! 14), parse_i64 (cols ! 15), parse_uint u64_max (cols ! 16), parse_i64 (cols ! 17),
                       parse_uint u16_max (cols ! 18), parse_uint u32_max (cols ! 19)) of
                   (Some reached, Some to_100, Some active, Some gap, Some fraction, Some samples) \<Rightarrow>
                     Some (tsv_unescape (cols ! 1), \<lparr>window_kind = kind, limit_id = tsv_unescape (cols ! 2),
                       account = tsv_unescape (cols ! 3), window_end_ms = end_ms, raw_resets_at_ms = resets,
                       window_minutes = minutes, peak_pct_x100 = peak, last_pct_x100 = lst, observed_ts_ms = observed,
                       first_seen_ms = first, finalized = (cols ! 12 = ''1''), maxed_out = (cols ! 13 = ''1''),
                       limit_reached_kind = reached, time_to_100_ms = to_100, active_ms = active, last_sample_gap_ms = gap,
                       sampled_active_fraction = fraction, n_samples = samples, plan = tsv_unescape (cols ! 20)\<rparr>)
                 | _ \<Rightarrow> None)
            | _ \<Rightarrow> None))"

definition windows_of_body :: "string \<Rightarrow> (string \<times> wire_window) list" where
  "windows_of_body body = List.map_filter (\<lambda>l. window_from_row (split_on TAB l)) (str_lines body)"

definition ch_query_windows_filtered ::
  "'s ch_server \<Rightarrow> string \<Rightarrow> string option \<Rightarrow> int \<Rightarrow> 's \<Rightarrow> (string \<times> wire_window) list result \<times> 's" where
  "ch_query_windows_filtered post user prov since s =
     (case ch_send ''ClickHouse windows SELECT'' post (select_windows_sql user prov since) s of
        (Inl e, s') \<Rightarrow> (Inl e, s') | (Inr body, s') \<Rightarrow> (Inr (windows_of_body body), s'))"

definition ch_query_user_windows :: "'s ch_server \<Rightarrow> string \<Rightarrow> int \<Rightarrow> 's \<Rightarrow> (string \<times> wire_window) list result" where
  "ch_query_user_windows post user since s = fst (ch_query_windows_filtered post user None since s)"

text \<open>The rows to insert: each item merged into the stored row, unless that changes nothing.\<close>

definition stored_by_key :: "string \<Rightarrow> (string \<times> wire_window) list \<Rightarrow> (window_ident, wire_window) hashmap" where
  "stored_by_key prov existing = foldl (\<lambda>m (p, e). if p = prov then hm_insert (win_key e) e m else m) [] existing"

fun rows_to_insert :: "(window_ident, wire_window) hashmap \<Rightarrow> wire_window list \<Rightarrow> wire_window list" where
  "rows_to_insert m [] = []"
| "rows_to_insert m (w # ws) =
     (case hm_get m (win_key w) of
        Some prev \<Rightarrow> if merge_wire_windows prev w = prev then rows_to_insert m ws else merge_wire_windows prev w # rows_to_insert m ws
      | None \<Rightarrow> w # rows_to_insert m ws)"

definition oldest_end :: "wire_window list \<Rightarrow> int" where
  "oldest_end ws = (case ws of [] \<Rightarrow> 0 | w # ws \<Rightarrow> foldl min (window_end_ms w) (map window_end_ms ws))"

definition ch_upsert_windows :: "'s ch_server \<Rightarrow> nat \<Rightarrow> string \<Rightarrow> string \<Rightarrow> wire_window list \<Rightarrow> 's \<Rightarrow> nat result \<times> 's" where
  "ch_upsert_windows post now user prov ws s =
     (if ws = [] then (Inr 0, s)
      else (case ch_query_windows_filtered post user (Some prov) (oldest_end ws) s of
              (Inl e, s1) \<Rightarrow> (Inl e, s1)
            | (Inr existing, s1) \<Rightarrow>
                (let merged = rows_to_insert (stored_by_key prov existing) ws
                 in if merged = [] then (Inr 0, s1)
                    else ch_do ''ClickHouse windows INSERT'' post (insert_windows_sql user prov now merged) 0 s1)))"

definition ascii_trim :: "string \<Rightarrow> string" where
  "ascii_trim s = str_trim (\<lambda>_. False) s"

definition ch_cleanup_old_windows :: "'s ch_server \<Rightarrow> int \<Rightarrow> 's \<Rightarrow> nat result \<times> 's" where
  "ch_cleanup_old_windows post cutoff s =
     (case ch_send ''ClickHouse windows count'' post (count_stale_sql cutoff) s of
        (Inl e, s1) \<Rightarrow> (Inl e, s1)
      | (Inr body, s1) \<Rightarrow>
          (let stale = (case parse_uint u64_max (ascii_trim body) of None \<Rightarrow> 0 | Some n \<Rightarrow> n)
           in if stale = 0 then (Inr 0, s1)
              else ch_do ''ClickHouse windows cleanup'' post (delete_stale_sql cutoff) stale s1))"

definition ch_delete_user_windows :: "'s ch_server \<Rightarrow> string \<Rightarrow> 's \<Rightarrow> unit result \<times> 's" where
  "ch_delete_user_windows post user s = ch_do ''ClickHouse windows DELETE'' post (delete_user_windows_sql user) () s"

definition clickhouse_events :: "'s ch_server \<Rightarrow> (string \<Rightarrow> server_event option) \<Rightarrow> nat \<Rightarrow> 's event_store" where
  "clickhouse_events post json_row now = \<lparr>
     es_upsert_events = ch_upsert_events post,
     es_query_events = ch_query_events post json_row,
     es_delete_device_events = ch_delete_device_events post,
     es_cleanup_old_dedup = ch_cleanup_old_dedup,
     es_upsert_windows = ch_upsert_windows post now,
     es_query_user_windows = ch_query_user_windows post,
     es_delete_user_windows = ch_delete_user_windows post,
     es_cleanup_old_windows = (\<lambda>cutoff s. Some (ch_cleanup_old_windows post cutoff s))\<rparr>"

end
