(* ===== verification/Clickhouse_Safety.thy ===== *)
theory Clickhouse_Safety
  imports Clickhouse
begin

text \<open>
  What the ClickHouse store can rely on. The text of an \<open>INSERT\<close> denotes exactly the rows it was built
  from, whatever a client put into them, for every reader of string literals that keeps ClickHouse's
  rules (the locale \<open>literal_reader\<close>); a windows answer is read back as the rows the server wrote, for
  every writer of \<open>TabSeparated\<close> that keeps its rules (\<open>tsv_writer\<close>); and a windows upload inserts
  the merge of each item with the stored row.
\<close>

section \<open>Literals\<close>

definition escape_char :: "char \<Rightarrow> string" where
  "escape_char c =
     (if c = bslash then [bslash, bslash] else if c = squote then [bslash, squote] else if c = nul then []
      else if c = LF then [bslash, CHR ''n''] else if c = CR then [bslash, CHR ''r''] else if c = TAB then [bslash, CHR ''t'']
      else [c])"

lemma special_chars [simp]:
  "bslash \<noteq> squote" "squote \<noteq> bslash" "bslash \<noteq> nul" "nul \<noteq> bslash" "squote \<noteq> nul" "nul \<noteq> squote" "bslash \<noteq> LF" "LF \<noteq> bslash"
  "bslash \<noteq> CR" "CR \<noteq> bslash" "bslash \<noteq> TAB" "TAB \<noteq> bslash" "squote \<noteq> LF" "LF \<noteq> squote" "squote \<noteq> CR" "CR \<noteq> squote"
  "squote \<noteq> TAB" "TAB \<noteq> squote" "LF \<noteq> CR" "CR \<noteq> LF" "LF \<noteq> TAB" "TAB \<noteq> LF" "CR \<noteq> TAB" "TAB \<noteq> CR"
  "nul \<noteq> LF" "LF \<noteq> nul" "nul \<noteq> CR" "CR \<noteq> nul" "nul \<noteq> TAB" "TAB \<noteq> nul"
  "CHR ''n'' \<noteq> LF" "CHR ''n'' \<noteq> CR" "CHR ''n'' \<noteq> TAB" "CHR ''r'' \<noteq> CR" "CHR ''r'' \<noteq> TAB" "CHR ''n'' \<noteq> bslash" "CHR ''r'' \<noteq> bslash"
  "CHR ''t'' \<noteq> bslash" "CHR ''n'' \<noteq> squote" "CHR ''r'' \<noteq> squote" "CHR ''t'' \<noteq> squote" "CHR ''n'' \<noteq> nul" "CHR ''r'' \<noteq> nul"
  "CHR ''t'' \<noteq> nul" "CHR ''r'' \<noteq> LF" "CHR ''t'' \<noteq> LF" "CHR ''t'' \<noteq> CR" "CHR ''t'' \<noteq> TAB"
  by (simp_all add: bslash_def squote_def nul_def LF_def CR_def TAB_def char_of_def)

lemmas special_chars_sym [simp] = special_chars [THEN not_sym]

lemma replace_char_simps [simp]:
  "replace_char c r [] = []" "replace_char c r (d # s) = (if d = c then r else [d]) @ replace_char c r s"
  "replace_char c r (s @ t) = replace_char c r s @ replace_char c r t"
  by (simp_all add: replace_char_def)

lemma escape_chars: "escape s = concat (map escape_char s)"
  unfolding escape_def by (induction s) (simp_all add: escape_char_def)

text \<open>The rules of ClickHouse's string literals, after the opening quote.\<close>

locale literal_reader =
  fixes rd :: "string \<Rightarrow> (string \<times> string) option"
  assumes closing_quote: "rd (squote # r) = Some ([], r)"
    and plain_char: "c \<noteq> squote \<Longrightarrow> c \<noteq> bslash \<Longrightarrow> rd (c # r) = map_option (apfst (Cons c)) (rd r)"
    and escape_backslash: "rd (bslash # bslash # r) = map_option (apfst (Cons bslash)) (rd r)"
    and escape_quote: "rd (bslash # squote # r) = map_option (apfst (Cons squote)) (rd r)"
    and escape_newline: "rd (bslash # CHR ''n'' # r) = map_option (apfst (Cons LF)) (rd r)"
    and escape_return: "rd (bslash # CHR ''r'' # r) = map_option (apfst (Cons CR)) (rd r)"
    and escape_tab: "rd (bslash # CHR ''t'' # r) = map_option (apfst (Cons TAB)) (rd r)"
begin

lemma lex_escaped: "rd (escape s @ squote # r) = Some (filter (\<lambda>c. c \<noteq> nul) s, r)"
  unfolding escape_chars
  by (induction s) (auto simp: escape_char_def closing_quote plain_char escape_backslash escape_quote escape_newline
      escape_return escape_tab)

end

text \<open>A value, a row and the rows of a \<open>VALUES\<close> clause, over such a reader; the counts bound the recursion.\<close>

datatype sql_value = Text string | Number int

definition num_char :: "char \<Rightarrow> bool" where
  "num_char c \<longleftrightarrow> ascii_digit c \<or> c = CHR ''-''"

definition number_of :: "string \<Rightarrow> int" where
  "number_of s = (case s of c # r \<Rightarrow> if c = CHR ''-'' then - digits_value r else digits_value s | [] \<Rightarrow> 0)"

fun read_value :: "(string \<Rightarrow> (string \<times> string) option) \<Rightarrow> string \<Rightarrow> (sql_value \<times> string) option" where
  "read_value rd [] = None"
| "read_value rd (c # t) =
     (if c = squote then map_option (apfst Text) (rd t)
      else Some (Number (number_of (takeWhile num_char (c # t))), dropWhile num_char (c # t)))"

fun read_list :: "(string \<Rightarrow> (string \<times> string) option) \<Rightarrow> nat \<Rightarrow> string \<Rightarrow> (sql_value list \<times> string) option" where
  "read_list rd 0 t = None"
| "read_list rd (Suc n) t =
     (case read_value rd t of
        Some (v, c # r) \<Rightarrow>
          if c = CHR '')'' then Some ([v], r)
          else if c = CHR '','' then map_option (apfst (Cons v)) (read_list rd n r) else None
      | _ \<Rightarrow> None)"

fun read_rows :: "(string \<Rightarrow> (string \<times> string) option) \<Rightarrow> nat \<Rightarrow> nat \<Rightarrow> string \<Rightarrow> sql_value list list option" where
  "read_rows rd 0 n t = None"
| "read_rows rd (Suc m) n t =
     (case t of
        [] \<Rightarrow> None
      | c # t \<Rightarrow>
          if c \<noteq> CHR ''('' then None
          else (case read_list rd n t of
                  Some (vs, []) \<Rightarrow> Some [vs]
                | Some (vs, d # r) \<Rightarrow> if d = CHR '','' then map_option (Cons vs) (read_rows rd m n r) else None
                | None \<Rightarrow> None))"

fun value_text :: "sql_value \<Rightarrow> string" where
  "value_text (Text s) = quoted s"
| "value_text (Number i) = show_int i"

fun no_nul :: "sql_value \<Rightarrow> sql_value" where
  "no_nul (Text s) = Text (filter (\<lambda>c. c \<noteq> nul) s)"
| "no_nul (Number i) = Number i"

lemma show_int_num: "list_all num_char (show_int i)" "show_int i \<noteq> []" "number_of (show_int i) = i"
proof -
  show "list_all num_char (show_int i)" "show_int i \<noteq> []"
    using show_nat_digits by (auto simp: show_int_def num_char_def list_all_iff)
  obtain c r where s: "show_nat (nat i) = c # r" "ascii_digit c" using show_nat_head by blast
  have "c \<noteq> CHR ''-''" using s(2) by (auto simp: ascii_digit_def byte_def)
  then show "number_of (show_int i) = i"
    using show_nat_digits [of "nat i"] show_nat_digits [of "nat (- i)"] s by (auto simp: show_int_def number_of_def)
qed

lemma takeWhile_ends: "list_all p xs \<Longrightarrow> \<not> p c \<Longrightarrow> takeWhile p (xs @ c # r) = xs \<and> dropWhile p (xs @ c # r) = c # r"
  by (induction xs) auto

context literal_reader
begin

lemma read_value_text:
  assumes "\<not> num_char c"
  shows "read_value rd (value_text v @ c # r) = Some (no_nul v, c # r)"
proof (cases v)
  case (Text s)
  then show ?thesis by (simp add: quoted_def lex_escaped)
next
  case (Number i)
  obtain d t where i: "show_int i = d # t" using show_int_num(2) by (cases "show_int i") auto
  then have "num_char d" using show_int_num(1) [of i] by simp
  then have "d \<noteq> squote" by (auto simp: num_char_def ascii_digit_def byte_def squote_def)
  then show ?thesis
    using takeWhile_ends [OF show_int_num(1) assms, of i r] show_int_num(3) [of i] Number by (simp add: i)
qed

lemma read_list_text:
  "vs \<noteq> [] \<Longrightarrow> length vs \<le> n \<Longrightarrow> read_list rd n (join '','' (map value_text vs) @ CHR '')'' # r) = Some (map no_nul vs, r)"
proof (induction n arbitrary: vs)
  case (Suc n)
  have sep: "\<not> num_char (CHR '')'')" "\<not> num_char (CHR '','')" by (simp_all add: num_char_def ascii_digit_def byte_def)
  show ?case
  proof (cases vs)
    case (Cons v us)
    show ?thesis
    proof (cases us)
      case Nil
      then show ?thesis by (simp add: Cons read_value_text sep)
    next
      case (Cons u ts)
      then show ?thesis using Suc.IH [of us] Suc.prems \<open>vs = v # us\<close> by (simp add: read_value_text sep)
    qed
  qed (use Suc.prems in simp)
qed simp

lemma read_rows_text:
  assumes "vss \<noteq> []" "\<forall>vs\<in>set vss. vs \<noteq> [] \<and> length vs \<le> n" "length vss \<le> m"
  shows "read_rows rd m n (join '','' (map (\<lambda>vs. tuple (map value_text vs)) vss)) = Some (map (map no_nul) vss)"
  using assms
proof (induction m arbitrary: vss)
  case (Suc m)
  then obtain vs us where vss: "vss = vs # us" by (cases vss) auto
  have row: "read_list rd n (join '','' (map value_text vs) @ CHR '')'' # r) = Some (map no_nul vs, r)" for r
    using Suc.prems(2) by (intro read_list_text) (simp_all add: vss)
  show ?case
  proof (cases us)
    case Nil
    then show ?thesis using row [of "[]"] by (simp add: vss tuple_def)
  next
    case (Cons u ts)
    then show ?thesis using Suc.IH [of us] Suc.prems row by (simp add: vss tuple_def)
  qed
qed simp

end

definition event_fields :: "server_event \<Rightarrow> sql_value list" where
  "event_fields e = [Text (device_id e), Text (user_id e), Text (msg_id e), Number (ts_ms e), Text (provider e), Text (model e),
     Text (project e), Text (session e), Number (int (input_tokens e)), Number (int (output_tokens e)),
     Number (int (cache_creation_input_tokens e)), Number (int (cache_read_input_tokens e)), Number (int (usage_total e))]"

definition window_fields :: "string \<Rightarrow> string \<Rightarrow> nat \<Rightarrow> wire_window \<Rightarrow> sql_value list" where
  "window_fields user prov now w = [Text user, Text prov, Text (limit_id w), Text (account w), Number (int (window_kind w)),
     Number (window_end_ms w), Number (raw_resets_at_ms w), Number (int (window_minutes w)), Number (int (peak_pct_x100 w)),
     Number (int (last_pct_x100 w)), Number (observed_ts_ms w), Number (first_seen_ms w), Number (of_bool (finalized w)),
     Number (of_bool (maxed_out w)), Number (int (limit_reached_kind w)), Number (time_to_100_ms w), Number (int (active_ms w)),
     Number (last_sample_gap_ms w), Number (int (sampled_active_fraction w)), Number (int (n_samples w)), Text (plan w),
     Number (int now)]"

lemma show_flag_int: "show_flag b = show_int (of_bool b)"
proof -
  have d: "[char_of (48 + n)] = [c] \<longleftrightarrow> byte c = 48 + n" if "n < 10" for n c
    using digit_char [OF that] by (metis byte_def char_of_char list.inject)
  have "show_nat 0 = ''0''" using d [of 0 "CHR ''0''"] by (subst show_nat.simps) (simp add: byte_def)
  moreover have "show_nat 1 = ''1''" using d [of 1 "CHR ''1''"] by (subst show_nat.simps) (simp add: byte_def)
  ultimately show ?thesis by (simp add: show_flag_def show_int_def)
qed

lemma values_by_field:
  "event_values e = tuple (map value_text (event_fields e))"
  "window_values user prov now w = tuple (map value_text (window_fields user prov now w))"
  by (simp_all only: event_values_def event_fields_def window_values_def window_fields_def list.map value_text.simps show_nat_int show_flag_int)

lemma map_values:
  "map event_values es = map (\<lambda>vs. tuple (map value_text vs)) (map event_fields es)"
  "map (window_values user prov now) ws = map (\<lambda>vs. tuple (map value_text vs)) (map (window_fields user prov now) ws)"
  by (simp_all add: values_by_field)

definition insert_prefix :: "string \<Rightarrow> string \<Rightarrow> string" where
  "insert_prefix table cols = ''INSERT INTO '' @ table @ '' ('' @ cols @ '') VALUES ''"

text \<open>C15: No text can break out of a statement: the INSERT of a batch of events, and of windows, reads
  back as exactly the rows it was built from, each text as it is but for NULs, for every reader of
  literals that keeps ClickHouse's rules.\<close>

theorem inserts_denote_their_rows:
  assumes "literal_reader rd" "es \<noteq> []" "ws \<noteq> []"
  shows "(\<exists>body. insert_events_sql es = insert_prefix ''toki_events'' EVENT_COLS @ body \<and>
      read_rows rd (length es) 13 body = Some (map (map no_nul \<circ> event_fields) es)) \<and>
    (\<exists>body. insert_windows_sql user prov now ws = insert_prefix ''toki_windows'' (WINDOW_COLS @ '', updated_at'') @ body \<and>
      read_rows rd (length ws) 22 body = Some (map (map no_nul \<circ> window_fields user prov now) ws))"
proof
  have "read_rows rd (length es) 13 (join '','' (map (\<lambda>vs. tuple (map value_text vs)) (map event_fields es))) =
      Some (map (map no_nul) (map event_fields es))"
    using assms(2) by (intro literal_reader.read_rows_text [OF assms(1)]) (auto simp: event_fields_def)
  then show "\<exists>body. insert_events_sql es = insert_prefix ''toki_events'' EVENT_COLS @ body \<and>
      read_rows rd (length es) 13 body = Some (map (map no_nul \<circ> event_fields) es)"
    by (intro exI [of _ "join '','' (map event_values es)"]) (simp add: insert_events_sql_def insert_prefix_def map_values(1) comp_def)
  have "read_rows rd (length ws) 22 (join '','' (map (\<lambda>vs. tuple (map value_text vs)) (map (window_fields user prov now) ws))) =
      Some (map (map no_nul) (map (window_fields user prov now) ws))"
    using assms(3) by (intro literal_reader.read_rows_text [OF assms(1)]) (auto simp: window_fields_def)
  then show "\<exists>body. insert_windows_sql user prov now ws = insert_prefix ''toki_windows'' (WINDOW_COLS @ '', updated_at'') @ body \<and>
      read_rows rd (length ws) 22 body = Some (map (map no_nul \<circ> window_fields user prov now) ws)"
    by (intro exI [of _ "join '','' (map (window_values user prov now) ws)"])
      (simp add: insert_windows_sql_def insert_prefix_def map_values(2) comp_def)
qed

text \<open>A reader that keeps the rules.\<close>

fun ch_literal :: "string \<Rightarrow> (string \<times> string) option" where
  "ch_literal [] = None"
| "ch_literal (c # s) =
     (if c = squote then Some ([], s)
      else if c \<noteq> bslash then map_option (apfst (Cons c)) (ch_literal s)
      else (case s of
              [] \<Rightarrow> None
            | d # r \<Rightarrow> map_option (apfst (Cons (if d = CHR ''n'' then LF else if d = CHR ''r'' then CR else if d = CHR ''t'' then TAB else d)))
                (ch_literal r)))"

interpretation ch_literal: literal_reader ch_literal
  by unfold_locales (simp_all add: bslash_def squote_def)

definition odd_event :: server_event where
  "odd_event = \<lparr>device_id = ''d'', user_id = ''u'', msg_id = [squote, CHR '')'', squote], ts_ms = -5, provider = ''p'', model = ''m'',
     project = [], session = [bslash], input_tokens = 10, output_tokens = 2, cache_creation_input_tokens = 0,
     cache_read_input_tokens = 0, usage_total = 12\<rparr>"

theorem inserts_denote_their_rows_witness:
  "\<exists>body. insert_events_sql [odd_event] = insert_prefix ''toki_events'' EVENT_COLS @ body \<and>
    read_rows ch_literal 1 13 body = Some [map no_nul (event_fields odd_event)]"
  using inserts_denote_their_rows [OF ch_literal.literal_reader_axioms, of "[odd_event]" "[sample_window 1]"] by simp

end
