(* ===== verification/Clickhouse_Windows.thy ===== *)
theory Clickhouse_Windows
  imports Clickhouse_Safety Window_Store
begin

text \<open>
  The windows of the ClickHouse store. The answer to a windows query is read back as the rows the server
  wrote, for every writer of \<open>TabSeparated\<close> text that keeps ClickHouse's rules (the locale
  \<open>tsv_writer\<close>); an upload then sends the merge of each item with the stored row. A quote in a text is
  not read back, so that a row with one in its limit is not found, and its peak is lost.
\<close>

section \<open>Lines and columns\<close>

lemma split_on_nonempty [simp]: "split_on c s \<noteq> []"
  by (induction s) auto

lemma split_on_append: "c \<notin> set s \<Longrightarrow> split_on c (s @ c # t) = s # split_on c t"
  by (induction s) auto

lemma split_on_none: "c \<notin> set s \<Longrightarrow> split_on c s = [s]"
  by (induction s) auto

lemma split_on_join: "xs \<noteq> [] \<Longrightarrow> \<forall>x\<in>set xs. c \<notin> set x \<Longrightarrow> split_on c (join [c] xs) = xs"
proof (induction xs)
  case (Cons x xs)
  then show ?case by (cases xs) (simp_all add: split_on_none split_on_append)
qed simp

lemma str_lines_concat:
  "\<forall>l\<in>set ls. LF \<notin> set l \<and> strip_cr l = l \<Longrightarrow> str_lines (concat (map (\<lambda>l. l @ [LF]) ls)) = ls"
proof -
  assume lines: "\<forall>l\<in>set ls. LF \<notin> set l \<and> strip_cr l = l"
  have "split_on LF (concat (map (\<lambda>l. l @ [LF]) ls)) = ls @ [[]]"
    using lines by (induction ls) (simp_all add: split_on_append)
  moreover have "map strip_cr ls = ls" using lines by (induction ls) simp_all
  ultimately show ?thesis by (simp add: str_lines_def)
qed

section \<open>TabSeparated text\<close>

definition backspace :: char where "backspace = CHR 0x08"
definition formfeed :: char where "formfeed = CHR 0x0C"

definition plain_char :: "char \<Rightarrow> bool" where
  "plain_char c \<longleftrightarrow> c \<notin> {bslash, squote, LF, CR, TAB, nul, backspace, formfeed}"

definition readable :: "string \<Rightarrow> bool" where
  "readable s \<longleftrightarrow> list_all (\<lambda>c. c \<notin> {squote, nul, backspace, formfeed}) s"

locale tsv_writer =
  fixes tsv :: "string \<Rightarrow> string"
  assumes writes_nothing: "tsv [] = []"
    and writes_plain: "plain_char c \<Longrightarrow> tsv (c # s) = c # tsv s"
    and writes_backslash: "tsv (bslash # s) = bslash # bslash # tsv s"
    and writes_quote: "tsv (squote # s) = bslash # squote # tsv s"
    and writes_newline: "tsv (LF # s) = bslash # CHR ''n'' # tsv s"
    and writes_return: "tsv (CR # s) = bslash # CHR ''r'' # tsv s"
    and writes_tab: "tsv (TAB # s) = bslash # CHR ''t'' # tsv s"
begin

lemmas writes = writes_nothing writes_plain writes_backslash writes_quote writes_newline writes_return writes_tab

lemma readable_head:
  assumes "readable (c # s)"
  shows "plain_char c \<or> c = bslash \<or> c = LF \<or> c = CR \<or> c = TAB" "readable s"
  using assms by (auto simp: readable_def plain_char_def)

lemma plain_ne: "plain_char c \<Longrightarrow> c \<noteq> bslash \<and> c \<noteq> TAB \<and> c \<noteq> LF \<and> c \<noteq> CR"
  by (simp add: plain_char_def)

lemma unescape_writes: "readable s \<Longrightarrow> tsv_unescape (tsv s) = s"
proof (induction s)
  case (Cons c s)
  have "tsv_unescape (tsv s) = s" by (rule Cons.IH [OF readable_head(2) [OF Cons.prems]])
  then show ?case using readable_head(1) [OF Cons.prems] by (auto simp: writes dest: plain_ne)
qed (simp add: writes)

lemma one_line: "readable s \<Longrightarrow> set (tsv s) \<inter> {TAB, LF, CR} = {}"
proof (induction s)
  case (Cons c s)
  have "set (tsv s) \<inter> {TAB, LF, CR} = {}" by (rule Cons.IH [OF readable_head(2) [OF Cons.prems]])
  then show ?case using readable_head(1) [OF Cons.prems] by (auto simp: writes dest: plain_ne)
qed (simp add: writes)

text \<open>A quote is written with a backslash that is not taken off again.\<close>

lemma quote_is_changed: "tsv_unescape (tsv (squote # s)) = bslash # squote # tsv_unescape (tsv s)"
  by (simp add: writes)

end

text \<open>The answer to a windows query: the columns of a row parted by tabs, each row ended by a line feed.\<close>

definition window_columns :: "(string \<Rightarrow> string) \<Rightarrow> string \<Rightarrow> string \<Rightarrow> wire_window \<Rightarrow> string list" where
  "window_columns tsv user prov w = [tsv user, tsv prov, tsv (limit_id w), tsv (account w), show_nat (window_kind w),
     show_int (window_end_ms w), show_int (raw_resets_at_ms w), show_nat (window_minutes w), show_nat (peak_pct_x100 w),
     show_nat (last_pct_x100 w), show_int (observed_ts_ms w), show_int (first_seen_ms w), show_flag (finalized w),
     show_flag (maxed_out w), show_nat (limit_reached_kind w), show_int (time_to_100_ms w), show_nat (active_ms w),
     show_int (last_sample_gap_ms w), show_nat (sampled_active_fraction w), show_nat (n_samples w), tsv (plan w)]"

definition windows_body :: "(string \<Rightarrow> string) \<Rightarrow> string \<Rightarrow> (string \<times> wire_window) list \<Rightarrow> string" where
  "windows_body tsv user rws = concat (map (\<lambda>(prov, w). join [TAB] (window_columns tsv user prov w) @ [LF]) rws)"

definition window_fits :: "wire_window \<Rightarrow> bool" where
  "window_fits w \<longleftrightarrow> window_kind w \<le> u8_max \<and> in_i64 (window_end_ms w) \<and> in_i64 (raw_resets_at_ms w) \<and>
     window_minutes w \<le> u32_max \<and> peak_pct_x100 w \<le> u16_max \<and> last_pct_x100 w \<le> u16_max \<and> in_i64 (observed_ts_ms w) \<and>
     in_i64 (first_seen_ms w) \<and> limit_reached_kind w \<le> u8_max \<and> in_i64 (time_to_100_ms w) \<and> active_ms w \<le> u64_max \<and>
     in_i64 (last_sample_gap_ms w) \<and> sampled_active_fraction w \<le> u16_max \<and> n_samples w \<le> u32_max"

definition window_readable :: "wire_window \<Rightarrow> bool" where
  "window_readable w \<longleftrightarrow> readable (limit_id w) \<and> readable (account w) \<and> readable (plan w)"

lemma show_flag_one [simp]: "show_flag b = ''1'' \<longleftrightarrow> b"
  by (simp add: show_flag_def)

lemma number_chars:
  "set (show_nat n) \<inter> {TAB, LF, CR} = {}" "set (show_int i) \<inter> {TAB, LF, CR} = {}" "set (show_flag b) \<inter> {TAB, LF, CR} = {}"
proof -
  have "\<not> num_char TAB" "\<not> num_char LF" "\<not> num_char CR"
    by (simp_all add: num_char_def ascii_digit_def byte_def TAB_def LF_def CR_def)
  then show i: "set (show_int i) \<inter> {TAB, LF, CR} = {}" for i using show_int_num(1) [of i] by (auto simp: list_all_iff)
  show "set (show_nat n) \<inter> {TAB, LF, CR} = {}" by (simp add: show_nat_int i)
  show "set (show_flag b) \<inter> {TAB, LF, CR} = {}" by (simp add: show_flag_int i)
qed

lemma join_chars: "set (join [d] xs) \<subseteq> insert d (\<Union>x\<in>set xs. set x)"
  by (induction "[d]" xs rule: join.induct) auto

context tsv_writer
begin

lemma columns_chars:
  assumes "readable user" "readable prov" "window_readable w"
  shows "\<forall>x\<in>set (window_columns tsv user prov w). set x \<inter> {TAB, LF, CR} = {}"
  using assms(3) unfolding window_columns_def
  using assms(1,2) by (simp add: window_readable_def one_line [simplified] number_chars [simplified])

lemma columns_read:
  assumes "readable user" "readable prov" "window_readable w" "window_fits w"
  shows "window_from_row (window_columns tsv user prov w) = Some (prov, w)"
  using assms(3,4)
  by (simp add: window_from_row_def window_columns_def window_fits_def window_readable_def unescape_writes assms(1,2))

lemma row_line:
  assumes "readable user" "readable prov" "window_readable w"
  shows "LF \<notin> set (join [TAB] (window_columns tsv user prov w))" "strip_cr (join [TAB] (window_columns tsv user prov w)) = join [TAB] (window_columns tsv user prov w)"
proof -
  have "set (join [TAB] (window_columns tsv user prov w)) \<inter> {LF, CR} = {}"
    using join_chars [of TAB "window_columns tsv user prov w"] columns_chars [OF assms] by auto
  then show "LF \<notin> set (join [TAB] (window_columns tsv user prov w))" "strip_cr (join [TAB] (window_columns tsv user prov w)) = join [TAB] (window_columns tsv user prov w)"
    by (auto simp: strip_cr_def dest: last_in_set)
qed

lemma windows_body_read:
  assumes "readable user" "\<forall>(prov, w)\<in>set rws. readable prov \<and> window_readable w \<and> window_fits w"
  shows "windows_of_body (windows_body tsv user rws) = rws"
proof -
  define row where "row = (\<lambda>(prov, w). join [TAB] (window_columns tsv user prov w))"
  have body: "windows_body tsv user rws = concat (map (\<lambda>l. l @ [LF]) (map row rws))"
    by (simp add: windows_body_def row_def case_prod_unfold comp_def)
  have lines: "str_lines (windows_body tsv user rws) = map row rws"
    unfolding body using assms row_line by (intro str_lines_concat) (auto simp: row_def)
  have "window_from_row (split_on TAB (row r)) = Some r" if "r \<in> set rws" for r
  proof -
    obtain prov w where r: "r = (prov, w)" by (cases r)
    have ok: "readable prov" "window_readable w" "window_fits w" using assms(2) that r by auto
    have "split_on TAB (row r) = window_columns tsv user prov w"
      unfolding row_def r prod.case using columns_chars [OF assms(1) ok(1,2)]
      by (intro split_on_join) (auto simp: window_columns_def)
    then show ?thesis using columns_read [OF assms(1) ok] r by simp
  qed
  then show ?thesis unfolding windows_of_body_def lines by (induction rws) (simp_all add: map_filter_simps)
qed

end

text \<open>C29: The windows the server holds are read back: from the text ClickHouse writes for any rows
  whose texts are free of quotes, NULs, backspaces and form feeds, query_user_windows makes
  exactly those rows, in order, however their texts use tabs, line ends and backslashes.\<close>

theorem windows_answer_read_back:
  assumes "tsv_writer tsv" "readable user" "\<forall>(prov, w)\<in>set rws. readable prov \<and> window_readable w \<and> window_fits w"
    "post (select_windows_sql user None since) s = (Inr (windows_body tsv user rws), s')"
  shows "ch_query_user_windows post user since s = Inr rws"
  by (simp add: ch_query_user_windows_def ch_query_windows_filtered_def ch_send_def assms(4)
      tsv_writer.windows_body_read [OF assms(1-3)])

section \<open>An upload\<close>

definition table :: "wire_window list \<Rightarrow> window_ident \<Rightarrow> wire_window option" where
  "table ws = map_of (map (\<lambda>w. (win_key w, w)) ws)"

definition merged_window :: "wire_window option \<Rightarrow> wire_window option \<Rightarrow> wire_window option" where
  "merged_window a b = (case a of None \<Rightarrow> b | Some p \<Rightarrow> (case b of None \<Rightarrow> a | Some w \<Rightarrow> Some (merge_wire_windows p w)))"

lemma table_simps [simp]: "table [] k = None" "table (w # ws) k = (if k = win_key w then Some w else table ws k)"
  by (simp_all add: table_def)

lemma table_key: "table ws k = Some w \<Longrightarrow> win_key w = k \<and> w \<in> set ws"
  by (auto simp: table_def dest: map_of_SomeD)

lemma table_None: "table ws k = None \<longleftrightarrow> k \<notin> win_key ` set ws"
  by (induction ws) auto

lemma stored_by_key_get:
  assumes "distinct (map win_key ws)"
  shows "hm_get (stored_by_key prov (map (Pair prov) ws)) = table ws"
proof -
  have "hm_get (foldl (\<lambda>m (p, e). if p = prov then hm_insert (win_key e) e m else m) m (map (Pair prov) ws)) k =
      (case table ws k of None \<Rightarrow> hm_get m k | Some w \<Rightarrow> Some w)" if "distinct (map win_key ws)" for m k
    using that
  proof (induction ws arbitrary: m)
    case (Cons w ws)
    then have "table ws (win_key w) = None" by (simp add: table_None)
    then show ?case using Cons by (simp add: hm_simps split: option.split)
  qed simp
  from this [OF assms, of "[]"] show ?thesis by (auto simp: stored_by_key_def split: option.splits)
qed

lemma rows_to_insert_table:
  assumes "distinct (map win_key ws)" "\<And>k p. hm_get m k = Some p \<Longrightarrow> win_key p = k"
  shows "table (rows_to_insert m ws) k = (case table ws k of None \<Rightarrow> None | Some w \<Rightarrow>
    (case hm_get m k of None \<Rightarrow> Some w | Some p \<Rightarrow> if merge_wire_windows p w = p then None else Some (merge_wire_windows p w)))"
  using assms(1)
proof (induction ws)
  case (Cons w ws)
  have "table ws (win_key w) = None" using Cons.prems by (simp add: table_None)
  moreover have "win_key p = win_key w" if "hm_get m (win_key w) = Some p" for p using assms(2) [OF that] .
  ultimately show ?case using Cons by (auto split: option.splits)
qed simp

lemma oldest_end_le: "w \<in> set ws \<Longrightarrow> oldest_end ws \<le> window_end_ms w"
proof -
  have "foldl min a xs \<le> a \<and> (\<forall>x\<in>set xs. foldl min a xs \<le> x)" for a :: int and xs
  proof (induction xs arbitrary: a)
    case (Cons x xs)
    then show ?case using Cons.IH [of "min a x"] by simp
  qed simp
  then show "w \<in> set ws \<Longrightarrow> oldest_end ws \<le> window_end_ms w" by (cases ws) (auto simp: oldest_end_def)
qed

lemma table_filter_end: "table (filter (\<lambda>w. since \<le> window_end_ms w) ws) (a, b, c, t) = (if since \<le> t then table ws (a, b, c, t) else None)"
  by (induction ws) (auto simp: win_key_def)


section \<open>At a concrete server\<close>

fun ch_tsv :: "string \<Rightarrow> string" where
  "ch_tsv [] = []"
| "ch_tsv (c # s) =
     (if c = LF then [bslash, CHR ''n''] else if c = CR then [bslash, CHR ''r''] else if c = TAB then [bslash, CHR ''t'']
      else if c = nul then [bslash, CHR ''0''] else if c = backspace then [bslash, CHR ''b''] else if c = formfeed then [bslash, CHR ''f'']
      else if c = bslash \<or> c = squote then [bslash, c] else [c]) @ ch_tsv s"

interpretation ch_tsv: tsv_writer ch_tsv
  by unfold_locales (simp_all add: plain_char_def, simp_all add: bslash_def squote_def LF_def CR_def TAB_def nul_def backspace_def formfeed_def)

declare ch_tsv.simps(2) [simp del]

lemma sample_readable [simp]: "readable ''u''" "readable ''p''" "window_readable (sample_window t)"
  by (simp_all add: readable_def window_readable_def sample_window_def squote_def nul_def backspace_def formfeed_def char_of_def)

lemma sample_fits: "in_i64 t \<Longrightarrow> window_fits (sample_window t)"
  by (simp add: window_fits_def sample_window_def u8_max_def u16_max_def u32_max_def u64_max_def in_i64_def i64_min_def i64_max_def)

lemma sample_fits_small [simp]: "window_fits (sample_window 1)" "window_fits (sample_window 2)"
  by (simp_all add: sample_fits in_i64_def i64_min_def i64_max_def)

theorem windows_answer_read_back_witness:
  "ch_query_user_windows (\<lambda>_ s. (Inr (windows_body ch_tsv ''u'' [(''p'', sample_window 2)]), s)) ''u'' 0 () = Inr [(''p'', sample_window 2)]"
  by (rule windows_answer_read_back [OF ch_tsv.tsv_writer_axioms]) simp_all

lemma sample_key [simp]: "win_key (sample_window t) = (0, ''l'', ''a'', t)" "window_end_ms (sample_window t) = t"
  by (simp_all add: win_key_def sample_window_def)


text \<open>A limit with a quote: the stored row is not found, and the row that is sent, which replaces it, has the lower peak.\<close>

definition quoted_window :: "nat \<Rightarrow> wire_window" where
  "quoted_window peak = (sample_window 1)\<lparr>limit_id := [squote], peak_pct_x100 := peak\<rparr>"

lemma quoted_limit_loses_peak:
  assumes "\<And>since. post (select_windows_sql ''u'' (Some ''p'') since) s = (Inr (windows_body ch_tsv ''u'' [(''p'', quoted_window 90)]), s)"
  shows "ch_upsert_windows post now ''u'' ''p'' [quoted_window 10] s =
    ch_do ''ClickHouse windows INSERT'' post (insert_windows_sql ''u'' ''p'' now [quoted_window 10]) 0 s"
    "peak_pct_x100 (merge_wire_windows (quoted_window 90) (quoted_window 10)) = 90"
proof -
  let ?cols = "window_columns ch_tsv ''u'' ''p'' (quoted_window 90)"
  have tsv: "ch_tsv [squote] = [bslash, squote]" by (simp only: ch_tsv.writes_quote ch_tsv.writes_nothing)
  have texts: "limit_id (quoted_window 90) = [squote]" "readable (account (quoted_window 90))" "readable (plan (quoted_window 90))"
    "window_fits (quoted_window 90)"
    using sample_readable(3) [of 1] sample_fits_small(1) by (simp_all add: quoted_window_def window_readable_def window_fits_def u16_max_def)
  have chars: "\<forall>x\<in>set ?cols. set x \<inter> {TAB, LF, CR} = {}"
    unfolding window_columns_def using texts
    by (simp add: tsv ch_tsv.one_line [simplified] number_chars [simplified])
  then have "set (join [TAB] ?cols) \<inter> {LF, CR} = {}" using join_chars [of TAB ?cols] by auto
  then have "LF \<notin> set (join [TAB] ?cols)" "strip_cr (join [TAB] ?cols) = join [TAB] ?cols" by (auto simp: strip_cr_def dest: last_in_set)
  then have lines: "str_lines (windows_body ch_tsv ''u'' [(''p'', quoted_window 90)]) = [join [TAB] ?cols]"
    using str_lines_concat [of "[join [TAB] ?cols]"] by (simp add: windows_body_def)
  have "split_on TAB (join [TAB] ?cols) = ?cols" using chars by (intro split_on_join) (auto simp: window_columns_def)
  moreover have "window_from_row ?cols = Some (''p'', (quoted_window 90)\<lparr>limit_id := [bslash, squote]\<rparr>)"
    using texts by (simp add: window_from_row_def window_columns_def window_fits_def tsv ch_tsv.unescape_writes)
  ultimately have body: "windows_of_body (windows_body ch_tsv ''u'' [(''p'', quoted_window 90)]) = [(''p'', (quoted_window 90)\<lparr>limit_id := [bslash, squote]\<rparr>)]"
    by (simp add: windows_of_body_def lines map_filter_simps)
  have key: "win_key (quoted_window 10) \<noteq> win_key ((quoted_window 90)\<lparr>limit_id := [bslash, squote]\<rparr>)"
    by (simp add: win_key_def quoted_window_def)
  show "ch_upsert_windows post now ''u'' ''p'' [quoted_window 10] s =
    ch_do ''ClickHouse windows INSERT'' post (insert_windows_sql ''u'' ''p'' now [quoted_window 10]) 0 s"
    using key by (simp add: ch_upsert_windows_def ch_query_windows_filtered_def ch_send_def assms body stored_by_key_def hm_simps)
  show "peak_pct_x100 (merge_wire_windows (quoted_window 90) (quoted_window 10)) = 90"
    by (simp add: quoted_window_def)
qed

end
