(* ===== verification/Ch_Startup.thy ===== *)
theory Ch_Startup
  imports Clickhouse
begin

text \<open>
  The start of the ClickHouse store (\<open>ClickHouseEventStore::new\<close> of \<open>src/src/events/clickhouse.rs\<close>): it
  recovers a migration of the windows table that a crash interrupted, creates the tables, and rebuilds a
  windows table of an earlier version. The locale \<open>windows_server\<close> is what is asked of the server: what
  each statement does to the tables, where a statement that is answered with an error may have been
  executed or not. A crash is a server that stops answering (\<open>limited\<close>). Whatever crashes and errors a
  series of starts goes through, the windows are there in the end.
\<close>

section \<open>Statements\<close>

definition ch_lines :: "string list \<Rightarrow> string" where
  "ch_lines ls = concat (map (\<lambda>l. LF # replicate 16 CHR '' '' @ l) ls)"

definition CREATE_EVENTS :: string where
  "CREATE_EVENTS = LF # replicate 12 CHR '' '' @ ''CREATE TABLE IF NOT EXISTS toki_events ('' @
     ch_lines [''device_id String,'', ''user_id String,'', ''msg_id String,'', ''ts_ms Int64,'', ''provider String,'', ''model String,'',
       ''project String,'', ''session String,'', ''input_tokens UInt64,'', ''output_tokens UInt64,'', ''cache_creation_input_tokens UInt64,'',
       ''cache_read_input_tokens UInt64,'', ''usage_total UInt64''] @
     LF # replicate 12 CHR '' '' @ '') ENGINE = ReplacingMergeTree(ts_ms)'' @
     LF # replicate 12 CHR '' '' @ ''ORDER BY (device_id, provider, msg_id)'' @ LF # replicate 8 CHR '' ''"

definition ADD_SESSION :: string where
  "ADD_SESSION = ''ALTER TABLE toki_events ADD COLUMN IF NOT EXISTS session String AFTER project''"

text \<open>\<open>WINDOWS_DDL\<close> with the name of the table it creates.\<close>

definition windows_ddl :: "string \<Rightarrow> string" where
  "windows_ddl t = LF # replicate 12 CHR '' '' @ ''CREATE TABLE IF NOT EXISTS '' @ t @ '' ('' @
     ch_lines [''user_id String,'', ''provider String,'', ''limit_id String,'', ''account String,'', ''window_kind UInt8,'',
       ''window_end_ms Int64,'', ''raw_resets_at_ms Int64,'', ''window_minutes UInt32,'', ''peak_pct_x100 UInt16,'',
       ''last_pct_x100 UInt16,'', ''observed_ts_ms Int64,'', ''first_seen_ms Int64,'', ''finalized UInt8,'', ''maxed_out UInt8,'',
       ''limit_reached_kind UInt8,'', ''time_to_100_ms Int64,'', ''active_ms UInt64,'', ''last_sample_gap_ms Int64,'',
       ''sampled_active_fraction UInt16,'', ''n_samples UInt32,'', ''plan String,'', ''updated_at UInt64''] @
     LF # replicate 12 CHR '' '' @ '') ENGINE = ReplacingMergeTree(updated_at)'' @
     LF # replicate 12 CHR '' '' @ ''ORDER BY (user_id, provider, limit_id, account, window_kind, window_end_ms)'' @ [LF]"

definition live :: string where "live = ''toki_windows''"
definition staged :: string where "staged = ''toki_windows_v2''"
definition retired :: string where "retired = ''toki_windows_old''"

definition table_exists_sql :: "string \<Rightarrow> string" where
  "table_exists_sql t = ''SELECT count() FROM system.tables WHERE database = currentDatabase() AND name = '' @ [squote] @ t @ [squote]"

definition has_column_sql :: string where
  "has_column_sql = ''SELECT count() FROM system.columns WHERE database = currentDatabase() AND table = '' @ [squote] @ live @ [squote] @
     '' AND name = '' @ [squote] @ ''updated_at'' @ [squote]"

definition drop_sql :: "string \<Rightarrow> string" where
  "drop_sql t = ''DROP TABLE IF EXISTS '' @ t"

definition copy_sql :: string where
  "copy_sql = ''INSERT INTO toki_windows_v2 SELECT *, toUInt64(observed_ts_ms) AS updated_at FROM toki_windows''"

definition exchange_sql :: string where
  "exchange_sql = ''EXCHANGE TABLES toki_windows AND toki_windows_v2''"

definition rename_sql :: "string \<Rightarrow> string \<Rightarrow> string" where
  "rename_sql a b = ''RENAME TABLE '' @ a @ '' TO '' @ b"

section \<open>The start\<close>

definition ch_bind :: "('s \<Rightarrow> 'a result \<times> 's) \<Rightarrow> ('a \<Rightarrow> 's \<Rightarrow> 'b result \<times> 's) \<Rightarrow> 's \<Rightarrow> 'b result \<times> 's" where
  "ch_bind m f s = (case m s of (Inl e, s') \<Rightarrow> (Inl e, s') | (Inr x, s') \<Rightarrow> f x s')"

text \<open>\<open>execute\<close>, and its error under the name of a step (\<open>with_context\<close>).\<close>

definition execute :: "'s ch_server \<Rightarrow> string \<Rightarrow> 's \<Rightarrow> string result \<times> 's" where
  "execute post q = ch_send ''ClickHouse query'' post q"

definition named :: "string \<Rightarrow> ('s \<Rightarrow> string result \<times> 's) \<Rightarrow> 's \<Rightarrow> string result \<times> 's" where
  "named what m s = (case m s of (Inl e, s') \<Rightarrow> (Inl what, s') | (Inr b, s') \<Rightarrow> (Inr b, s'))"

fun recover_from :: "'s ch_server \<Rightarrow> string list \<Rightarrow> 's \<Rightarrow> unit result \<times> 's" where
  "recover_from post [] s = (Inr (), s)"
| "recover_from post (t # ts) s =
     ch_bind (execute post (table_exists_sql t)) (\<lambda>n.
       if ascii_trim n = ''0'' then recover_from post ts
       else ch_bind (named (''recover toki_windows from '' @ t) (execute post (rename_sql t live))) (\<lambda>_ s. (Inr (), s))) s"

declare recover_from.simps(2) [simp del]

definition recover_interrupted_migration :: "'s ch_server \<Rightarrow> 's \<Rightarrow> unit result \<times> 's" where
  "recover_interrupted_migration post =
     ch_bind (execute post (table_exists_sql live)) (\<lambda>n.
       if ascii_trim n \<noteq> ''0'' then (\<lambda>s. (Inr (), s)) else recover_from post [staged, retired])"

definition swap_by_rename :: "'s ch_server \<Rightarrow> 's \<Rightarrow> unit result \<times> 's" where
  "swap_by_rename post =
     ch_bind (named ''rename old toki_windows'' (execute post (rename_sql live retired))) (\<lambda>_.
     ch_bind (named ''rename new toki_windows'' (execute post (rename_sql staged live))) (\<lambda>_.
     ch_bind (named ''drop old toki_windows'' (execute post (drop_sql retired))) (\<lambda>_ s. (Inr (), s))))"

definition swap_tables :: "'s ch_server \<Rightarrow> 's \<Rightarrow> unit result \<times> 's" where
  "swap_tables post s =
     (case execute post exchange_sql s of
        (Inl _, s') \<Rightarrow> swap_by_rename post s'
      | (Inr _, s') \<Rightarrow> ch_bind (named ''drop old toki_windows'' (execute post (drop_sql staged))) (\<lambda>_ s. (Inr (), s)) s')"

definition rebuild_windows :: "'s ch_server \<Rightarrow> 's \<Rightarrow> unit result \<times> 's" where
  "rebuild_windows post =
     ch_bind (named ''drop stale migration table'' (execute post (drop_sql staged))) (\<lambda>_.
     ch_bind (named ''create toki_windows_v2'' (execute post (windows_ddl staged))) (\<lambda>_.
     ch_bind (named ''copy toki_windows rows'' (execute post copy_sql)) (\<lambda>_. swap_tables post)))"

definition migrate_windows_table :: "'s ch_server \<Rightarrow> 's \<Rightarrow> unit result \<times> 's" where
  "migrate_windows_table post =
     ch_bind (execute post has_column_sql) (\<lambda>n. if ascii_trim n \<noteq> ''0'' then (\<lambda>s. (Inr (), s)) else rebuild_windows post)"

definition create_table :: "'s ch_server \<Rightarrow> 's \<Rightarrow> unit result \<times> 's" where
  "create_table post =
     ch_bind (named ''create toki_events table'' (execute post CREATE_EVENTS)) (\<lambda>_.
     ch_bind (named ''add toki_events session column'' (execute post ADD_SESSION)) (\<lambda>_.
     ch_bind (named ''create toki_windows table'' (execute post (windows_ddl live))) (\<lambda>_.
     migrate_windows_table post)))"

definition ch_new :: "'s ch_server \<Rightarrow> 's \<Rightarrow> unit result \<times> 's" where
  "ch_new post = ch_bind (recover_interrupted_migration post) (\<lambda>_. create_table post)"

section \<open>What is asked of the server\<close>

text \<open>The tables by name, each with whether it has the version column and the windows it holds.\<close>

type_synonym 'd tables = "string \<Rightarrow> (bool \<times> 'd) option"

definition created :: "'d \<Rightarrow> string \<Rightarrow> 'd tables \<Rightarrow> 'd tables" where
  "created none t T = (case T t of None \<Rightarrow> T(t \<mapsto> (True, none)) | Some _ \<Rightarrow> T)"

definition renamed :: "string \<Rightarrow> string \<Rightarrow> 'd tables \<Rightarrow> 'd tables" where
  "renamed a b T = T(b := T a, a := None)"

definition exchanged :: "string \<Rightarrow> string \<Rightarrow> 'd tables \<Rightarrow> 'd tables" where
  "exchanged a b T = T(a := T b, b := T a)"

text \<open>A statement with the effect \<open>f\<close>: done when it is answered, done or not when it fails.\<close>

definition outcome :: "('s \<Rightarrow> 'd tables) \<Rightarrow> ('d tables \<Rightarrow> 'd tables) \<Rightarrow> 's \<Rightarrow> string result \<times> 's \<Rightarrow> bool" where
  "outcome view f s a \<longleftrightarrow> (case a of (r, s') \<Rightarrow> view s' = f (view s) \<or> (view s' = view s \<and> (\<exists>e. r = Inl e)))"

definition answers_count :: "('s \<Rightarrow> 'd tables) \<Rightarrow> bool \<Rightarrow> 's \<Rightarrow> string result \<times> 's \<Rightarrow> bool" where
  "answers_count view p s a \<longleftrightarrow> (case a of (r, s') \<Rightarrow> view s' = view s \<and> (\<forall>b. r = Inr b \<longrightarrow> (ascii_trim b \<noteq> ''0'' \<longleftrightarrow> p)))"

locale windows_server =
  fixes post :: "'s ch_server" and view :: "'s \<Rightarrow> 'd tables" and none :: 'd
  assumes counts_tables: "t \<in> {live, staged, retired} \<Longrightarrow> answers_count view (view s t \<noteq> None) s (post (table_exists_sql t) s)"
    and counts_column: "view s live = Some (v, d) \<Longrightarrow> answers_count view v s (post has_column_sql s)"
    and keeps_windows: "q \<in> {CREATE_EVENTS, ADD_SESSION} \<Longrightarrow> outcome view id s (post q s)"
    and creates: "t \<in> {live, staged} \<Longrightarrow> outcome view (created none t) s (post (windows_ddl t) s)"
    and drops: "t \<in> {staged, retired} \<Longrightarrow> outcome view (\<lambda>T. T(t := None)) s (post (drop_sql t) s)"
    and copies: "view s live = Some (v, d) \<Longrightarrow> view s staged = Some (True, none) \<Longrightarrow>
      \<exists>d'. view (snd (post copy_sql s)) = (view s)(staged \<mapsto> (True, d')) \<and> (\<forall>b. fst (post copy_sql s) = Inr b \<longrightarrow> d' = d)"
    and exchanges: "view s live \<noteq> None \<Longrightarrow> view s staged \<noteq> None \<Longrightarrow> outcome view (exchanged live staged) s (post exchange_sql s)"
    and renames: "(a, b) \<in> {(staged, live), (retired, live), (live, retired)} \<Longrightarrow>
      if view s a \<noteq> None \<and> view s b = None then outcome view (renamed a b) s (post (rename_sql a b) s)
      else view (snd (post (rename_sql a b) s)) = view s \<and> (\<exists>e. fst (post (rename_sql a b) s) = Inl e)"

section \<open>Recovery\<close>

text \<open>What a program of statements ends in: \<open>Q\<close> after a result, \<open>E\<close> after an error.\<close>

definition ends :: "('a \<Rightarrow> 's \<Rightarrow> bool) \<Rightarrow> ('s \<Rightarrow> bool) \<Rightarrow> 'a result \<times> 's \<Rightarrow> bool" where
  "ends Q E a \<longleftrightarrow> (case a of (Inl e, s) \<Rightarrow> E s | (Inr x, s) \<Rightarrow> Q x s)"

lemma ends_simps [simp]: "ends Q E (Inl e, s) = E s" "ends Q E (Inr x, s) = Q x s"
  by (simp_all add: ends_def)

lemma ends_bind: "ends (\<lambda>x s. ends Q E (f x s)) E (m s) \<Longrightarrow> ends Q E (ch_bind m f s)"
  by (auto simp: ends_def ch_bind_def split: prod.splits sum.splits)

lemma ends_named: "ends Q E (m s) \<Longrightarrow> ends Q E (named what m s)"
  by (auto simp: ends_def named_def split: prod.splits sum.splits)

lemma ends_execute: "ends Q E (post q s) \<Longrightarrow> ends Q E (execute post q s)"
  by (auto simp: ends_def execute_def ch_send_def split: prod.splits sum.splits)

lemma ends_mono: "ends Q E a \<Longrightarrow> (\<And>x s. Q x s \<Longrightarrow> Q' x s) \<Longrightarrow> (\<And>s. E s \<Longrightarrow> E' s) \<Longrightarrow> ends Q' E' a"
  by (auto simp: ends_def split: prod.splits sum.splits)

lemma ends_outcome: "outcome view f s a \<Longrightarrow> ends (\<lambda>_ s'. view s' = f (view s)) (\<lambda>s'. view s' = f (view s) \<or> view s' = view s) a"
  by (auto simp: outcome_def ends_def split: prod.splits sum.splits)

lemma ends_count: "answers_count view p s a \<Longrightarrow> ends (\<lambda>b s'. view s' = view s \<and> (ascii_trim b \<noteq> ''0'' \<longleftrightarrow> p)) (\<lambda>s'. view s' = view s) a"
  by (auto simp: answers_count_def ends_def split: prod.splits sum.splits)

lemma table_names [simp]:
  "live \<noteq> staged" "staged \<noteq> live" "live \<noteq> retired" "retired \<noteq> live" "staged \<noteq> retired" "retired \<noteq> staged"
  by (simp_all add: live_def staged_def retired_def)

text \<open>The windows \<open>H\<close> are where a start can find them.\<close>

definition found :: "'d \<Rightarrow> 'd tables \<Rightarrow> bool" where
  "found H T \<longleftrightarrow> (\<exists>v. T live = Some (v, H))"

definition safe :: "'d \<Rightarrow> 'd \<Rightarrow> 'd tables \<Rightarrow> bool" where
  "safe none H T \<longleftrightarrow> (case T live of Some (v, d) \<Rightarrow> d = H
     | None \<Rightarrow> (case T staged of Some (v, d) \<Rightarrow> d = H
         | None \<Rightarrow> (case T retired of Some (v, d) \<Rightarrow> d = H | None \<Rightarrow> H = none)))"

lemma found_safe: "found H T \<Longrightarrow> safe none H T"
  by (auto simp: found_def safe_def)

context windows_server
begin

abbreviation "good H s \<equiv> safe none H (view s)"

lemma recover_from_ends:
  assumes "ts \<in> {[staged, retired], [retired], []}" "view s live = None"
    "good H s" "staged \<in> set ts \<or> view s staged = None" "retired \<in> set ts \<or> view s retired = None"
  shows "ends (\<lambda>_ s'. found H (view s') \<or> (view s' live = None \<and> H = none \<and> good H s')) (good H) (recover_from post ts s)"
  using assms
proof (induction ts arbitrary: s)
  case (Cons t ts)
  have known: "t \<in> {live, staged, retired}" using Cons.prems(1) by auto
  have t: "(t, live) \<in> {(staged, live), (retired, live), (live, retired)}" "t \<noteq> live" using Cons.prems(1) by auto
  show ?case unfolding recover_from.simps
  proof (rule ends_bind, rule ends_execute, rule ends_mono [OF ends_count [OF counts_tables [OF known]]])
    fix n s'
    assume s': "view s' = view s \<and> (ascii_trim n \<noteq> ''0'' \<longleftrightarrow> view s t \<noteq> None)"
    show "ends (\<lambda>_ s'. found H (view s') \<or> (view s' live = None \<and> H = none \<and> good H s')) (good H)
        ((if ascii_trim n = ''0'' then recover_from post ts
          else ch_bind (named (''recover toki_windows from '' @ t) (execute post (rename_sql t live))) (\<lambda>_ s. (Inr (), s))) s')"
    proof (cases "view s t")
      case None
      then have "ends (\<lambda>_ s'. found H (view s') \<or> (view s' live = None \<and> H = none \<and> good H s')) (good H) (recover_from post ts s')"
        using s' Cons.prems by (intro Cons.IH) auto
      then show ?thesis using s' None by simp
    next
      case (Some c)
      then obtain v d where c: "view s t = Some (v, d)" by (cases c) auto
      have d: "d = H" using Cons.prems c by (auto simp: safe_def)
      have out: "outcome view (renamed t live) s' (post (rename_sql t live) s')"
        using renames [OF t(1), of s'] s' Cons.prems(2) c by simp
      have "ends (\<lambda>_ s'. found H (view s')) (good H) (post (rename_sql t live) s')"
      proof (rule ends_mono [OF ends_outcome [OF out]])
        have "found H (renamed t live (view s'))" using s' c d t(2) by (simp add: found_def renamed_def)
        then show "found H (view s'')" if "view s'' = renamed t live (view s')" for s'' using that by simp
        then show "good H s''" if "view s'' = renamed t live (view s') \<or> view s'' = view s'" for s''
          using that s' Cons.prems(3) by (metis found_safe)
      qed
      then show ?thesis using s' Some by (auto intro!: ends_bind ends_named ends_execute elim: ends_mono)
    qed
  qed (use Cons.prems in simp)
qed (auto simp: safe_def)

lemma recover_ends:
  assumes "good H s"
  shows "ends (\<lambda>_ s'. found H (view s') \<or> (view s' live = None \<and> H = none \<and> good H s')) (good H) (recover_interrupted_migration post s)"
  unfolding recover_interrupted_migration_def
proof (rule ends_bind, rule ends_execute, rule ends_mono [OF ends_count [OF counts_tables [of live]]])
  fix n s'
  assume s': "view s' = view s \<and> (ascii_trim n \<noteq> ''0'' \<longleftrightarrow> view s live \<noteq> None)"
  show "ends (\<lambda>_ s'. found H (view s') \<or> (view s' live = None \<and> H = none \<and> good H s')) (good H)
      ((if ascii_trim n \<noteq> ''0'' then \<lambda>s. (Inr (), s) else recover_from post [staged, retired]) s')"
  proof (cases "view s live")
    case None
    then show ?thesis using s' recover_from_ends [of "[staged, retired]" s' H] assms by simp
  next
    case (Some c)
    then show ?thesis using s' assms by (auto simp: found_def safe_def split: prod.splits)
  qed
qed (use assms in auto)

end

context windows_server
begin

lemma good_after:
  assumes "outcome view f s a" "found H (view s)" "found H (f (view s))"
  shows "ends (\<lambda>_ s'. view s' = f (view s)) (\<lambda>s'. found H (view s')) a"
  by (rule ends_mono [OF ends_outcome [OF assms(1)]]) (use assms(2,3) in auto)

lemma found_good: "found H (view s) \<Longrightarrow> good H s"
  by (rule found_safe)

lemma drop_ends:
  assumes "t \<in> {staged, retired}" "found H (view s)"
  shows "ends (\<lambda>_ s'. found H (view s')) (good H) (ch_bind (named what (execute post (drop_sql t))) (\<lambda>_ s. (Inr (), s)) s)"
proof (rule ends_bind, rule ends_named, rule ends_execute, rule ends_mono [OF good_after [OF drops [OF assms(1)] assms(2)]])
  show "found H ((view s)(t := None))" using assms by (auto simp: found_def)
  then show "ends (\<lambda>_ s'. found H (view s')) (good H) (Inr (), s')" if "view s' = (view s)(t := None)" for s' using that by simp
qed (rule found_good)

lemma finish_ends:
  assumes "view s live = None" "view s staged = Some (w, H)"
  shows "ends (\<lambda>_ s'. found H (view s')) (good H) (ch_bind (named ''rename new toki_windows'' (execute post (rename_sql staged live))) (\<lambda>_.
    ch_bind (named ''drop old toki_windows'' (execute post (drop_sql retired))) (\<lambda>_ s. (Inr (), s))) s)"
proof (rule ends_bind, rule ends_named, rule ends_execute, rule ends_mono [OF ends_outcome])
  show "outcome view (renamed staged live) s (post (rename_sql staged live) s)" using renames [of staged live s] assms by simp
  show "ends (\<lambda>_ s'. found H (view s')) (good H)
      (ch_bind (named ''drop old toki_windows'' (execute post (drop_sql retired))) (\<lambda>_ s. (Inr (), s)) s')" if "view s' = renamed staged live (view s)" for s'
    using that assms by (intro drop_ends) (simp_all add: found_def renamed_def)
  show "good H s'" if "view s' = renamed staged live (view s) \<or> view s' = view s" for s'
    using that assms by (auto simp: safe_def renamed_def)
qed

lemma swap_ends:
  assumes "view s live = Some (v, H)" "view s staged = Some (w, H)"
  shows "ends (\<lambda>_ s'. found H (view s')) (good H) (swap_by_rename post s)"
proof (cases "view s retired")
  case None
  show ?thesis unfolding swap_by_rename_def
  proof (rule ends_bind, rule ends_named, rule ends_execute, rule ends_mono [OF ends_outcome])
    show "outcome view (renamed live retired) s (post (rename_sql live retired) s)" using renames [of live retired s] assms None by simp
    show "ends (\<lambda>_ s'. found H (view s')) (good H) (ch_bind (named ''rename new toki_windows'' (execute post (rename_sql staged live))) (\<lambda>_.
        ch_bind (named ''drop old toki_windows'' (execute post (drop_sql retired))) (\<lambda>_ s. (Inr (), s))) s')"
      if "view s' = renamed live retired (view s)" for s'
      using that assms by (intro finish_ends) (simp_all add: renamed_def)
    show "good H s'" if "view s' = renamed live retired (view s) \<or> view s' = view s" for s'
      using that assms by (auto simp: safe_def renamed_def)
  qed
next
  case (Some c)
  obtain r s' where post: "post (rename_sql live retired) s = (r, s')" by (cases "post (rename_sql live retired) s")
  then obtain e where "view s' = view s" "r = Inl e" using renames [of live retired s] Some by auto
  moreover have "good H s" using assms(1) by (simp add: safe_def)
  ultimately show ?thesis
    unfolding swap_by_rename_def by (intro ends_bind ends_named ends_execute) (simp add: post)
qed

lemma swap_tables_ends:
  assumes "view s live = Some (v, H)" "view s staged = Some (w, H)"
  shows "ends (\<lambda>_ s'. found H (view s')) (good H) (swap_tables post s)"
proof -
  obtain r s' where post: "post exchange_sql s = (r, s')" by (cases "post exchange_sql s")
  have "outcome view (exchanged live staged) s (r, s')" unfolding post [symmetric] using assms by (intro exchanges) simp_all
  then have s': "view s' = exchanged live staged (view s) \<or> view s' = view s" by (auto simp: outcome_def)
  show ?thesis
  proof (cases r)
    case (Inl e)
    have "\<exists>v w. view s' live = Some (v, H) \<and> view s' staged = Some (w, H)" using s' assms by (auto simp: exchanged_def)
    then show ?thesis using Inl swap_ends by (auto simp: swap_tables_def execute_def ch_send_def post)
  next
    case (Inr b)
    have "found H (view s')" using s' assms by (auto simp: exchanged_def found_def)
    then show ?thesis using drop_ends [of staged H s'] Inr by (simp add: swap_tables_def execute_def ch_send_def post)
  qed
qed

lemma rebuild_ends:
  assumes "found H (view s)"
  shows "ends (\<lambda>_ s'. found H (view s')) (good H) (rebuild_windows post s)"
  unfolding rebuild_windows_def
proof (rule ends_bind, rule ends_named, rule ends_execute, rule ends_mono [OF good_after [OF drops assms]])
  fix s1 assume "view s1 = (view s)(staged := None)"
  then have s1: "found H (view s1)" "view s1 staged = None" using assms by (simp_all add: found_def)
  then obtain v where v: "view s1 live = Some (v, H)" by (auto simp: found_def)
  show "ends (\<lambda>_ s'. found H (view s')) (good H) (ch_bind (named ''create toki_windows_v2'' (execute post (windows_ddl staged))) (\<lambda>_.
      ch_bind (named ''copy toki_windows rows'' (execute post copy_sql)) (\<lambda>_. swap_tables post)) s1)"
  proof (rule ends_bind, rule ends_named, rule ends_execute, rule ends_mono [OF good_after [OF creates s1(1)]])
    fix s2 assume "view s2 = created none staged (view s1)"
    then have s2: "view s2 live = Some (v, H)" "view s2 staged = Some (True, none)" using v s1(2) by (simp_all add: created_def)
    have "ends (\<lambda>_ s3. view s3 live = Some (v, H) \<and> view s3 staged = Some (True, H)) (\<lambda>s3. view s3 live = Some (v, H)) (post copy_sql s2)"
      using copies [OF s2] s2 by (auto simp: ends_def split: prod.splits sum.splits)
    then show "ends (\<lambda>_ s'. found H (view s')) (good H) (ch_bind (named ''copy toki_windows rows'' (execute post copy_sql)) (\<lambda>_. swap_tables post) s2)"
      by (intro ends_bind ends_named ends_execute) (erule ends_mono, simp add: swap_tables_ends, rule found_good, simp add: found_def)
  qed (use s1 v in \<open>auto simp: found_def created_def intro: found_good\<close>)
qed (use assms in \<open>auto simp: found_def intro: found_good\<close>)

lemma migrate_ends:
  assumes "found H (view s)"
  shows "ends (\<lambda>_ s'. found H (view s')) (good H) (migrate_windows_table post s)"
proof -
  obtain v where live: "view s live = Some (v, H)" using assms by (auto simp: found_def)
  show ?thesis unfolding migrate_windows_table_def
    by (rule ends_bind, rule ends_execute, rule ends_mono [OF ends_count [OF counts_column [OF live]]])
      (use assms in \<open>auto intro: found_good rebuild_ends\<close>)
qed

lemma create_ends:
  assumes "found H (view s) \<or> (view s live = None \<and> H = none)" "good H s"
  shows "ends (\<lambda>_ s'. found H (view s')) (good H) (create_table post s)"
proof -
  let ?P = "\<lambda>s'. view s' = view s"
  have keep: "ends (\<lambda>_. ?P) ?P (post q s')" if "q \<in> {CREATE_EVENTS, ADD_SESSION}" "?P s'" for q s'
    using ends_outcome [OF keeps_windows [OF that(1), of s']] that(2) by simp
  have goods: "?P s' \<Longrightarrow> good H s'" for s' using assms(2) by simp
  show ?thesis unfolding create_table_def
  proof (rule ends_bind, rule ends_named, rule ends_execute, rule ends_mono [OF keep], simp, simp)
    fix s1 assume s1: "?P s1"
    show "ends (\<lambda>_ s'. found H (view s')) (good H) (ch_bind (named ''add toki_events session column'' (execute post ADD_SESSION)) (\<lambda>_.
        ch_bind (named ''create toki_windows table'' (execute post (windows_ddl live))) (\<lambda>_. migrate_windows_table post)) s1)"
    proof (rule ends_bind, rule ends_named, rule ends_execute, rule ends_mono [OF keep], simp, rule s1)
      fix s2 assume s2: "?P s2"
      have made: "found H (created none live (view s2))" using assms(1) s2 by (auto simp: found_def created_def split: option.splits)
      show "ends (\<lambda>_ s'. found H (view s')) (good H)
          (ch_bind (named ''create toki_windows table'' (execute post (windows_ddl live))) (\<lambda>_. migrate_windows_table post) s2)"
      proof (rule ends_bind, rule ends_named, rule ends_execute, rule ends_mono [OF ends_outcome [OF creates]])
        show "ends (\<lambda>_ s'. found H (view s')) (good H) (migrate_windows_table post s3)" if "view s3 = created none live (view s2)" for s3
          using that made by (intro migrate_ends) simp
        show "good H s3" if "view s3 = created none live (view s2) \<or> view s3 = view s2" for s3
          using that made s2 assms(2) by (metis found_good goods)
      qed simp
    qed (rule goods)
  qed (rule goods)
qed

lemma start_ends:
  assumes "good H s"
  shows "ends (\<lambda>_ s'. found H (view s')) (good H) (ch_new post s)"
  unfolding ch_new_def
  by (rule ends_bind, rule ends_mono [OF recover_ends [OF assms]]) (auto intro: create_ends found_good)

end

section \<open>Crashes\<close>

text \<open>The server as a process sees it that is killed after the given number of statements.\<close>

fun limited :: "'s ch_server \<Rightarrow> ('s \<times> nat) ch_server" where
  "limited post q (s, 0) = (Inl ''stopped'', (s, 0))"
| "limited post q (s, Suc n) = (case post q s of (r, s') \<Rightarrow> (r, (s', n)))"

fun starts :: "'s ch_server \<Rightarrow> nat list \<Rightarrow> 's \<Rightarrow> 's" where
  "starts post [] s = s"
| "starts post (n # ns) s = starts post ns (fst (snd (ch_new (limited post) (s, n))))"

context windows_server
begin

lemma outcome_limited:
  assumes "outcome view f (fst s) (post q (fst s))"
  shows "outcome (view \<circ> fst) f s (limited post q s)"
  using assms by (cases "(post, q, s)" rule: limited.cases) (auto simp: outcome_def split: prod.splits)

lemma count_limited:
  assumes "answers_count view p (fst s) (post q (fst s))"
  shows "answers_count (view \<circ> fst) p s (limited post q s)"
  using assms by (cases "(post, q, s)" rule: limited.cases) (auto simp: answers_count_def split: prod.splits)

lemma limited_server: "windows_server (limited post) (view \<circ> fst) none"
proof
  fix t and s :: "'s \<times> nat" assume "t \<in> {live, staged, retired}"
  then show "answers_count (view \<circ> fst) ((view \<circ> fst) s t \<noteq> None) s (limited post (table_exists_sql t) s)"
    using count_limited [OF counts_tables] by simp
next
  fix s :: "'s \<times> nat" and v d assume "(view \<circ> fst) s live = Some (v, d)"
  then show "answers_count (view \<circ> fst) v s (limited post has_column_sql s)" using count_limited [OF counts_column] by simp
next
  fix q and s :: "'s \<times> nat" assume "q \<in> {CREATE_EVENTS, ADD_SESSION}"
  then show "outcome (view \<circ> fst) id s (limited post q s)" by (rule outcome_limited [OF keeps_windows])
next
  fix t and s :: "'s \<times> nat" assume "t \<in> {live, staged}"
  then show "outcome (view \<circ> fst) (created none t) s (limited post (windows_ddl t) s)" by (rule outcome_limited [OF creates])
next
  fix t and s :: "'s \<times> nat" assume "t \<in> {staged, retired}"
  then show "outcome (view \<circ> fst) (\<lambda>T. T(t := None)) s (limited post (drop_sql t) s)" by (rule outcome_limited [OF drops])
next
  fix s :: "'s \<times> nat" and v d assume "(view \<circ> fst) s live = Some (v, d)" "(view \<circ> fst) s staged = Some (True, none)"
  then show "\<exists>d'. (view \<circ> fst) (snd (limited post copy_sql s)) = ((view \<circ> fst) s)(staged \<mapsto> (True, d')) \<and>
      (\<forall>b. fst (limited post copy_sql s) = Inr b \<longrightarrow> d' = d)"
    using copies [of "fst s" v d]
  proof (cases "(post, copy_sql, s)" rule: limited.cases)
    case (1 post' q sa)
    then have "view sa = (view sa)(staged \<mapsto> (True, none))" using \<open>(view \<circ> fst) s staged = Some (True, none)\<close> by (simp add: fun_upd_idem)
    then show ?thesis using 1 by auto
  qed (auto split: prod.splits)
next
  fix s :: "'s \<times> nat" assume "(view \<circ> fst) s live \<noteq> None" "(view \<circ> fst) s staged \<noteq> None"
  then show "outcome (view \<circ> fst) (exchanged live staged) s (limited post exchange_sql s)" by (intro outcome_limited exchanges) simp_all
next
  fix a b and s :: "'s \<times> nat" assume ab: "(a, b) \<in> {(staged, live), (retired, live), (live, retired)}"
  note law = renames [OF ab, of "fst s"]
  show "if (view \<circ> fst) s a \<noteq> None \<and> (view \<circ> fst) s b = None then outcome (view \<circ> fst) (renamed a b) s (limited post (rename_sql a b) s)
      else (view \<circ> fst) (snd (limited post (rename_sql a b) s)) = (view \<circ> fst) s \<and> (\<exists>e. fst (limited post (rename_sql a b) s) = Inl e)"
  proof (cases "(view \<circ> fst) s a \<noteq> None \<and> (view \<circ> fst) s b = None")
    case True
    then show ?thesis using law by (simp add: outcome_limited)
  next
    case False
    then show ?thesis using law by (cases "(post, rename_sql a b, s)" rule: limited.cases) (auto split: prod.splits)
  qed
qed

lemma ends_good: "ends (\<lambda>_ s'. found H (view s')) (good H) a \<Longrightarrow> good H (snd a)"
  by (auto simp: ends_def intro: found_good split: prod.splits sum.splits)

lemma starts_good: "good H s \<Longrightarrow> good H (starts post ns s)"
proof (induction ns arbitrary: s)
  case (Cons n ns)
  have "safe none H ((view \<circ> fst) (s, n))" using Cons.prems by simp
  from windows_server.ends_good [OF limited_server windows_server.start_ends [OF limited_server this]]
  show ?case using Cons.IH by simp
qed simp

end

text \<open>C17: Whatever goes wrong while the windows table is rebuilt, its history survives: after any
  number of starts that stopped or failed at any statement, a start that succeeds leaves every row
  in the windows table.\<close>

theorem windows_survive_migration:
  assumes "windows_server post view none" "view s live = Some (v, H)" "ch_new post (starts post ns s) = (Inr (), s')"
  shows "\<exists>w. view s' live = Some (w, H)"
proof -
  have "safe none H (view s)" using assms(2) by (simp add: safe_def)
  then have "safe none H (view (starts post ns s))" by (rule windows_server.starts_good [OF assms(1)])
  from windows_server.start_ends [OF assms(1) this] show ?thesis by (simp add: assms(3) found_def)
qed

section \<open>A server\<close>

text \<open>A server whose state is its tables, with or without \<open>EXCHANGE\<close>.\<close>

datatype statement = Keep | Make string | Exists string | Has_Column | Copy | Exchange | Drop string | Rename string string

definition statements :: "(string \<times> statement) list" where
  "statements = [(CREATE_EVENTS, Keep), (windows_ddl live, Make live), (windows_ddl staged, Make staged), (ADD_SESSION, Keep),
     (has_column_sql, Has_Column), (copy_sql, Copy), (exchange_sql, Exchange), (drop_sql staged, Drop staged),
     (drop_sql retired, Drop retired), (table_exists_sql live, Exists live), (table_exists_sql staged, Exists staged),
     (table_exists_sql retired, Exists retired), (rename_sql staged live, Rename staged live),
     (rename_sql retired live, Rename retired live), (rename_sql live retired, Rename live retired)]"

fun run_statement :: "bool \<Rightarrow> 'd \<Rightarrow> statement \<Rightarrow> 'd tables \<Rightarrow> string result \<times> 'd tables" where
  "run_statement atomic none Keep T = (Inr [], T)"
| "run_statement atomic none (Make t) T = (Inr [], created none t T)"
| "run_statement atomic none (Exists t) T = (Inr (if T t = None then ''0'' else ''1''), T)"
| "run_statement atomic none Has_Column T = (Inr (case T live of Some (v, d) \<Rightarrow> if v then ''1'' else ''0'' | None \<Rightarrow> ''0''), T)"
| "run_statement atomic none Copy T =
     (case (T live, T staged) of (Some (_, d), Some (w, _)) \<Rightarrow> (Inr [], T(staged \<mapsto> (w, d))) | _ \<Rightarrow> (Inl ''no table'', T))"
| "run_statement atomic none Exchange T = (if atomic then (Inr [], exchanged live staged T) else (Inl ''not atomic'', T))"
| "run_statement atomic none (Drop t) T = (Inr [], T(t := None))"
| "run_statement atomic none (Rename a b) T =
     (if T a \<noteq> None \<and> T b = None then (Inr [], renamed a b T) else (Inl ''cannot rename'', T))"

definition table_server :: "bool \<Rightarrow> 'd \<Rightarrow> ('d tables) ch_server" where
  "table_server atomic none q T =
     (case map_of statements q of None \<Rightarrow> (Inl ''unknown statement'', T) | Some c \<Rightarrow> run_statement atomic none c T)"

lemmas statement_defs = CREATE_EVENTS_def ADD_SESSION_def windows_ddl_def has_column_sql_def copy_sql_def exchange_sql_def
  drop_sql_def table_exists_sql_def rename_sql_def live_def staged_def retired_def squote_def LF_def

lemma ddl_differ: "CREATE_EVENTS \<noteq> windows_ddl live" "CREATE_EVENTS \<noteq> windows_ddl staged" "windows_ddl staged \<noteq> windows_ddl live"
  by (simp_all add: windows_ddl_def CREATE_EVENTS_def live_def staged_def)

lemma statements_distinct: "distinct (map fst statements)"
proof -
  have heads: "hd CREATE_EVENTS = LF" "hd (windows_ddl t) = LF" for t by (simp_all add: CREATE_EVENTS_def windows_ddl_def)
  have "list_all (\<lambda>q. hd q \<noteq> LF) (map fst (drop 3 statements))" by (simp add: statements_def statement_defs)
  then have "list_all (\<lambda>q. q \<noteq> CREATE_EVENTS \<and> q \<noteq> windows_ddl live \<and> q \<noteq> windows_ddl staged) (map fst (drop 3 statements))"
    using heads by (auto simp: list_all_iff)
  moreover have "distinct (map fst (drop 3 statements))" by (simp add: statements_def statement_defs)
  moreover have "map fst statements = CREATE_EVENTS # windows_ddl live # windows_ddl staged # map fst (drop 3 statements)"
    by (simp add: statements_def)
  ultimately show ?thesis using ddl_differ by (auto simp: list_all_iff)
qed

lemma table_server_run: "(q, c) \<in> set statements \<Longrightarrow> table_server atomic none q T = run_statement atomic none c T"
  by (simp add: table_server_def map_of_is_SomeI [OF statements_distinct])

lemma table_server_answers:
  "q \<in> {CREATE_EVENTS, ADD_SESSION} \<Longrightarrow> table_server atomic none q T = run_statement atomic none Keep T"
  "t \<in> {live, staged} \<Longrightarrow> table_server atomic none (windows_ddl t) T = run_statement atomic none (Make t) T"
  "table_server atomic none has_column_sql T = run_statement atomic none Has_Column T"
  "table_server atomic none copy_sql T = run_statement atomic none Copy T"
  "table_server atomic none exchange_sql T = run_statement atomic none Exchange T"
  "t \<in> {staged, retired} \<Longrightarrow> table_server atomic none (drop_sql t) T = run_statement atomic none (Drop t) T"
  "t \<in> {live, staged, retired} \<Longrightarrow> table_server atomic none (table_exists_sql t) T = run_statement atomic none (Exists t) T"
  "(a, b) \<in> {(staged, live), (retired, live), (live, retired)} \<Longrightarrow>
     table_server atomic none (rename_sql a b) T = run_statement atomic none (Rename a b) T"
  by (rule table_server_run; auto simp: statements_def)+

lemma trim_count [simp]: "ascii_trim ''0'' = ''0''" "ascii_trim ''1'' = ''1''"
  by (simp_all add: ascii_trim_def str_trim_def blank_char_def byte_def)

interpretation table_server: windows_server "table_server atomic none" id none
  by unfold_locales
    (auto simp: table_server_answers answers_count_def outcome_def split: option.splits)

text \<open>A start on a server that answers leaves the windows in a table that has the version column, with or without \<open>EXCHANGE\<close>.\<close>

lemmas run_start = ch_new_def recover_interrupted_migration_def create_table_def migrate_windows_table_def rebuild_windows_def swap_tables_def
  swap_by_rename_def ch_bind_def named_def execute_def ch_send_def

lemma start_migrates:
  assumes "T live = Some (v, H)" "T retired = None"
  shows "\<exists>T'. ch_new (table_server atomic none) T = (Inr (), T') \<and> T' live = Some (True, H)"
  using assms by (cases v; cases atomic)
    (auto simp: run_start table_server_answers created_def exchanged_def renamed_def)

text \<open>An \<open>EXCHANGE\<close> that is executed but whose answer is lost (a request may take 30 seconds): the renames then undo it, the start
  succeeds, and the store is left with the table of the earlier version, into which no upload can be inserted.\<close>

definition lost_exchange :: "'d \<Rightarrow> ('d tables) ch_server" where
  "lost_exchange none q T = (if q = exchange_sql then (Inl ''timed out'', exchanged live staged T) else table_server True none q T)"

lemma lost_exchange_leaves_old_table:
  assumes "T live = Some (False, H)" "T retired = None"
  shows "\<exists>T'. ch_new (lost_exchange none) T = (Inr (), T') \<and> T' live = Some (False, H)"
proof -
  have "q \<noteq> exchange_sql" if "(q, c) \<in> set statements" "c \<noteq> Exchange" for q c
    using that eq_key_imp_eq_value [OF statements_distinct, of q c Exchange] by (auto simp: statements_def)
  then have other: "lost_exchange none q T' = run_statement True none c T'" if "(q, c) \<in> set statements" "c \<noteq> Exchange" for q c T'
    using that by (auto simp: lost_exchange_def table_server_run)
  have answers: "lost_exchange none (table_exists_sql live) T' = run_statement True none (Exists live) T'"
    "lost_exchange none CREATE_EVENTS T' = run_statement True none Keep T'" "lost_exchange none ADD_SESSION T' = run_statement True none Keep T'"
    "lost_exchange none (windows_ddl live) T' = run_statement True none (Make live) T'"
    "lost_exchange none (windows_ddl staged) T' = run_statement True none (Make staged) T'"
    "lost_exchange none has_column_sql T' = run_statement True none Has_Column T'" "lost_exchange none copy_sql T' = run_statement True none Copy T'"
    "lost_exchange none (drop_sql staged) T' = run_statement True none (Drop staged) T'"
    "lost_exchange none (drop_sql retired) T' = run_statement True none (Drop retired) T'"
    "lost_exchange none (rename_sql live retired) T' = run_statement True none (Rename live retired) T'"
    "lost_exchange none (rename_sql staged live) T' = run_statement True none (Rename staged live) T'" for T'
    by (rule other; simp add: statements_def)+
  have "lost_exchange none exchange_sql T' = (Inl ''timed out'', exchanged live staged T')" for T' by (simp add: lost_exchange_def)
  then show ?thesis using assms by (auto simp: run_start answers created_def exchanged_def renamed_def)
qed

theorem windows_survive_migration_witness:
  "\<exists>w. snd (ch_new (table_server False (0 :: nat)) (starts (table_server False 0) [10, 2] [live \<mapsto> (False, 7)])) live = Some (w, 7)"
proof -
  have killed: "starts (table_server False (0 :: nat)) [10, 2] [live \<mapsto> (False, 7)] = [staged \<mapsto> (True, 7), retired \<mapsto> (False, 7)]"
    by (simp add: eval_nat_numeral run_start recover_from.simps table_server_answers created_def exchanged_def renamed_def)
  have "fst (ch_new (table_server False (0 :: nat)) [staged \<mapsto> (True, 7), retired \<mapsto> (False, 7)]) = Inr ()"
    by (simp add: run_start recover_from.simps table_server_answers created_def exchanged_def renamed_def)
  then show ?thesis
    using windows_survive_migration [OF table_server.windows_server_axioms, of "[live \<mapsto> (False, 7)]" False 7 False "0 :: nat" "[10, 2]"]
    unfolding killed by (metis id_apply fun_upd_same prod.collapse)
qed

end
