(* ===== verification/Fjall_Open.thy ===== *)
theory Fjall_Open
  imports Event_Store Decimal
begin

text \<open>
  Opening the embedded event store (\<open>FjallEventStore::open\<close> of \<open>src/src/events/fjall_store.rs\<close>): a store
  of another schema version is wiped, and the index by user is filled in once for a store that was
  written before there was one. Opening the files and removing them are the file system's: the state is
  the database behind the path, and \<open>wipe\<close> is \<open>remove_dir_all\<close>, whose error is ignored. A crash is a
  key-value store that takes no more commits (\<open>budgeted\<close>).
\<close>

section \<open>The code\<close>

definition EVENT_SCHEMA_VERSION :: nat where "EVENT_SCHEMA_VERSION = 2"
definition BACKFILL_CHUNK :: nat where "BACKFILL_CHUNK = 4096"

definition VERSION :: string where "VERSION = ''schema_version''"

definition stored_version :: "'s kv_ops \<Rightarrow> 's \<Rightarrow> nat" where
  "stored_version ops s =
     (case kv_get ops s Meta VERSION of
        Inr (Some b) \<Rightarrow> (case parse_uint u32_max b of Some n \<Rightarrow> n | None \<Rightarrow> 0)
      | _ \<Rightarrow> 0)"

definition commit_step :: "'s kv_ops \<Rightarrow> string \<Rightarrow> kv_write list \<Rightarrow> 's \<Rightarrow> unit result \<times> 's" where
  "commit_step ops what ws s = (case kv_commit ops s ws of Inl _ \<Rightarrow> (Inl what, s) | Inr s' \<Rightarrow> (Inr (), s'))"

fun backfill_loop :: "'s kv_ops \<Rightarrow> codec \<Rightarrow> kv_item list \<Rightarrow> kv_write list \<Rightarrow> 's \<Rightarrow> unit result \<times> 's" where
  "backfill_loop ops cd [] batch s =
     (if batch = [] then (Inr (), s) else commit_step ops ''idx_user backfill chunk commit'' batch s)"
| "backfill_loop ops cd (Inl _ # _) batch s = (Inl ''idx_user backfill scan'', s)"
| "backfill_loop ops cd (Inr (k, v) # items) batch s =
     (case decode_event cd v of
        None \<Rightarrow> (Inl ''idx_user backfill deserialize'', s)
      | Some ev \<Rightarrow>
          (let batch' = batch @ [Put Idx_User (user_idx_key (user_id ev) k) v]
           in if length batch' \<ge> BACKFILL_CHUNK
              then (case commit_step ops ''idx_user backfill chunk commit'' batch' s of
                      (Inl e, s') \<Rightarrow> (Inl e, s')
                    | (Inr _, s') \<Rightarrow> backfill_loop ops cd items [] s')
              else backfill_loop ops cd items batch' s))"

definition BACKFILLED :: string where "BACKFILLED = ''idx_user_backfilled''"

definition backfill :: "'s kv_ops \<Rightarrow> codec \<Rightarrow> 's \<Rightarrow> unit result \<times> 's" where
  "backfill ops cd s =
     (case kv_get ops s Meta BACKFILLED of
        Inr (Some _) \<Rightarrow> (Inr (), s)
      | _ \<Rightarrow>
          (case backfill_loop ops cd (kv_range ops s Events []) [] s of
             (Inl e, s') \<Rightarrow> (Inl e, s')
           | (Inr _, s') \<Rightarrow> commit_step ops ''idx_user backfill marker commit'' [Put Meta BACKFILLED ''1''] s'))"

definition open_current :: "'s kv_ops \<Rightarrow> codec \<Rightarrow> 's \<Rightarrow> unit result \<times> 's" where
  "open_current ops cd s =
     (case kv_commit ops s [Put Meta VERSION (show_nat EVENT_SCHEMA_VERSION)] of
        Inl e \<Rightarrow> (Inl e, s)
      | Inr s' \<Rightarrow> backfill ops cd s')"

partial_function (option) open_store :: "'s kv_ops \<Rightarrow> codec \<Rightarrow> ('s \<Rightarrow> 's) \<Rightarrow> 's \<Rightarrow> (unit result \<times> 's) option" where
  "open_store ops cd wipe s =
     (if stored_version ops s \<noteq> 0 \<and> stored_version ops s \<noteq> EVENT_SCHEMA_VERSION
      then open_store ops cd wipe (wipe s) else Some (open_current ops cd s))"

section \<open>Versions\<close>

lemma open_current_version:
  "stored_version ops s \<in> {0, EVENT_SCHEMA_VERSION} \<Longrightarrow> open_store ops cd wipe s = Some (open_current ops cd s)"
  by (subst open_store.simps) auto

lemma open_other_version:
  "stored_version ops s \<notin> {0, EVENT_SCHEMA_VERSION} \<Longrightarrow> stored_version ops (wipe s) \<in> {0, EVENT_SCHEMA_VERSION} \<Longrightarrow>
   open_store ops cd wipe s = Some (open_current ops cd (wipe s))"
  using open_current_version [of ops "wipe s"] by (subst open_store.simps) auto

text \<open>If the files cannot be removed, reopening a store of another version does not return.\<close>

lemma open_store_returns:
  assumes "open_store ops cd wipe s = Some y"
  shows "\<exists>n. stored_version ops ((wipe ^^ n) s) \<in> {0, EVENT_SCHEMA_VERSION}"
  using _ assms
proof (rule open_store.raw_induct)
  fix f ops cd wipe s and y :: "unit result \<times> 'a"
  assume IH: "\<And>ops cd wipe s y. f ops cd wipe s = Some y \<Longrightarrow> \<exists>n. stored_version ops ((wipe ^^ n) s) \<in> {0, EVENT_SCHEMA_VERSION}"
    and step: "(if stored_version ops s \<noteq> 0 \<and> stored_version ops s \<noteq> EVENT_SCHEMA_VERSION then f ops cd wipe (wipe s)
      else Some (open_current ops cd s)) = Some y"
  show "\<exists>n. stored_version ops ((wipe ^^ n) s) \<in> {0, EVENT_SCHEMA_VERSION}"
  proof (cases "stored_version ops s \<in> {0, EVENT_SCHEMA_VERSION}")
    case True
    then show ?thesis by (intro exI [of _ 0]) simp
  next
    case False
    then have "f ops cd wipe (wipe s) = Some y" using step by (simp split: if_splits)
    from IH [OF this] obtain n where "stored_version ops ((wipe ^^ n) (wipe s)) \<in> {0, EVENT_SCHEMA_VERSION}" by auto
    then show ?thesis by (intro exI [of _ "Suc n"]) (simp add: funpow_swap1)
  qed
qed

lemma stuck_files_never_open:
  assumes "wipe s = s" "stored_version ops s \<notin> {0, EVENT_SCHEMA_VERSION}"
  shows "open_store ops cd wipe s = None"
proof -
  have "(wipe ^^ n) s = s" for n using assms(1) by (induction n) simp_all
  then show ?thesis using open_store_returns [of ops cd wipe s] assms(2) by (cases "open_store ops cd wipe s") auto
qed

section \<open>The index by user\<close>

text \<open>What is asked of the store while it is opened: reads and commits as documented, but a commit may fail, and then nothing
  of it is there.\<close>

locale interrupted_kv =
  fixes ops :: "'s kv_ops" and contents :: "'s \<Rightarrow> keyspace \<Rightarrow> (string \<times> string) list"
  assumes sorted: "sorted_map (contents s ks)"
    and gets: "kv_get ops s ks k = Inr (map_of (contents s ks) k)"
    and ranges: "kv_range ops s ks [] = map Inr (contents s ks)"
    and commits: "kv_commit ops s ws = Inr s' \<Longrightarrow> map_of (contents s' ks) = apply_writes ks ws (map_of (contents s ks))"

sublocale ordered_kv \<subseteq> interrupted: interrupted_kv ops contents
proof unfold_locales
  fix s ws s' ks assume "kv_commit ops s ws = Inr s'"
  then show "map_of (contents s' ks) = apply_writes ks ws (map_of (contents s ks))" using commit_law [of s ws] by auto
qed (use contents_sorted get_law range_all in \<open>simp_all\<close>)

definition budgeted :: "'s kv_ops \<Rightarrow> ('s \<times> nat) kv_ops" where
  "budgeted ops = \<lparr>
     kv_get = (\<lambda>(s, n). kv_get ops s), kv_range = (\<lambda>(s, n). kv_range ops s), kv_prefix = (\<lambda>(s, n). kv_prefix ops s),
     kv_commit = (\<lambda>(s, n) ws. if n = 0 then Inl ''stopped'' else map_sum id (\<lambda>s'. (s', n - 1)) (kv_commit ops s ws))\<rparr>"

fun opens :: "'s kv_ops \<Rightarrow> codec \<Rightarrow> nat list \<Rightarrow> 's \<Rightarrow> 's" where
  "opens ops cd [] s = s"
| "opens ops cd (n # ns) s = opens ops cd ns (fst (snd (open_current (budgeted ops) cd (s, n))))"

context interrupted_kv
begin

lemma budgeted_kv: "interrupted_kv (budgeted ops) (contents \<circ> fst)"
proof
  fix s s' :: "'s \<times> nat" and ws ks assume "kv_commit (budgeted ops) s ws = Inr s'"
  then have "kv_commit ops (fst s) ws = Inr (fst s')"
    by (cases "kv_commit ops (fst s) ws") (auto simp: budgeted_def split: prod.splits if_splits)
  then show "map_of ((contents \<circ> fst) s' ks) = apply_writes ks ws (map_of ((contents \<circ> fst) s ks))" using commits by simp
qed (auto simp: budgeted_def sorted gets ranges split: prod.splits)

abbreviation kvs :: "'s \<Rightarrow> keyspace \<Rightarrow> string \<rightharpoonup> string" where
  "kvs s ks \<equiv> map_of (contents s ks)"

definition index_writes :: "codec \<Rightarrow> (string \<times> string) list \<Rightarrow> kv_write list" where
  "index_writes cd xs = map (\<lambda>(k, v). Put Idx_User (user_idx_key (user_id (the (decode_event cd v))) k) v) xs"

lemma commit_step_does:
  assumes "commit_step ops what ws s = (r, s')"
  shows "(r = Inr () \<and> (\<forall>ks. kvs s' ks = apply_writes ks ws (kvs s ks))) \<or> (r = Inl what \<and> s' = s)"
  using assms commits by (auto simp: commit_step_def split: sum.splits)

lemma backfill_loop_does:
  assumes "backfill_loop ops cd (map Inr xs) batch s = (r, s')" "\<forall>(k, v)\<in>set xs. decode_event cd v \<noteq> None"
  shows "\<exists>ws rest. batch @ index_writes cd xs = ws @ rest \<and> (\<forall>ks. kvs s' ks = apply_writes ks ws (kvs s ks)) \<and> (r = Inr () \<longrightarrow> rest = [])"
  using assms
proof (induction xs arbitrary: batch s)
  case Nil
  show ?case
  proof (cases "batch = []")
    case True
    then show ?thesis using Nil by (auto simp: index_writes_def)
  next
    case False
    then have "commit_step ops ''idx_user backfill chunk commit'' batch s = (r, s')" using Nil by simp
    from commit_step_does [OF this] show ?thesis
    proof
      assume "r = Inr () \<and> (\<forall>ks. kvs s' ks = apply_writes ks batch (kvs s ks))"
      then show ?thesis by (intro exI [of _ batch] exI [of _ "[]"]) (simp add: index_writes_def)
    next
      assume "r = Inl ''idx_user backfill chunk commit'' \<and> s' = s"
      then show ?thesis by (intro exI [of _ "[]"] exI [of _ batch]) (simp add: index_writes_def)
    qed
  qed
next
  case (Cons x xs)
  obtain k v where x: "x = (k, v)" by (cases x)
  then obtain ev where ev: "decode_event cd v = Some ev" using Cons.prems(2) by auto
  define batch' where "batch' = batch @ [Put Idx_User (user_idx_key (user_id ev) k) v]"
  have all: "batch @ index_writes cd (x # xs) = batch' @ index_writes cd xs" by (simp add: index_writes_def batch'_def x ev)
  have prems: "\<forall>(k, v)\<in>set xs. decode_event cd v \<noteq> None" using Cons.prems(2) by simp
  have run: "(if length batch' \<ge> BACKFILL_CHUNK
      then (case commit_step ops ''idx_user backfill chunk commit'' batch' s of (Inl e, s') \<Rightarrow> (Inl e, s')
        | (Inr _, s') \<Rightarrow> backfill_loop ops cd (map Inr xs) [] s')
      else backfill_loop ops cd (map Inr xs) batch' s) = (r, s')"
    using Cons.prems(1) by (simp add: x ev batch'_def Let_def split: if_splits)
  show ?case unfolding all
  proof (cases "length batch' \<ge> BACKFILL_CHUNK")
    case False
    then show "\<exists>ws rest. batch' @ index_writes cd xs = ws @ rest \<and> (\<forall>ks. kvs s' ks = apply_writes ks ws (kvs s ks)) \<and> (r = Inr () \<longrightarrow> rest = [])"
      using run by (intro Cons.IH [OF _ prems]) simp
  next
    case True
    obtain r1 s1 where c: "commit_step ops ''idx_user backfill chunk commit'' batch' s = (r1, s1)"
      by (cases "commit_step ops ''idx_user backfill chunk commit'' batch' s")
    from commit_step_does [OF c]
    show "\<exists>ws rest. batch' @ index_writes cd xs = ws @ rest \<and> (\<forall>ks. kvs s' ks = apply_writes ks ws (kvs s ks)) \<and> (r = Inr () \<longrightarrow> rest = [])"
    proof
      assume done1: "r1 = Inr () \<and> (\<forall>ks. kvs s1 ks = apply_writes ks batch' (kvs s ks))"
      then have "backfill_loop ops cd (map Inr xs) [] s1 = (r, s')" using run c True by simp
      from Cons.IH [OF this prems] obtain ws rest where "[] @ index_writes cd xs = ws @ rest"
        "\<forall>ks. kvs s' ks = apply_writes ks ws (kvs s1 ks)" "r = Inr () \<longrightarrow> rest = []" by blast
      then show ?thesis using done1 by (intro exI [of _ "batch' @ ws"] exI [of _ rest]) simp
    next
      assume "r1 = Inl ''idx_user backfill chunk commit'' \<and> s1 = s"
      then have "r \<noteq> Inr () \<and> s' = s" using run c True by auto
      then show ?thesis by (intro exI [of _ "[]"] exI [of _ "batch' @ index_writes cd xs"]) simp
    qed
  qed
qed

end

text \<open>A store of events whose index by user may lack entries, and one where it lacks none.\<close>

definition indexable :: "codec \<Rightarrow> event_log \<Rightarrow> (keyspace \<Rightarrow> string \<rightharpoonup> string) \<Rightarrow> bool" where
  "indexable cd L m \<longleftrightarrow> under ek row_ids (m Events) (events_view cd L) \<and> under ek row_ids (m Sessions) (sessions_view L) \<and>
     under ik {i. ident_ok i} (m Idx_Msg) (pointers_view L) \<and>
     (\<forall>k v. m Idx_User k = Some v \<longrightarrow> (\<exists>y\<in>user_ids. k = uk y \<and> users_view cd L y = Some v))"

definition indexed :: "codec \<Rightarrow> event_log \<Rightarrow> (keyspace \<Rightarrow> string \<rightharpoonup> string) \<Rightarrow> bool" where
  "indexed cd L m \<longleftrightarrow> (\<forall>y v. users_view cd L y = Some v \<longrightarrow> m Idx_User (uk y) = Some v)"

definition openable :: "codec \<Rightarrow> event_log \<Rightarrow> (keyspace \<Rightarrow> string \<rightharpoonup> string) \<Rightarrow> bool" where
  "openable cd L m \<longleftrightarrow> indexable cd L m \<and> (m Meta BACKFILLED \<noteq> None \<longrightarrow> indexed cd L m)"

lemma users_view_id:
  assumes "log_ok owner L" "users_view cd L (u, x) = Some v"
  shows "(u, x) \<in> user_ids" "x \<in> row_ids" "\<exists>e. rows L x = Some e \<and> user_id e = u \<and> v = encode_event cd e"
proof -
  obtain e where e: "rows L x = Some e" "user_id e = u" "v = encode_event cd e"
    using assms(2) by (auto simp: users_view_def split: option.splits if_splits)
  then show "\<exists>e. rows L x = Some e \<and> user_id e = u \<and> v = encode_event cd e" by blast
  obtain i t where x: "x = (i, t)" by (cases x)
  show "(u, x) \<in> user_ids" "x \<in> row_ids"
    using event_ok_ids [of owner e] row_ok [OF assms(1), of i t e] e x by auto
qed

lemma indexed_represents:
  assumes "log_ok owner L" "indexable cd L m" "indexed cd L m"
  shows "represents cd m L"
proof -
  have "m Idx_User (uk y) = users_view cd L y" if y: "y \<in> user_ids" for y
  proof (cases "m Idx_User (uk y)")
    case None
    then show ?thesis using assms(3) unfolding indexed_def by (metis not_None_eq)
  next
    case (Some v)
    then obtain z where "z \<in> user_ids" "uk y = uk z" "users_view cd L z = Some v"
      using assms(2) unfolding indexable_def by blast
    then show ?thesis using Some y inj_uk by (metis inj_onD)
  qed
  moreover have "users_view cd L y = None" if "y \<notin> user_ids" for y
    using users_view_id(1) [OF assms(1)] that by (cases y, cases "users_view cd L y") auto
  moreover have "k \<in> uk ` user_ids" if "m Idx_User k = Some v" for k v using assms(2) that unfolding indexable_def by blast
  ultimately have "under uk user_ids (m Idx_User) (users_view cd L)" unfolding under_def by blast
  then show ?thesis using assms(2) by (simp add: represents_def indexable_def)
qed

text \<open>A write that puts a right entry into the index.\<close>

definition entry :: "codec \<Rightarrow> event_log \<Rightarrow> kv_write \<Rightarrow> bool" where
  "entry cd L w \<longleftrightarrow> (\<exists>y v. w = Put Idx_User (uk y) v \<and> users_view cd L y = Some v)"

lemma indexable_entries:
  assumes "log_ok owner L"
  shows "indexable cd L m \<Longrightarrow> \<forall>w\<in>set ws. entry cd L w \<Longrightarrow> indexable cd L (\<lambda>ks. apply_writes ks ws (m ks))"
proof (induction ws arbitrary: m)
  case (Cons w ws)
  obtain y v where w: "w = Put Idx_User (uk y) v" "users_view cd L y = Some v" using Cons.prems(2) by (auto simp: entry_def)
  moreover have "y \<in> user_ids" using users_view_id(1) [OF assms] w(2) by (cases y) auto
  ultimately have "indexable cd L (\<lambda>ks. apply_write ks w (m ks))" using Cons.prems(1) by (auto simp: indexable_def)
  from Cons.IH [OF this] Cons.prems(2) show ?case by simp
qed simp

lemma find_in_list: "find P xs = Some x \<Longrightarrow> x \<in> set xs \<and> P x"
  by (induction xs) (auto split: if_splits)

lemma all_entries_indexed:
  assumes "log_ok owner L" "\<forall>w\<in>set ws. entry cd L w" "\<And>y v. users_view cd L y = Some v \<Longrightarrow> Put Idx_User (uk y) v \<in> set ws"
  shows "indexed cd L (\<lambda>ks. apply_writes ks ws (m ks))"
  unfolding indexed_def
proof (intro allI impI)
  fix y v assume y: "users_view cd L y = Some v"
  have id: "z \<in> user_ids" if "users_view cd L z = Some u" for z u using users_view_id(1) [OF assms(1)] that by (cases z) auto
  have "write_to Idx_User (uk y) (Put Idx_User (uk y) v)" by simp
  then have "find (write_to Idx_User (uk y)) (rev ws) \<noteq> None" using assms(3) [OF y] by (auto simp: find_None_iff)
  then obtain w where find: "find (write_to Idx_User (uk y)) (rev ws) = Some w" by auto
  from find_in_list [OF this] have "w \<in> set ws" "write_to Idx_User (uk y) w" by simp_all
  then obtain z u where z: "w = Put Idx_User (uk z) u" "users_view cd L z = Some u" "uk z = uk y" using assms(2) by (auto simp: entry_def)
  then have "z = y" using id y inj_uk by (metis inj_onD)
  then show "apply_writes Idx_User ws (m Idx_User) (uk y) = Some v" using find z y by (simp add: apply_writes_at)
qed

lemma meta_writes_keep:
  "indexable cd L (\<lambda>ks. apply_writes ks [Put Meta k v] (m ks)) \<longleftrightarrow> indexable cd L m"
  "indexed cd L (\<lambda>ks. apply_writes ks [Put Meta k v] (m ks)) \<longleftrightarrow> indexed cd L m"
  by (simp_all add: indexable_def indexed_def)

locale reopening = interrupted_kv ops contents
  for ops :: "'s kv_ops" and contents :: "'s \<Rightarrow> keyspace \<Rightarrow> (string \<times> string) list" +
  fixes cd :: codec
  assumes reads_back: "de_event cd (ser_event cd p) = Some p"
begin

lemma decode_encoded: "decode_event cd (encode_event cd e) = Some (e\<lparr>session := []\<rparr>)"
  by (simp add: decode_event_def encode_event_def reads_back)

lemma events_decode:
  assumes "indexable cd L (kvs s)" "(k, v) \<in> set (contents s Events)"
  shows "\<exists>x e. x \<in> row_ids \<and> k = ek x \<and> rows L x = Some e \<and> v = encode_event cd e \<and> decode_event cd v = Some (e\<lparr>session := []\<rparr>)"
proof -
  have "kvs s Events k = Some v" using assms(2) sorted_map_distinct [OF sorted] by simp
  moreover have "under ek row_ids (kvs s Events) (events_view cd L)" using assms(1) by (simp add: indexable_def)
  ultimately obtain x where "x \<in> row_ids" "k = ek x" "events_view cd L x = Some v" by (auto elim: under_key)
  moreover then obtain e where "rows L x = Some e" "v = encode_event cd e" by (auto simp: events_view_def)
  ultimately show ?thesis using decode_encoded by blast
qed

lemma entries_of_events:
  assumes "indexable cd L (kvs s)"
  shows "\<forall>w\<in>set (index_writes cd (contents s Events)). entry cd L w"
    "log_ok owner L \<Longrightarrow> users_view cd L y = Some v \<Longrightarrow> Put Idx_User (uk y) v \<in> set (index_writes cd (contents s Events))"
proof -
  have put: "Put Idx_User (user_idx_key (user_id (the (decode_event cd v))) k) v = Put Idx_User (uk (user_id e, x)) v \<and>
      users_view cd L (user_id e, x) = Some v"
    if "decode_event cd v = Some (e\<lparr>session := []\<rparr>)" "k = ek x" "rows L x = Some e" "v = encode_event cd e" for k v e x
    using that by (simp add: uk_def users_view_def)
  show "\<forall>w\<in>set (index_writes cd (contents s Events)). entry cd L w"
  proof
    fix w assume "w \<in> set (index_writes cd (contents s Events))"
    then obtain k v where kv: "(k, v) \<in> set (contents s Events)" "w = Put Idx_User (user_idx_key (user_id (the (decode_event cd v))) k) v"
      by (auto simp: index_writes_def)
    from events_decode [OF assms kv(1)] put kv(2) show "entry cd L w" unfolding entry_def by metis
  qed
  assume L: "log_ok owner L" and y: "users_view cd L y = Some v"
  obtain u x where ux: "y = (u, x)" by (cases y)
  then obtain e where e: "x \<in> row_ids" "rows L x = Some e" "user_id e = u" "v = encode_event cd e" using users_view_id [OF L] y by blast
  have "kvs s Events (ek x) = Some v" using assms e by (auto simp: indexable_def under_def events_view_def)
  then have "(ek x, v) \<in> set (contents s Events)" by (rule map_of_SomeD)
  moreover have "decode_event cd v = Some (e\<lparr>session := []\<rparr>)" by (simp add: e(4) decode_encoded)
  ultimately show "Put Idx_User (uk y) v \<in> set (index_writes cd (contents s Events))"
    by (force simp: index_writes_def uk_def ux e(3))
qed

lemma backfill_does:
  assumes "log_ok owner L" "openable cd L (kvs s)" "backfill ops cd s = (r, s')"
  shows "openable cd L (kvs s') \<and> (r = Inr () \<longrightarrow> indexed cd L (kvs s')) \<and> kvs s' Meta VERSION = kvs s Meta VERSION"
proof (cases "kvs s Meta BACKFILLED")
  case (Some b)
  then show ?thesis using assms(2,3) by (auto simp: backfill_def gets openable_def)
next
  case None
  have can: "indexable cd L (kvs s)" using assms(2) by (simp add: openable_def)
  obtain r1 s1 where loop: "backfill_loop ops cd (map Inr (contents s Events)) [] s = (r1, s1)"
    by (cases "backfill_loop ops cd (map Inr (contents s Events)) [] s")
  have "\<forall>(k, v)\<in>set (contents s Events). decode_event cd v \<noteq> None" using events_decode [OF can] by fastforce
  from backfill_loop_does [OF loop this] obtain ws rest where ws: "index_writes cd (contents s Events) = ws @ rest"
    "\<And>ks. kvs s1 ks = apply_writes ks ws (kvs s ks)" "r1 = Inr () \<longrightarrow> rest = []" by auto
  have entries: "\<forall>w\<in>set ws. entry cd L w" using entries_of_events(1) [OF can] ws(1) by auto
  have one: "indexable cd L (kvs s1)" using indexable_entries [OF assms(1) can entries] ws(2) by simp
  have "kvs s1 Meta BACKFILLED = None" using None entries unfolding ws(2) by (subst apply_writes_untouched) (auto simp: entry_def)
  then have open1: "openable cd L (kvs s1)" using one by (simp add: openable_def)
  have kept: "kvs s1 Meta VERSION = kvs s Meta VERSION" using entries unfolding ws(2) by (subst apply_writes_untouched) (auto simp: entry_def)
  show ?thesis
  proof (cases r1)
    case (Inl e)
    then show ?thesis using assms(3) None loop open1 kept by (auto simp: backfill_def gets ranges)
  next
    case (Inr u)
    have full: "indexed cd L (kvs s1)"
      using all_entries_indexed [OF assms(1) entries, of "kvs s"] entries_of_events(2) [OF can assms(1)] ws Inr by simp
    have "commit_step ops ''idx_user backfill marker commit'' [Put Meta BACKFILLED ''1''] s1 = (r, s')"
      using assms(3) None loop Inr by (simp add: backfill_def gets ranges)
    from commit_step_does [OF this] show ?thesis
    proof
      assume marked: "r = Inr () \<and> (\<forall>ks. kvs s' ks = apply_writes ks [Put Meta BACKFILLED ''1''] (kvs s1 ks))"
      then have "kvs s' = (\<lambda>ks. apply_writes ks [Put Meta BACKFILLED ''1''] (kvs s1 ks))" by blast
      then have "indexable cd L (kvs s') \<and> indexed cd L (kvs s')" using one full by (simp only: meta_writes_keep)
      moreover have "kvs s' Meta VERSION = kvs s Meta VERSION" using marked kept by (simp add: VERSION_def BACKFILLED_def)
      ultimately show ?thesis by (simp add: openable_def)
    next
      assume "r = Inl ''idx_user backfill marker commit'' \<and> s' = s1"
      then show ?thesis using open1 kept by simp
    qed
  qed
qed

lemma open_current_does:
  assumes "log_ok owner L" "openable cd L (kvs s)" "open_current ops cd s = (r, s')"
  shows "openable cd L (kvs s') \<and> (r = Inr () \<longrightarrow> indexed cd L (kvs s')) \<and>
    (kvs s' Meta VERSION = kvs s Meta VERSION \<or> kvs s' Meta VERSION = Some (show_nat EVENT_SCHEMA_VERSION))"
proof (cases "kv_commit ops s [Put Meta VERSION (show_nat EVENT_SCHEMA_VERSION)]")
  case (Inl e)
  then show ?thesis using assms by (auto simp: open_current_def)
next
  case (Inr s1)
  have k: "kvs s1 ks = apply_writes ks [Put Meta VERSION (show_nat EVENT_SCHEMA_VERSION)] (kvs s ks)" for ks
    using commits [OF Inr] .
  have mark: "apply_writes Meta [Put Meta VERSION (show_nat EVENT_SCHEMA_VERSION)] (kvs s Meta) BACKFILLED = kvs s Meta BACKFILLED"
    by (simp add: BACKFILLED_def VERSION_def)
  have "kvs s1 = (\<lambda>ks. apply_writes ks [Put Meta VERSION (show_nat EVENT_SCHEMA_VERSION)] (kvs s ks))"
    using k by blast
  then have "openable cd L (kvs s1)" using assms(2) by (simp only: openable_def meta_writes_keep mark) auto
  moreover have "kvs s1 Meta VERSION = Some (show_nat EVENT_SCHEMA_VERSION)" using k [of Meta] by simp
  moreover have "backfill ops cd s1 = (r, s')" using assms(3) Inr by (simp add: open_current_def)
  ultimately show ?thesis using backfill_does [OF assms(1)] by metis
qed

lemma budgeted_opening: "reopening (budgeted ops) (contents \<circ> fst) cd"
  by (intro reopening.intro budgeted_kv) (simp add: reopening_axioms_def reads_back)

definition version_ok :: "'s \<Rightarrow> bool" where
  "version_ok s \<longleftrightarrow> stored_version ops s \<in> {0, EVENT_SCHEMA_VERSION}"

lemma version_kept:
  assumes "version_ok s" "kvs s' Meta VERSION = kvs s Meta VERSION \<or> kvs s' Meta VERSION = Some (show_nat EVENT_SCHEMA_VERSION)"
  shows "version_ok s'"
  using assms by (auto simp: version_ok_def stored_version_def gets EVENT_SCHEMA_VERSION_def u32_max_def)

lemma opens_openable:
  assumes "log_ok owner L"
  shows "openable cd L (kvs s) \<Longrightarrow> version_ok s \<Longrightarrow> openable cd L (kvs (opens ops cd ns s)) \<and> version_ok (opens ops cd ns s)"
proof (induction ns arbitrary: s)
  case (Cons n ns)
  obtain r s1 where run: "open_current (budgeted ops) cd (s, n) = (r, s1)" by (cases "open_current (budgeted ops) cd (s, n)")
  have "openable cd L (\<lambda>ks. map_of ((contents \<circ> fst) (s, n) ks))" using Cons.prems by simp
  from reopening.open_current_does [OF budgeted_opening assms this run]
  have "openable cd L (kvs (fst s1))" "version_ok (fst s1)" using version_kept [OF Cons.prems(2), of "fst s1"] by simp_all
  then show ?case using Cons.IH run by simp
qed simp

end


section \<open>A store that takes its commits opens\<close>

sublocale fjall_env \<subseteq> reopen: reopening ops contents cd
  by unfold_locales (rule event_codec)

context fjall_env
begin

lemma commit_step_succeeds: "\<exists>s'. commit_step ops what ws s = (Inr (), s')"
  using commit_law [of s ws] by (auto simp: commit_step_def)

lemma backfill_loop_succeeds:
  "\<forall>(k, v)\<in>set xs. decode_event cd v \<noteq> None \<Longrightarrow> \<exists>s'. backfill_loop ops cd (map Inr xs) batch s = (Inr (), s')"
proof (induction xs arbitrary: batch s)
  case Nil
  then show ?case using commit_step_succeeds by simp
next
  case (Cons x xs)
  obtain k v where x: "x = (k, v)" by (cases x)
  then obtain ev where ev: "decode_event cd v = Some ev" using Cons.prems by auto
  obtain s1 where "commit_step ops ''idx_user backfill chunk commit'' (batch @ [Put Idx_User (user_idx_key (user_id ev) k) v]) s = (Inr (), s1)"
    using commit_step_succeeds by blast
  then show ?case using Cons by (simp add: x ev Let_def)
qed

lemma open_succeeds:
  assumes "openable cd L (\<lambda>ks. map_of (contents s ks))" "stored_version ops s \<in> {0, EVENT_SCHEMA_VERSION}"
  shows "\<exists>s'. open_store ops cd wipe s = Some (Inr (), s')"
proof -
  obtain s1 where c: "kv_commit ops s [Put Meta VERSION (show_nat EVENT_SCHEMA_VERSION)] = Inr s1"
    "\<And>ks. map_of (contents s1 ks) = apply_writes ks [Put Meta VERSION (show_nat EVENT_SCHEMA_VERSION)] (map_of (contents s ks))"
    using commit_law [of s] by blast
  have "contents s1 Events = contents s Events" by (rule same_contents) (simp add: cmap_def c(2))
  moreover have "decode_event cd v \<noteq> None" if "(k, v) \<in> set (contents s Events)" for k v
    using assms(1) reopen.events_decode [of L s k v] that by (auto simp: openable_def)
  then have "\<forall>(k, v)\<in>set (contents s Events). decode_event cd v \<noteq> None" by blast
  ultimately obtain s2 where "backfill_loop ops cd (kv_range ops s1 Events []) [] s1 = (Inr (), s2)"
    using backfill_loop_succeeds by (metis range_all)
  moreover obtain s3 where "commit_step ops ''idx_user backfill marker commit'' [Put Meta BACKFILLED ''1''] s2 = (Inr (), s3)"
    using commit_step_succeeds by blast
  ultimately have "\<exists>s'. backfill ops cd s1 = (Inr (), s')"
    by (auto simp: backfill_def get_law split: option.split)
  then show ?thesis using open_current_version [OF assms(2)] c(1) by (simp add: open_current_def)
qed

end

text \<open>A store written before there was an index by user: one event, no entry.\<close>

definition old_store :: "(keyspace \<times> string \<times> string option) list" where
  "old_store = filter (\<lambda>(ks, _). ks \<noteq> Idx_User) (snd (upsert_events mem_kv plain_codec (\<lambda>es. es) [sample_event ''a'' 1] []))"

lemma mem_map_filter:
  "mem_map (filter (\<lambda>(ks, _). ks \<noteq> ks0) db) ks = (if ks = ks0 then Map.empty else mem_map db ks)"
  by (rule ext, induction db) (auto simp: mem_map_def)

lemma old_store_log:
  "\<exists>L. rows L (ident_of (sample_event ''a'' 1), 1) = Some (sample_event ''a'' 1) \<and> log_ok sample_owner L \<and>
    openable plain_codec L (\<lambda>ks. map_of (mem_contents old_store ks)) \<and> stored_version mem_kv old_store = 0"
proof -
  let ?L = "log_batch [sample_event ''a'' 1] empty_log"
  obtain s where s: "upsert_events mem_kv plain_codec (\<lambda>es. es) [sample_event ''a'' 1] [] = (Inr (), s)"
    "stores mem_contents plain_codec sample_owner s ?L"
    using fjall_env.upsert_events_holds [OF plain_env empty_stores, of "[sample_event ''a'' 1]" sample_owner "\<lambda>es. es"] sample_ok sample_times by auto
  have meta: "mem_map s Meta = Map.empty"
  proof -
    have "s = snd (upsert_events mem_kv plain_codec (\<lambda>es. es) [sample_event ''a'' 1] [])" using s(1) by simp
    also have "mem_map \<dots> Meta = Map.empty"
    proof -
      have "kv_get mem_kv [] ks k = Inr None" for ks k by (simp add: mem_kv_def mem_contents_def)
      then have "upsert_one mem_kv plain_codec [] [] (sample_event ''a'' 1) = insert_writes plain_codec (sample_event ''a'' 1)"
        by (simp add: upsert_one_def insert_writes_def Let_def idx_key_of_def event_key_of_def uk_def ek_def ik_def ident_of_def)
      moreover have "map snd (winners [sample_event ''a'' 1] []) = [sample_event ''a'' 1]" by (simp add: hm_insert_def)
      ultimately show ?thesis
        by (simp add: upsert_events_def mem_kv_def insert_writes_def Let_def sample_event_def)
          (rule ext, simp add: mem_kv_def mem_write_def mem_map_def)
    qed
    finally show ?thesis .
  qed
  have maps: "map_of (mem_contents old_store ks) = (if ks = Idx_User then Map.empty else mem_map s ks)" for ks
    by (simp add: map_of_mem_contents old_store_def s(1) mem_map_filter)
  have "represents plain_codec (mem_map s) ?L" "log_ok sample_owner ?L"
    using s(2) by (simp_all add: stores_def map_of_mem_contents [abs_def])
  then have "openable plain_codec ?L (\<lambda>ks. map_of (mem_contents old_store ks))"
    by (simp add: openable_def indexable_def represents_def maps meta)
  moreover have "stored_version mem_kv old_store = 0" by (simp add: stored_version_def mem_kv_def maps meta)
  moreover have "rows ?L (ident_of (sample_event ''a'' 1), 1) = Some (sample_event ''a'' 1)"
    by (simp add: log_batch_def batch_winners_def log_upsert_defs empty_log_def sample_event_def hm_insert_def)
  ultimately show ?thesis using \<open>log_ok sample_owner ?L\<close> by blast
qed


end
