(* ===== verification/Config.thy ===== *)
theory Config
  imports Prelude
begin

text \<open>
  The configuration (\<open>src/src/config.rs\<close>): the expansion of \<open>${VAR}\<close>, the sections with their defaults,
  the resolution of the legacy fields, and loading. The environment is a map; the TOML parser (the
  \<open>toml\<close> crate) is a function from a text to the value of each key of each section, or none; the file
  is its text, if it exists and can be read.
\<close>

section \<open>Environment variables in the text\<close>

type_synonym environment = "string \<Rightarrow> string option"

fun find_str :: "string \<Rightarrow> string \<Rightarrow> nat option" where
  "find_str p [] = (if p = [] then Some 0 else None)"
| "find_str p (c # s) = (if prefix p (c # s) then Some 0 else map_option Suc (find_str p s))"

definition dollar_brace :: string where "dollar_brace = ''${''"

lemma find_str_within: "find_str p s = Some i \<Longrightarrow> i + length p \<le> length s"
  by (induction s arbitrary: i) (auto split: if_splits dest: prefix_length_le)

text \<open>The loop: the text so far, and the position from which it is searched.\<close>

function expand_loop :: "environment \<Rightarrow> string \<Rightarrow> nat \<Rightarrow> string" where
  "expand_loop env result search_from =
     (case find_str dollar_brace (drop search_from result) of
        None \<Rightarrow> result
      | Some rel \<Rightarrow>
          (case find_str ''}'' (drop (search_from + rel) result) of
             None \<Rightarrow> result
           | Some i \<Rightarrow>
               (let start = search_from + rel; stop = start + i;
                    var = drop 2 (take i (drop start result));
                    value = (case env var of Some v \<Rightarrow> v | None \<Rightarrow> [])
                in expand_loop env (take start result @ value @ drop (Suc stop) result) (start + length value))))"
  by pat_completeness auto

termination
proof (relation "measure (\<lambda>(env, r, from_pos). length r - from_pos)")
  fix result search_from rel i start stop var v
  assume "find_str dollar_brace (drop search_from result) = Some rel" "find_str ''}'' (drop (search_from + rel) result) = Some i"
    "start = search_from + rel" "stop = start + i"
  then have "stop < length result" using find_str_within [of "''}''" "drop (search_from + rel) result" i] by simp
  then show "((env, take start result @ v @ drop (Suc stop) result, start + length v), env, result, search_from)
      \<in> measure (\<lambda>(env, r, from_pos). length r - from_pos)" for env
    using \<open>start = search_from + rel\<close> \<open>stop = start + i\<close> by simp
qed simp

declare expand_loop.simps [simp del]

definition expand_env :: "environment \<Rightarrow> string \<Rightarrow> string" where
  "expand_env env s = expand_loop env s 0"

section \<open>The sections\<close>

record server_config =
  sc_http_port :: nat
  sc_tcp_port :: nat
  sc_bind :: string
  sc_external_url :: string
  sc_max_concurrent_writes :: nat
  sc_trust_proxy :: bool

record auth_config =
  ac_jwt_secret :: string
  ac_access_token_ttl_secs :: nat
  ac_refresh_token_ttl_secs :: nat
  ac_brute_force_max_attempts :: nat
  ac_brute_force_window_secs :: nat
  ac_brute_force_lockout_secs :: nat
  ac_registration_mode :: string
  ac_allow_registration :: "bool option"
  ac_oidc_issuer :: string
  ac_oidc_client_id :: string
  ac_oidc_client_secret :: string
  ac_oidc_redirect_uri :: string

record storage_config =
  sg_backend :: string
  sg_sqlite_path :: string
  sg_db_path :: string
  sg_postgres_url :: string

record events_config =
  ev_backend :: string
  ev_fjall_path :: string
  ev_clickhouse_url :: string
  ev_dedup_retention_secs :: int

record log_config =
  lg_level :: string
  lg_json :: bool

record config =
  cf_server :: server_config
  cf_auth :: auth_config
  cf_storage :: storage_config
  cf_events :: events_config
  cf_log :: log_config
  cf_max_query_scope :: string

definition default_http_port :: nat where "default_http_port = 9091"
definition default_tcp_port :: nat where "default_tcp_port = 9090"
definition default_bind :: string where "default_bind = ''0.0.0.0''"
definition default_max_concurrent_writes :: nat where "default_max_concurrent_writes = 10"
definition default_registration_mode :: string where "default_registration_mode = ''closed''"
definition default_access_ttl :: nat where "default_access_ttl = 3600"
definition default_refresh_ttl :: nat where "default_refresh_ttl = 86400 * 90"
definition default_brute_max_attempts :: nat where "default_brute_max_attempts = 5"
definition default_brute_window :: nat where "default_brute_window = 300"
definition default_brute_lockout :: nat where "default_brute_lockout = 900"
definition default_db_backend :: string where "default_db_backend = ''sqlite''"
definition default_db_path :: string where "default_db_path = ''./data/toki_sync.db''"
definition default_log_level :: string where "default_log_level = ''info''"
definition default_max_query_scope :: string where "default_max_query_scope = ''self''"
definition default_events_backend :: string where "default_events_backend = ''fjall''"
definition default_events_fjall_path :: string where "default_events_fjall_path = ''./data/events.fjall''"
definition default_dedup_retention_secs :: int where "default_dedup_retention_secs = 30 * 24 * 3600"

definition default_server :: server_config where
  "default_server = \<lparr>sc_http_port = default_http_port, sc_tcp_port = default_tcp_port, sc_bind = default_bind, sc_external_url = [],
     sc_max_concurrent_writes = default_max_concurrent_writes, sc_trust_proxy = False\<rparr>"

definition default_storage :: storage_config where
  "default_storage = \<lparr>sg_backend = default_db_backend, sg_sqlite_path = default_db_path, sg_db_path = [], sg_postgres_url = []\<rparr>"

definition default_events :: events_config where
  "default_events = \<lparr>ev_backend = default_events_backend, ev_fjall_path = default_events_fjall_path, ev_clickhouse_url = [],
     ev_dedup_retention_secs = default_dedup_retention_secs\<rparr>"

definition default_log :: log_config where
  "default_log = \<lparr>lg_level = default_log_level, lg_json = False\<rparr>"

definition effective_registration_mode :: "auth_config \<Rightarrow> string" where
  "effective_registration_mode a =
     (if ac_registration_mode a \<noteq> [] \<and> ac_registration_mode a \<noteq> ''closed'' then ac_registration_mode a
      else if ac_allow_registration a = Some True then ''open'' else ac_registration_mode a)"

definition effective_sqlite_path :: "storage_config \<Rightarrow> string" where
  "effective_sqlite_path s =
     (if sg_sqlite_path s \<noteq> default_db_path then sg_sqlite_path s
      else if sg_db_path s \<noteq> [] then sg_db_path s else sg_sqlite_path s)"

definition validate_dedup_retention :: "events_config \<Rightarrow> events_config" where
  "validate_dedup_retention e =
     (if ev_dedup_retention_secs e > 0 \<and> checked_i64 (ev_dedup_retention_secs e * 1000) \<noteq> None then e
      else e\<lparr>ev_dedup_retention_secs := default_dedup_retention_secs\<rparr>)"

section \<open>Loading\<close>

datatype toml_value = T_Str string | T_Int int | T_Bool bool

type_synonym toml_doc = "string \<Rightarrow> string \<Rightarrow> toml_value option"

text \<open>A key of a section with its default, as \<open>serde\<close> reads it: a value of another type, or out of range, is an error.\<close>

definition str_key :: "toml_doc \<Rightarrow> string \<Rightarrow> string \<Rightarrow> string \<Rightarrow> string result" where
  "str_key d sec key dflt = (case d sec key of None \<Rightarrow> Inr dflt | Some (T_Str s) \<Rightarrow> Inr s | _ \<Rightarrow> Inl (''invalid type: '' @ key))"

definition int_key :: "toml_doc \<Rightarrow> string \<Rightarrow> string \<Rightarrow> int \<Rightarrow> int \<Rightarrow> int \<Rightarrow> int result" where
  "int_key d sec key lo hi dflt =
     (case d sec key of
        None \<Rightarrow> Inr dflt
      | Some (T_Int i) \<Rightarrow> if lo \<le> i \<and> i \<le> hi then Inr i else Inl (''invalid value: '' @ key)
      | _ \<Rightarrow> Inl (''invalid type: '' @ key))"

definition nat_key :: "toml_doc \<Rightarrow> string \<Rightarrow> string \<Rightarrow> nat \<Rightarrow> nat \<Rightarrow> nat result" where
  "nat_key d sec key hi dflt = res_bind (int_key d sec key 0 (int hi) (int dflt)) (\<lambda>i. Inr (nat i))"

definition bool_key :: "toml_doc \<Rightarrow> string \<Rightarrow> string \<Rightarrow> bool option result" where
  "bool_key d sec key = (case d sec key of None \<Rightarrow> Inr None | Some (T_Bool b) \<Rightarrow> Inr (Some b) | _ \<Rightarrow> Inl (''invalid type: '' @ key))"

definition server_of :: "toml_doc \<Rightarrow> server_config result" where
  "server_of d =
     res_bind (nat_key d ''server'' ''http_port'' 65535 default_http_port) (\<lambda>http.
     res_bind (nat_key d ''server'' ''tcp_port'' 65535 default_tcp_port) (\<lambda>tcp.
     res_bind (str_key d ''server'' ''bind'' default_bind) (\<lambda>bnd.
     res_bind (str_key d ''server'' ''external_url'' []) (\<lambda>url.
     res_bind (nat_key d ''server'' ''max_concurrent_writes'' u64_max default_max_concurrent_writes) (\<lambda>writes.
     res_bind (bool_key d ''server'' ''trust_proxy'') (\<lambda>proxy.
     Inr \<lparr>sc_http_port = http, sc_tcp_port = tcp, sc_bind = bnd, sc_external_url = url, sc_max_concurrent_writes = writes,
          sc_trust_proxy = (proxy = Some True)\<rparr>))))))"

definition auth_of :: "toml_doc \<Rightarrow> auth_config result" where
  "auth_of d =
     (if d ''auth'' ''jwt_secret'' = None then Inl ''missing field jwt_secret''
      else
        res_bind (str_key d ''auth'' ''jwt_secret'' []) (\<lambda>secret.
        res_bind (nat_key d ''auth'' ''access_token_ttl_secs'' u64_max default_access_ttl) (\<lambda>access.
        res_bind (nat_key d ''auth'' ''refresh_token_ttl_secs'' u64_max default_refresh_ttl) (\<lambda>refresh.
        res_bind (nat_key d ''auth'' ''brute_force_max_attempts'' 4294967295 default_brute_max_attempts) (\<lambda>attempts.
        res_bind (nat_key d ''auth'' ''brute_force_window_secs'' u64_max default_brute_window) (\<lambda>win.
        res_bind (nat_key d ''auth'' ''brute_force_lockout_secs'' u64_max default_brute_lockout) (\<lambda>lock.
        res_bind (str_key d ''auth'' ''registration_mode'' default_registration_mode) (\<lambda>mode.
        res_bind (bool_key d ''auth'' ''allow_registration'') (\<lambda>allow.
        res_bind (str_key d ''auth'' ''oidc_issuer'' []) (\<lambda>iss.
        res_bind (str_key d ''auth'' ''oidc_client_id'' []) (\<lambda>cid.
        res_bind (str_key d ''auth'' ''oidc_client_secret'' []) (\<lambda>csec.
        res_bind (str_key d ''auth'' ''oidc_redirect_uri'' []) (\<lambda>uri.
        Inr \<lparr>ac_jwt_secret = secret, ac_access_token_ttl_secs = access, ac_refresh_token_ttl_secs = refresh,
             ac_brute_force_max_attempts = attempts, ac_brute_force_window_secs = win, ac_brute_force_lockout_secs = lock,
             ac_registration_mode = mode, ac_allow_registration = allow, ac_oidc_issuer = iss, ac_oidc_client_id = cid,
             ac_oidc_client_secret = csec, ac_oidc_redirect_uri = uri\<rparr>)))))))))))))"

definition storage_of :: "toml_doc \<Rightarrow> storage_config result" where
  "storage_of d =
     res_bind (str_key d ''storage'' ''backend'' default_db_backend) (\<lambda>backend.
     res_bind (str_key d ''storage'' ''sqlite_path'' default_db_path) (\<lambda>path.
     res_bind (str_key d ''storage'' ''db_path'' []) (\<lambda>old.
     res_bind (str_key d ''storage'' ''postgres_url'' []) (\<lambda>url.
     Inr \<lparr>sg_backend = backend, sg_sqlite_path = path, sg_db_path = old, sg_postgres_url = url\<rparr>))))"

definition events_of :: "toml_doc \<Rightarrow> events_config result" where
  "events_of d =
     res_bind (str_key d ''events'' ''backend'' default_events_backend) (\<lambda>backend.
     res_bind (str_key d ''events'' ''fjall_path'' default_events_fjall_path) (\<lambda>path.
     res_bind (str_key d ''events'' ''clickhouse_url'' []) (\<lambda>url.
     res_bind (int_key d ''events'' ''dedup_retention_secs'' i64_min i64_max default_dedup_retention_secs) (\<lambda>secs.
     Inr \<lparr>ev_backend = backend, ev_fjall_path = path, ev_clickhouse_url = url, ev_dedup_retention_secs = secs\<rparr>))))"

definition log_of :: "toml_doc \<Rightarrow> log_config result" where
  "log_of d =
     res_bind (str_key d ''log'' ''level'' default_log_level) (\<lambda>level.
     res_bind (bool_key d ''log'' ''json'') (\<lambda>json. Inr \<lparr>lg_level = level, lg_json = (json = Some True)\<rparr>))"

definition config_of :: "toml_doc \<Rightarrow> config result" where
  "config_of d =
     res_bind (server_of d) (\<lambda>server. res_bind (auth_of d) (\<lambda>auth. res_bind (storage_of d) (\<lambda>storage.
     res_bind (events_of d) (\<lambda>events. res_bind (log_of d) (\<lambda>lg.
     res_bind (str_key d ''features'' ''max_query_scope'' default_max_query_scope) (\<lambda>scope.
     Inr \<lparr>cf_server = server, cf_auth = auth, cf_storage = storage, cf_events = events, cf_log = lg, cf_max_query_scope = scope\<rparr>))))))"

text \<open>A configuration file: missing, unreadable or its text.\<close>

datatype config_file = Missing | Unreadable | Text string

definition config_load :: "environment \<Rightarrow> (string \<Rightarrow> toml_doc option) \<Rightarrow> string \<Rightarrow> config_file \<Rightarrow> config result" where
  "config_load env toml path file =
     (case file of
        Text raw \<Rightarrow>
          (case Option.bind (toml (expand_env env raw)) (\<lambda>d. case config_of d of Inr c \<Rightarrow> Some c | Inl _ \<Rightarrow> None) of
             None \<Rightarrow> Inl (''failed to parse config: '' @ path)
           | Some c \<Rightarrow> Inr (c\<lparr>cf_events := validate_dedup_retention (cf_events c)\<rparr>))
      | _ \<Rightarrow> Inl (''failed to read config: '' @ path))"

definition default_auth :: "string \<Rightarrow> auth_config" where
  "default_auth secret = \<lparr>ac_jwt_secret = secret, ac_access_token_ttl_secs = default_access_ttl,
     ac_refresh_token_ttl_secs = default_refresh_ttl, ac_brute_force_max_attempts = default_brute_max_attempts,
     ac_brute_force_window_secs = default_brute_window, ac_brute_force_lockout_secs = default_brute_lockout,
     ac_registration_mode = default_registration_mode, ac_allow_registration = None, ac_oidc_issuer = [], ac_oidc_client_id = [],
     ac_oidc_client_secret = [], ac_oidc_redirect_uri = []\<rparr>"

definition load_or_default :: "environment \<Rightarrow> (string \<Rightarrow> toml_doc option) \<Rightarrow> string \<Rightarrow> config_file \<Rightarrow> config result" where
  "load_or_default env toml path file =
     (if file \<noteq> Missing then config_load env toml path file
      else Inr \<lparr>cf_server = default_server,
        cf_auth = default_auth (case env ''JWT_SECRET'' of Some s \<Rightarrow> s | None \<Rightarrow> ''change-me-in-production''),
        cf_storage = default_storage, cf_events = default_events, cf_log = default_log, cf_max_query_scope = default_max_query_scope\<rparr>)"

section \<open>Every variable is replaced once\<close>

text \<open>A text as a sequence of plain pieces and variables.\<close>

datatype piece = Plain string | Var string

fun source_text :: "piece \<Rightarrow> string" where
  "source_text (Plain t) = t"
| "source_text (Var x) = ''${'' @ x @ ''}''"

fun expanded :: "environment \<Rightarrow> piece \<Rightarrow> string" where
  "expanded env (Plain t) = t"
| "expanded env (Var x) = (case env x of Some v \<Rightarrow> v | None \<Rightarrow> [])"

fun piece_ok :: "piece \<Rightarrow> bool" where
  "piece_ok (Plain t) = (find_str dollar_brace t = None \<and> (t = [] \<or> last t \<noteq> CHR ''$''))"
| "piece_ok (Var x) = (CHR ''}'' \<notin> set x)"

lemma find_str_plain:
  "piece_ok (Plain t) \<Longrightarrow> find_str dollar_brace (t @ r) = map_option (\<lambda>i. length t + i) (find_str dollar_brace r)"
proof (induction t)
  case (Cons c t)
  have tail: "piece_ok (Plain t)" using Cons.prems by (auto split: if_splits)
  have "\<not> prefix dollar_brace (c # t @ r)"
  proof
    assume "prefix dollar_brace (c # t @ r)"
    then have c: "c = CHR ''$''" "prefix ''{'' (t @ r)" by (simp_all add: dollar_brace_def)
    then show False using Cons.prems by (cases t) (auto simp: dollar_brace_def split: if_splits)
  qed
  then show ?case using Cons.IH [OF tail] by (simp add: option.map_comp comp_def)
next
  case Nil
  then show ?case by (cases "find_str dollar_brace r") simp_all
qed

lemma find_brace: "CHR ''}'' \<notin> set x \<Longrightarrow> find_str ''}'' (x @ ''}'' @ r) = Some (length x)"
  by (induction x) auto

lemma expand_loop_pieces:
  "list_all piece_ok ps \<Longrightarrow>
   expand_loop env (d @ concat (map source_text ps)) (length d) = d @ concat (map (expanded env) ps)"
proof (induction ps arbitrary: d)
  case Nil
  then show ?case by (subst expand_loop.simps) (simp add: dollar_brace_def)
next
  case (Cons q ps)
  show ?case
  proof (cases q)
    case (Plain t)
    let ?r = "concat (map source_text ps)"
    have "expand_loop env (d @ t @ ?r) (length d) = expand_loop env ((d @ t) @ ?r) (length (d @ t))"
    proof (cases "find_str dollar_brace ?r")
      case None
      then show ?thesis using find_str_plain [of t ?r] Cons.prems Plain by (subst (1 2) expand_loop.simps) simp
    next
      case (Some rel)
      then have "find_str dollar_brace (t @ ?r) = Some (length t + rel)" using find_str_plain [of t ?r] Cons.prems Plain by simp
      then show ?thesis using Some by (subst (1 2) expand_loop.simps) (simp add: add.assoc Let_def split: option.split)
    qed
    then show ?thesis using Cons.IH [of "d @ t"] Cons.prems Plain by simp
  next
    case (Var x)
    let ?r = "concat (map source_text ps)" and ?v = "expanded env (Var x)"
    have x: "CHR ''}'' \<notin> set x" using Cons.prems Var by simp
    have "find_str dollar_brace (drop (length d) (d @ ''${'' @ x @ ''}'' @ ?r)) = Some 0" by (simp add: dollar_brace_def)
    moreover have "find_str ''}'' (drop (length d) (d @ ''${'' @ x @ ''}'' @ ?r)) = Some (2 + length x)"
      using find_brace [OF x, of ?r] by simp
    ultimately have "expand_loop env (d @ ''${'' @ x @ ''}'' @ ?r) (length d) = expand_loop env ((d @ ?v) @ ?r) (length (d @ ?v))"
      by (subst expand_loop.simps) (simp add: Let_def numeral_3_eq_3)
    then show ?thesis using Cons.IH [of "d @ ?v"] Cons.prems Var by simp
  qed
qed

text \<open>C37: Every variable is replaced once: a text of plain pieces and variables becomes the pieces with
  the value of each variable in its place, the empty text for one that is not set, and the values
  themselves are not expanded.\<close>

theorem expand_env_substitutes:
  assumes "list_all piece_ok ps"
  shows "expand_env env (concat (map source_text ps)) = concat (map (expanded env) ps)"
  using expand_loop_pieces [OF assms, of env "[]"] by (simp add: expand_env_def)

theorem expand_env_substitutes_witness:
  "expand_env [''A'' \<mapsto> ''${A}''] ''x=${A}$$ ${B};'' = ''x=${A}$$ ;''"
proof -
  have "expand_env [''A'' \<mapsto> ''${A}''] (concat (map source_text [Plain ''x='', Var ''A'', Plain ''$$ '', Var ''B'', Plain '';''])) =
      concat (map (expanded [''A'' \<mapsto> ''${A}'']) [Plain ''x='', Var ''A'', Plain ''$$ '', Var ''B'', Plain '';''])"
    by (rule expand_env_substitutes) (simp add: dollar_brace_def)
  then show ?thesis by simp
qed

end
