(* ===== verification/Startup.thy ===== *)
theory Startup
  imports Config Postgres Routes Pricing
begin

text \<open>
  Starting the server (\<open>main\<close> of \<open>src/src/main.rs\<close>, \<open>open_database\<close> and \<open>resolve_seed_admin_password\<close> of
  \<open>src/src/db/mod.rs\<close>): the configuration is loaded and checked, the database opened and seeded, the
  administrator ensured, expired rows removed, the event store chosen and opened; what results is the
  \<open>site\<close> the handlers run on. The database and the event store are the ones behind the configured paths.
  Logging and the sockets are left out; the creation of the tables is in theory \<open>Schema\<close>. The tasks that
  run every six hours are the operations \<open>periodic_cleanup\<close> and \<open>refresh_pricing\<close>.
\<close>

section \<open>The environment of the process\<close>

text \<open>What the process draws from outside: arguments and variables, files, the time, two new ids, random bytes, and bcrypt with the salt
  of the call; the \<open>site\<close> holds the crates.\<close>

record 'e process =
  pr_args :: "string list"
  pr_env :: environment
  pr_file :: "string \<Rightarrow> config_file"
  pr_toml :: "string \<Rightarrow> toml_doc option"
  pr_now :: int
  pr_seed_id :: string
  pr_admin_id :: string
  pr_random :: "nat list"
  pr_seed_hash :: "string \<Rightarrow> string result"
  pr_admin_hash :: "string \<Rightarrow> string result"
  pr_site :: site
  pr_open_clickhouse :: "string \<Rightarrow> 'e \<Rightarrow> unit result \<times> 'e"
  pr_open_fjall :: "string \<Rightarrow> 'e \<Rightarrow> unit result \<times> 'e"

definition config_path :: "'e process \<Rightarrow> string" where
  "config_path p =
     (case dropWhile (\<lambda>a. a \<noteq> ''--config'') (pr_args p) of
        _ # path # _ \<Rightarrow> path
      | _ \<Rightarrow> (case pr_env p ''TOKI_SYNC_CONFIG'' of Some path \<Rightarrow> path | None \<Rightarrow> ''./config.toml''))"

definition process_config :: "'e process \<Rightarrow> config result" where
  "process_config p = load_or_default (pr_env p) (pr_toml p) (config_path p) (pr_file p (config_path p))"

section \<open>Checks\<close>

definition check_config :: "config \<Rightarrow> unit result" where
  "check_config c =
     (if effective_registration_mode (cf_auth c) \<notin> {''open'', ''approval'', ''closed''} then Inl ''Invalid registration_mode''
      else if cf_max_query_scope c \<notin> {''self'', ''team'', ''all''} then Inl ''Invalid max_query_scope''
      else Inr ())"

section \<open>The database\<close>

definition ADMIN_PW_CHARS :: string where
  "ADMIN_PW_CHARS = ''ABCDEFGHJKMNPQRSTUVWXYZabcdefghijkmnpqrstuvwxyz23456789''"

definition resolve_seed_admin_password :: "environment \<Rightarrow> nat list \<Rightarrow> string \<times> bool" where
  "resolve_seed_admin_password env random =
     (case env ''TOKI_ADMIN_PASSWORD'' of
        Some (c # s) \<Rightarrow> (c # s, False)
      | _ \<Rightarrow> (map (\<lambda>b. ADMIN_PW_CHARS ! (b mod length ADMIN_PW_CHARS)) (take 16 random), True))"

definition seed_database ::
  "(int \<Rightarrow> string \<Rightarrow> string \<Rightarrow> sqlite_db \<Rightarrow> unit db_result) \<Rightarrow> 'e process \<Rightarrow> sqlite_db \<Rightarrow> unit db_result" where
  "seed_database seed p db =
     (if users db \<noteq> [] then (Inr (), db)
      else (case pr_seed_hash p (fst (resolve_seed_admin_password (pr_env p) (pr_random p))) of
              Inl e \<Rightarrow> (Inl (''bcrypt hash failed: '' @ e), db)
            | Inr hash \<Rightarrow> seed (pr_now p) (pr_seed_id p) hash db))"

definition open_database :: "storage_config \<Rightarrow> 'e process \<Rightarrow> sqlite_db \<Rightarrow> unit db_result" where
  "open_database sc p db =
     (if sg_backend sc = ''postgres'' then
        if sg_postgres_url sc = [] then (Inl ''storage.backend is postgres but postgres_url is not configured'', db)
        else seed_database pg_seed_admin p db
      else seed_database seed_admin p db)"

definition ensure_admin :: "'e process \<Rightarrow> sqlite_db \<Rightarrow> unit db_result" where
  "ensure_admin p db =
     (case pr_env p ''TOKI_ADMIN_PASSWORD'' of
        None \<Rightarrow> (Inr (), db)
      | Some pw \<Rightarrow>
          (case get_user_by_username ''admin'' db of
             Inl _ \<Rightarrow> (Inl ''failed to check admin existence'', db)
           | Inr (Some _) \<Rightarrow> (Inr (), db)
           | Inr None \<Rightarrow>
               (case pr_admin_hash p pw of
                  Inl _ \<Rightarrow> (Inl ''bcrypt hashing failed'', db)
                | Inr hash \<Rightarrow>
                    (case create_user (pr_now p) \<lparr>nu_id = pr_admin_id p, nu_username = ''admin'', nu_password_hash = hash, nu_role = ''admin''\<rparr> db of
                       (Inl _, db') \<Rightarrow> (Inl ''failed to create admin user'', db')
                     | (Inr _, db') \<Rightarrow> (Inr (), db')))))"

definition step_or :: "string \<Rightarrow> (sqlite_db \<Rightarrow> 'a db_result) \<Rightarrow> sqlite_db \<Rightarrow> unit db_result" where
  "step_or what f db = (case f db of (Inl _, db') \<Rightarrow> (Inl what, db') | (Inr _, db') \<Rightarrow> (Inr (), db'))"

definition db_then :: "(sqlite_db \<Rightarrow> unit db_result) \<Rightarrow> (sqlite_db \<Rightarrow> unit db_result) \<Rightarrow> sqlite_db \<Rightarrow> unit db_result" where
  "db_then f g db = (case f db of (Inl e, db') \<Rightarrow> (Inl e, db') | (Inr _, db') \<Rightarrow> g db')"

definition startup_cleanup :: "int \<Rightarrow> sqlite_db \<Rightarrow> unit db_result" where
  "startup_cleanup now =
     db_then (step_or ''failed to cleanup expired tokens'' (cleanup_expired_tokens now))
     (db_then (step_or ''failed to cleanup old pending registrations'' (cleanup_old_pending_registrations now (7 * 86400)))
       (step_or ''failed to cleanup expired device codes'' (cleanup_expired_device_codes now)))"

definition prepare_database :: "config \<Rightarrow> 'e process \<Rightarrow> sqlite_db \<Rightarrow> unit db_result" where
  "prepare_database c p =
     db_then (step_or ''failed to open database'' (open_database (cf_storage c) p)) (db_then (ensure_admin p) (startup_cleanup (pr_now p)))"

section \<open>The site\<close>

definition open_events :: "events_config \<Rightarrow> 'e process \<Rightarrow> 'e \<Rightarrow> unit result \<times> 'e" where
  "open_events ec p e =
     (if ev_backend ec = ''clickhouse'' then
        if ev_clickhouse_url ec = [] then (Inl ''events.backend=clickhouse but events.clickhouse_url is empty'', e)
        else (case pr_open_clickhouse p (ev_clickhouse_url ec) e of
                (Inl _, e') \<Rightarrow> (Inl ''failed to initialize ClickHouse event store'', e') | (Inr _, e') \<Rightarrow> (Inr (), e'))
      else (case pr_open_fjall p (ev_fjall_path ec) e of
              (Inl _, e') \<Rightarrow> (Inl ''failed to open Fjall event store'', e') | (Inr _, e') \<Rightarrow> (Inr (), e')))"

definition redirect_uri_of :: "config \<Rightarrow> string" where
  "redirect_uri_of c =
     (if ac_oidc_redirect_uri (cf_auth c) = [] then
        if sc_external_url (cf_server c) \<noteq> [] then sc_external_url (cf_server c) @ ''/auth/callback'' else []
      else ac_oidc_redirect_uri (cf_auth c))"

definition jwt_of :: "config \<Rightarrow> jwt_manager" where
  "jwt_of c = \<lparr>jwt_secret = ac_jwt_secret (cf_auth c), access_ttl_secs = ac_access_token_ttl_secs (cf_auth c),
     refresh_ttl_secs = ac_refresh_token_ttl_secs (cf_auth c), issuer = sc_external_url (cf_server c)\<rparr>"

definition settings_of :: "config \<Rightarrow> dynamic_settings" where
  "settings_of c = \<lparr>config_registration_mode = effective_registration_mode (cf_auth c), config_oidc_issuer = ac_oidc_issuer (cf_auth c),
     config_oidc_client_id = ac_oidc_client_id (cf_auth c), config_oidc_client_secret = ac_oidc_client_secret (cf_auth c),
     config_oidc_redirect_uri = redirect_uri_of c, config_max_query_scope = cf_max_query_scope c\<rparr>"

definition site_of :: "config \<Rightarrow> site \<Rightarrow> site" where
  "site_of c st = st\<lparr>
     st_jwt := jwt_of c,
     st_brute := \<lparr>max_attempts = ac_brute_force_max_attempts (cf_auth c), window = ac_brute_force_window_secs (cf_auth c) * sec,
       lockout = ac_brute_force_lockout_secs (cf_auth c) * sec\<rparr>,
     st_settings := settings_of c, st_access_ttl := ac_access_token_ttl_secs (cf_auth c), st_trust_proxy := sc_trust_proxy (cf_server c),
     st_external_url := sc_external_url (cf_server c), st_storage_backend := sg_backend (cf_storage c)\<rparr>"

text \<open>The start: the site, or the error the process ends with.\<close>

definition startup :: "'e process \<Rightarrow> sqlite_db \<times> 'e \<Rightarrow> (config \<times> site) result \<times> sqlite_db \<times> 'e" where
  "startup p world = (case world of (db, e) \<Rightarrow>
     (case process_config p of
        Inl _ \<Rightarrow> (Inl ''failed to load config'', db, e)
      | Inr c \<Rightarrow>
          (case check_config c of
             Inl err \<Rightarrow> (Inl err, db, e)
           | Inr _ \<Rightarrow>
               (case prepare_database c p db of
                  (Inl err, db') \<Rightarrow> (Inl err, db', e)
                | (Inr _, db') \<Rightarrow>
                    (case open_events (cf_events c) p e of
                       (Inl err, e') \<Rightarrow> (Inl err, db', e')
                     | (Inr _, e') \<Rightarrow> (Inr (c, site_of c (pr_site p)), db', e'))))))"

section \<open>The periodic tasks\<close>

definition window_cutoff :: "int \<Rightarrow> int" where
  "window_cutoff now_ms = now_ms - 730 * 86400000"

definition periodic_cleanup :: "'e event_store \<Rightarrow> int \<Rightarrow> int \<Rightarrow> sqlite_db \<times> 'e \<Rightarrow> (sqlite_db \<times> 'e) option" where
  "periodic_cleanup es now_ms now world = (case world of (db, e) \<Rightarrow>
     (case es_cleanup_old_windows es (window_cutoff now_ms) e of
        None \<Rightarrow> None
      | Some (_, e') \<Rightarrow>
          Some (snd (cleanup_old_pending_registrations now (7 * 86400) (snd (cleanup_expired_device_codes now (snd (cleanup_expired_tokens now db))))), e')))"

definition refresh_pricing :: "'f pricing_table option \<Rightarrow> 'f pricing_table \<Rightarrow> 'f pricing_table" where
  "refresh_pricing fresh old = (case fresh of Some t \<Rightarrow> if t \<noteq> [] then t else old | None \<Rightarrow> old)"

end
