(* ===== verification/Startup_Safety.thy ===== *)
theory Startup_Safety
  imports Startup Api_Demo
begin

text \<open>
  What a start guarantees: a wrong configuration is refused before anything is touched; an empty database
  gets an administrator whose password is the one of the environment or a random one; a restart changes no
  account and removes only rows that are of no more use. And what it does not: a variable that is set but
  empty gives the administrator an empty password.
\<close>

lemma startup_success:
  assumes "startup p (db, e) = (Inr (c, st), db', e')"
  shows "process_config p = Inr c" "check_config c = Inr ()" "prepare_database c p db = (Inr (), db')" "st = site_of c (pr_site p)"
  using assms by (auto simp: startup_def split: sum.splits prod.splits)

lemma retention_valid: "0 < ev_dedup_retention_secs (validate_dedup_retention ec)" "in_i64 (ev_dedup_retention_secs (validate_dedup_retention ec) * 1000)"
  by (auto simp: validate_dedup_retention_def checked_i64_def default_dedup_retention_secs_def in_i64_def i64_min_def i64_max_def split: if_splits)

lemma loaded_retention:
  assumes "load_or_default env toml path file = Inr c"
  shows "0 < ev_dedup_retention_secs (cf_events c)" "in_i64 (ev_dedup_retention_secs (cf_events c) * 1000)"
proof -
  have "\<exists>ec. cf_events c = validate_dedup_retention ec"
  proof (cases "file = Missing")
    case True
    then have "cf_events c = validate_dedup_retention default_events"
      using assms by (auto simp: load_or_default_def validate_dedup_retention_def default_events_def default_dedup_retention_secs_def
          checked_i64_def in_i64_def i64_min_def i64_max_def)
    then show ?thesis by blast
  next
    case False
    then show ?thesis using assms by (auto simp: load_or_default_def config_load_def split: config_file.splits option.splits)
  qed
  then show "0 < ev_dedup_retention_secs (cf_events c)" "in_i64 (ev_dedup_retention_secs (cf_events c) * 1000)"
    using retention_valid by metis+
qed

section \<open>Starts that succeed\<close>

text \<open>A process without a configuration file, with the password variable set or not.\<close>

definition demo_process :: "string option \<Rightarrow> unit process" where
  "demo_process pw = \<lparr>pr_args = [''toki-sync''], pr_env = (\<lambda>x. if x = ''TOKI_ADMIN_PASSWORD'' then pw else None),
     pr_file = (\<lambda>_. Missing), pr_toml = (\<lambda>_. None), pr_now = 5, pr_seed_id = ''s'', pr_admin_id = ''a'', pr_random = [0..<16],
     pr_seed_hash = (\<lambda>pw. Inr (''#'' @ pw)), pr_admin_hash = (\<lambda>pw. Inr (''#'' @ pw)), pr_site = demo_site,
     pr_open_clickhouse = (\<lambda>_ e. (Inr (), e)), pr_open_fjall = (\<lambda>_ e. (Inr (), e))\<rparr>"

definition demo_config :: config where
  "demo_config = \<lparr>cf_server = default_server, cf_auth = default_auth ''change-me-in-production'', cf_storage = default_storage,
     cf_events = default_events, cf_log = default_log, cf_max_query_scope = default_max_query_scope\<rparr>"

definition demo_lone :: sqlite_db where
  "demo_lone = empty_db\<lparr>users := [demo_user ''u'' ''ann'' ''user'']\<rparr>"

lemma demo_fields [simp]:
  "pr_env (demo_process pw) = (\<lambda>x. if x = ''TOKI_ADMIN_PASSWORD'' then pw else None)" "pr_site (demo_process pw) = demo_site"
  "pr_seed_hash (demo_process pw) s = Inr (''#'' @ s)" "pr_admin_hash (demo_process pw) s = Inr (''#'' @ s)"
  "pr_random (demo_process pw) = [0..<16]" "pr_open_fjall (demo_process pw) f e = (Inr (), e)" "pr_file (demo_process pw) f = Missing" "pr_admin_id (demo_process pw) = ''a''"
  by (simp_all add: demo_process_def)

lemma demo_configured: "process_config (demo_process pw) = Inr demo_config"
  by (simp add: demo_config_def process_config_def load_or_default_def)

lemma demo_config_sel: "check_config demo_config = Inr ()" "ev_backend (cf_events demo_config) = ''fjall''"
  by (simp_all add: check_config_def demo_config_def default_auth_def effective_registration_mode_def default_registration_mode_def
      default_max_query_scope_def default_events_def default_events_backend_def)

lemma demo_start:
  assumes "prepare_database demo_config (demo_process pw) db = (Inr (), db')"
  shows "startup (demo_process pw) (db, ()) = (Inr (demo_config, site_of demo_config demo_site), db', ())"
  by (simp add: startup_def demo_configured demo_config_sel open_events_def assms)

lemma cleanup_keeps_users: "startup_cleanup now db = (r, db') \<Longrightarrow> r = Inr () \<and> users db' = users db"
  by (auto simp: startup_cleanup_def db_then_def step_or_def cleanup_expired_tokens_def cleanup_old_pending_registrations_def
      cleanup_expired_device_codes_def)

lemma demo_prepared:
  "fst (prepare_database demo_config (demo_process None) empty_db) = Inr ()"
  "fst (prepare_database demo_config (demo_process (Some [])) demo_lone) = Inr ()"
proof -
  have cl: "fst (startup_cleanup now db) = Inr ()" for now db
    using cleanup_keeps_users by (metis prod.collapse)
  have sg: "sg_backend (cf_storage demo_config) = ''sqlite''" by (simp add: demo_config_def default_storage_def default_db_backend_def)
  show "fst (prepare_database demo_config (demo_process None) empty_db) = Inr ()"
    by (simp add: prepare_database_def db_then_def step_or_def open_database_def sg seed_database_def ensure_admin_def cl
        seed_admin_def insert_user_def insert_row_def with_context_def empty_db_def)
  show "fst (prepare_database demo_config (demo_process (Some [])) demo_lone) = Inr ()"
    by (simp add: prepare_database_def db_then_def step_or_def open_database_def sg seed_database_def ensure_admin_def cl
        get_user_by_username_def create_user_def insert_user_def insert_row_def with_context_def empty_db_def demo_lone_def
        demo_user_def user_clash_def)
qed

text \<open>The configuration is checked before anything is touched: a start with an unreadable configuration
  or an unknown registration mode or query scope fails and leaves database and event store alone,
  and a server that started has a known mode and scope as its fallbacks and a retention for which
  the sync handler's arithmetic does not overflow.\<close>

theorem startup_checks_first:
  assumes "startup p (db, e) = (r, db', e')"
  shows "((\<forall>c. process_config p = Inr c \<longrightarrow> check_config c \<noteq> Inr ()) \<longrightarrow> (\<exists>err. r = Inl err) \<and> db' = db \<and> e' = e) \<and>
    (\<forall>c st. r = Inr (c, st) \<longrightarrow> config_registration_mode (st_settings st) \<in> {''open'', ''approval'', ''closed''} \<and>
      config_max_query_scope (st_settings st) \<in> {''self'', ''team'', ''all''} \<and>
      0 < ev_dedup_retention_secs (cf_events c) \<and> in_i64 (ev_dedup_retention_secs (cf_events c) * 1000))"
proof (intro conjI allI)
  show "(\<forall>c. process_config p = Inr c \<longrightarrow> check_config c \<noteq> Inr ()) \<longrightarrow> (\<exists>err. r = Inl err) \<and> db' = db \<and> e' = e"
    using assms by (auto simp: startup_def split: sum.splits)
  fix c st
  show "r = Inr (c, st) \<longrightarrow> config_registration_mode (st_settings st) \<in> {''open'', ''approval'', ''closed''} \<and>
      config_max_query_scope (st_settings st) \<in> {''self'', ''team'', ''all''} \<and>
      0 < ev_dedup_retention_secs (cf_events c) \<and> in_i64 (ev_dedup_retention_secs (cf_events c) * 1000)"
  proof
    assume "r = Inr (c, st)"
    then have s: "process_config p = Inr c" "check_config c = Inr ()" "st = site_of c (pr_site p)" using assms startup_success by metis+
    then show "config_registration_mode (st_settings st) \<in> {''open'', ''approval'', ''closed''} \<and>
      config_max_query_scope (st_settings st) \<in> {''self'', ''team'', ''all''} \<and>
      0 < ev_dedup_retention_secs (cf_events c) \<and> in_i64 (ev_dedup_retention_secs (cf_events c) * 1000)"
      using loaded_retention [OF s(1) [unfolded process_config_def]]
      by (auto simp: check_config_def site_of_def settings_of_def split: if_splits)
  qed
qed

theorem startup_checks_first_witness:
  "config_registration_mode (st_settings (site_of demo_config demo_site)) = ''closed'' \<and>
   config_registration_mode (st_settings (site_of demo_config demo_site)) \<in> {''open'', ''approval'', ''closed''}"
proof -
  obtain db where p: "prepare_database demo_config (demo_process None) empty_db = (Inr (), db)"
    using demo_prepared(1) by (metis prod.exhaust_sel)
  have "startup (demo_process None) (empty_db, ()) = (Inr (demo_config, site_of demo_config demo_site), db, ())"
    by (rule demo_start) (rule p)
  from startup_checks_first [OF this] show ?thesis
    by (simp add: site_of_def settings_of_def effective_registration_mode_def demo_config_def default_auth_def
        default_registration_mode_def)
qed

section \<open>The administrator\<close>

lemma seed_inserts:
  assumes "users db = []" "seed \<in> {seed_admin, pg_seed_admin}" "seed now i hash db = (Inr (), db')"
  shows "users db' = [\<lparr>u_id = i, u_username = ''admin'', u_password_hash = hash, u_role = ''admin'', u_created_at = now, u_updated_at = now,
    u_oidc_sub = None, u_oidc_issuer = None, u_active = True\<rparr>]"
  using assms by (auto simp: seed_admin_def pg_seed_admin_def pg_insert_def with_context_def insert_user_def insert_row_def split: sum.splits if_splits)

lemma open_database_seeds:
  assumes "users db = []" "open_database sc p db = (Inr (), db')"
  shows "\<exists>hash. pr_seed_hash p (fst (resolve_seed_admin_password (pr_env p) (pr_random p))) = Inr hash \<and>
    users db' = [\<lparr>u_id = pr_seed_id p, u_username = ''admin'', u_password_hash = hash, u_role = ''admin'', u_created_at = pr_now p,
      u_updated_at = pr_now p, u_oidc_sub = None, u_oidc_issuer = None, u_active = True\<rparr>]"
  using assms seed_inserts [OF assms(1), of seed_admin] seed_inserts [OF assms(1), of pg_seed_admin]
  by (auto simp: open_database_def seed_database_def split: sum.splits if_splits)

lemma ensure_keeps_admin:
  assumes "u \<in> set (users db)" "u_username u = ''admin''" "ensure_admin p db = (r, db')"
  shows "r = Inr () \<and> db' = db"
proof -
  have "find (\<lambda>r. u_username r = ''admin'') (users db) \<noteq> None" using assms(1,2) by (auto simp: find_None_iff)
  then show ?thesis using assms(3) by (auto simp: ensure_admin_def get_user_by_username_def split: option.splits)
qed

lemma prepared:
  assumes "prepare_database c p db = (r, db')"
  shows "\<exists>r1 db1. open_database (cf_storage c) p db = (r1, db1) \<and> ((\<exists>e. r1 = Inl e \<and> r \<noteq> Inr () \<and> db' = db1) \<or>
    (r1 = Inr () \<and> (\<exists>r2 db2. ensure_admin p db1 = (r2, db2) \<and> users db' = users db2 \<and> (r = Inr () \<longleftrightarrow> r2 = Inr ()))))"
proof -
  obtain r1 db1 where 1: "open_database (cf_storage c) p db = (r1, db1)" by (cases "open_database (cf_storage c) p db")
  obtain r2 db2 where 2: "ensure_admin p db1 = (r2, db2)" by (cases "ensure_admin p db1")
  obtain r3 db3 where 3: "startup_cleanup (pr_now p) db2 = (r3, db3)" by (cases "startup_cleanup (pr_now p) db2")
  show ?thesis
    using assms 1 2 3 cleanup_keeps_users [OF 3]
    by (auto simp: prepare_database_def db_then_def step_or_def split: sum.splits)
qed

definition first_password :: "'e process \<Rightarrow> string" where
  "first_password p = fst (resolve_seed_admin_password (pr_env p) (pr_random p))"

lemma first_password_cases:
  "(\<exists>pw. pr_env p ''TOKI_ADMIN_PASSWORD'' = Some pw \<and> pw \<noteq> [] \<and> first_password p = pw) \<or>
   (first_password p = map (\<lambda>b. ADMIN_PW_CHARS ! (b mod length ADMIN_PW_CHARS)) (take 16 (pr_random p)) \<and>
     set (first_password p) \<subseteq> set ADMIN_PW_CHARS)"
proof -
  have "ADMIN_PW_CHARS ! (b mod length ADMIN_PW_CHARS) \<in> set ADMIN_PW_CHARS" for b
    by (rule nth_mem) (simp add: ADMIN_PW_CHARS_def)
  then show ?thesis by (auto simp: first_password_def resolve_seed_admin_password_def split: option.splits list.splits)
qed

text \<open>C23: A first start makes one administrator, and its password is never a fixed one: on an empty
  database a start that succeeds leaves exactly one account, admin, active, with the hash of the
  password of the environment, if one is set and not empty, or of 16 characters drawn from the
  random bytes.\<close>

theorem first_start_seeds_admin:
  assumes "users db = []" "startup p (db, e) = (Inr (c, st), db', e')"
  shows "\<exists>u. users db' = [u] \<and> u_username u = ''admin'' \<and> u_role u = ''admin'' \<and> u_active u \<and>
    pr_seed_hash p (first_password p) = Inr (u_password_hash u) \<and>
    ((\<exists>pw. pr_env p ''TOKI_ADMIN_PASSWORD'' = Some pw \<and> pw \<noteq> [] \<and> first_password p = pw) \<or>
      first_password p = map (\<lambda>b. ADMIN_PW_CHARS ! (b mod length ADMIN_PW_CHARS)) (take 16 (pr_random p)))"
proof -
  obtain db1 r2 db2 where o: "open_database (cf_storage c) p db = (Inr (), db1)" and en: "ensure_admin p db1 = (r2, db2)" "users db' = users db2"
    using prepared [OF startup_success(3) [OF assms(2)]] by auto
  from open_database_seeds [OF assms(1) o] obtain hash where h: "pr_seed_hash p (first_password p) = Inr hash"
    "users db1 = [\<lparr>u_id = pr_seed_id p, u_username = ''admin'', u_password_hash = hash, u_role = ''admin'', u_created_at = pr_now p,
      u_updated_at = pr_now p, u_oidc_sub = None, u_oidc_issuer = None, u_active = True\<rparr>]"
    by (auto simp: first_password_def)
  then have "db2 = db1" using ensure_keeps_admin [OF _ _ en(1)] by simp
  then show ?thesis using h en(2) first_password_cases [of p] by auto
qed

theorem first_start_seeds_admin_witness:
  "\<exists>u. users (fst (snd (startup (demo_process None) (empty_db, ())))) = [u] \<and> u_password_hash u = ''#ABCDEFGHJKMNPQRS''"
proof -
  obtain db where p: "prepare_database demo_config (demo_process None) empty_db = (Inr (), db)"
    using demo_prepared(1) by (metis prod.exhaust_sel)
  have run: "startup (demo_process None) (empty_db, ()) = (Inr (demo_config, site_of demo_config demo_site), db, ())"
    by (rule demo_start) (rule p)
  have "first_password (demo_process None) = ''ABCDEFGHJKMNPQRS''"
    by (simp add: first_password_def resolve_seed_admin_password_def ADMIN_PW_CHARS_def upt_rec)
  with first_start_seeds_admin [OF _ run] run show ?thesis by (auto simp: empty_db_def)
qed

text \<open>A restart keeps the accounts: on a database with accounts, unless the password variable is set and
  there is no admin, a start, whether it succeeds or fails, leaves every account as it was.\<close>

theorem restart_keeps_accounts:
  assumes "users db \<noteq> []" "startup p (db, e) = (r, db', e')"
    "pr_env p ''TOKI_ADMIN_PASSWORD'' = None \<or> (\<exists>u\<in>set (users db). u_username u = ''admin'')"
  shows "users db' = users db"
proof -
  have seeds: "snd (seed_database seed p db) = db" for seed using assms(1) by (simp add: seed_database_def)
  then have o: "open_database sc p db = (r1, db1) \<Longrightarrow> db1 = db" for sc r1 db1
    by (auto simp: open_database_def split: if_splits) (metis snd_conv)+
  have en: "db2 = db" if "ensure_admin p db = (r2, db2)" for r2 db2
    using assms(3)
  proof
    assume "pr_env p ''TOKI_ADMIN_PASSWORD'' = None"
    then show ?thesis using that by (simp add: ensure_admin_def)
  qed (use ensure_keeps_admin that in blast)
  have "users db1 = users db" if p: "prepare_database c p db = (r1, db1)" for c r1 db1
  proof -
    obtain r0 d0 where "open_database (cf_storage c) p db = (r0, d0)"
      and "(\<exists>e. r0 = Inl e \<and> r1 \<noteq> Inr () \<and> db1 = d0) \<or>
        (r0 = Inr () \<and> (\<exists>r2 d2. ensure_admin p d0 = (r2, d2) \<and> users db1 = users d2 \<and> (r1 = Inr () \<longleftrightarrow> r2 = Inr ())))"
      using prepared [OF p] by blast
    moreover from this(1) have "d0 = db" by (rule o)
    ultimately show ?thesis using en by blast
  qed
  then show ?thesis using assms(2) by (auto simp: startup_def split: sum.splits prod.splits)
qed

theorem restart_keeps_accounts_witness:
  "users (fst (snd (startup (demo_process (Some ''pw'')) (demo_db, ())))) = users demo_db"
proof -
  obtain r db' e' where run: "startup (demo_process (Some ''pw'')) (demo_db, ()) = (r, db', e')" by (rule prod_cases3)
  have "users db' = users demo_db"
    by (rule restart_keeps_accounts [OF _ run]) (simp_all add: demo_db_def demo_user_def demo_process_def)
  with run show ?thesis by simp
qed

text \<open>C24: A password variable that is set but empty gives the administrator an empty password: with it,
  on a database with accounts but no admin, a start that succeeds adds the administrator admin
  with the hash of the empty password.\<close>

theorem empty_variable_empty_password:
  assumes "users db \<noteq> []" "\<forall>u\<in>set (users db). u_username u \<noteq> ''admin''" "pr_env p ''TOKI_ADMIN_PASSWORD'' = Some []"
    "startup p (db, e) = (Inr (c, st), db', e')"
  shows "\<exists>u\<in>set (users db'). u_username u = ''admin'' \<and> u_role u = ''admin'' \<and> u_active u \<and> pr_admin_hash p [] = Inr (u_password_hash u)"
proof -
  have "find (\<lambda>r. u_username r = ''admin'') (users db) = None" using assms(2) by (auto simp: find_None_iff)
  moreover obtain db1 db2 where "open_database (cf_storage c) p db = (Inr (), db1)" "ensure_admin p db1 = (Inr (), db2)" "users db' = users db2"
    using prepared [OF startup_success(3) [OF assms(4)]] by auto
  moreover have "snd (seed_database seed p db) = db" for seed using assms(1) by (simp add: seed_database_def)
  then have "db1 = db" using calculation(2) by (auto simp: open_database_def split: if_splits) (metis snd_conv)+
  ultimately show ?thesis using assms(3)
    by (auto simp: ensure_admin_def get_user_by_username_def create_user_def with_context_def insert_user_def insert_row_def
        split: sum.splits if_splits prod.splits)
qed

theorem empty_variable_empty_password_witness:
  "\<exists>u\<in>set (users (fst (snd (startup (demo_process (Some [])) (demo_lone, ()))))). u_username u = ''admin'' \<and> u_password_hash u = ''#''"
proof -
  obtain db where p: "prepare_database demo_config (demo_process (Some [])) demo_lone = (Inr (), db)"
    using demo_prepared(2) by (metis prod.exhaust_sel)
  have "startup (demo_process (Some [])) (demo_lone, ()) = (Inr (demo_config, site_of demo_config demo_site), db, ())"
    by (rule demo_start) (rule p)
  from empty_variable_empty_password [OF _ _ _ this]
  have "\<exists>u\<in>set (users db). u_username u = ''admin'' \<and> u_role u = ''admin'' \<and> u_active u \<and> Inr ''#'' = Inr (u_password_hash u)"
    by (simp add: demo_lone_def demo_user_def)
  then show ?thesis unfolding demo_start [OF p] fst_conv snd_conv by (metis sum.inject(2))
qed

end
