(* ===== verification/Listener.thy ===== *)
theory Listener
  imports Sync_Safety
begin

text \<open>
  The TCP listener (\<open>run_tcp_server\<close> of \<open>src/src/server/tcp.rs\<close>): it accepts connections while permits
  last, runs one handler task per connection, reaps the tasks that ended, and on shutdown drains the rest
  for at most thirty seconds. The tasks interleave message by message: a task's step is \<open>conn_step\<close> of
  theory \<open>Sync\<close> on the server that all of them share. Which event comes next is up to the network, the
  clients and the scheduler; the listener is a step function over events and a relation of what is
  reachable.
\<close>

section \<open>State\<close>

text \<open>A task's permit goes back when its handler returns or unwinds, just before the task set can see that it ended.\<close>

datatype task = Running conn | Leaving | Ended

datatype phase = Accepting | Draining | Stopped

record 'e listener =
  ls_phase :: phase
  ls_permits :: nat
  ls_tasks :: "(nat \<times> task) list"
  ls_next :: nat
  ls_server :: "'e server"

datatype 't event =
    Accepted
  | Accept_Failed
  | Shutdown bool
  | Message nat 't incoming
  | Panicked nat
  | Completed nat
  | Joined nat
  | Drain_Timeout

definition MAX_TCP_CONNECTIONS :: nat where "MAX_TCP_CONNECTIONS = 500"

definition listener_new :: "'e server \<Rightarrow> 'e listener" where
  "listener_new sv = \<lparr>ls_phase = Accepting, ls_permits = MAX_TCP_CONNECTIONS, ls_tasks = [], ls_next = 0, ls_server = sv\<rparr>"

section \<open>Steps\<close>

definition reap :: "'e listener \<Rightarrow> 'e listener" where
  "reap l = l\<lparr>ls_tasks := filter (\<lambda>(_, t). t \<noteq> Ended) (ls_tasks l)\<rparr>"

definition take_connection :: "'e listener \<Rightarrow> 'e listener" where
  "take_connection l =
     (if ls_permits l = 0 then l
      else l\<lparr>ls_permits := ls_permits l - 1, ls_tasks := ls_tasks l @ [(ls_next l, Running Handshake)], ls_next := Suc (ls_next l)\<rparr>)"

definition set_task :: "nat \<Rightarrow> task \<Rightarrow> 'e listener \<Rightarrow> 'e listener" where
  "set_task i t l = l\<lparr>ls_tasks := map (\<lambda>(j, u). if j = i then (j, t) else (j, u)) (ls_tasks l)\<rparr>"

definition leave :: "nat \<Rightarrow> 'e listener \<Rightarrow> 'e listener" where
  "leave i l = set_task i Leaving (l\<lparr>ls_permits := Suc (ls_permits l)\<rparr>)"

definition drain :: "'e listener \<Rightarrow> 'e listener" where
  "drain l = l\<lparr>ls_phase := (if ls_tasks l = [] then Stopped else Draining)\<rparr>"

fun is_running :: "task \<Rightarrow> bool" where
  "is_running (Running _) = True"
| "is_running _ = False"

definition live :: "'e listener \<Rightarrow> nat" where
  "live l = length (filter (\<lambda>(_, t). is_running t) (ls_tasks l))"

definition abort_all :: "'e listener \<Rightarrow> 'e listener" where
  "abort_all l = l\<lparr>ls_phase := Stopped, ls_tasks := [], ls_permits := ls_permits l + live l\<rparr>"

text \<open>The handler of a connection takes one input; a closed connection returns its permit.\<close>

definition handle ::
  "'e event_store \<Rightarrow> sync_crates \<Rightarrow> jwt_crate \<Rightarrow> jwt_manager \<Rightarrow> int \<Rightarrow> nat \<Rightarrow> 't moment_scheme \<Rightarrow> incoming \<Rightarrow> conn \<Rightarrow> 'e listener \<Rightarrow>
   answer list \<times> 'e listener" where
  "handle es cr jc m retention i t inc c l =
     (case conn_step es cr jc m retention t inc c (ls_server l) of
        (out, c', sv) \<Rightarrow>
          (out, if c' \<in> {Finished, Failed} then leave i (l\<lparr>ls_server := sv\<rparr>) else set_task i (Running c') (l\<lparr>ls_server := sv\<rparr>)))"

text \<open>\<open>None\<close>: the event cannot happen in this state.\<close>

fun listener_step ::
  "'e event_store \<Rightarrow> sync_crates \<Rightarrow> jwt_crate \<Rightarrow> jwt_manager \<Rightarrow> int \<Rightarrow> 't moment_scheme event \<Rightarrow> 'e listener \<Rightarrow>
   (answer list \<times> 'e listener) option" where
  "listener_step es cr jc m retention Accepted l = (if ls_phase l = Accepting then Some ([], reap (take_connection l)) else None)"
| "listener_step es cr jc m retention Accept_Failed l = (if ls_phase l = Accepting then Some ([], reap l) else None)"
| "listener_step es cr jc m retention (Shutdown b) l =
     (if ls_phase l = Accepting then Some ([], if b then drain l else reap l) else None)"
| "listener_step es cr jc m retention (Message i t inc) l =
     (case map_of (ls_tasks l) i of Some (Running c) \<Rightarrow> Some (handle es cr jc m retention i t inc c l) | _ \<Rightarrow> None)"
| "listener_step es cr jc m retention (Panicked i) l =
     (case map_of (ls_tasks l) i of Some (Running c) \<Rightarrow> Some ([], leave i l) | _ \<Rightarrow> None)"
| "listener_step es cr jc m retention (Completed i) l =
     (if map_of (ls_tasks l) i = Some Leaving then Some ([], set_task i Ended l) else None)"
| "listener_step es cr jc m retention (Joined i) l =
     (if ls_phase l = Draining \<and> map_of (ls_tasks l) i = Some Ended
      then Some ([], drain (l\<lparr>ls_tasks := filter (\<lambda>(j, _). j \<noteq> i) (ls_tasks l)\<rparr>)) else None)"
| "listener_step es cr jc m retention Drain_Timeout l = (if ls_phase l = Draining then Some ([], abort_all l) else None)"

text \<open>What is reachable, when the events are the ones that \<open>may\<close> admits.\<close>

inductive listens ::
  "('t moment_scheme event \<Rightarrow> 'e listener \<Rightarrow> bool) \<Rightarrow> 'e event_store \<Rightarrow> sync_crates \<Rightarrow> jwt_crate \<Rightarrow> jwt_manager \<Rightarrow> int \<Rightarrow>
   'e listener \<Rightarrow> 't moment_scheme event list \<Rightarrow> 'e listener \<Rightarrow> bool"
  for may es cr jc m retention l0 where
  start: "listens may es cr jc m retention l0 [] l0"
| step: "listens may es cr jc m retention l0 evs l \<Longrightarrow> may ev l \<Longrightarrow> listener_step es cr jc m retention ev l = Some (out, l') \<Longrightarrow>
    listens may es cr jc m retention l0 (evs @ [ev]) l'"

abbreviation anything :: "'t moment_scheme event \<Rightarrow> 'e listener \<Rightarrow> bool" where
  "anything \<equiv> \<lambda>_ _. True"

section \<open>Permits\<close>

definition listener_ok :: "'e listener \<Rightarrow> bool" where
  "listener_ok l \<longleftrightarrow> distinct (map fst (ls_tasks l)) \<and> (\<forall>i\<in>fst ` set (ls_tasks l). i < ls_next l) \<and>
     ls_permits l + live l = MAX_TCP_CONNECTIONS \<and> (ls_phase l = Stopped \<longrightarrow> ls_tasks l = [])"

lemma set_task_sel [simp]:
  "ls_phase (set_task i t l) = ls_phase l" "ls_permits (set_task i t l) = ls_permits l" "ls_next (set_task i t l) = ls_next l"
  "ls_server (set_task i t l) = ls_server l" "ls_tasks (set_task i t l) = [] \<longleftrightarrow> ls_tasks l = []"
  by (simp_all add: set_task_def)

lemma set_task_keys [simp]: "map fst (ls_tasks (set_task i t l)) = map fst (ls_tasks l)"
  by (auto simp: set_task_def)

lemma set_task_ids [simp]: "fst ` set (ls_tasks (set_task i t l)) = fst ` set (ls_tasks l)"
  by (metis list.set_map set_task_keys)

lemma live_server [simp]: "live (l\<lparr>ls_server := sv\<rparr>) = live l" "live (l\<lparr>ls_permits := n\<rparr>) = live l" "live (l\<lparr>ls_phase := ph\<rparr>) = live l"
  by (simp_all add: live_def)

lemma live_set:
  assumes "distinct (map fst (ls_tasks l))" "map_of (ls_tasks l) i = Some u"
  shows "live (set_task i t l) + (if is_running u then 1 else 0) = live l + (if is_running t then 1 else 0)"
proof -
  obtain xs ys where ts: "ls_tasks l = xs @ (i, u) # ys" using assms(2) by (meson map_of_SomeD split_list)
  then have "i \<notin> fst ` set xs" "i \<notin> fst ` set ys" using assms(1) by auto
  then have "map (\<lambda>(j, u). if j = i then (j, t) else (j, u)) xs = xs" "map (\<lambda>(j, u). if j = i then (j, t) else (j, u)) ys = ys"
    by (force intro!: map_idI)+
  then show ?thesis by (simp add: live_def set_task_def ts)
qed

lemma live_filter:
  assumes "\<forall>x\<in>set (ls_tasks l). \<not> P x \<longrightarrow> \<not> is_running (snd x)"
  shows "live (l\<lparr>ls_tasks := filter P (ls_tasks l)\<rparr>) = live l"
proof -
  have "filter (\<lambda>(_, t). is_running t) (filter P ts) = filter (\<lambda>(_, t). is_running t) ts" if "\<forall>x\<in>set ts. \<not> P x \<longrightarrow> \<not> is_running (snd x)"
    for ts :: "(nat \<times> task) list" using that by (induction ts) auto
  from this [OF assms] show ?thesis by (simp add: live_def)
qed

lemma listener_ok_filter:
  assumes "listener_ok l" "\<forall>x\<in>set (ls_tasks l). \<not> P x \<longrightarrow> \<not> is_running (snd x)"
  shows "listener_ok (l\<lparr>ls_tasks := filter P (ls_tasks l)\<rparr>)"
  using assms(1) live_filter [OF assms(2)] by (auto simp: listener_ok_def distinct_map_filter)

lemma reap_ok: "listener_ok l \<Longrightarrow> listener_ok (reap l)"
  unfolding reap_def by (rule listener_ok_filter) auto

lemma take_ok: "listener_ok l \<Longrightarrow> ls_phase l = Accepting \<Longrightarrow> listener_ok (take_connection l)"
  by (force simp: take_connection_def listener_ok_def live_def)

lemma leave_ok:
  assumes "listener_ok l" "map_of (ls_tasks l) i = Some (Running c)"
  shows "listener_ok (leave i l)"
  using assms live_set [of "l\<lparr>ls_permits := Suc (ls_permits l)\<rparr>" i "Running c" Leaving]
  by (auto simp: leave_def listener_ok_def simp del: map_map)

lemma set_ok:
  assumes "listener_ok l" "map_of (ls_tasks l) i = Some u" "is_running t \<longleftrightarrow> is_running u"
  shows "listener_ok (set_task i t l)"
  using assms live_set [of l i u t] by (auto simp: listener_ok_def split: if_splits)

lemma server_ok [simp]: "listener_ok (l\<lparr>ls_server := sv\<rparr>) \<longleftrightarrow> listener_ok l"
  by (simp add: listener_ok_def)

lemma drain_ok: "listener_ok l \<Longrightarrow> listener_ok (drain l)"
  by (simp add: drain_def listener_ok_def)

lemma step_ok:
  assumes "listener_ok l" "listener_step es cr jc m retention ev l = Some (out, l')"
  shows "listener_ok l'"
proof (cases ev)
  case (Joined i)
  then have "map_of (ls_tasks l) i = Some Ended" "l' = drain (l\<lparr>ls_tasks := filter (\<lambda>(j, _). j \<noteq> i) (ls_tasks l)\<rparr>)"
    using assms(2) by (auto split: if_splits)
  moreover have "\<forall>x\<in>set (ls_tasks l). \<not> (\<lambda>(j, _). j \<noteq> i) x \<longrightarrow> \<not> is_running (snd x)"
    using assms(1) calculation(1) map_of_is_SomeI by (fastforce simp: listener_ok_def)
  ultimately show ?thesis using drain_ok [OF listener_ok_filter [OF assms(1)]] by blast
next
  case (Message i t inc)
  then obtain c where c: "map_of (ls_tasks l) i = Some (Running c)" "handle es cr jc m retention i t inc c l = (out, l')"
    using assms(2) by (auto split: option.splits task.splits)
  obtain c' sv where l': "l' = leave i (l\<lparr>ls_server := sv\<rparr>) \<or> l' = set_task i (Running c') (l\<lparr>ls_server := sv\<rparr>)"
    using c(2) by (auto simp: handle_def split: prod.splits if_splits)
  have ok: "listener_ok (l\<lparr>ls_server := sv\<rparr>)" and at: "map_of (ls_tasks (l\<lparr>ls_server := sv\<rparr>)) i = Some (Running c)"
    using assms(1) c(1) by simp_all
  from l' leave_ok [OF ok at] set_ok [OF ok at, of "Running c'"] show ?thesis by auto
next
  case Drain_Timeout
  with assms show ?thesis by (auto simp: abort_all_def listener_ok_def live_def split: if_splits)
next
  case Accepted
  then show ?thesis using assms reap_ok [OF take_ok] by (auto split: if_splits)
next
  case Accept_Failed
  then show ?thesis using assms reap_ok by (auto split: if_splits)
next
  case (Shutdown b)
  then show ?thesis using assms reap_ok drain_ok by (auto split: if_splits)
next
  case (Panicked i)
  then show ?thesis using assms leave_ok by (auto split: option.splits task.splits)
next
  case (Completed i)
  then have "map_of (ls_tasks l) i = Some Leaving" "l' = set_task i Ended l" using assms(2) by (auto split: if_splits)
  then show ?thesis using set_ok [OF assms(1)] by simp
qed

lemma new_ok: "listener_ok (listener_new sv)"
  by (simp add: listener_new_def listener_ok_def live_def)

lemma listens_ok: "listens may es cr jc m retention l0 evs l \<Longrightarrow> listener_ok l0 \<Longrightarrow> listener_ok l"
  by (induction rule: listens.induct) (auto dest: step_ok)

text \<open>C30: At most 500 connections are served at a time and no permit is ever lost: in every reachable
  state of the listener, whatever its clients do and whichever handlers panic, permits and running
  handlers add up to 500, and while it accepts, an incoming connection gets a handler exactly if
  fewer than 500 run, and is closed otherwise.\<close>

theorem connections_bounded:
  assumes "listens anything es cr jc m retention (listener_new sv) evs l"
  shows "ls_permits l + live l = MAX_TCP_CONNECTIONS \<and>
    (ls_phase l = Accepting \<longrightarrow> (\<exists>l'. listener_step es cr jc m retention (Accepted :: 't moment_scheme event) l = Some ([], l') \<and>
      ((ls_next l, Running Handshake) \<in> set (ls_tasks l') \<longleftrightarrow> live l < MAX_TCP_CONNECTIONS) \<and>
      (live l = MAX_TCP_CONNECTIONS \<longrightarrow> l' = reap l)))"
proof -
  have ok: "listener_ok l" by (rule listens_ok [OF assms new_ok])
  then have "(ls_next l, Running Handshake) \<notin> set (ls_tasks l)" by (force simp: listener_ok_def)
  with ok show ?thesis by (auto simp: listener_ok_def reap_def take_connection_def)
qed

section \<open>Shutdown\<close>

lemma set_task_id: "(j, u) \<in> set (ls_tasks (set_task i t l)) \<Longrightarrow> j \<in> fst ` set (ls_tasks l)"
  by (metis fst_conv imageI set_task_ids)

lemma drained_step:
  assumes "listener_step es cr jc m retention ev l = Some (out, l')" "ls_phase l = Draining"
  shows "ls_phase l' \<noteq> Accepting \<and> fst ` set (ls_tasks l') \<subseteq> fst ` set (ls_tasks l)"
  using assms
  by (cases ev) (auto simp: handle_def leave_def drain_def abort_all_def dest!: set_task_id intro: rev_image_eqI split: option.splits task.splits prod.splits if_splits)

lemma joins_all:
  assumes "ls_phase l = Draining" "ls_tasks l \<noteq> []" "distinct (map fst (ls_tasks l))" "\<forall>(i, t)\<in>set (ls_tasks l). t = Ended"
  shows "\<exists>evs :: 't moment_scheme event list. set evs \<subseteq> range Joined \<and> listens anything es cr jc m retention l evs (l\<lparr>ls_phase := Stopped, ls_tasks := []\<rparr>)"
proof -
  have "\<exists>evs :: 't moment_scheme event list. set evs \<subseteq> range Joined \<and> listens anything es cr jc m retention l evs
      (l\<lparr>ls_phase := (if n = length (ls_tasks l) then Stopped else Draining), ls_tasks := drop n (ls_tasks l)\<rparr>)"
    if "n \<le> length (ls_tasks l)" for n
    using that
  proof (induction n)
    case 0
    have "l = l\<lparr>ls_phase := Draining, ls_tasks := ls_tasks l\<rparr>" using assms(1) by simp
    then show ?case using assms(2) listens.start by (intro exI [of _ "[]"]) auto
  next
    case (Suc n)
    let ?ts = "ls_tasks l" and ?l = "l\<lparr>ls_phase := Draining, ls_tasks := drop n (ls_tasks l)\<rparr>"
    obtain i t ts where at: "drop n ?ts = (i, t) # ts" "drop (Suc n) ?ts = ts" "(i, t) \<in> set ?ts"
      using Suc.prems Cons_nth_drop_Suc [of n ?ts] nth_mem [of n ?ts] by (cases "?ts ! n") (metis Suc_le_lessD)
    with assms(4) have ts: "drop n ?ts = (i, Ended) # ts" "drop (Suc n) ?ts = ts" by auto
    have "i \<notin> fst ` set ts"
    proof -
      have "distinct (map fst (drop n ?ts))" using assms(3) distinct_drop [of "map fst ?ts" n] by (simp add: drop_map)
      then show ?thesis by (simp add: ts(1))
    qed
    then have "\<forall>x\<in>set ts. (\<lambda>(j, _). j \<noteq> i) x" by (auto simp: rev_image_eqI)
    then have left: "filter (\<lambda>(j, _). j \<noteq> i) ts = ts" by (rule filter_True)
    have emptied: "ts = [] \<longleftrightarrow> Suc n = length ?ts" using ts(2) Suc.prems drop_eq_Nil [of "Suc n" ?ts] by auto
    have step: "listener_step es cr jc m retention (Joined i :: 't moment_scheme event) ?l = Some ([], l\<lparr>ls_phase := (if Suc n = length ?ts then Stopped else Draining),
        ls_tasks := drop (Suc n) ?ts\<rparr>)"
      by (simp add: drain_def ts left emptied)
    obtain evs :: "'t moment_scheme event list" where "set evs \<subseteq> range Joined" "listens anything es cr jc m retention l evs ?l" using Suc by auto
    then show ?case using listens.step [OF _ _ step] by (intro exI [of _ "evs @ [Joined i]"]) auto
  qed
  from this [of "length (ls_tasks l)"] show ?thesis by simp
qed

text \<open>Shutdown ends the service: once the listener drains, no event starts a connection; when the tasks
  have ended, joining them stops it; and if they do not end, the timeout stops it with no task
  left and all 500 permits back. A stopped listener takes no further event.\<close>

theorem shutdown_ends_service:
  assumes "listens anything es cr jc m retention (listener_new sv) evs l"
  shows "(ls_phase l = Draining \<longrightarrow>
      (\<forall>ev out l'. listener_step es cr jc m retention (ev :: 't moment_scheme event) l = Some (out, l') \<longrightarrow>
        ls_phase l' \<noteq> Accepting \<and> fst ` set (ls_tasks l') \<subseteq> fst ` set (ls_tasks l)) \<and>
      (ls_tasks l \<noteq> [] \<and> (\<forall>(i, t)\<in>set (ls_tasks l). t = Ended) \<longrightarrow> (\<exists>joins :: 't moment_scheme event list.
        set joins \<subseteq> range Joined \<and> listens anything es cr jc m retention l joins (l\<lparr>ls_phase := Stopped, ls_tasks := []\<rparr>))) \<and>
      (\<exists>l'. listener_step es cr jc m retention (Drain_Timeout :: 't moment_scheme event) l = Some ([], l') \<and>
        ls_phase l' = Stopped \<and> ls_tasks l' = [] \<and> ls_permits l' = MAX_TCP_CONNECTIONS)) \<and>
    (ls_phase l = Stopped \<longrightarrow> (\<forall>ev :: 't moment_scheme event. listener_step es cr jc m retention ev l = None))"
proof (intro conjI impI)
  have ok: "listener_ok l" by (rule listens_ok [OF assms new_ok])
  then have distinct: "distinct (map fst (ls_tasks l))" and all: "ls_permits l + live l = MAX_TCP_CONNECTIONS" by (simp_all add: listener_ok_def)
  {
    assume d: "ls_phase l = Draining"
    show "\<forall>ev out l'. listener_step es cr jc m retention (ev :: 't moment_scheme event) l = Some (out, l') \<longrightarrow>
        ls_phase l' \<noteq> Accepting \<and> fst ` set (ls_tasks l') \<subseteq> fst ` set (ls_tasks l)"
      using drained_step d by blast
    show "\<exists>joins :: 't moment_scheme event list. set joins \<subseteq> range Joined \<and>
        listens anything es cr jc m retention l joins (l\<lparr>ls_phase := Stopped, ls_tasks := []\<rparr>)"
      if "ls_tasks l \<noteq> [] \<and> (\<forall>(i, t)\<in>set (ls_tasks l). t = Ended)"
      using joins_all [OF d _ distinct] that by blast
    show "\<exists>l'. listener_step es cr jc m retention (Drain_Timeout :: 't moment_scheme event) l = Some ([], l') \<and>
        ls_phase l' = Stopped \<and> ls_tasks l' = [] \<and> ls_permits l' = MAX_TCP_CONNECTIONS"
      using d all by (simp add: abort_all_def)
  }
  assume "ls_phase l = Stopped"
  moreover from this have "ls_tasks l = []" using ok by (simp add: listener_ok_def)
  ultimately show "\<forall>ev :: 't moment_scheme event. listener_step es cr jc m retention ev l = None"
    by (intro allI) (rename_tac ev, case_tac ev, simp_all)
qed

section \<open>Interleaved sessions\<close>

text \<open>The events under which cursors are safe: the clients have the server's event schema, and a device belongs to one account.\<close>

fun orderly ::
  "(string \<Rightarrow> string) \<Rightarrow> 'e event_store \<Rightarrow> sync_crates \<Rightarrow> jwt_crate \<Rightarrow> jwt_manager \<Rightarrow> int \<Rightarrow> 't moment_scheme event \<Rightarrow> 'e listener \<Rightarrow> bool" where
  "orderly owner es cr jc m retention (Message i t inc) l =
     (case map_of (ls_tasks l) i of
        Some (Running Handshake) \<Rightarrow>
          (case inc of Frame_Read (Inr (Auth, payload)) \<Rightarrow>
             (case de_auth cr payload of Some a \<Rightarrow> au_schema_version a = SCHEMA_VERSION cr | None \<Rightarrow> True) | _ \<Rightarrow> True) \<and>
          (case conn_step es cr jc m retention t inc Handshake (ls_server l) of (_, Serving sn, _) \<Rightarrow> session_ok owner sn | _ \<Rightarrow> True)
      | _ \<Rightarrow> incoming_ok cr inc)"
| "orderly owner es cr jc m retention ev l = True"

lemma find_or_create_device_cursors: "cursors (snd (find_or_create_device now user name key db)) = cursors db"
  by (auto simp: find_or_create_device_def find_device_by_key_and_user_def update_device_seen_def create_device_def with_context_def
      insert_device_def split: sum.splits option.splits prod.splits if_splits)

lemma last_ts_cursors: "cursors db' = cursors db \<Longrightarrow> last_ts dev prov db' = last_ts dev prov db"
  by (simp add: last_ts_def get_last_ts_def)

lemma handshake_cursors:
  assumes "handshake es cr jc m t inc sv = (out, c, sv')"
    and "\<forall>payload a. inc = Frame_Read (Inr (Auth, payload)) \<longrightarrow> de_auth cr payload = Some a \<longrightarrow> au_schema_version a = SCHEMA_VERSION cr"
  shows "sv_events sv' = sv_events sv \<and> (\<forall>dev prov. last_ts dev prov (sv_db sv') = last_ts dev prov (sv_db sv))"
proof (cases "\<exists>payload a. inc = Frame_Read (Inr (Auth, payload)) \<and> de_auth cr payload = Some a")
  case True
  then obtain a where a: "authorize es cr jc m t a sv = (out, c, sv')" "au_schema_version a = SCHEMA_VERSION cr"
    using assms by (auto simp: handshake_def)
  show ?thesis
  proof (cases "verify_access jc m (unix_secs t) (au_jwt a)")
    case (Inr cl)
    obtain r sv1 where act: "user_active t (cl_sub cl) sv = (r, sv1)" by fastforce
    note same = user_active_sel [OF act]
    let ?find = "find_or_create_device (unix_secs t) (cl_sub cl) (truncate_device_name (au_device_name a)) (au_device_key a) (sv_db sv1)"
    have found: "last_ts dev prov (snd ?find) = last_ts dev prov (sv_db sv)" for dev prov
      by (rule last_ts_cursors) (simp add: find_or_create_device_cursors same)
    show ?thesis using a Inr act same found
      by (auto simp: authorize_def refuse_def open_session_def ensure_cursor_last_ts split: sum.splits bool.splits if_splits prod.splits)
        (metis ensure_cursor_last_ts snd_conv)+
  qed (use a in \<open>auto simp: authorize_def refuse_def split: if_splits\<close>)
qed (use assms(1) in \<open>auto simp: handshake_def split: incoming.splits sum.splits prod.splits msg_type.splits option.splits\<close>)

definition sessions_ok :: "(string \<Rightarrow> string) \<Rightarrow> 'e listener \<Rightarrow> bool" where
  "sessions_ok owner l \<longleftrightarrow>
     (\<forall>i c. (i, Running c) \<in> set (ls_tasks l) \<longrightarrow> c = Handshake \<or> (\<exists>sn. c = Serving sn \<and> session_ok owner sn))"

lemma sessions_set:
  assumes "sessions_ok owner l" "\<forall>c. t = Running c \<longrightarrow> c = Handshake \<or> (\<exists>sn. c = Serving sn \<and> session_ok owner sn)"
  shows "sessions_ok owner (set_task i t l)"
  using assms unfolding sessions_ok_def by (fastforce simp: set_task_def split: if_splits)

lemma sessions_same [simp]:
  "sessions_ok owner (l\<lparr>ls_server := sv\<rparr>) = sessions_ok owner l" "sessions_ok owner (l\<lparr>ls_permits := n\<rparr>) = sessions_ok owner l"
  by (simp_all add: sessions_ok_def)

lemma sessions_sub:
  assumes "sessions_ok owner l" "\<And>i c. (i, Running c) \<in> set (ls_tasks l') \<Longrightarrow> (i, Running c) \<in> set (ls_tasks l) \<or> c = Handshake"
  shows "sessions_ok owner l'"
  using assms unfolding sessions_ok_def by blast

lemma sessions_leave: "sessions_ok owner l \<Longrightarrow> sessions_ok owner (leave i l)"
  unfolding leave_def by (rule sessions_set) simp_all

context event_contract
begin

abbreviation backed :: "event_log \<Rightarrow> 'e server \<Rightarrow> bool" where
  "backed L sv \<equiv> holds (sv_events sv) L \<and> cursor_backed (sv_db sv) L"

lemma conn_step_backed:
  assumes "backed L sv" "c = Handshake \<or> (\<exists>sn. c = Serving sn \<and> session_ok owner sn)"
    and "conn_step es cr jc m retention t inc c sv = (out, c', sv')"
    and "c = Handshake \<Longrightarrow> \<forall>payload a. inc = Frame_Read (Inr (Auth, payload)) \<longrightarrow> de_auth cr payload = Some a \<longrightarrow>
      au_schema_version a = SCHEMA_VERSION cr"
    and "c \<noteq> Handshake \<Longrightarrow> incoming_ok cr inc"
  shows "\<exists>L'. backed L' sv' \<and> (\<forall>dev prov. last_ts dev prov (sv_db sv) \<le> last_ts dev prov (sv_db sv')) \<and>
    (\<forall>sn. c = Serving sn \<longrightarrow> stays_in sn c')"
proof (cases "c = Handshake")
  case True
  with assms(3) have "handshake es cr jc m t inc sv = (out, c', sv')" by (simp add: conn_step_def)
  from handshake_cursors [OF this assms(4) [OF True]] assms(1) True show ?thesis
    by (intro exI [of _ L]) (simp add: cursor_backed_def)
next
  case False
  then obtain sn where sn: "c = Serving sn" "session_ok owner sn" using assms(2) by blast
  with assms(3) have "main_loop_step es cr retention t sn inc sv = (out, c', sv')" by (simp add: conn_step_def)
  from message_kept [OF _ sn(2) assms(5) [OF False] this] assms(1)
  obtain L' where "holds (sv_events sv') L'" "own_change sn (sv_db sv) L (sv_db sv') L'" "stays_in sn c'" by blast
  with assms(1) sn show ?thesis by (intro exI [of _ L']) (auto simp: own_change_def)
qed

lemma listener_step_backed:
  assumes "backed L (ls_server l)" "sessions_ok owner l" "orderly owner es cr jc m retention ev l"
    and "listener_step es cr jc m retention ev l = Some (out, l')"
  shows "\<exists>L'. backed L' (ls_server l') \<and> sessions_ok owner l' \<and>
    (\<forall>dev prov. last_ts dev prov (sv_db (ls_server l)) \<le> last_ts dev prov (sv_db (ls_server l')))"
proof (cases "\<exists>i t inc. ev = Message i t inc")
  case True
  then obtain i t inc where ev: "ev = Message i t inc" by blast
  then obtain c where c: "map_of (ls_tasks l) i = Some (Running c)" "handle es cr jc m retention i t inc c l = (out, l')"
    using assms(4) by (auto split: option.splits task.splits)
  obtain o' c' sv where step: "conn_step es cr jc m retention t inc c (ls_server l) = (o', c', sv)" by (rule prod_cases3)
  have known: "c = Handshake \<or> (\<exists>sn. c = Serving sn \<and> session_ok owner sn)"
    using assms(2) map_of_SomeD [OF c(1)] by (auto simp: sessions_ok_def)
  have "c = Handshake \<Longrightarrow> \<forall>payload a. inc = Frame_Read (Inr (Auth, payload)) \<longrightarrow> de_auth cr payload = Some a \<longrightarrow>
      au_schema_version a = SCHEMA_VERSION cr" and "c \<noteq> Handshake \<Longrightarrow> incoming_ok cr inc"
    using assms(3) c(1) known by (auto simp: ev split: conn.splits)
  from conn_step_backed [OF assms(1) known step this]
  obtain L' where L': "backed L' sv" "\<forall>dev prov. last_ts dev prov (sv_db (ls_server l)) \<le> last_ts dev prov (sv_db sv)"
    "\<forall>sn. c = Serving sn \<longrightarrow> stays_in sn c'" by blast
  have "session_ok owner sn" if "c' = Serving sn" for sn
    using that assms(3) c(1) known step L'(3) by (auto simp: ev stays_in_def)
  then have ok: "\<forall>d. Running c' = Running d \<longrightarrow> d = Handshake \<or> (\<exists>sn. d = Serving sn \<and> session_ok owner sn)"
    if "c' \<notin> {Finished, Failed}" using that by (cases c') auto
  have server: "ls_server l' = sv" using c(2) step by (auto simp: handle_def leave_def split: if_splits)
  have "sessions_ok owner l'"
  proof (cases "c' \<in> {Finished, Failed}")
    case True
    then have "l' = leave i (l\<lparr>ls_server := sv\<rparr>)" using c(2) step by (simp add: handle_def)
    then show ?thesis using sessions_leave [of owner "l\<lparr>ls_server := sv\<rparr>" i] assms(2) by simp
  next
    case False
    then have "l' = set_task i (Running c') (l\<lparr>ls_server := sv\<rparr>)" using c(2) step by (auto simp: handle_def)
    then show ?thesis using sessions_set [OF _ ok [OF False], of "l\<lparr>ls_server := sv\<rparr>" i] assms(2) by simp
  qed
  with L' server show ?thesis by blast
next
  case False
  then have "ls_server l' = ls_server l"
    using assms(4) by (cases ev) (auto simp: reap_def take_connection_def drain_def leave_def abort_all_def split: if_splits option.splits task.splits)
  moreover have "sessions_ok owner l'"
    using assms(4) False
    by (cases ev) (auto simp: reap_def take_connection_def drain_def abort_all_def sessions_leave [OF assms(2)] sessions_set [OF assms(2)]
        intro: sessions_sub [OF assms(2)] split: if_splits option.splits task.splits)
  ultimately show ?thesis using assms(1) by (intro exI [of _ L]) auto
qed

lemma listens_backed:
  assumes "listens (orderly owner es cr jc m retention) es cr jc m retention l0 evs l"
    and "backed L (ls_server l0)" "sessions_ok owner l0"
  shows "\<exists>L'. backed L' (ls_server l) \<and> sessions_ok owner l \<and>
    (\<forall>dev prov. last_ts dev prov (sv_db (ls_server l0)) \<le> last_ts dev prov (sv_db (ls_server l)))"
  using assms
proof (induction rule: listens.induct)
  case start
  then show ?case by blast
next
  case (step evs l ev out l')
  then obtain L1 where "backed L1 (ls_server l)" "sessions_ok owner l"
    "\<forall>dev prov. last_ts dev prov (sv_db (ls_server l0)) \<le> last_ts dev prov (sv_db (ls_server l))" by blast
  with listener_step_backed [OF this(1,2) step.hyps(2,3)] show ?case by (meson order_trans)
qed

end


section \<open>At a concrete listener\<close>

text \<open>A client connects, authenticates and sends a batch; then the server shuts down.\<close>

definition demo_visit :: "moment event list" where
  "demo_visit = [Accepted, Message 0 demo_moment (Frame_Read (Inr (Auth, ''a''))),
     Message 0 demo_moment (Frame_Read (Inr (Sync_Batch, ''b''))), Shutdown True]"

lemma demo_visited:
  "\<exists>l. listens (orderly sample_owner demo_events demo_crates plain_jwt demo_manager 60) demo_events demo_crates plain_jwt demo_manager 60
    (listener_new (demo_server one_user_db)) demo_visit l \<and> ls_phase l = Draining \<and> fst ` set (ls_tasks l) = {0}"
proof -
  let ?step = "listener_step demo_events demo_crates plain_jwt demo_manager 60"
    and ?may = "orderly sample_owner demo_events demo_crates plain_jwt demo_manager 60"
  let ?l0 = "listener_new (demo_server one_user_db)"
  let ?l1 = "?l0\<lparr>ls_permits := 499, ls_tasks := [(0, Running Handshake)], ls_next := 1\<rparr>"
  have 1: "?step Accepted ?l0 = Some ([], ?l1)"
    by (simp add: listener_new_def MAX_TCP_CONNECTIONS_def reap_def take_connection_def)
  obtain o2 sv where auth: "handshake demo_events demo_crates plain_jwt demo_manager demo_moment
      (Frame_Read (Inr (Auth, ''a''))) (demo_server one_user_db) = (o2, Serving demo_session, sv)"
    using demo_handshake by blast
  let ?m2 = "Message 0 demo_moment (Frame_Read (Inr (Auth, ''a'')))" and ?l2 = "?l1\<lparr>ls_server := sv, ls_tasks := [(0, Running (Serving demo_session))]\<rparr>"
  have served: "ls_server ?l0 = demo_server one_user_db" by (simp add: listener_new_def)
  have coded: "de_auth demo_crates ''a'' = Some demo_auth" "au_schema_version demo_auth = SCHEMA_VERSION demo_crates"
    by (simp_all add: demo_crates_def demo_auth_def)
  have 2: "?step ?m2 ?l1 = Some (o2, ?l2)" "?may ?m2 ?l1"
    using demo_session_ok coded
    by (simp_all add: handle_def conn_step_def served auth set_task_def)
  let ?m3 = "Message 0 demo_moment (Frame_Read (Inr (Sync_Batch, ''b'')))"
  obtain o3 c3 sv3 where batch: "conn_step demo_events demo_crates plain_jwt demo_manager 60 demo_moment (Frame_Read (Inr (Sync_Batch, ''b'')))
      (Serving demo_session) sv = (o3, c3, sv3)" by (rule prod_cases3)
  obtain l3 where 3: "?step ?m3 ?l2 = Some (o3, l3)" "ls_phase l3 = Accepting" "fst ` set (ls_tasks l3) = {0}"
    using batch by (auto simp: handle_def leave_def listener_new_def)
  have 4: "?step (Shutdown True) l3 = Some ([], l3\<lparr>ls_phase := Draining\<rparr>)" using 3 by (auto simp: drain_def)
  note next_event = listens.step [where may = ?may]
  have "listens ?may demo_events demo_crates plain_jwt demo_manager 60 ?l0
      (((([] @ [Accepted]) @ [?m2]) @ [?m3]) @ [Shutdown True]) (l3\<lparr>ls_phase := Draining\<rparr>)"
    by (rule next_event [OF next_event [OF next_event [OF next_event [OF listens.start _ 1] 2(2,1)] _ 3(1)] _ 4])
      (simp_all add: demo_incoming_ok)
  with 3 show ?thesis by (intro exI [of _ "l3\<lparr>ls_phase := Draining\<rparr>"]) (simp add: demo_visit_def)
qed

lemma listens_weaken: "listens may es cr jc m retention l0 evs l \<Longrightarrow> listens anything es cr jc m retention l0 evs l"
  by (induction rule: listens.induct) (auto intro: listens.intros)

theorem connections_bounded_witness:
  "\<exists>l. listens anything demo_events demo_crates plain_jwt demo_manager 60 (listener_new (demo_server one_user_db)) demo_visit l \<and>
    ls_permits l + live l = 500"
proof -
  obtain l where l: "listens anything demo_events demo_crates plain_jwt demo_manager 60 (listener_new (demo_server one_user_db)) demo_visit l"
    using demo_visited by (elim exE conjE) (drule listens_weaken, rule that)
  have "ls_permits l + live l = MAX_TCP_CONNECTIONS" by (rule connections_bounded [OF l, THEN conjunct1])
  then have "ls_permits l + live l = 500" by (simp only: MAX_TCP_CONNECTIONS_def)
  with l show ?thesis by (intro exI conjI)
qed

theorem shutdown_ends_service_witness:
  "\<exists>l l'. listens anything demo_events demo_crates plain_jwt demo_manager 60 (listener_new (demo_server one_user_db)) demo_visit l \<and>
    listener_step demo_events demo_crates plain_jwt demo_manager 60 (Drain_Timeout :: moment event) l = Some ([], l') \<and>
    ls_tasks l' = [] \<and> ls_permits l' = 500"
proof -
  obtain l where l: "listens anything demo_events demo_crates plain_jwt demo_manager 60 (listener_new (demo_server one_user_db)) demo_visit l"
    "ls_phase l = Draining"
    using demo_visited by (elim exE conjE) (drule listens_weaken, rule that)
  have "\<exists>l'. listener_step demo_events demo_crates plain_jwt demo_manager 60 (Drain_Timeout :: moment event) l = Some ([], l') \<and>
      ls_phase l' = Stopped \<and> ls_tasks l' = [] \<and> ls_permits l' = MAX_TCP_CONNECTIONS"
    by (rule shutdown_ends_service [OF l(1), THEN conjunct1, THEN mp, OF l(2), THEN conjunct2, THEN conjunct2])
  then obtain l' where "listener_step demo_events demo_crates plain_jwt demo_manager 60 (Drain_Timeout :: moment event) l = Some ([], l')"
    "ls_tasks l' = []" "ls_permits l' = 500" by (auto simp only: MAX_TCP_CONNECTIONS_def)
  with l(1) show ?thesis by (intro exI conjI)
qed


end
