(* ===== verification/Schema.thy ===== *)
theory Schema
  imports Sqlite
begin

text \<open>
  The tables (\<open>migrate\<close> of \<open>src/src/db/sqlite.rs\<close> and of \<open>src/src/db/postgres.rs\<close>): the statements that
  create and alter them, as data, and what they do to a database file: its tables with their rows, its
  indexes. A statement fails when a name is missing or taken; \<open>migrate\<close> passes the failure on or ignores it,
  statement by statement. The seed that ends both functions is in theory \<open>Startup\<close>.
\<close>

section \<open>Tables and statements\<close>

datatype column_type = Text | Integer | Bigint | Smallint

text \<open>A parent is the table and column of a \<open>REFERENCES ... ON DELETE CASCADE\<close>.\<close>

record column =
  cn_name :: string
  cn_type :: column_type
  cn_not_null :: bool
  cn_default :: "string option"
  cn_parent :: "(string \<times> string) option"

record table_def =
  td_columns :: "column list"
  td_primary :: "string list"
  td_unique :: "string list list"

text \<open>\<open>ix_where\<close>: the column that \<open>WHERE ... IS NOT NULL\<close> names.\<close>

record index_def =
  ix_unique :: bool
  ix_table :: string
  ix_columns :: "string list"
  ix_where :: "string option"

datatype sql_value = Null | Txt string | Num int

type_synonym sql_row = "(string \<times> sql_value) list"

record database =
  db_tables :: "(string \<times> table_def \<times> sql_row list) list"
  db_indexes :: "(string \<times> index_def) list"

datatype ddl =
    Create_Table string table_def
  | Create_Index string index_def
  | Add_Column string column
  | Add_Column_If_Missing string column
  | Rename_Table string string
  | Drop_Table string

definition col :: "string \<Rightarrow> column_type \<Rightarrow> column" where
  "col n ty = \<lparr>cn_name = n, cn_type = ty, cn_not_null = False, cn_default = None, cn_parent = None\<rparr>"

definition required :: "column \<Rightarrow> column" where
  "required c = c\<lparr>cn_not_null := True\<rparr>"

definition defaults_to :: "string \<Rightarrow> column \<Rightarrow> column" where
  "defaults_to v c = c\<lparr>cn_default := Some v\<rparr>"

definition child_of :: "string \<Rightarrow> string \<Rightarrow> column \<Rightarrow> column" where
  "child_of t c k = k\<lparr>cn_parent := Some (t, c)\<rparr>"

section \<open>What a statement does\<close>

definition has_column :: "string \<Rightarrow> table_def \<Rightarrow> bool" where
  "has_column c td \<longleftrightarrow> c \<in> set (map cn_name (td_columns td))"

definition replace_table :: "string \<Rightarrow> table_def \<times> sql_row list \<Rightarrow> database \<Rightarrow> database" where
  "replace_table n t d = d\<lparr>db_tables := map (\<lambda>(m, u). if m = n then (m, t) else (m, u)) (db_tables d)\<rparr>"

definition default_value :: "column \<Rightarrow> sql_value" where
  "default_value c = (case cn_default c of None \<Rightarrow> Null | Some v \<Rightarrow> if cn_type c = Text then Txt v else if v = ''1'' then Num 1 else Num 0)"

definition add_column :: "column \<Rightarrow> table_def \<times> sql_row list \<Rightarrow> table_def \<times> sql_row list" where
  "add_column c t = (case t of (td, rs) \<Rightarrow>
     (td\<lparr>td_columns := td_columns td @ [c]\<rparr>, map (\<lambda>r. r @ [(cn_name c, default_value c)]) rs))"

definition sql_get :: "sql_row \<Rightarrow> string \<Rightarrow> sql_value" where
  "sql_get r c = (case map_of r c of None \<Rightarrow> Null | Some v \<Rightarrow> v)"

text \<open>The rows an index compares: those its condition admits, without a null in its columns.\<close>

definition index_keys :: "index_def \<Rightarrow> sql_row list \<Rightarrow> sql_value list list" where
  "index_keys ix rs =
     filter (\<lambda>k. Null \<notin> set k)
       (map (\<lambda>r. map (sql_get r) (ix_columns ix))
         (filter (\<lambda>r. case ix_where ix of None \<Rightarrow> True | Some c \<Rightarrow> sql_get r c \<noteq> Null) rs))"

text \<open>\<open>None\<close>: the statement fails.\<close>

fun run_ddl :: "ddl \<Rightarrow> database \<Rightarrow> database option" where
  "run_ddl (Create_Table n td) d =
     (if map_of (db_tables d) n \<noteq> None then Some d else Some (d\<lparr>db_tables := db_tables d @ [(n, td, [])]\<rparr>))"
| "run_ddl (Create_Index n ix) d =
     (if map_of (db_indexes d) n \<noteq> None then Some d
      else (case map_of (db_tables d) (ix_table ix) of
              None \<Rightarrow> None
            | Some (td, rs) \<Rightarrow>
                if list_all (\<lambda>c. has_column c td) (ix_columns ix) \<and> (ix_unique ix \<longrightarrow> distinct (index_keys ix rs)) then Some (d\<lparr>db_indexes := db_indexes d @ [(n, ix)]\<rparr>) else None))"
| "run_ddl (Add_Column n c) d =
     (case map_of (db_tables d) n of
        None \<Rightarrow> None
      | Some t \<Rightarrow> if has_column (cn_name c) (fst t) then None else Some (replace_table n (add_column c t) d))"
| "run_ddl (Add_Column_If_Missing n c) d =
     (case map_of (db_tables d) n of
        None \<Rightarrow> None
      | Some t \<Rightarrow> Some (if has_column (cn_name c) (fst t) then d else replace_table n (add_column c t) d))"
| "run_ddl (Rename_Table n m) d =
     (if map_of (db_tables d) n = None \<or> map_of (db_tables d) m \<noteq> None then None
      else Some (d\<lparr>db_tables := map (\<lambda>(k, t). (if k = n then m else k, t)) (db_tables d)\<rparr>))"
| "run_ddl (Drop_Table n) d = Some (d\<lparr>db_tables := filter (\<lambda>(k, _). k \<noteq> n) (db_tables d)\<rparr>)"

section \<open>The statements of both migrations\<close>

text \<open>\<open>i\<close> is the type of times and counters, \<open>b\<close> the one of flags.\<close>

definition users_table :: "column_type \<Rightarrow> table_def" where
  "users_table i = \<lparr>td_columns = [col ''id'' Text, required (col ''username'' Text), required (col ''password_hash'' Text),
     defaults_to ''user'' (required (col ''role'' Text)), required (col ''created_at'' i), required (col ''updated_at'' i)],
     td_primary = [''id''], td_unique = [[''username'']]\<rparr>"

definition sqlite_devices_table :: table_def where
  "sqlite_devices_table = \<lparr>td_columns = [col ''id'' Text, child_of ''users'' ''id'' (required (col ''user_id'' Text)),
     required (col ''name'' Text), required (col ''created_at'' Integer), required (col ''last_seen_at'' Integer)],
     td_primary = [''id''], td_unique = []\<rparr>"

definition pg_devices_table :: table_def where
  "pg_devices_table = \<lparr>td_columns = [col ''id'' Text, child_of ''users'' ''id'' (required (col ''user_id'' Text)),
     required (col ''name'' Text), col ''device_key'' Text, required (col ''created_at'' Bigint), required (col ''last_seen_at'' Bigint)],
     td_primary = [''id''], td_unique = []\<rparr>"

definition cursors_table :: "column_type \<Rightarrow> table_def" where
  "cursors_table i = \<lparr>td_columns = [child_of ''devices'' ''id'' (required (col ''device_id'' Text)),
     defaults_to [] (required (col ''provider'' Text)), defaults_to ''0'' (required (col ''last_ts'' i)), required (col ''updated_at'' i)],
     td_primary = [''device_id'', ''provider''], td_unique = []\<rparr>"

definition refresh_tokens_table :: "column_type \<Rightarrow> column_type \<Rightarrow> table_def" where
  "refresh_tokens_table i b = \<lparr>td_columns = [col ''jti'' Text, child_of ''users'' ''id'' (required (col ''user_id'' Text)),
     col ''device_id'' Text, required (col ''expires_at'' i), defaults_to ''0'' (required (col ''revoked'' b)), required (col ''created_at'' i)],
     td_primary = [''jti''], td_unique = []\<rparr>"

definition teams_table :: "column_type \<Rightarrow> table_def" where
  "teams_table i = \<lparr>td_columns = [col ''id'' Text, required (col ''name'' Text), required (col ''created_at'' i),
     required (col ''updated_at'' i)], td_primary = [''id''], td_unique = [[''name'']]\<rparr>"

definition team_members_table :: "column_type \<Rightarrow> table_def" where
  "team_members_table i = \<lparr>td_columns = [child_of ''teams'' ''id'' (required (col ''team_id'' Text)),
     child_of ''users'' ''id'' (required (col ''user_id'' Text)), defaults_to ''member'' (required (col ''role'' Text)),
     required (col ''joined_at'' i)], td_primary = [''team_id'', ''user_id''], td_unique = []\<rparr>"

definition device_codes_table :: "column_type \<Rightarrow> table_def" where
  "device_codes_table i = \<lparr>td_columns = [col ''device_code'' Text, required (col ''user_code'' Text), required (col ''expires_at'' i),
     col ''approved_by'' Text, col ''access_token'' Text, col ''refresh_token'' Text],
     td_primary = [''device_code''], td_unique = [[''user_code'']]\<rparr>"

definition pending_registrations_table :: "column_type \<Rightarrow> table_def" where
  "pending_registrations_table i = \<lparr>td_columns = [col ''id'' Text, required (col ''username'' Text),
     required (col ''password_hash'' Text), required (col ''requested_at'' i)], td_primary = [''id''], td_unique = [[''username'']]\<rparr>"

definition server_settings_table :: "column_type \<Rightarrow> table_def" where
  "server_settings_table i = \<lparr>td_columns = [col ''key'' Text, required (col ''value'' Text), required (col ''updated_at'' i)],
     td_primary = [''key''], td_unique = []\<rparr>"

definition monitor_settings_table :: "column_type \<Rightarrow> table_def" where
  "monitor_settings_table i = \<lparr>td_columns = [child_of ''users'' ''id'' (required (col ''user_id'' Text)), required (col ''key'' Text),
     required (col ''value'' Text), required (col ''size_bytes'' i), required (col ''version'' i), required (col ''updated_at'' i)],
     td_primary = [''user_id'', ''key''], td_unique = []\<rparr>"

definition devices_by_user :: index_def where
  "devices_by_user = \<lparr>ix_unique = False, ix_table = ''devices'', ix_columns = [''user_id''], ix_where = None\<rparr>"
definition tokens_by_user :: index_def where
  "tokens_by_user = \<lparr>ix_unique = False, ix_table = ''refresh_tokens'', ix_columns = [''user_id''], ix_where = None\<rparr>"
definition device_keys :: index_def where
  "device_keys = \<lparr>ix_unique = True, ix_table = ''devices'', ix_columns = [''device_key''], ix_where = Some ''device_key''\<rparr>"
definition members_by_user :: index_def where
  "members_by_user = \<lparr>ix_unique = False, ix_table = ''team_members'', ix_columns = [''user_id''], ix_where = None\<rparr>"
definition oidc_accounts :: index_def where
  "oidc_accounts = \<lparr>ix_unique = True, ix_table = ''users'', ix_columns = [''oidc_issuer'', ''oidc_sub''], ix_where = Some ''oidc_sub''\<rparr>"

section \<open>The older cursors table\<close>

definition insert_or_ignore :: "table_def \<Rightarrow> sql_row \<Rightarrow> sql_row list \<Rightarrow> sql_row list" where
  "insert_or_ignore td r rs =
     (if list_ex (\<lambda>c. cn_not_null c \<and> sql_get r (cn_name c) = Null) (td_columns td) \<or>
         list_ex (\<lambda>r'. list_all (\<lambda>k. sql_get r' k = sql_get r k) (td_primary td)) rs
      then rs else rs @ [r])"

definition cursor_copy :: "bool \<Rightarrow> sql_row \<Rightarrow> sql_row" where
  "cursor_copy has_provider r =
     [(''device_id'', sql_get r ''device_id''), (''provider'', if has_provider then sql_get r ''provider'' else Txt []),
      (''last_ts'', sql_get r ''last_ts''), (''updated_at'', sql_get r ''updated_at'')]"

text \<open>\<open>OR IGNORE\<close> does not cover foreign keys: a row without its device fails the whole statement.\<close>

definition copy_cursors :: "bool \<Rightarrow> database \<Rightarrow> database option" where
  "copy_cursors has_provider d =
     (case (map_of (db_tables d) ''cursors'', map_of (db_tables d) ''cursors_old'') of
        (Some (td, rs), Some (old, ors)) \<Rightarrow>
          (let rs' = fold (insert_or_ignore td) (map (cursor_copy has_provider) ors) rs;
               ids = (case map_of (db_tables d) ''devices'' of None \<Rightarrow> [] | Some (_, ds) \<Rightarrow> map (\<lambda>r. sql_get r ''id'') ds)
           in if list_all (\<lambda>c. has_column c old) ([''device_id'', ''last_ts'', ''updated_at''] @ (if has_provider then [''provider''] else [])) \<and>
                list_all (\<lambda>r. sql_get r ''device_id'' \<in> set ids) rs'
              then Some (replace_table ''cursors'' (td, rs') d) else None)
      | _ \<Rightarrow> None)"

definition attempt :: "(database \<Rightarrow> database option) \<Rightarrow> database \<Rightarrow> database" where
  "attempt f d = (case f d of None \<Rightarrow> d | Some d' \<Rightarrow> d')"

definition cursors_have :: "(table_def \<Rightarrow> bool) \<Rightarrow> database \<Rightarrow> bool" where
  "cursors_have p d = (case map_of (db_tables d) ''cursors'' of None \<Rightarrow> False | Some (td, _) \<Rightarrow> p td)"

definition upgrade_cursors :: "database \<Rightarrow> unit result \<times> database" where
  "upgrade_cursors d =
     (if cursors_have (\<lambda>td. has_column ''provider'' td \<and> ''provider'' \<in> set (td_primary td)) d then (Inr (), d)
      else
        (let has_provider = cursors_have (has_column ''provider'') d;
             d1 = attempt (run_ddl (Rename_Table ''cursors'' ''cursors_old'')) d
         in (case run_ddl (Create_Table ''cursors'' (cursors_table Integer)) d1 of
               None \<Rightarrow> (Inl ''create cursors'', d1)
             | Some d2 \<Rightarrow> (Inr (), attempt (run_ddl (Drop_Table ''cursors_old'')) (attempt (copy_cursors has_provider) d2)))))"

section \<open>The migrations\<close>

datatype migration_step = Must string ddl | Ignoring ddl | Upgrade_Cursors

fun run_step :: "migration_step \<Rightarrow> database \<Rightarrow> unit result \<times> database" where
  "run_step (Must what s) d = (case run_ddl s d of None \<Rightarrow> (Inl what, d) | Some d' \<Rightarrow> (Inr (), d'))"
| "run_step (Ignoring s) d = (Inr (), attempt (run_ddl s) d)"
| "run_step Upgrade_Cursors d = upgrade_cursors d"

fun run_steps :: "migration_step list \<Rightarrow> database \<Rightarrow> unit result \<times> database" where
  "run_steps [] d = (Inr (), d)"
| "run_steps (s # ss) d = (case run_step s d of (Inl e, d') \<Rightarrow> (Inl e, d') | (Inr _, d') \<Rightarrow> run_steps ss d')"

definition sqlite_steps :: "migration_step list" where
  "sqlite_steps =
    [Must ''migrate: create users'' (Create_Table ''users'' (users_table Integer)),
     Must ''migrate: create devices'' (Create_Table ''devices'' sqlite_devices_table),
     Must ''migrate: idx_devices_user_id'' (Create_Index ''idx_devices_user_id'' devices_by_user),
     Must ''migrate: create cursors'' (Create_Table ''cursors'' (cursors_table Integer)),
     Must ''migrate: create refresh_tokens'' (Create_Table ''refresh_tokens'' (refresh_tokens_table Integer Integer)),
     Must ''migrate: idx_refresh_tokens_user'' (Create_Index ''idx_refresh_tokens_user'' tokens_by_user),
     Upgrade_Cursors,
     Ignoring (Add_Column ''devices'' (col ''device_key'' Text)),
     Ignoring (Create_Index ''idx_devices_device_key'' device_keys),
     Must ''migrate: create teams'' (Create_Table ''teams'' (teams_table Integer)),
     Must ''migrate: create team_members'' (Create_Table ''team_members'' (team_members_table Integer)),
     Ignoring (Create_Index ''idx_team_members_user'' members_by_user),
     Ignoring (Add_Column ''users'' (col ''oidc_sub'' Text)),
     Ignoring (Add_Column ''users'' (col ''oidc_issuer'' Text)),
     Ignoring (Create_Index ''idx_users_oidc'' oidc_accounts),
     Must ''migrate: create device_codes'' (Create_Table ''device_codes'' (device_codes_table Integer)),
     Must ''migrate: create pending_registrations'' (Create_Table ''pending_registrations'' (pending_registrations_table Integer)),
     Must ''migrate: create server_settings'' (Create_Table ''server_settings'' (server_settings_table Integer)),
     Must ''migrate: create monitor_settings'' (Create_Table ''monitor_settings'' (monitor_settings_table Integer)),
     Ignoring (Add_Column ''users'' (defaults_to ''1'' (required (col ''active'' Integer))))]"

definition pg_steps :: "migration_step list" where
  "pg_steps =
    [Must ''migrate: create users'' (Create_Table ''users'' (users_table Bigint)),
     Must ''migrate: create devices'' (Create_Table ''devices'' pg_devices_table),
     Must ''migrate: idx_devices_user_id'' (Create_Index ''idx_devices_user_id'' devices_by_user),
     Must ''migrate: idx_devices_device_key'' (Create_Index ''idx_devices_device_key'' device_keys),
     Must ''migrate: create cursors'' (Create_Table ''cursors'' (cursors_table Bigint)),
     Must ''migrate: create refresh_tokens'' (Create_Table ''refresh_tokens'' (refresh_tokens_table Bigint Smallint)),
     Must ''migrate: idx_refresh_tokens_user'' (Create_Index ''idx_refresh_tokens_user'' tokens_by_user),
     Must ''migrate: create teams'' (Create_Table ''teams'' (teams_table Bigint)),
     Must ''migrate: create team_members'' (Create_Table ''team_members'' (team_members_table Bigint)),
     Must ''migrate: idx_team_members_user'' (Create_Index ''idx_team_members_user'' members_by_user),
     Must ''migrate: add oidc_sub'' (Add_Column_If_Missing ''users'' (col ''oidc_sub'' Text)),
     Must ''migrate: add oidc_issuer'' (Add_Column_If_Missing ''users'' (col ''oidc_issuer'' Text)),
     Must ''migrate: idx_users_oidc'' (Create_Index ''idx_users_oidc'' oidc_accounts),
     Must ''migrate: create device_codes'' (Create_Table ''device_codes'' (device_codes_table Bigint)),
     Must ''migrate: create pending_registrations'' (Create_Table ''pending_registrations'' (pending_registrations_table Bigint)),
     Must ''migrate: create server_settings'' (Create_Table ''server_settings'' (server_settings_table Bigint)),
     Must ''migrate: create monitor_settings'' (Create_Table ''monitor_settings'' (monitor_settings_table Bigint)),
     Must ''migrate: add active column'' (Add_Column_If_Missing ''users'' (defaults_to ''1'' (required (col ''active'' Smallint))))]"

definition empty_database :: database where
  "empty_database = \<lparr>db_tables = [], db_indexes = []\<rparr>"

definition sqlite_schema :: database where
  "sqlite_schema = snd (run_steps sqlite_steps empty_database)"

definition pg_schema :: database where
  "pg_schema = snd (run_steps pg_steps empty_database)"

section \<open>What the tables are\<close>

lemma sqlite_schema_eq: "run_steps sqlite_steps empty_database = (Inr (), sqlite_schema)"
  unfolding sqlite_schema_def by code_simp

lemma pg_schema_eq: "run_steps pg_steps empty_database = (Inr (), pg_schema)"
  unfolding pg_schema_def by code_simp

text \<open>A column up to its type, and tables up to the order of their columns.\<close>

definition column_facts :: "column \<Rightarrow> string \<times> bool \<times> string option \<times> (string \<times> string) option" where
  "column_facts c = (cn_name c, cn_not_null c, cn_default c, cn_parent c)"

definition table_facts :: "table_def \<Rightarrow> (string \<times> bool \<times> string option \<times> (string \<times> string) option) set \<times> string list \<times> string list list" where
  "table_facts td = (set (map column_facts (td_columns td)), td_primary td, td_unique td)"

definition same_schema :: "database \<Rightarrow> database \<Rightarrow> bool" where
  "same_schema d e \<longleftrightarrow>
     set (map fst (db_tables d)) = set (map fst (db_tables e)) \<and> set (db_indexes d) = set (db_indexes e) \<and>
     list_all (\<lambda>(n, td, _). case map_of (db_tables e) n of None \<Rightarrow> False | Some (td', _) \<Rightarrow> table_facts td = table_facts td') (db_tables d)"

text \<open>Both backends get the same database: the two migrations succeed on an empty database and end with
  the same tables, the same columns with the same nullability, defaults and foreign keys, the same
  keys and the same indexes; only the integer types and the order of the columns differ.\<close>

theorem migrations_agree:
  "run_steps sqlite_steps empty_database = (Inr (), sqlite_schema) \<and> run_steps pg_steps empty_database = (Inr (), pg_schema) \<and>
   same_schema sqlite_schema pg_schema"
proof (intro conjI)
  show "same_schema sqlite_schema pg_schema" by code_simp
qed (rule sqlite_schema_eq pg_schema_eq)+

section \<open>Running a migration again\<close>

definition shape :: "database \<Rightarrow> (string \<times> table_def) list \<times> (string \<times> index_def) list" where
  "shape d = (map (\<lambda>(n, td, _). (n, td)) (db_tables d), db_indexes d)"

text \<open>A step that has nothing to do on a database of this shape.\<close>

fun idle :: "(string \<times> table_def) list \<times> (string \<times> index_def) list \<Rightarrow> migration_step \<Rightarrow> bool" where
  "idle (ts, ixs) (Must _ (Create_Table n _)) \<longleftrightarrow> map_of ts n \<noteq> None"
| "idle (ts, ixs) (Must _ (Create_Index n _)) \<longleftrightarrow> map_of ixs n \<noteq> None"
| "idle (ts, ixs) (Ignoring (Create_Index n _)) \<longleftrightarrow> map_of ixs n \<noteq> None"
| "idle (ts, ixs) (Ignoring (Add_Column n c)) \<longleftrightarrow> (case map_of ts n of None \<Rightarrow> False | Some td \<Rightarrow> has_column (cn_name c) td)"
| "idle (ts, ixs) (Must _ (Add_Column_If_Missing n c)) \<longleftrightarrow> (case map_of ts n of None \<Rightarrow> False | Some td \<Rightarrow> has_column (cn_name c) td)"
| "idle (ts, ixs) Upgrade_Cursors \<longleftrightarrow>
     (case map_of ts ''cursors'' of None \<Rightarrow> False | Some td \<Rightarrow> has_column ''provider'' td \<and> ''provider'' \<in> set (td_primary td))"
| "idle _ _ = False"

lemma shape_lookup: "map_of (fst (shape d)) n = map_option fst (map_of (db_tables d) n)" "snd (shape d) = db_indexes d"
proof -
  have "map_of (map (\<lambda>(n, td, _). (n, td)) ts) n = map_option fst (map_of ts n)" for ts :: "(string \<times> table_def \<times> sql_row list) list"
    by (induction ts) auto
  then show "map_of (fst (shape d)) n = map_option fst (map_of (db_tables d) n)" "snd (shape d) = db_indexes d" by (simp_all add: shape_def)
qed

lemma idle_step: "idle (shape d) s \<Longrightarrow> run_step s d = (Inr (), d)"
  using shape_lookup [of d]
  by (cases "shape d"; cases "(shape d, s)" rule: idle.cases)
    (auto simp: attempt_def upgrade_cursors_def cursors_have_def split: option.splits)

lemma idle_steps: "list_all (idle (shape d)) ss \<Longrightarrow> run_steps ss d = (Inr (), d)"
  by (induction ss) (simp_all add: idle_step)

lemma schema_idle: "list_all (idle (shape sqlite_schema)) sqlite_steps" "list_all (idle (shape pg_schema)) pg_steps"
  by code_simp+

text \<open>No table, column or index goes away.\<close>

definition extends :: "database \<Rightarrow> database \<Rightarrow> bool" where
  "extends d d' \<longleftrightarrow>
     (\<forall>n td. map_of (fst (shape d)) n = Some td \<longrightarrow>
       (\<exists>td'. map_of (fst (shape d')) n = Some td' \<and> set (td_columns td) \<subseteq> set (td_columns td') \<and> td_primary td' = td_primary td)) \<and>
     (\<forall>n. map_of (db_indexes d) n \<noteq> None \<longrightarrow> map_of (db_indexes d') n \<noteq> None)"

lemma extends_refl [simp]: "extends d d"
  by (auto simp: extends_def)

lemma extends_trans:
  assumes "extends d d'" "extends d' d''"
  shows "extends d d''"
proof -
  have "\<exists>td''. map_of (fst (shape d'')) n = Some td'' \<and> set (td_columns td) \<subseteq> set (td_columns td'') \<and> td_primary td'' = td_primary td"
    if t: "map_of (fst (shape d)) n = Some td" for n td
  proof -
    obtain td' where 1: "map_of (fst (shape d')) n = Some td'" "set (td_columns td) \<subseteq> set (td_columns td')" "td_primary td' = td_primary td"
      using assms(1) t unfolding extends_def by blast
    obtain td'' where "map_of (fst (shape d'')) n = Some td''" "set (td_columns td') \<subseteq> set (td_columns td'')" "td_primary td'' = td_primary td'"
      using assms(2) 1(1) unfolding extends_def by blast
    with 1 show ?thesis by auto
  qed
  then show ?thesis using assms unfolding extends_def by simp
qed

fun additive :: "ddl \<Rightarrow> bool" where
  "additive (Rename_Table _ _) = False"
| "additive (Drop_Table _) = False"
| "additive _ = True"

lemma replace_lookup: "map_of (db_tables (replace_table n t d)) m =
    (if m = n \<and> map_of (db_tables d) n \<noteq> None then Some t else map_of (db_tables d) m)"
proof -
  have "map_of (map (\<lambda>(m, u). if m = n then (m, t) else (m, u)) ts) m = (if m = n \<and> map_of ts n \<noteq> None then Some t else map_of ts m)"
    for ts :: "(string \<times> table_def \<times> sql_row list) list" by (induction ts) auto
  then show ?thesis by (simp add: replace_table_def)
qed

lemma replace_indexes [simp]: "db_indexes (replace_table n t d) = db_indexes d"
  by (simp add: replace_table_def)

lemma run_ddl_extends:
  assumes "run_ddl s d = Some d'" "additive s"
  shows "extends d d'"
  using assms by (cases s)
    (auto simp: extends_def shape_lookup replace_lookup add_column_def map_add_def split: if_splits option.splits prod.splits)

lemma run_step_extends:
  assumes "case s of Must _ t \<Rightarrow> additive t | Ignoring t \<Rightarrow> additive t | Upgrade_Cursors \<Rightarrow> idle (shape d) s"
  shows "extends d (snd (run_step s d))"
proof (cases s)
  case Upgrade_Cursors
  then show ?thesis using assms idle_step [of d s] by simp
qed (use assms run_ddl_extends in \<open>auto simp: attempt_def split: option.splits\<close>)

lemma idle_extends:
  assumes "extends d d'" "idle (shape d) s"
  shows "idle (shape d') s"
proof -
  have column: "has_column c td \<Longrightarrow> set (td_columns td) \<subseteq> set (td_columns td') \<Longrightarrow> has_column c td'" for c td td'
    by (auto simp: has_column_def)
  obtain ts ixs where d: "shape d = (ts, ixs)" by fastforce
  obtain ts' ixs' where d': "shape d' = (ts', ixs')" by fastforce
  have tables: "\<exists>td'. map_of ts' n = Some td' \<and> set (td_columns td) \<subseteq> set (td_columns td') \<and> td_primary td' = td_primary td"
    if "map_of ts n = Some td" for n td
    using assms(1) that d d' by (auto simp: extends_def)
  have indexes: "map_of ixs n \<noteq> None \<Longrightarrow> map_of ixs' n \<noteq> None" for n
    using assms(1) shape_lookup(2) [of d] shape_lookup(2) [of d'] d d' by (simp add: extends_def)
  have table: "map_of ts' n \<noteq> None" if "map_of ts n \<noteq> None" for n using tables that by blast
  have columns: "\<exists>td'. map_of ts' n = Some td' \<and> (has_column c td \<longrightarrow> has_column c td') \<and> td_primary td' = td_primary td"
    if "map_of ts n = Some td" for n td c using tables [OF that] column by blast
  show ?thesis
  proof (cases "((ts, ixs), s)" rule: idle.cases)
    case (4 ts0 ixs0 n c)
    with assms(2) d d' columns [of n _ "cn_name c"] show ?thesis by (cases "map_of ts n") (simp, fastforce)
  next
    case (5 ts0 ixs0 w n c)
    with assms(2) d d' columns [of n _ "cn_name c"] show ?thesis by (cases "map_of ts n") (simp, fastforce)
  next
    case (6 ts0 ixs0)
    with assms(2) d d' columns [of "''cursors''" _ "''provider''"] show ?thesis by (cases "map_of ts ''cursors''") (simp, fastforce)
  qed (use assms(2) d d' table indexes in auto)
qed

text \<open>A first run in which each step succeeds and has nothing left to do afterwards.\<close>

fun settles :: "migration_step list \<Rightarrow> database \<Rightarrow> bool" where
  "settles [] d = True"
| "settles (s # ss) d =
     ((case s of Must _ t \<Rightarrow> additive t | Ignoring t \<Rightarrow> additive t | Upgrade_Cursors \<Rightarrow> idle (shape d) s) \<and>
      (case run_step s d of (r, d') \<Rightarrow> r = Inr () \<and> idle (shape d') s \<and> settles ss d'))"

lemma run_steps_append: "fst (run_steps ss d) = Inr () \<Longrightarrow> run_steps (ss @ ts) d = run_steps ts (snd (run_steps ss d))"
  by (induction ss arbitrary: d) (auto split: prod.splits sum.splits)

lemma settled_prefix:
  assumes "settles ss d"
  shows "fst (run_steps (take k ss) d) = Inr () \<and> extends d (snd (run_steps (take k ss) d)) \<and>
    list_all (idle (shape (snd (run_steps (take k ss) d)))) (take k ss)"
  using assms
proof (induction ss arbitrary: d k)
  case (Cons s ss)
  obtain d1 where step: "run_step s d = (Inr (), d1)" "idle (shape d1) s" "settles ss d1"
    using Cons.prems by (auto split: prod.splits)
  have grows: "extends d d1" using run_step_extends [where s = s and d = d] Cons.prems step(1) by simp
  show ?case
  proof (cases k)
    case (Suc j)
    from Cons.IH [OF step(3), of j] Suc step show ?thesis by (auto intro: extends_trans [OF grows] idle_extends)
  qed simp
qed simp

lemma resumes:
  assumes "settles ss e"
  shows "run_steps ss (snd (run_steps (take k ss) e)) = (Inr (), snd (run_steps ss e))"
proof -
  note first = settled_prefix [OF assms, of k] and whole = settled_prefix [OF assms, of "length ss"]
  let ?d = "snd (run_steps (take k ss) e)"
  have "run_steps ss e = run_steps (drop k ss) ?d"
    using run_steps_append [of "take k ss" e "drop k ss"] first by simp
  moreover have "run_steps ss ?d = run_steps (drop k ss) ?d"
    using run_steps_append [of "take k ss" ?d "drop k ss"] idle_steps [of ?d "take k ss"] first by simp
  ultimately show ?thesis using whole by (metis order_refl prod.collapse take_all)
qed

lemma fresh_settles: "settles sqlite_steps empty_database" "settles pg_steps empty_database"
  by code_simp+

text \<open>C21: A migration can be repeated and resumed: run on a database that has the tables already,
  whatever its rows, it changes nothing, and run after a first run stopped behind any of its
  statements, it ends with the same tables as an uninterrupted one.\<close>

theorem migration_resumes:
  "(\<forall>d. shape d = shape sqlite_schema \<longrightarrow> run_steps sqlite_steps d = (Inr (), d)) \<and>
   (\<forall>d. shape d = shape pg_schema \<longrightarrow> run_steps pg_steps d = (Inr (), d)) \<and>
   (\<forall>k. run_steps sqlite_steps (snd (run_steps (take k sqlite_steps) empty_database)) = (Inr (), sqlite_schema)) \<and>
   (\<forall>k. run_steps pg_steps (snd (run_steps (take k pg_steps) empty_database)) = (Inr (), pg_schema))"
proof (intro conjI allI impI)
  show "run_steps sqlite_steps d = (Inr (), d)" if "shape d = shape sqlite_schema" for d by (rule idle_steps) (simp add: that schema_idle)
  show "run_steps pg_steps d = (Inr (), d)" if "shape d = shape pg_schema" for d by (rule idle_steps) (simp add: that schema_idle)
  show "run_steps sqlite_steps (snd (run_steps (take k sqlite_steps) empty_database)) = (Inr (), sqlite_schema)" for k
    using resumes [OF fresh_settles(1)] by (simp add: sqlite_schema_def)
  show "run_steps pg_steps (snd (run_steps (take k pg_steps) empty_database)) = (Inr (), pg_schema)" for k
    using resumes [OF fresh_settles(2)] by (simp add: pg_schema_def)
qed

theorem migration_resumes_witness: "run_steps sqlite_steps sqlite_schema = (Inr (), sqlite_schema)"
  using migration_resumes by blast

section \<open>The keys of the tables\<close>

text \<open>The keys a table declares: each with the column its index's condition names.\<close>

definition keys_of :: "string \<Rightarrow> database \<Rightarrow> (string option \<times> string list) list" where
  "keys_of t d =
     (case map_of (db_tables d) t of None \<Rightarrow> [] | Some (td, _) \<Rightarrow> map (Pair None) (td_primary td # td_unique td)) @
     map (\<lambda>(_, ix). (ix_where ix, ix_columns ix)) (filter (\<lambda>(_, ix). ix_table ix = t \<and> ix_unique ix) (db_indexes d))"

definition keys_clash :: "(string option \<times> string list) list \<Rightarrow> (string \<Rightarrow> sql_value) \<Rightarrow> (string \<Rightarrow> sql_value) \<Rightarrow> bool" where
  "keys_clash keys r r' \<longleftrightarrow>
     list_ex (\<lambda>(cond, cs). (case cond of None \<Rightarrow> True | Some c \<Rightarrow> r c \<noteq> Null \<and> r' c \<noteq> Null) \<and>
       list_all (\<lambda>c. r c \<noteq> Null \<and> r' c = r c) cs) keys"

text \<open>The columns that go with a row of \<open>t\<close> when it is deleted.\<close>

definition children_of :: "string \<Rightarrow> database \<Rightarrow> (string \<times> string) list" where
  "children_of t d =
     concat (map (\<lambda>(n, td, _). map (\<lambda>c. (n, cn_name c)) (filter (\<lambda>c. map_option fst (cn_parent c) = Some t) (td_columns td))) (db_tables d))"

definition opt_txt :: "string option \<Rightarrow> sql_value" where
  "opt_txt x = (case x of None \<Rightarrow> Null | Some s \<Rightarrow> Txt s)"

definition flag :: "bool \<Rightarrow> sql_value" where
  "flag b = Num (if b then 1 else 0)"

definition user_values :: "user_row \<Rightarrow> string \<Rightarrow> sql_value" where
  "user_values r = sql_get [(''id'', Txt (u_id r)), (''username'', Txt (u_username r)), (''password_hash'', Txt (u_password_hash r)),
     (''role'', Txt (u_role r)), (''created_at'', Num (u_created_at r)), (''updated_at'', Num (u_updated_at r)),
     (''oidc_sub'', opt_txt (u_oidc_sub r)), (''oidc_issuer'', opt_txt (u_oidc_issuer r)), (''active'', flag (u_active r))]"

definition device_values :: "device_row \<Rightarrow> string \<Rightarrow> sql_value" where
  "device_values r = sql_get [(''id'', Txt (d_id r)), (''user_id'', Txt (d_user_id r)), (''name'', Txt (d_name r)),
     (''created_at'', Num (d_created_at r)), (''last_seen_at'', Num (d_last_seen_at r)), (''device_key'', opt_txt (d_device_key r))]"

definition cursor_values :: "cursor_row \<Rightarrow> string \<Rightarrow> sql_value" where
  "cursor_values r = sql_get [(''device_id'', Txt (c_device_id r)), (''provider'', Txt (c_provider r)), (''last_ts'', Num (c_last_ts r)),
     (''updated_at'', Num (c_updated_at r))]"

definition token_values :: "token_row \<Rightarrow> string \<Rightarrow> sql_value" where
  "token_values r = sql_get [(''jti'', Txt (t_jti r)), (''user_id'', Txt (t_user_id r)), (''device_id'', opt_txt (t_device_id r)),
     (''expires_at'', Num (t_expires_at r)), (''revoked'', flag (t_revoked r)), (''created_at'', Num (t_created_at r))]"

definition team_values :: "team_row \<Rightarrow> string \<Rightarrow> sql_value" where
  "team_values r = sql_get [(''id'', Txt (g_id r)), (''name'', Txt (g_name r)), (''created_at'', Num (g_created_at r)),
     (''updated_at'', Num (g_updated_at r))]"

definition member_values :: "member_row \<Rightarrow> string \<Rightarrow> sql_value" where
  "member_values r = sql_get [(''team_id'', Txt (m_team_id r)), (''user_id'', Txt (m_user_id r)), (''role'', Txt (m_role r)),
     (''joined_at'', Num (m_joined_at r))]"

definition code_values :: "code_row \<Rightarrow> string \<Rightarrow> sql_value" where
  "code_values r = sql_get [(''device_code'', Txt (k_device_code r)), (''user_code'', Txt (k_user_code r)), (''expires_at'', Num (k_expires_at r)),
     (''approved_by'', opt_txt (k_approved_by r)), (''access_token'', opt_txt (k_access_token r)), (''refresh_token'', opt_txt (k_refresh_token r))]"

definition pending_values :: "pending_row \<Rightarrow> string \<Rightarrow> sql_value" where
  "pending_values r = sql_get [(''id'', Txt (p_id r)), (''username'', Txt (p_username r)), (''password_hash'', Txt (p_password_hash r)),
     (''requested_at'', Num (p_requested_at r))]"

definition setting_values :: "setting_row \<Rightarrow> string \<Rightarrow> sql_value" where
  "setting_values r = sql_get [(''key'', Txt (s_key r)), (''value'', Txt (s_value r)), (''updated_at'', Num (s_updated_at r))]"

definition monitor_values :: "monitor_row \<Rightarrow> string \<Rightarrow> sql_value" where
  "monitor_values r = sql_get [(''user_id'', Txt (w_user_id r)), (''key'', Txt (w_key r)), (''value'', Txt (w_value r)),
     (''size_bytes'', Num (w_size_bytes r)), (''version'', Num (w_version r)), (''updated_at'', Num (w_updated_at r))]"

lemma opt_txt [simp]: "opt_txt x = Null \<longleftrightarrow> x = None" "opt_txt x = opt_txt y \<longleftrightarrow> x = y"
  by (simp_all add: opt_txt_def split: option.splits)

lemma sqlite_schema_tables: "sqlite_schema = \<lparr>
    db_tables = [
      (''users'', (users_table Integer)\<lparr>td_columns := td_columns (users_table Integer) @
         [col ''oidc_sub'' Text, col ''oidc_issuer'' Text, defaults_to ''1'' (required (col ''active'' Integer))]\<rparr>, []),
      (''devices'', sqlite_devices_table\<lparr>td_columns := td_columns sqlite_devices_table @ [col ''device_key'' Text]\<rparr>, []),
      (''cursors'', cursors_table Integer, []), (''refresh_tokens'', refresh_tokens_table Integer Integer, []),
      (''teams'', teams_table Integer, []), (''team_members'', team_members_table Integer, []),
      (''device_codes'', device_codes_table Integer, []), (''pending_registrations'', pending_registrations_table Integer, []),
      (''server_settings'', server_settings_table Integer, []), (''monitor_settings'', monitor_settings_table Integer, [])],
    db_indexes = [(''idx_devices_user_id'', devices_by_user), (''idx_refresh_tokens_user'', tokens_by_user),
      (''idx_devices_device_key'', device_keys), (''idx_team_members_user'', members_by_user), (''idx_users_oidc'', oidc_accounts)]\<rparr>"
  by code_simp

lemmas table_defs = users_table_def sqlite_devices_table_def cursors_table_def refresh_tokens_table_def teams_table_def
  team_members_table_def device_codes_table_def pending_registrations_table_def server_settings_table_def monitor_settings_table_def
lemmas index_defs = devices_by_user_def tokens_by_user_def device_keys_def members_by_user_def oidc_accounts_def
lemmas column_defs = col_def required_def defaults_to_def child_of_def

lemma declared_keys:
  "keys_of ''users'' sqlite_schema = [(None, [''id'']), (None, [''username'']), (Some ''oidc_sub'', [''oidc_issuer'', ''oidc_sub''])]"
  "keys_of ''devices'' sqlite_schema = [(None, [''id'']), (Some ''device_key'', [''device_key''])]"
  "keys_of ''cursors'' sqlite_schema = [(None, [''device_id'', ''provider''])]"
  "keys_of ''refresh_tokens'' sqlite_schema = [(None, [''jti''])]"
  "keys_of ''teams'' sqlite_schema = [(None, [''id'']), (None, [''name''])]"
  "keys_of ''team_members'' sqlite_schema = [(None, [''team_id'', ''user_id''])]"
  "keys_of ''device_codes'' sqlite_schema = [(None, [''device_code'']), (None, [''user_code''])]"
  "keys_of ''pending_registrations'' sqlite_schema = [(None, [''id'']), (None, [''username''])]"
  "keys_of ''server_settings'' sqlite_schema = [(None, [''key''])]"
  "keys_of ''monitor_settings'' sqlite_schema = [(None, [''user_id'', ''key''])]"
  by (simp_all add: keys_of_def sqlite_schema_tables table_defs index_defs)

lemma declared_children:
  "children_of ''users'' sqlite_schema =
     [(''devices'', ''user_id''), (''refresh_tokens'', ''user_id''), (''team_members'', ''user_id''), (''monitor_settings'', ''user_id'')]"
  "children_of ''devices'' sqlite_schema = [(''cursors'', ''device_id'')]" "children_of ''teams'' sqlite_schema = [(''team_members'', ''team_id'')]"
  by (simp_all add: children_of_def sqlite_schema_tables table_defs column_defs)


section \<open>Older cursors\<close>

lemma insert_all:
  assumes "\<forall>r\<in>set ors. list_all (\<lambda>c. cn_not_null c \<longrightarrow> sql_get r (cn_name c) \<noteq> Null) (td_columns td)"
    and "distinct (map (\<lambda>r. map (sql_get r) (td_primary td)) (rs @ ors))"
  shows "fold (insert_or_ignore td) ors rs = rs @ ors"
  using assms
proof (induction ors arbitrary: rs)
  case (Cons r ors)
  have "\<not> list_all (\<lambda>k. sql_get r' k = sql_get r k) (td_primary td)" if "r' \<in> set rs" for r'
  proof
    assume "list_all (\<lambda>k. sql_get r' k = sql_get r k) (td_primary td)"
    then have "map (sql_get r') (td_primary td) = map (sql_get r) (td_primary td)" by (simp add: list_all_iff)
    with that Cons.prems(2) show False by (metis (no_types, lifting) distinct_map distinct_append map_append list.simps(9)
          imageI list.set_map list.set_intros(1) disjoint_iff)
  qed
  then have "insert_or_ignore td r rs = rs @ [r]"
    using Cons.prems(1) by (auto simp: insert_or_ignore_def list_ex_iff list_all_iff)
  with Cons.IH [of "rs @ [r]"] Cons.prems show ?case by simp
qed simp

definition old_cursor_ok :: "bool \<Rightarrow> sql_value list \<Rightarrow> sql_row \<Rightarrow> bool" where
  "old_cursor_ok has_provider ids r \<longleftrightarrow> sql_get r ''device_id'' \<in> set ids \<and> sql_get r ''device_id'' \<noteq> Null \<and> sql_get r ''last_ts'' \<noteq> Null \<and>
     sql_get r ''updated_at'' \<noteq> Null \<and> (has_provider \<longrightarrow> sql_get r ''provider'' \<noteq> Null)"

lemma rename_lookup:
  assumes "map_of ts m = None"
  shows "map_of (map (\<lambda>(k, t). (if k = n then m else k, t)) ts) x = (if x = m then map_of ts n else if x = n then None else map_of ts x)"
  using assms
proof (induction ts)
  case (Cons p ts)
  obtain k t where p: "p = (k, t)" by fastforce
  have "m \<noteq> k" "map_of ts m = None" using Cons.prems by (simp_all add: p split: if_splits)
  then show ?case using Cons.IH by (cases "x = n"; cases "x = m"; cases "k = n") (auto simp: p)
qed simp

lemma drop_lookup: "map_of (filter (\<lambda>(k, _). k \<noteq> m) ts) n = (if n = m then None else map_of ts n)"
  by (induction ts) auto

lemma copy_all:
  assumes "map_of (db_tables e) ''cursors'' = Some (cursors_table Integer, [])" "map_of (db_tables e) ''cursors_old'' = Some (old, ors)"
    "map_of (db_tables e) ''devices'' = Some (dt, ds)"
    "has_column ''device_id'' old" "has_column ''last_ts'' old" "has_column ''updated_at'' old" "hp \<Longrightarrow> has_column ''provider'' old"
    "\<forall>r\<in>set ors. old_cursor_ok hp (map (\<lambda>x. sql_get x ''id'') ds) r" "distinct (map (\<lambda>r. sql_get r ''device_id'') ors)"
  shows "copy_cursors hp e = Some (replace_table ''cursors'' (cursors_table Integer, map (cursor_copy hp) ors) e)"
proof -
  let ?td = "cursors_table Integer" and ?new = "map (cursor_copy hp) ors"
  have "fold (insert_or_ignore ?td) ?new [] = [] @ ?new"
  proof (rule insert_all)
    show "\<forall>r\<in>set ?new. list_all (\<lambda>c. cn_not_null c \<longrightarrow> sql_get r (cn_name c) \<noteq> Null) (td_columns ?td)"
      using assms(8) by (auto simp: cursors_table_def column_defs cursor_copy_def sql_get_def [of "_ # _"] old_cursor_ok_def)
    show "distinct (map (\<lambda>r. map (sql_get r) (td_primary ?td)) ([] @ ?new))"
      using assms(9) by (auto simp: cursors_table_def cursor_copy_def sql_get_def [of "_ # _"] distinct_map inj_on_def)
  qed
  then have filled: "fold (insert_or_ignore ?td) ?new [] = ?new" by simp
  have parents: "list_all (\<lambda>r. sql_get r ''device_id'' \<in> set (map (\<lambda>r. sql_get r ''id'') ds)) ?new"
    using assms(8) by (auto simp: list_all_iff cursor_copy_def sql_get_def [of "_ # _"] old_cursor_ok_def)
  have columns: "list_all (\<lambda>c. has_column c old) ([''device_id'', ''last_ts'', ''updated_at''] @ (if hp then [''provider''] else []))"
    using assms(4-7) by simp
  show ?thesis
    unfolding copy_cursors_def assms(1-3) prod.case option.case Let_def filled using parents columns by (simp only: simp_thms if_True)
qed

text \<open>C22: The upgrade of the cursors keeps every position: a table of an earlier build, with one row
  per device and with or without a provider column, is replaced by one with a row per device and
  provider that has each device's row, under its provider or the empty one; the other tables are
  as they were and no older table is left.\<close>

theorem cursor_upgrade_keeps_positions:
  assumes "map_of (db_tables d) ''cursors'' = Some (old, ors)" "map_of (db_tables d) ''cursors_old'' = None"
    "map_of (db_tables d) ''devices'' = Some (dt, ds)"
    "\<not> (has_column ''provider'' old \<and> ''provider'' \<in> set (td_primary old))"
    "has_column ''device_id'' old" "has_column ''last_ts'' old" "has_column ''updated_at'' old"
    "\<forall>r\<in>set ors. old_cursor_ok (has_column ''provider'' old) (map (\<lambda>x. sql_get x ''id'') ds) r"
    "distinct (map (\<lambda>r. sql_get r ''device_id'') ors)"
  shows "\<exists>d' rs. upgrade_cursors d = (Inr (), d') \<and> map_of (db_tables d') ''cursors'' = Some (cursors_table Integer, rs) \<and>
    map (\<lambda>r. map (sql_get r) [''device_id'', ''provider'', ''last_ts'', ''updated_at'']) rs =
      map (\<lambda>r. [sql_get r ''device_id'', if has_column ''provider'' old then sql_get r ''provider'' else Txt [], sql_get r ''last_ts'',
        sql_get r ''updated_at'']) ors \<and>
    map_of (db_tables d') ''cursors_old'' = None \<and>
    (\<forall>n. n \<noteq> ''cursors'' \<longrightarrow> map_of (db_tables d') n = map_of (db_tables d) n) \<and> db_indexes d' = db_indexes d"
proof -
  let ?hp = "has_column ''provider'' old" and ?td = "cursors_table Integer"
  define d1 where "d1 = d\<lparr>db_tables := map (\<lambda>(k, t). (if k = ''cursors'' then ''cursors_old'' else k, t)) (db_tables d)\<rparr>"
  define d2 where "d2 = d1\<lparr>db_tables := db_tables d1 @ [(''cursors'', ?td, [])]\<rparr>"
  define d3 where "d3 = replace_table ''cursors'' (?td, map (cursor_copy ?hp) ors) d2"
  define d4 where "d4 = d3\<lparr>db_tables := filter (\<lambda>(k, _). k \<noteq> ''cursors_old'') (db_tables d3)\<rparr>"
  have at1: "map_of (db_tables d1) n =
      (if n = ''cursors_old'' then Some (old, ors) else if n = ''cursors'' then None else map_of (db_tables d) n)" for n
    using assms(1) by (simp add: d1_def rename_lookup [OF assms(2)])
  have at2: "map_of (db_tables d2) n = (if n = ''cursors'' then Some (?td, []) else map_of (db_tables d1) n)" for n
    using at1 [of "''cursors''"] by (auto simp: d2_def map_add_def split: option.splits)
  have copied: "copy_cursors ?hp d2 = Some d3"
    unfolding d3_def by (rule copy_all [OF _ _ _ assms(5-7) _ assms(8,9)]) (use assms(3) in \<open>simp_all add: at2 at1\<close>)
  have "run_ddl (Rename_Table ''cursors'' ''cursors_old'') d = Some d1" using assms(1,2) by (simp add: d1_def)
  moreover have "run_ddl (Create_Table ''cursors'' ?td) d1 = Some d2" using at1 [of "''cursors''"] by (simp add: d2_def)
  moreover have "run_ddl (Drop_Table ''cursors_old'') d3 = Some d4" by (simp add: d4_def)
  ultimately have "upgrade_cursors d = (Inr (), d4)"
    using assms(1,4) copied by (auto simp: upgrade_cursors_def cursors_have_def attempt_def simp del: run_ddl.simps)
  moreover have "map_of (db_tables d4) n = (if n = ''cursors'' then Some (?td, map (cursor_copy ?hp) ors)
      else if n = ''cursors_old'' then None else map_of (db_tables d) n)" for n
    by (simp add: d4_def d3_def drop_lookup replace_lookup at2 at1)
  moreover have "db_indexes d4 = db_indexes d" by (simp add: d4_def d3_def d2_def d1_def)
  moreover have "map (\<lambda>r. map (sql_get r) [''device_id'', ''provider'', ''last_ts'', ''updated_at'']) (map (cursor_copy ?hp) ors) =
      map (\<lambda>r. [sql_get r ''device_id'', if ?hp then sql_get r ''provider'' else Txt [], sql_get r ''last_ts'', sql_get r ''updated_at'']) ors"
    by (simp add: cursor_copy_def sql_get_def [of "_ # _"])
  ultimately show ?thesis using assms(2) by (intro exI [of _ d4] exI [of _ "map (cursor_copy ?hp) ors"]) simp
qed

text \<open>A database of a build before providers, with two cursors.\<close>

definition old_cursors_table :: table_def where
  "old_cursors_table = \<lparr>td_columns = [child_of ''devices'' ''id'' (col ''device_id'' Text), required (col ''last_ts'' Integer),
     required (col ''updated_at'' Integer)], td_primary = [''device_id''], td_unique = []\<rparr>"

definition old_positions :: "sql_row list" where
  "old_positions = [[(''device_id'', Txt ''d''), (''last_ts'', Num 7), (''updated_at'', Num 1)],
     [(''device_id'', Txt ''e''), (''last_ts'', Num 9), (''updated_at'', Num 2)]]"

definition old_database :: database where
  "old_database = \<lparr>db_tables =
     [(''users'', users_table Integer, [[(''id'', Txt ''u''), (''username'', Txt ''ann'')]]),
      (''devices'', sqlite_devices_table, [[(''id'', Txt ''d''), (''user_id'', Txt ''u'')], [(''id'', Txt ''e''), (''user_id'', Txt ''u'')]]),
      (''cursors'', old_cursors_table, old_positions)], db_indexes = []\<rparr>"

theorem cursor_upgrade_keeps_positions_witness:
  "\<exists>d' rs. upgrade_cursors old_database = (Inr (), d') \<and> map_of (db_tables d') ''cursors'' = Some (cursors_table Integer, rs) \<and>
    map (\<lambda>r. (sql_get r ''device_id'', sql_get r ''provider'', sql_get r ''last_ts'')) rs =
      [(Txt ''d'', Txt [], Num 7), (Txt ''e'', Txt [], Num 9)]"
proof -
  have hp: "has_column ''provider'' old_cursors_table = False" "has_column ''device_id'' old_cursors_table"
    "has_column ''last_ts'' old_cursors_table" "has_column ''updated_at'' old_cursors_table"
    by (simp_all add: has_column_def old_cursors_table_def column_defs)
  have at: "map_of (db_tables old_database) ''cursors'' = Some (old_cursors_table, old_positions)" "map_of (db_tables old_database) ''cursors_old'' = None"
    "map_of (db_tables old_database) ''devices'' =
      Some (sqlite_devices_table, [[(''id'', Txt ''d''), (''user_id'', Txt ''u'')], [(''id'', Txt ''e''), (''user_id'', Txt ''u'')]])"
    by (simp_all add: old_database_def)
  have "\<exists>d' rs. upgrade_cursors old_database = (Inr (), d') \<and> map_of (db_tables d') ''cursors'' = Some (cursors_table Integer, rs) \<and>
      map (\<lambda>r. map (sql_get r) [''device_id'', ''provider'', ''last_ts'', ''updated_at'']) rs =
        [[Txt ''d'', Txt [], Num 7, Num 1], [Txt ''e'', Txt [], Num 9, Num 2]]"
    using cursor_upgrade_keeps_positions [OF at] hp by (auto simp: old_positions_def old_cursor_ok_def sql_get_def)
  then show ?thesis by (auto simp: map_eq_Cons_conv)
qed

text \<open>A crash between renaming the older table and filling the new one leaves the positions behind: the next start finds a new cursors table and never
  looks at the older one.\<close>

lemma interrupted_upgrade_strands_cursors:
  "case run_ddl (Rename_Table ''cursors'' ''cursors_old'') (snd (run_steps (take 6 sqlite_steps) old_database)) of
     None \<Rightarrow> False
   | Some d1 \<Rightarrow>
       (case run_steps sqlite_steps d1 of (r, d2) \<Rightarrow>
          r = Inr () \<and> map_option (\<lambda>t. length (snd t)) (map_of (db_tables d2) ''cursors'') = Some 0 \<and>
          map_option (\<lambda>t. length (snd t)) (map_of (db_tables d2) ''cursors_old'') = Some 2)"
  by code_simp

end
