(* ===== verification/Spec2Isabelle.thy ===== *)
theory Spec2Isabelle
  imports Limits Windows Frames Guarantees Window_Store Access_Safety Sync_Safety Query_Language Metrics_Safety Admin_Safety Pg_Transactions Pg_Approval
    Clickhouse_Windows Ch_Startup Fjall_Open Startup_Safety Listener Schema
begin

text \<open>
  \<^bold>\<open>toki-sync\<close>: a server that collects token usage of a user's devices and answers queries about it.
  Devices send batches of events and rate-limit windows over a framed TCP protocol
  (\<open>src/src/sync\<close>); an HTTP API (\<open>src/src/server\<close>) serves login, administration, settings and queries.
  Both share a relational repository (\<open>src/src/db\<close>), an event store (\<open>src/src/events\<close>) and a cache of
  who is active.

  \<^bold>\<open>Theories, from the ground up.\<close>
  \<^item> \<open>Prelude\<close>, \<open>Plain\<close>: machine integers, hash maps, errors as sums, texts, and a plain encoding from
    which the parameters of the model are instantiated in the witnesses.
  \<^item> \<open>Wire\<close>, \<open>Windows\<close>: the rows, \<open>merge_wire_windows\<close> (\<open>events/mod.rs\<close>) and the validation of a windows
    batch (\<open>sync/handler.rs\<close>).
  \<^item> \<open>Frames\<close>: the framing of \<open>sync/protocol.rs\<close>. \<open>Limits\<close>: the three rate limiters, each an instance of
    one locale.
  \<^item> \<open>Tables\<close>, \<open>Sqlite\<close>: the repository of \<open>db/sqlite.rs\<close>, a record of tables and one definition per
    operation. \<open>Repository\<close>: every operation as \<open>db_exec\<close>, the reachable databases and the schema
    invariant. \<open>Guarantees\<close>: what the operations promise over any run.
  \<^item> \<open>Kv\<close>, \<open>Fjall\<close>: the embedded event store over a key-value store with laws. \<open>Event_Log\<close> is its
    abstract specification, \<open>Event_Refinement\<close>, \<open>Event_Store\<close>, \<open>Window_Store\<close> the refinement, and
    \<open>Event_Api\<close> the trait as a record with the contract other parts rely on.
  \<^item> \<open>Access\<close>, \<open>Access_Safety\<close>: tokens, the active cache, \<open>authenticate\<close> and \<open>require_admin\<close>.
  \<^item> \<open>Sync\<close>, \<open>Sync_Safety\<close>: the connection of a device, from bytes to acknowledged batches.
  \<^item> \<open>Query\<close>, \<open>Query_Language\<close>: the parser of the query language and the grammar it inverts.
  \<^item> \<open>Http\<close>: the steps handlers are made of; \<open>Monitor\<close>, \<open>Admin\<close>, \<open>Auth_Api\<close>, \<open>Oidc\<close>, \<open>Pricing\<close>, \<open>Metrics\<close>:
    the handlers; \<open>Routes\<close>: the API as one function over calls, and the database operations each
    call may perform. \<open>Api_Safety\<close>, \<open>Auth_Safety\<close>, \<open>Metrics_Safety\<close>, \<open>Admin_Safety\<close>: what the API
    guarantees (no escalation, isolation of users, exact logins and device grants, exact aggregation,
    complete deactivation and deletion), at the concrete state of \<open>Api_Demo\<close>.
  \<^item> \<open>Postgres\<close>: the repository of \<open>db/postgres.rs\<close>, against a server whose row order and collation are
    parameters; \<open>Pg_Refinement\<close>: run alone it does what SQLite's does; \<open>Pg_Transactions\<close>,
    \<open>Pg_Approval\<close>: its transactions statement by statement, interleaved with others'.
  \<^item> \<open>Schema\<close>: the statements of both migrations, what they do to tables, rows and indexes, that the keys
    the repositories are modelled with are the declared ones, and the upgrade of an older cursors table.
  \<^item> \<open>Decimal\<close>: how Rust prints and parses integers. \<open>Clickhouse\<close>: the store of \<open>events/clickhouse.rs\<close>, the
    text of its statements and what it reads from answers; \<open>Clickhouse_Safety\<close>: no text breaks out of a
    statement; \<open>Clickhouse_Windows\<close>: answers are read back, uploads are merged; \<open>Ch_Startup\<close>: opening the
    store, with the rebuild of an older windows table and the recovery from a crash in it.
  \<^item> \<open>Fjall_Open\<close>: opening the embedded store, with the backfill of the index by user.
  \<^item> \<open>Config\<close>: \<open>config.rs\<close>; \<open>Startup\<close>: \<open>main\<close> up to the state the handlers run on, and the periodic tasks;
    \<open>Startup_Safety\<close>: the administrator and the accounts over a start.
  \<^item> \<open>Listener\<close>: \<open>server/tcp.rs\<close>, a step relation over permits, handler tasks, shutdown and drain, and what
    holds however the connections interleave.

  \<^bold>\<open>Conventions.\<close> A stateful operation returns its result and the new state; errors are \<open>Inl\<close>. Strings
  are their UTF-8 bytes. Crates (\<open>bincode\<close>, \<open>zstd\<close>, \<open>fjall\<close>, \<open>jsonwebtoken\<close>, \<open>bcrypt\<close>, \<open>chrono\<close>, \<open>reqwest\<close>,
  \<open>serde_json\<close>, \<open>toml\<close>) and the ClickHouse server are parameters with named laws where a property relies on
  them. One request, one frame and one statement are atomic; interleavings are modelled between the
  messages of connections (\<open>Listener\<close>), between the statements of transactions (\<open>Pg_Transactions\<close>,
  \<open>Pg_Approval\<close>) and
  between the steps of the active cache (\<open>Access\<close>). A crash is a store or a server that takes no more
  commits or statements (\<open>budgeted\<close>, \<open>limited\<close>). A loop of which it is not plain that it ends is a
  \<open>function\<close> with a measure, or returns an option. The bounds are the code's own (500 connections,
  50,000 buckets, 50,000 items of a batch, 64 MiB after decompression); there is no fuel.

  \<^bold>\<open>Not modelled.\<close> Logging and \<open>init_tracing\<close>, signals, the binding of sockets and connection pools
  (\<open>main.rs\<close>, the \<open>open\<close> functions of both repositories); the static pages of
  \<open>handlers/dashboard.rs\<close>; axum's decoding of requests and its body limit; the semaphore that delays a
  write under load; the per-user lock of the ClickHouse store (an upload runs alone); failures of the disk
  or of the connection to the relational database. These are calls of libraries without logic of the
  program, or faults of which the code makes an error answer and nothing else.
\<close>

end
